(* ===== verification/Mx_Prelude.thy ===== *)
theory Mx_Prelude
  imports Main "HOL-Library.Word" "HOL-Library.Multiset"
begin

unbundle bit_operations_syntax

text \<open>
  Shared vocabulary of the development: the C integer types, the sizes of the fixed
  arrays of \<^verbatim>\<open>mattx.h\<close>, the bounded array scan that every registry loop of the
  module performs, little-endian byte coding, and two interface locales.

  \<^item> \<open>scan P n\<close> is the loop \<^verbatim>\<open>for (i = 0; i < n; i++) if (P(i)) break;\<close>.
  \<^item> \<open>'e registry\<close> is a C array together with its live count; \<open>entries\<close> is the list
    it stands for, and the locale \<open>swap_registry\<close> states what the two registries of the
    module (guests and exports) promise.
  \<^item> the locale \<open>slot_table\<close> states the contract of the first-fit tables (pending RPC
    slots, open files of MattXFS clients).

  A C \<^verbatim>\<open>int\<close>, \<^verbatim>\<open>u32\<close> or \<^verbatim>\<open>pid_t\<close> is kept as its 32-bit pattern, so that the
  mixed signed/unsigned equality tests of the source are equality of words and the
  sentinel \<^verbatim>\<open>-1\<close> is the word \<open>-1\<close>; signed order is \<open>sint\<close>.
\<close>

named_theorems mx_defs "definitions of the model, unfolded on demand"
named_theorems mx_scan "rules that resolve a bounded scan"

section \<open>Integer types and sizes\<close>

type_synonym u8 = "8 word"
type_synonym u32 = "32 word"
type_synonym u64 = "64 word"
type_synonym byte = u8
type_synonym pid = u32
type_synonym page = "byte list"

abbreviation (input) MAX_NODES :: nat where "MAX_NODES \<equiv> 1024"
abbreviation (input) MAX_GUESTS :: nat where "MAX_GUESTS \<equiv> 1024"
abbreviation (input) MAX_VMAS :: nat where "MAX_VMAS \<equiv> 1024"
abbreviation (input) MAX_GANG_THREADS :: nat where "MAX_GANG_THREADS \<equiv> 16"
abbreviation (input) MAX_FDS :: nat where "MAX_FDS \<equiv> 256"
abbreviation (input) MAX_DSM_PAGES :: nat where "MAX_DSM_PAGES \<equiv> 256"
abbreviation (input) MAX_DSM_SEGMENTS :: nat where "MAX_DSM_SEGMENTS \<equiv> 16"
abbreviation (input) PAGE_SIZE :: nat where "PAGE_SIZE \<equiv> 4096"

text \<open>Error numbers the module returns, as the negative values the C code uses.\<close>

abbreviation (input) ENOENT :: int where "ENOENT \<equiv> 2"
abbreviation (input) ESRCH :: int where "ESRCH \<equiv> 3"
abbreviation (input) EIO :: int where "EIO \<equiv> 5"
abbreviation (input) EBADF :: int where "EBADF \<equiv> 9"
abbreviation (input) ENOMEM :: int where "ENOMEM \<equiv> 12"
abbreviation (input) EFAULT :: int where "EFAULT \<equiv> 14"
abbreviation (input) EBUSY :: int where "EBUSY \<equiv> 16"
abbreviation (input) EINVAL :: int where "EINVAL \<equiv> 22"
abbreviation (input) ENFILE :: int where "ENFILE \<equiv> 23"
abbreviation (input) EMSGSIZE :: int where "EMSGSIZE \<equiv> 90"
abbreviation (input) ENOTCONN :: int where "ENOTCONN \<equiv> 107"
abbreviation (input) ETIMEDOUT :: int where "ETIMEDOUT \<equiv> 110"
abbreviation (input) ECONNREFUSED :: int where "ECONNREFUSED \<equiv> 111"

datatype signal = SIGKILL | SIGCONT | SIGSTOP

lemma uint_less_unat: "unat (w::u32) < n \<Longrightarrow> uint w < int n"
  by (metis of_nat_less_iff uint_nat)

lemma sint_small: "unat (w::u32) < 2 ^ 31 \<Longrightarrow> sint w = uint w"
  using uint_less_unat [of w "2 ^ 31"]
  by (auto simp: sint_uint signed_take_bit_int_eq_self_iff intro: order_trans [of _ 0])

section \<open>The bounded scan\<close>

function scan_from :: "(nat \<Rightarrow> bool) \<Rightarrow> nat \<Rightarrow> nat \<Rightarrow> nat option" where
  "scan_from P i n = (if i < n then if P i then Some i else scan_from P (Suc i) n else None)"
  by pat_completeness auto
termination
  by (relation "measure (\<lambda>(P, i, n). n - i)") auto

declare scan_from.simps [simp del]

definition scan :: "(nat \<Rightarrow> bool) \<Rightarrow> nat \<Rightarrow> nat option" where
  "scan P n = scan_from P 0 n"

lemma scan_from_Some:
  "scan_from P i n = Some k \<longleftrightarrow> i \<le> k \<and> k < n \<and> P k \<and> (\<forall>j. i \<le> j \<and> j < k \<longrightarrow> \<not> P j)"
proof (induction P i n rule: scan_from.induct)
  case (1 P i n)
  show ?case
  proof (cases "i < n \<and> \<not> P i")
    case True
    with 1 show ?thesis
      by (auto simp: scan_from.simps [of P i n] Suc_le_eq) (metis le_neq_implies_less)+
  next
    case False
    then show ?thesis
      by (auto simp: scan_from.simps [of P i n] le_less)
  qed
qed

lemma scan_from_None: "scan_from P i n = None \<longleftrightarrow> (\<forall>j. i \<le> j \<and> j < n \<longrightarrow> \<not> P j)"
proof (induction P i n rule: scan_from.induct)
  case (1 P i n)
  show ?case
  proof (cases "i < n \<and> \<not> P i")
    case True
    with 1 show ?thesis
      by (auto simp: scan_from.simps [of P i n] Suc_le_eq) (metis le_neq_implies_less)
  next
    case False
    then show ?thesis
      by (auto simp: scan_from.simps [of P i n])
  qed
qed

lemma scan_Some: "scan P n = Some k \<longleftrightarrow> k < n \<and> P k \<and> (\<forall>j<k. \<not> P j)"
  by (simp add: scan_def scan_from_Some)

lemma scan_None: "scan P n = None \<longleftrightarrow> (\<forall>j<n. \<not> P j)"
  by (simp add: scan_def scan_from_None)

lemma scan_SomeD:
  assumes "scan P n = Some k"
  shows "k < n" "P k" "\<And>j. j < k \<Longrightarrow> \<not> P j"
  using assms by (auto simp: scan_Some)

lemma scan_exists: "k < n \<Longrightarrow> P k \<Longrightarrow> \<exists>i. scan P n = Some i"
  by (metis option.exhaust scan_None)

text \<open>The scan finds the only match when there is exactly one.\<close>

lemma scan_unique [mx_scan]:
  assumes "k < n" "P k" "\<And>j. j < n \<Longrightarrow> P j \<Longrightarrow> j = k"
  shows "scan P n = Some k"
proof -
  obtain i where i: "scan P n = Some i"
    using scan_exists assms(1,2) by blast
  then have "i = k"
    using assms(3) scan_SomeD by blast
  with i show ?thesis by simp
qed

lemma scan_cong: "(\<And>i. i < n \<Longrightarrow> P i = Q i) \<Longrightarrow> scan P n = scan Q n"
proof (cases "scan P n")
  case None
  moreover assume "\<And>i. i < n \<Longrightarrow> P i = Q i"
  ultimately have "scan Q n = None" by (simp add: scan_None)
  with None show ?thesis by simp
next
  case (Some k)
  moreover assume "\<And>i. i < n \<Longrightarrow> P i = Q i"
  ultimately have "scan Q n = Some k" by (auto simp: scan_Some)
  with Some show ?thesis by simp
qed

lemma scan_eq_find: "scan P n = find P [0..<n]"
proof (cases "scan P n")
  case None
  moreover from None have "find P [0..<n] = None" by (auto simp: scan_None find_None_iff)
  ultimately show ?thesis by simp
next
  case (Some k)
  then have "find P [0..<n] = Some k"
    by (auto simp: scan_Some find_Some_iff intro!: exI [of _ k])
  with Some show ?thesis by simp
qed

section \<open>Registries: an array and its live count\<close>

record 'e registry =
  slots :: "nat \<Rightarrow> 'e"
  cnt :: nat

definition entries :: "'e registry \<Rightarrow> 'e list" where
  "entries r = map (slots r) [0..<cnt r]"

definition reg_ok :: "'e registry \<Rightarrow> bool" where
  "reg_ok r \<longleftrightarrow> cnt r \<le> MAX_GUESTS"

definition upd_slot :: "nat \<Rightarrow> ('e \<Rightarrow> 'e) \<Rightarrow> 'e registry \<Rightarrow> 'e registry" where
  "upd_slot i f r = r\<lparr>slots := (slots r)(i := f (slots r i))\<rparr>"

text \<open>Move the last live entry into slot \<open>i\<close> and shrink the count.\<close>

definition swap_out :: "nat \<Rightarrow> 'e registry \<Rightarrow> 'e registry" where
  "swap_out i r = r\<lparr>slots := (slots r)(i := slots r (cnt r - 1)), cnt := cnt r - 1\<rparr>"

lemma length_entries [simp]: "length (entries r) = cnt r"
  by (simp add: entries_def)

lemma entries_nth [simp]: "i < cnt r \<Longrightarrow> entries r ! i = slots r i"
  by (simp add: entries_def)

lemma in_set_entries: "e \<in> set (entries r) \<longleftrightarrow> (\<exists>i<cnt r. e = slots r i)"
  by (auto simp: entries_def)

lemma slot_in_entries [intro]: "i < cnt r \<Longrightarrow> slots r i \<in> set (entries r)"
  by (auto simp: in_set_entries)

lemma cnt_upd_slot [simp]: "cnt (upd_slot i f r) = cnt r"
  by (simp add: upd_slot_def)

lemma slots_upd_slot [simp]: "slots (upd_slot i f r) = (slots r)(i := f (slots r i))"
  by (simp add: upd_slot_def)

lemma entries_upd_slot: "entries (upd_slot i f r) = (entries r)[i := f (slots r i)]"
  by (rule nth_equalityI) (auto simp: nth_list_update)

lemma cnt_swap_out [simp]: "cnt (swap_out i r) = cnt r - 1"
  by (simp add: swap_out_def)

lemma slots_swap_out [simp]: "slots (swap_out i r) = (slots r)(i := slots r (cnt r - 1))"
  by (simp add: swap_out_def)

lemma entries_swap_out:
  assumes "i < cnt r"
  shows "entries (swap_out i r) = butlast ((entries r)[i := last (entries r)])"
proof (rule nth_equalityI)
  show "length (entries (swap_out i r)) = length (butlast ((entries r)[i := last (entries r)]))"
    by simp
next
  fix j assume j: "j < length (entries (swap_out i r))"
  have "entries r \<noteq> []" using assms by (metis length_entries length_greater_0_conv not_less_zero neq0_conv)
  then have "last (entries r) = slots r (cnt r - 1)"
    using assms by (simp add: last_conv_nth)
  with j show "entries (swap_out i r) ! j = butlast ((entries r)[i := last (entries r)]) ! j"
    by (simp add: nth_butlast nth_list_update)
qed

lemma mset_butlast_swap:
  assumes "i < length xs"
  shows "mset (butlast (xs[i := last xs])) = mset xs - {#xs ! i#}"
proof -
  have ne: "xs \<noteq> []" using assms by auto
  have last': "last (xs[i := last xs]) = last xs"
    using ne assms by (metis last_list_update)
  have "mset (xs[i := last xs]) = add_mset (last xs) (mset xs - {#xs ! i#})"
    using assms by (simp add: mset_update)
  moreover have "mset (xs[i := last xs]) = add_mset (last xs) (mset (butlast (xs[i := last xs])))"
    using ne last' by (metis append_butlast_last_id list_update_nonempty mset.simps(2) mset_append
        union_mset_add_mset_right add.right_neutral mset.simps(1))
  ultimately show ?thesis by simp
qed

subsection \<open>The contract of a swap-remove registry\<close>

locale swap_registry =
  fixes add :: "'k \<Rightarrow> 'e registry \<Rightarrow> 'e registry"
    and remove :: "nat \<Rightarrow> 'e registry \<Rightarrow> 'e registry"
    and fresh :: "'k \<Rightarrow> 'e \<Rightarrow> bool"
  assumes add_room: "cnt r < MAX_GUESTS \<Longrightarrow>
      \<exists>e. fresh k e \<and> entries (add k r) = entries r @ [e]"
    and add_full: "MAX_GUESTS \<le> cnt r \<Longrightarrow> add k r = r"
    and remove_out: "cnt r \<le> i \<Longrightarrow> remove i r = r"
    and remove_in: "i < cnt r \<Longrightarrow>
      entries (remove i r) = butlast ((entries r)[i := last (entries r)])"
begin

lemma cnt_add: "cnt (add k r) = (if cnt r < MAX_GUESTS then cnt r + 1 else cnt r)"
proof (cases "cnt r < MAX_GUESTS")
  case True
  then obtain e where "entries (add k r) = entries r @ [e]" using add_room by blast
  then have "length (entries (add k r)) = length (entries r) + 1" by simp
  with True show ?thesis by simp
qed (simp add: add_full)

lemma cnt_remove: "cnt (remove i r) = (if i < cnt r then cnt r - 1 else cnt r)"
proof (cases "i < cnt r")
  case True
  then have "length (entries (remove i r)) = length (entries r) - 1" by (simp add: remove_in)
  with True show ?thesis by simp
qed (simp add: remove_out)

lemma add_ok: "reg_ok r \<Longrightarrow> reg_ok (add k r)"
  by (simp add: reg_ok_def cnt_add)

lemma remove_ok: "reg_ok r \<Longrightarrow> reg_ok (remove i r)"
  by (auto simp: reg_ok_def cnt_remove)

lemma mset_remove: "i < cnt r \<Longrightarrow>
    mset (entries (remove i r)) = mset (entries r) - {#entries r ! i#}"
  by (simp add: remove_in mset_butlast_swap)

lemma set_remove: "set (entries (remove i r)) \<subseteq> set (entries r)"
proof (cases "i < cnt r")
  case True
  have "set_mset (mset (entries (remove i r))) \<subseteq> set_mset (mset (entries r))"
    by (simp only: mset_remove [OF True]) (meson in_diffD subsetI)
  then show ?thesis by simp
qed (simp add: remove_out)

text \<open>Every sequence of additions and removals keeps the count within the array.\<close>

fun run :: "('k + nat) list \<Rightarrow> 'e registry \<Rightarrow> 'e registry" where
  "run [] r = r"
| "run (Inl k # ops) r = run ops (add k r)"
| "run (Inr i # ops) r = run ops (remove i r)"

lemma run_ok: "reg_ok r \<Longrightarrow> reg_ok (run ops r)"
  by (induction ops r rule: run.induct) (auto intro: add_ok remove_ok)

end

section \<open>First-fit slot tables\<close>

locale slot_table =
  fixes cap :: nat
    and used :: "'t \<Rightarrow> nat \<Rightarrow> bool"
    and alloc :: "'a \<Rightarrow> 't \<Rightarrow> (nat \<times> 't) option"
    and release :: "nat \<Rightarrow> 't \<Rightarrow> 't"
  assumes alloc_slot: "alloc a t = Some (i, t') \<Longrightarrow> i < cap \<and> \<not> used t i \<and> (\<forall>j<i. used t j)"
    and alloc_used: "alloc a t = Some (i, t') \<Longrightarrow> used t' = (used t)(i := True)"
    and alloc_full: "alloc a t = None \<longleftrightarrow> (\<forall>i<cap. used t i)"
    and release_used: "i < cap \<Longrightarrow> used (release i t) = (used t)(i := False)"
begin

lemma alloc_ok: "i < cap \<Longrightarrow> \<not> used t i \<Longrightarrow> \<exists>j t'. alloc a t = Some (j, t') \<and> j \<le> i"
proof -
  assume i: "i < cap" "\<not> used t i"
  then obtain j t' where a: "alloc a t = Some (j, t')"
    using alloc_full by (metis option.exhaust surj_pair)
  with alloc_slot have "\<forall>k<j. used t k" by blast
  with i have "j \<le> i" by (meson not_le)
  with a show ?thesis by blast
qed

lemma release_alloc: "alloc a t = Some (i, t') \<Longrightarrow> used (release i t') = used t"
  using alloc_slot [of a t i t'] alloc_used [of a t i t'] by (simp add: release_used fun_upd_idem_iff)

text \<open>Two requests that are pending together never share a slot.\<close>

lemma alloc_distinct:
  "alloc a t = Some (i, t1) \<Longrightarrow> alloc b t1 = Some (j, t2) \<Longrightarrow> i \<noteq> j"
  using alloc_slot alloc_used by (metis fun_upd_same)

lemma release_then_alloc: "i < cap \<Longrightarrow> \<exists>j t'. alloc a (release i t) = Some (j, t')"
  using alloc_ok [of i "release i t" a] by (auto simp: release_used)

end

section \<open>Little-endian bytes\<close>

definition le32 :: "u32 \<Rightarrow> byte list" where
  "le32 w = [ucast w, ucast (drop_bit 8 w), ucast (drop_bit 16 w), ucast (drop_bit 24 w)]"

definition un32 :: "byte list \<Rightarrow> u32" where
  "un32 bs = ucast (bs ! 0) OR push_bit 8 (ucast (bs ! 1))
     OR push_bit 16 (ucast (bs ! 2)) OR push_bit 24 (ucast (bs ! 3))"

lemma length_le32 [simp]: "length (le32 w) = 4"
  by (simp add: le32_def)

lemma un32_le32 [simp]: "un32 (le32 w @ bs) = w"
proof (rule bit_word_eqI)
  fix n assume "n < LENGTH(32)"
  then have "n < 8 \<or> (8 \<le> n \<and> n < 16) \<or> (16 \<le> n \<and> n < 24) \<or> (24 \<le> n \<and> n < 32)" by auto
  then show "bit (un32 (le32 w @ bs)) n = bit w n"
    by (elim disjE) (auto simp: un32_def le32_def bit_simps)
qed

end
