(* ===== verification/Mx_Guest.thy ===== *)
theory Mx_Guest
  imports Mx_Prelude
begin

text \<open>
  The process registries of \<^verbatim>\<open>mattx_guest.c\<close>: the guests (surrogates running here for
  another node), the exports (deputies whose process runs elsewhere), the clock-fixup table of
  awakened gangs, and the two lifecycle handlers.

  Kernel pointers are numbers, \<^verbatim>\<open>NULL\<close> is \<open>None\<close>. What a function hands back to the
  kernel (signals, frees, dropped file references) is a list of effects in program order. The
  answers of the kernel (whether a task with a pid exists, whether an allocation succeeds) are
  arguments.
\<close>

section \<open>Data\<close>

record mattx_dsm_mapping =
  base_addr :: u64
  m_shmid :: u32
  m_size :: u64
  present_pages :: "nat \<Rightarrow> bool"
  pages :: "nat \<Rightarrow> nat option"
  page_states :: "nat \<Rightarrow> u8"

record mattx_guest_info =
  local_pid :: pid
  orig_pid :: u32
  home_node :: u32
  rpc_wq :: "nat option"
  rpc_remote_fd :: int
  rpc_done :: bool
  rpc_read_buf :: "nat option"
  rpc_read_bytes :: int
  rpc_lseek_res :: int
  rpc_statx_buf :: "nat option"
  rpc_fsync_res :: int
  is_migrating :: bool
  thread_count :: nat
  orig_tids :: "nat \<Rightarrow> u32"
  local_tids :: "nat \<Rightarrow> pid"
  dsm_count :: nat
  dsm_map :: "nat \<Rightarrow> mattx_dsm_mapping"
  dsm_step_pending :: bool
  dsm_step_is_write :: bool
  dsm_step_addr :: u64
  dsm_step_shmid :: u32

text \<open>
  The per-export directories \<^verbatim>\<open>dsm_dirs\<close> are dead: nothing ever sets
  \<^verbatim>\<open>dsm_dir_count\<close>, which starts at 0. The directory in use is the global one.
\<close>

record mattx_export_info =
  e_orig_pid :: pid
  e_target_node :: u32
  e_remote_files :: "nat \<Rightarrow> nat option"
  e_abort_rpc :: bool
  e_is_growing_gang :: bool

type_synonym guests = "mattx_guest_info registry"
type_synonym exports = "mattx_export_info registry"

datatype life_effect = Send_sig signal pid | Kfree nat | Fput nat | Free_page nat

definition zero_mapping :: mattx_dsm_mapping where
  "zero_mapping = \<lparr>base_addr = 0, m_shmid = 0, m_size = 0, present_pages = (\<lambda>_. False),
     pages = (\<lambda>_. None), page_states = (\<lambda>_. 0)\<rparr>"

section \<open>The guest registry\<close>

definition is_guest_process :: "pid \<Rightarrow> guests \<Rightarrow> bool" where
  "is_guest_process pid r = (scan (\<lambda>i. local_pid (slots r i) = pid) (cnt r) \<noteq> None)"

definition fresh_guest :: "pid \<Rightarrow> u32 \<Rightarrow> u32 \<Rightarrow> mattx_guest_info \<Rightarrow> mattx_guest_info" where
  "fresh_guest lp op home g = g\<lparr>local_pid := lp, orig_pid := op, home_node := home,
     is_migrating := False, rpc_wq := None, rpc_done := False, rpc_read_buf := None,
     rpc_read_bytes := 0, rpc_lseek_res := 0, rpc_statx_buf := None, rpc_fsync_res := 0,
     dsm_count := 0, dsm_map := (\<lambda>_. zero_mapping)\<rparr>"

definition add_guest_process :: "pid \<Rightarrow> u32 \<Rightarrow> u32 \<Rightarrow> guests \<Rightarrow> guests" where
  "add_guest_process lp op home r =
     (if cnt r < MAX_GUESTS
      then (upd_slot (cnt r) (fresh_guest lp op home) r)\<lparr>cnt := cnt r + 1\<rparr> else r)"

text \<open>The double loop over the segments of a guest and the pages of each: what it frees.\<close>

definition guest_pages :: "mattx_guest_info \<Rightarrow> nat list" where
  "guest_pages g = concat (map (\<lambda>d. List.map_filter (pages (dsm_map g d)) [0..<MAX_DSM_PAGES])
     [0..<dsm_count g])"

definition clear_pages :: "mattx_guest_info \<Rightarrow> mattx_guest_info" where
  "clear_pages g = g\<lparr>dsm_map := (\<lambda>d. if d < dsm_count g
     then (dsm_map g d)\<lparr>pages := (\<lambda>p. if p < MAX_DSM_PAGES then None else pages (dsm_map g d) p)\<rparr>
     else dsm_map g d)\<rparr>"

definition remove_guest_process :: "int \<Rightarrow> guests \<Rightarrow> guests \<times> life_effect list" where
  "remove_guest_process index r =
     (if index < 0 \<or> int (cnt r) \<le> index then (r, [])
      else (swap_out (nat index) (upd_slot (nat index) clear_pages r),
            map Free_page (guest_pages (slots r (nat index)))))"

definition is_rpc_pending :: "pid \<Rightarrow> guests \<Rightarrow> bool" where
  "is_rpc_pending pid r =
     (case scan (\<lambda>i. local_pid (slots r i) = pid) (cnt r) of
        Some i \<Rightarrow> rpc_wq (slots r i) \<noteq> None | None \<Rightarrow> False)"

section \<open>The export registry\<close>

definition fresh_export :: "pid \<Rightarrow> u32 \<Rightarrow> mattx_export_info \<Rightarrow> mattx_export_info" where
  "fresh_export op target e = e\<lparr>e_orig_pid := op, e_target_node := target, e_abort_rpc := False,
     e_is_growing_gang := False\<rparr>"

definition add_export_process :: "pid \<Rightarrow> u32 \<Rightarrow> exports \<Rightarrow> exports" where
  "add_export_process op target r =
     (if cnt r < MAX_GUESTS
      then (upd_slot (cnt r) (fresh_export op target) r)\<lparr>cnt := cnt r + 1\<rparr> else r)"

definition remove_export_process :: "int \<Rightarrow> exports \<Rightarrow> exports" where
  "remove_export_process index r =
     (if index < 0 \<or> int (cnt r) \<le> index then r else swap_out (nat index) r)"

definition get_export_target :: "pid \<Rightarrow> exports \<Rightarrow> u32" where
  "get_export_target op r =
     (case scan (\<lambda>i. e_orig_pid (slots r i) = op) (cnt r) of
        Some i \<Rightarrow> e_target_node (slots r i) | None \<Rightarrow> - 1)"

section \<open>Lifecycle handlers\<close>

text \<open>
  \<open>alive p\<close> says whether \<^verbatim>\<open>pid_task(find_vpid(p))\<close> finds a task; \<open>mem\<close> is the
  scratch array for the files to close, \<open>None\<close> when its allocation fails.
\<close>

definition handle_process_exit ::
    "(pid \<Rightarrow> bool) \<Rightarrow> nat option \<Rightarrow> u32 option \<Rightarrow> exports \<Rightarrow> exports \<times> life_effect list" where
  "handle_process_exit alive mem payload r =
     (case payload of None \<Rightarrow> (r, [])
      | Some op \<Rightarrow>
        (let kill = (if alive op then [Send_sig SIGKILL op] else []);
             free = (case mem of Some p \<Rightarrow> [Kfree p] | None \<Rightarrow> [])
         in (case scan (\<lambda>i. e_orig_pid (slots r i) = op) (cnt r) of
               None \<Rightarrow> (r, kill @ free)
             | Some i \<Rightarrow>
               (remove_export_process (int i) r,
                kill @ (if mem \<noteq> None
                        then map Fput (List.map_filter (e_remote_files (slots r i)) [0..<MAX_FDS])
                        else []) @ free))))"

definition handle_kill_surrogate ::
    "(pid \<Rightarrow> bool) \<Rightarrow> u32 \<Rightarrow> u32 option \<Rightarrow> guests \<Rightarrow> guests \<times> life_effect list" where
  "handle_kill_surrogate alive sender payload r =
     (case payload of None \<Rightarrow> (r, [])
      | Some op \<Rightarrow>
        (case scan (\<lambda>i. orig_pid (slots r i) = op \<and> home_node (slots r i) = sender) (cnt r) of
           None \<Rightarrow> (r, [])
         | Some i \<Rightarrow>
           (case remove_guest_process (int i) r of (r', frees) \<Rightarrow>
             (r', frees @
               map Kfree (List.map_filter id [rpc_read_buf (slots r i), rpc_statx_buf (slots r i)]) @
               (if local_pid (slots r i) \<noteq> - 1 \<and> alive (local_pid (slots r i))
                then [Send_sig SIGKILL (local_pid (slots r i))] else [])))))"

section \<open>The clock-fixup table\<close>

abbreviation (input) MAX_CLOCK_FIXUPS :: nat where "MAX_CLOCK_FIXUPS \<equiv> 64"

record mattx_clock_fixup =
  in_use :: bool
  f_local_pid :: pid
  offset_ns :: int
  f_thread_count :: nat
  f_tids :: "nat \<Rightarrow> pid"
  f_pending :: "nat \<Rightarrow> bool"

type_synonym fixups = "nat \<Rightarrow> mattx_clock_fixup"

definition fixup_of :: "pid \<Rightarrow> fixups \<Rightarrow> nat option" where
  "fixup_of pid t = scan (\<lambda>i. in_use (t i) \<and> f_local_pid (t i) = pid) MAX_CLOCK_FIXUPS"

definition fixup_slot :: "pid \<Rightarrow> fixups \<Rightarrow> nat" where
  "fixup_slot pid t =
     (case fixup_of pid t of Some i \<Rightarrow> i
      | None \<Rightarrow> (case scan (\<lambda>i. \<not> in_use (t i)) MAX_CLOCK_FIXUPS of Some i \<Rightarrow> i | None \<Rightarrow> 0))"

definition clamp_threads :: "int \<Rightarrow> nat" where
  "clamp_threads n = nat (if n > int MAX_GANG_THREADS then int MAX_GANG_THREADS else if n < 0 then 0 else n)"

definition mattx_clock_fixup_register ::
    "pid \<Rightarrow> int \<Rightarrow> int \<Rightarrow> (nat \<Rightarrow> pid) \<Rightarrow> fixups \<Rightarrow> fixups" where
  "mattx_clock_fixup_register pid off n tids t =
     (let s = fixup_slot pid t; k = clamp_threads n
      in t(s := (t s)\<lparr>in_use := True, f_local_pid := pid, offset_ns := off, f_thread_count := k,
           f_tids := (\<lambda>i. if i < k then tids i else f_tids (t s) i),
           f_pending := (\<lambda>i. if i < k then True else f_pending (t s) i)\<rparr>))"

definition mattx_clock_fixup_consume :: "pid \<Rightarrow> pid \<Rightarrow> fixups \<Rightarrow> int option \<times> fixups" where
  "mattx_clock_fixup_consume pid tid t =
     (case fixup_of pid t of None \<Rightarrow> (None, t)
      | Some i \<Rightarrow>
        (case scan (\<lambda>j. f_tids (t i) j = tid \<and> f_pending (t i) j) (f_thread_count (t i)) of
           None \<Rightarrow> (None, t)
         | Some j \<Rightarrow> (Some (offset_ns (t i)),
             t(i := (t i)\<lparr>f_pending := (f_pending (t i))(j := False)\<rparr>))))"

section \<open>Registry laws\<close>

lemma entries_append: "entries ((upd_slot (cnt r) f r)\<lparr>cnt := cnt r + 1\<rparr>) = entries r @ [f (slots r (cnt r))]"
  by (simp add: entries_def upd_slot_def)

lemma entries_swap_upd:
  assumes "i < cnt r"
  shows "entries (swap_out i (upd_slot i f r)) = butlast ((entries r)[i := last (entries r)])"
proof -
  have ne: "entries r \<noteq> []" using assms by (metis length_entries length_0_conv not_less_zero)
  have "entries (swap_out i (upd_slot i f r)) =
      butlast ((entries (upd_slot i f r))[i := last (entries (upd_slot i f r))])"
    using assms by (simp add: entries_swap_out)
  also have "\<dots> = butlast ((entries r)[i := last ((entries r)[i := f (slots r i)])])"
    by (simp add: entries_upd_slot)
  also have "\<dots> = butlast ((entries r)[i := last (entries r)])"
    using ne assms by (auto simp: last_list_update butlast_list_update)
  finally show ?thesis .
qed

interpretation greg: swap_registry
  "\<lambda>k. add_guest_process (fst k) (fst (snd k)) (snd (snd k))"
  "\<lambda>i r. fst (remove_guest_process (int i) r)"
  "\<lambda>k g. local_pid g = fst k \<and> orig_pid g = fst (snd k) \<and> home_node g = snd (snd k) \<and>
     dsm_count g = 0 \<and> guest_pages g = [] \<and> rpc_wq g = None \<and> \<not> is_migrating g"
proof unfold_locales
  fix r :: guests and k :: "pid \<times> u32 \<times> u32"
  assume "cnt r < MAX_GUESTS"
  then show "\<exists>e. (local_pid e = fst k \<and> orig_pid e = fst (snd k) \<and> home_node e = snd (snd k) \<and>
      dsm_count e = 0 \<and> guest_pages e = [] \<and> rpc_wq e = None \<and> \<not> is_migrating e) \<and>
      entries (add_guest_process (fst k) (fst (snd k)) (snd (snd k)) r) = entries r @ [e]"
    using entries_append [of r "fresh_guest (fst k) (fst (snd k)) (snd (snd k))"]
    by (intro exI [of _ "fresh_guest (fst k) (fst (snd k)) (snd (snd k)) (slots r (cnt r))"])
      (simp add: add_guest_process_def fresh_guest_def guest_pages_def)
qed (simp_all add: add_guest_process_def remove_guest_process_def entries_swap_upd)

interpretation ereg: swap_registry
  "\<lambda>k. add_export_process (fst k) (snd k)"
  "\<lambda>i. remove_export_process (int i)"
  "\<lambda>k e. e_orig_pid e = fst k \<and> e_target_node e = snd k \<and> \<not> e_abort_rpc e \<and> \<not> e_is_growing_gang e"
proof unfold_locales
  fix r :: exports and k :: "pid \<times> u32"
  assume "cnt r < MAX_GUESTS"
  then show "\<exists>e. (e_orig_pid e = fst k \<and> e_target_node e = snd k \<and> \<not> e_abort_rpc e \<and> \<not> e_is_growing_gang e) \<and>
      entries (add_export_process (fst k) (snd k) r) = entries r @ [e]"
    using entries_append [of r "fresh_export (fst k) (snd k)"]
    by (intro exI [of _ "fresh_export (fst k) (snd k) (slots r (cnt r))"])
      (simp add: add_export_process_def fresh_export_def)
qed (simp_all add: add_export_process_def remove_export_process_def entries_swap_out)

section \<open>Guests: a kill takes exactly one surrogate\<close>

definition all_pages :: "guests \<Rightarrow> nat list" where
  "all_pages r = concat (map guest_pages (entries r))"

definition freed_pages :: "life_effect list \<Rightarrow> nat list" where
  "freed_pages effs = List.map_filter (\<lambda>e. case e of Free_page p \<Rightarrow> Some p | _ \<Rightarrow> None) effs"

definition signalled :: "life_effect list \<Rightarrow> pid list" where
  "signalled effs = List.map_filter (\<lambda>e. case e of Send_sig s p \<Rightarrow> Some p | _ \<Rightarrow> None) effs"

lemma map_filter_append: "List.map_filter f (xs @ ys) = List.map_filter f xs @ List.map_filter f ys"
  by (simp add: map_filter_def)

lemma map_filter_map_None: "(\<And>x. f (g x) = None) \<Longrightarrow> List.map_filter f (map g xs) = []"
  by (simp add: map_filter_def filter_empty_conv)

lemma map_filter_map_Some: "(\<And>x. f (g x) = Some x) \<Longrightarrow> List.map_filter f (map g xs) = xs"
  by (induction xs) (simp_all add: map_filter_def)

text \<open>Filling or clearing one cell adds or removes exactly that file.\<close>

lemma map_filter_upd_out: "i \<notin> set xs \<Longrightarrow> List.map_filter (t(i := v)) xs = List.map_filter t xs"
  by (induction xs) (auto simp: map_filter_simps split: option.split)

lemma mset_map_filter_upd:
  assumes "distinct xs" "i \<in> set xs" "t i = None"
  shows "mset (List.map_filter (t(i := Some f)) xs) = add_mset f (mset (List.map_filter t xs))"
proof -
  obtain ys zs where xs: "xs = ys @ i # zs" using assms(2) by (meson split_list)
  then have "i \<notin> set ys" "i \<notin> set zs" using assms(1) by auto
  then show ?thesis using assms(3)
    by (simp add: xs map_filter_append map_filter_simps map_filter_upd_out)
qed

lemma freed_pages_simps [simp]:
  "freed_pages (xs @ ys) = freed_pages xs @ freed_pages ys"
  "freed_pages (map Free_page ps) = ps" "freed_pages (map Kfree qs) = []"
  "freed_pages (e # es) = (case e of Free_page p \<Rightarrow> [p] | _ \<Rightarrow> []) @ freed_pages es" "freed_pages [] = []"
  unfolding freed_pages_def map_filter_append
  by (simp_all add: map_filter_map_Some map_filter_map_None map_filter_simps split: life_effect.split)

lemma signalled_simps [simp]:
  "signalled (xs @ ys) = signalled xs @ signalled ys"
  "signalled (map Free_page ps) = []" "signalled (map Kfree qs) = []" "signalled (map Fput qs) = []"
  "signalled (e # es) = (case e of Send_sig s p \<Rightarrow> [p] | _ \<Rightarrow> []) @ signalled es" "signalled [] = []"
  unfolding signalled_def map_filter_append
  by (simp_all add: map_filter_map_None map_filter_simps split: life_effect.split)

lemma mset_all_pages: "mset (all_pages r) = (\<Sum>g\<in>#mset (entries r). mset (guest_pages g))"
  by (simp add: all_pages_def mset_concat flip: sum_mset_sum_list) (simp add: comp_def)

text \<open>Removing an entry frees its pages and leaves the pages of all the others.\<close>

lemma remove_guest_pages:
  assumes "i < cnt r" "remove_guest_process (int i) r = (r', effs)"
  shows "effs = map Free_page (guest_pages (slots r i))"
    and "mset (entries r) = add_mset (slots r i) (mset (entries r'))"
    and "mset (all_pages r) = mset (all_pages r') + mset (freed_pages effs)"
proof -
  show effs: "effs = map Free_page (guest_pages (slots r i))"
    using assms by (auto simp: remove_guest_process_def)
  have mem: "slots r i \<in># mset (entries r)" using assms(1) by (auto simp: in_set_entries)
  show split: "mset (entries r) = add_mset (slots r i) (mset (entries r'))"
    using greg.mset_remove [of i r] assms mem by simp
  show "mset (all_pages r) = mset (all_pages r') + mset (freed_pages effs)"
    by (simp add: mset_all_pages split effs)
qed

text \<open>
  \<^verbatim>\<open>KILL_SURROGATE\<close> is exact. If the sender has no such guest here nothing happens.
  Otherwise one guest with that original pid and that home node leaves the registry, every
  other guest stays, the count stays within the array, the only process that can get a signal
  is this guest's surrogate, and it gets it if it is alive; and each physical DSM page that
  was owned by some guest is afterwards either still owned or has been freed, exactly once.
\<close>

theorem kill_surrogate_exact:
  assumes "handle_kill_surrogate alive sender (Some op) r = (r', effs)"
  shows "(if \<exists>g\<in>set (entries r). orig_pid g = op \<and> home_node g = sender
     then \<exists>g. orig_pid g = op \<and> home_node g = sender \<and>
            mset (entries r) = add_mset g (mset (entries r')) \<and>
            signalled effs = (if local_pid g \<noteq> - 1 \<and> alive (local_pid g) then [local_pid g] else [])
     else r' = r \<and> effs = []) \<and>
   (reg_ok r \<longrightarrow> reg_ok r') \<and>
   mset (all_pages r) = mset (all_pages r') + mset (freed_pages effs)"
proof (cases "scan (\<lambda>i. orig_pid (slots r i) = op \<and> home_node (slots r i) = sender) (cnt r)")
  case None
  then have "\<not> (\<exists>g\<in>set (entries r). orig_pid g = op \<and> home_node g = sender)"
    by (auto simp: scan_None in_set_entries)
  moreover have "r' = r" "effs = []" using None assms by (auto simp: handle_kill_surrogate_def)
  ultimately show ?thesis by simp
next
  case (Some i)
  note i = scan_SomeD(1,2) [OF Some]
  obtain r1 e1 where rm: "remove_guest_process (int i) r = (r1, e1)" by fastforce
  note rp = remove_guest_pages [OF i(1) rm]
  have res: "r' = r1" "signalled effs =
      (if local_pid (slots r i) \<noteq> - 1 \<and> alive (local_pid (slots r i)) then [local_pid (slots r i)] else [])"
      "freed_pages effs = freed_pages e1"
    using assms Some rm rp(1) by (auto simp: handle_kill_surrogate_def)
  have "\<exists>g\<in>set (entries r). orig_pid g = op \<and> home_node g = sender"
    using i by blast
  moreover have "reg_ok r \<longrightarrow> reg_ok r'" using greg.remove_ok [of r i] rm res(1) by simp
  ultimately show ?thesis using i(2) rp(2,3) res by auto
qed

definition demo_guest :: "pid \<Rightarrow> u32 \<Rightarrow> u32 \<Rightarrow> nat \<Rightarrow> mattx_guest_info" where
  "demo_guest lp op home pg = \<lparr>local_pid = lp, orig_pid = op, home_node = home, rpc_wq = None,
     rpc_remote_fd = 0, rpc_done = False, rpc_read_buf = None, rpc_read_bytes = 0, rpc_lseek_res = 0,
     rpc_statx_buf = None, rpc_fsync_res = 0, is_migrating = False, thread_count = 0,
     orig_tids = (\<lambda>_. 0), local_tids = (\<lambda>_. 0), dsm_count = 1,
     dsm_map = (\<lambda>_. zero_mapping\<lparr>pages := [0 \<mapsto> pg]\<rparr>), dsm_step_pending = False,
     dsm_step_is_write = False, dsm_step_addr = 0, dsm_step_shmid = 0\<rparr>"

definition demo_guests :: guests where
  "demo_guests = \<lparr>slots = (\<lambda>i. if i = 0 then demo_guest 500 42 1 77 else demo_guest 501 42 2 78), cnt = 2\<rparr>"

theorem kill_surrogate_exact_witness:
  "signalled (snd (handle_kill_surrogate (\<lambda>_. True) 2 (Some 42) demo_guests)) = [501] \<and>
   mset (all_pages demo_guests) =
     mset (all_pages (fst (handle_kill_surrogate (\<lambda>_. True) 2 (Some 42) demo_guests))) +
     mset (freed_pages (snd (handle_kill_surrogate (\<lambda>_. True) 2 (Some 42) demo_guests)))"
proof -
  have s: "scan (\<lambda>i. orig_pid (slots demo_guests i) = 42 \<and> home_node (slots demo_guests i) = 2) 2 = Some 1"
    by (rule scan_unique) (auto simp: demo_guests_def demo_guest_def split: if_splits)
  have run: "handle_kill_surrogate (\<lambda>_. True) 2 (Some 42) demo_guests =
      (fst (handle_kill_surrogate (\<lambda>_. True) 2 (Some 42) demo_guests),
       snd (handle_kill_surrogate (\<lambda>_. True) 2 (Some 42) demo_guests))" by simp
  have cnt2: "cnt demo_guests = 2" by (simp add: demo_guests_def)
  have lp: "local_pid (slots demo_guests 1) = 501" by (simp add: demo_guests_def demo_guest_def)
  have "signalled (snd (handle_kill_surrogate (\<lambda>_. True) 2 (Some 42) demo_guests)) = [501]"
    using s lp by (simp add: handle_kill_surrogate_def cnt2 remove_guest_process_def)
  moreover note kill_surrogate_exact [OF run, THEN conjunct2, THEN conjunct2]
  ultimately show ?thesis by blast
qed

section \<open>Exports: the registry refines a finite map\<close>

definition export_map :: "exports \<Rightarrow> pid \<rightharpoonup> u32" where
  "export_map r = map_of (map (\<lambda>e. (e_orig_pid e, e_target_node e)) (entries r))"

definition exports_distinct :: "exports \<Rightarrow> bool" where
  "exports_distinct r \<longleftrightarrow> distinct (map e_orig_pid (entries r))"

lemma distinct_key_mset: "mset xs = mset ys \<Longrightarrow> distinct (map f xs) = distinct (map f ys)"
  by (metis mset_eq_imp_distinct_iff mset_map)

lemma export_map_iff:
  assumes "exports_distinct r"
  shows "export_map r p = Some t \<longleftrightarrow> (\<exists>e\<in>set (entries r). e_orig_pid e = p \<and> e_target_node e = t)"
proof -
  have "distinct (map fst (map (\<lambda>e. (e_orig_pid e, e_target_node e)) (entries r)))"
    using assms by (simp add: exports_distinct_def comp_def)
  then show ?thesis unfolding export_map_def by (simp only: map_of_eq_Some_iff) auto
qed

lemma export_map_dom: "p \<in> dom (export_map r) \<longleftrightarrow> (\<exists>e\<in>set (entries r). e_orig_pid e = p)"
  by (auto simp: export_map_def dom_map_of_conv_image_fst image_image)

lemma get_export_target_map:
  assumes "exports_distinct r"
  shows "get_export_target p r = (case export_map r p of Some t \<Rightarrow> t | None \<Rightarrow> - 1)"
proof (cases "scan (\<lambda>i. e_orig_pid (slots r i) = p) (cnt r)")
  case None
  then have "p \<notin> dom (export_map r)" by (auto simp: export_map_dom in_set_entries scan_None)
  with None show ?thesis by (simp add: get_export_target_def domIff)
next
  case (Some i)
  then have "export_map r p = Some (e_target_node (slots r i))"
    using scan_SomeD(1,2) [OF Some] by (auto simp: export_map_iff [OF assms])
  with Some show ?thesis by (simp add: get_export_target_def)
qed

lemma add_export_map:
  assumes "exports_distinct r" "cnt r < MAX_GUESTS" "p \<notin> dom (export_map r)"
  shows "exports_distinct (add_export_process p t r)"
    and "export_map (add_export_process p t r) = (export_map r)(p \<mapsto> t)"
proof -
  obtain e where e: "e_orig_pid e = p" "e_target_node e = t"
      "entries (add_export_process p t r) = entries r @ [e]"
    using ereg.add_room [OF assms(2), of "(p, t)"] by auto
  show "exports_distinct (add_export_process p t r)"
    using assms(1,3) e by (auto simp: exports_distinct_def export_map_dom)
  have "map_of (xs @ [(p, t)]) = (map_of xs)(p \<mapsto> t)" if "p \<notin> fst ` set xs" for xs :: "(pid \<times> u32) list"
    using that by (induction xs) auto
  then show "export_map (add_export_process p t r) = (export_map r)(p \<mapsto> t)"
    using assms(3) e by (auto simp: export_map_def image_image export_map_dom dom_map_of_conv_image_fst)
qed

lemma process_exit_map:
  assumes "exports_distinct r"
  shows "exports_distinct (fst (handle_process_exit alive mem (Some p) r))"
    and "export_map (fst (handle_process_exit alive mem (Some p) r)) = (export_map r)(p := None)"
proof -
  let ?r' = "fst (handle_process_exit alive mem (Some p) r)"
  have "exports_distinct ?r' \<and> export_map ?r' = (export_map r)(p := None)"
  proof (cases "scan (\<lambda>i. e_orig_pid (slots r i) = p) (cnt r)")
    case None
    then have "p \<notin> dom (export_map r)" by (auto simp: export_map_dom in_set_entries scan_None)
    moreover have "?r' = r" using None by (simp add: handle_process_exit_def Let_def)
    ultimately show ?thesis using assms by (auto simp: domIff)
  next
    case (Some i)
    note i = scan_SomeD(1,2) [OF Some]
    let ?e = "slots r i"
    have r': "?r' = remove_export_process (int i) r" using Some by (simp add: handle_process_exit_def Let_def)
    have "?e \<in># mset (entries r)" using i(1) by (auto simp: in_set_entries)
    then have ms: "mset (entries r) = mset (?e # entries ?r')"
      using ereg.mset_remove [OF i(1)] i(1) r' by simp
    then have d: "distinct (map e_orig_pid (?e # entries ?r'))"
      using assms distinct_key_mset [OF ms, of e_orig_pid] by (simp add: exports_distinct_def)
    then have ok: "exports_distinct ?r'" by (simp add: exports_distinct_def)
    have set: "set (entries r) = insert ?e (set (entries ?r'))"
      using arg_cong [OF ms, of set_mset] by simp
    have "export_map ?r' q = ((export_map r)(p := None)) q" for q
    proof (cases "q = p")
      case True
      with d i(2) have "q \<notin> dom (export_map ?r')" unfolding export_map_dom
        by (metis distinct.simps(2) image_eqI list.map(2) set_map)
      with True show ?thesis by (simp add: domIff)
    next
      case False
      have "export_map ?r' q = Some t \<longleftrightarrow> export_map r q = Some t" for t
        using False i(2) by (auto simp: export_map_iff [OF assms] export_map_iff [OF ok] set)
      then show ?thesis using False by (metis fun_upd_other not_Some_eq)
    qed
    with ok show ?thesis by blast
  qed
  then show "exports_distinct ?r'" "export_map ?r' = (export_map r)(p := None)" by simp_all
qed

text \<open>
  C20. The export registry implements a finite map from deputies to nodes: with distinct
  pids, a lookup reads the map and answers -1 outside it, an export of a new pid is a map
  update while there is room, the exit notice of a remote process is a map deletion that kills
  the deputy if it is alive, and both keep the pids distinct.
\<close>

theorem exports_refine_map:
  assumes "exports_distinct r"
  shows "get_export_target q r = (case export_map r q of Some t \<Rightarrow> t | None \<Rightarrow> - 1) \<and>
    (cnt r < MAX_GUESTS \<longrightarrow> p \<notin> dom (export_map r) \<longrightarrow>
      exports_distinct (add_export_process p t r) \<and>
      export_map (add_export_process p t r) = (export_map r)(p \<mapsto> t)) \<and>
    (\<exists>r' effs. handle_process_exit alive mem (Some p) r = (r', effs) \<and> exports_distinct r' \<and>
      export_map r' = (export_map r)(p := None) \<and> signalled effs = (if alive p then [p] else []))"
proof (intro conjI impI)
  show "get_export_target q r = (case export_map r q of Some t \<Rightarrow> t | None \<Rightarrow> - 1)"
    using assms by (rule get_export_target_map)
  show "exports_distinct (add_export_process p t r)" "export_map (add_export_process p t r) = (export_map r)(p \<mapsto> t)"
    if "cnt r < MAX_GUESTS" "p \<notin> dom (export_map r)"
    using add_export_map [OF assms that] by simp_all
  have "signalled (snd (handle_process_exit alive mem (Some p) r)) = (if alive p then [p] else [])"
    by (simp add: handle_process_exit_def Let_def split: option.split)
  with process_exit_map [OF assms, of alive mem p]
  show "\<exists>r' effs. handle_process_exit alive mem (Some p) r = (r', effs) \<and> exports_distinct r' \<and>
      export_map r' = (export_map r)(p := None) \<and> signalled effs = (if alive p then [p] else [])"
    by (metis prod.collapse)
qed

definition demo_exports :: exports where
  "demo_exports = \<lparr>slots = (\<lambda>i. \<lparr>e_orig_pid = 100 + of_nat i, e_target_node = 3, e_remote_files = (\<lambda>_. None),
     e_abort_rpc = False, e_is_growing_gang = False\<rparr>), cnt = 2\<rparr>"

theorem exports_refine_map_witness:
  "get_export_target 200 (add_export_process 200 9 demo_exports) = 9 \<and>
   export_map (fst (handle_process_exit (\<lambda>_. True) None (Some 100) demo_exports)) = [101 \<mapsto> 3]"
proof -
  have es: "entries demo_exports =
      [slots demo_exports 0, slots demo_exports 1]" by (simp add: entries_def demo_exports_def upt_rec)
  have d: "exports_distinct demo_exports"
    unfolding exports_distinct_def es by (simp add: demo_exports_def)
  have m: "export_map demo_exports = [100 \<mapsto> 3, 101 \<mapsto> 3]"
    unfolding export_map_def es by (simp add: demo_exports_def fun_upd_twist)
  have room: "cnt demo_exports < MAX_GUESTS" "200 \<notin> dom (export_map demo_exports)"
    by (simp_all only: m) (simp_all add: demo_exports_def)
  have a: "exports_distinct (add_export_process 200 9 demo_exports)"
      "export_map (add_export_process 200 9 demo_exports) = (export_map demo_exports)(200 \<mapsto> 9)"
    using exports_refine_map [OF d, of 0 200 9] room by simp_all
  have "get_export_target 200 (add_export_process 200 9 demo_exports) = 9"
    using exports_refine_map [of "add_export_process 200 9 demo_exports" 200] a by simp
  moreover have "export_map (fst (handle_process_exit (\<lambda>_. True) None (Some 100) demo_exports)) =
      (export_map demo_exports)(100 := None)"
    using exports_refine_map [OF d, of 0 100 0 "\<lambda>_. True" None] by auto
  moreover have "(export_map demo_exports)(100 := None) = [101 \<mapsto> 3]" by (auto simp: m)
  ultimately show ?thesis by simp
qed

section \<open>Clock fixups are applied once\<close>

lemma fixup_slot_lt: "fixup_slot pid t < MAX_CLOCK_FIXUPS"
  by (auto simp: fixup_slot_def fixup_of_def scan_Some split: option.split)

lemma fixup_of_register: "fixup_of pid (mattx_clock_fixup_register pid off n tids t) = Some (fixup_slot pid t)"
proof (cases "fixup_of pid t")
  case None
  then have "\<not> (in_use (t j) \<and> f_local_pid (t j) = pid)" if "j < MAX_CLOCK_FIXUPS" for j
    using that unfolding fixup_of_def scan_None by blast
  then show ?thesis using fixup_slot_lt [of pid t] unfolding fixup_of_def
    by (intro scan_unique) (auto simp: mattx_clock_fixup_register_def Let_def split: if_splits)
next
  case (Some i)
  then have "fixup_slot pid t = i" by (simp add: fixup_slot_def)
  then show ?thesis using Some by (auto simp: fixup_of_def scan_Some mattx_clock_fixup_register_def Let_def)
qed

text \<open>Consuming leaves the owner, the offset and the thread ids of every entry as they are.\<close>

lemma fixup_of_pending:
  "fixup_of pid (t(i := (t i)\<lparr>f_pending := P\<rparr>)) = fixup_of pid t"
  unfolding fixup_of_def by (rule scan_cong) auto

text \<open>
  A clock fixup is applied exactly once per thread. After a gang with distinct thread ids
  has been registered (any number of entries may be in use before), the first query of each of
  its threads returns the recorded offset, every further query of that thread returns nothing,
  and a query of one thread does not use up the correction of another.
\<close>

theorem clock_fixup_once:
  assumes "t1 = mattx_clock_fixup_register pid off n tids t"
    and "inj_on tids {..<clamp_threads n}"
    and "j < clamp_threads n" and "k < clamp_threads n" and "k \<noteq> j"
  shows "\<exists>t2. mattx_clock_fixup_consume pid (tids j) t1 = (Some off, t2) \<and>
     mattx_clock_fixup_consume pid (tids j) t2 = (None, t2) \<and>
     fst (mattx_clock_fixup_consume pid (tids k) t2) = Some off"
proof -
  let ?s = "fixup_slot pid t" and ?c = "clamp_threads n"
  let ?t2 = "t1(?s := (t1 ?s)\<lparr>f_pending := (f_pending (t1 ?s))(j := False)\<rparr>)"
  have s1: "fixup_of pid t1 = Some ?s" using assms(1) by (simp add: fixup_of_register)
  have s2: "fixup_of pid ?t2 = Some ?s" using s1 by (simp add: fixup_of_pending)
  have e: "offset_ns (t1 ?s) = off" "f_thread_count (t1 ?s) = ?c"
      "\<And>i. i < ?c \<Longrightarrow> f_tids (t1 ?s) i = tids i" "\<And>i. i < ?c \<Longrightarrow> f_pending (t1 ?s) i"
    using assms(1) by (simp_all add: mattx_clock_fixup_register_def Let_def)
  have inj: "tids i = tids i' \<longleftrightarrow> i = i'" if "i < ?c" "i' < ?c" for i i'
    using assms(2) that by (auto simp: inj_on_def)
  have "scan (\<lambda>i. f_tids (t1 ?s) i = tids j \<and> f_pending (t1 ?s) i) ?c = Some j"
    using assms(3) e inj by (intro scan_unique) auto
  then have a: "mattx_clock_fixup_consume pid (tids j) t1 = (Some off, ?t2)"
    using s1 e by (simp add: mattx_clock_fixup_consume_def)
  have "scan (\<lambda>i. f_tids (?t2 ?s) i = tids j \<and> f_pending (?t2 ?s) i) ?c = None"
    using assms(3) e inj by (auto simp: scan_None)
  then have b: "mattx_clock_fixup_consume pid (tids j) ?t2 = (None, ?t2)"
    using s2 e by (simp add: mattx_clock_fixup_consume_def)
  have "scan (\<lambda>i. f_tids (?t2 ?s) i = tids k \<and> f_pending (?t2 ?s) i) ?c = Some k"
    using assms(4,5) e inj by (intro scan_unique) auto
  then have "fst (mattx_clock_fixup_consume pid (tids k) ?t2) = Some off"
    using s2 e by (simp add: mattx_clock_fixup_consume_def)
  with a b show ?thesis by blast
qed

theorem clock_fixup_once_witness:
  "\<exists>t2. mattx_clock_fixup_consume 9 30 (mattx_clock_fixup_register 9 (- 500) 3 ((+) 30 \<circ> of_nat) (\<lambda>_.
      \<lparr>in_use = True, f_local_pid = 1, offset_ns = 0, f_thread_count = 0, f_tids = (\<lambda>_. 0),
       f_pending = (\<lambda>_. False)\<rparr>)) = (Some (- 500), t2) \<and>
   mattx_clock_fixup_consume 9 30 t2 = (None, t2)"
proof -
  have "inj_on ((+) 30 \<circ> of_nat :: nat \<Rightarrow> pid) {..<clamp_threads 3}"
    by (auto simp: clamp_threads_def inj_on_def lessThan_nat_numeral)
  from clock_fixup_once [OF refl this, of 0 1 9 "- 500" "\<lambda>_. \<lparr>in_use = True, f_local_pid = 1, offset_ns = 0,
      f_thread_count = 0, f_tids = (\<lambda>_. 0), f_pending = (\<lambda>_. False)\<rparr>"]
  show ?thesis by (auto simp: clamp_threads_def)
qed

end
