(* ===== verification/Mx_Rpc.thy ===== *)
theory Mx_Rpc
  imports Mx_Guest
begin

text \<open>
  The request table behind the remote file and memory services of \<^verbatim>\<open>mattx_fileio.c\<close>:
  64 slots, each with the request id it waits for. A client takes the first free slot, sends
  its request, sleeps on the slot and reads the answer; a reply handler finds the slot of the
  request id. The eight client calls and the four DSM call sites share the allocation code,
  which differs only in the buffer pointer it stores (\<open>rpc_site\<close>).

  A client call is split where it sleeps: \<open>rpc_alloc\<close> up to the send, \<open>rpc_release\<close> after
  the wake-up. Buffers are names of byte lists; \<^verbatim>\<open>memcpy\<close> overwrites a prefix.
\<close>

abbreviation (input) MAX_VFS_RPC :: nat where "MAX_VFS_RPC \<equiv> 64"

section \<open>Data\<close>

record kstat =
  st_mode :: nat
  st_size :: nat
  st_blocks :: nat
  st_blksize :: nat
  st_uid :: nat
  st_gid :: nat
  st_nlink :: nat

record mattx_dirent =
  d_ino :: nat
  d_offset :: int
  d_type :: nat
  d_name :: string

record vfs_rpc_ctx =
  x_req_id :: u64
  x_done :: bool
  x_error :: int
  x_stat :: kstat
  x_dirents :: "nat option"
  x_dirent_count :: nat
  x_new_offset :: int
  x_remote_fd :: int
  x_bytes_rw :: int
  x_data_buf :: "nat option"
  x_ret_offset :: int
  x_in_use :: bool

record rpc =
  vfs_rpc_registry :: "nat \<Rightarrow> vfs_rpc_ctx"
  next_req_id :: u64
  bufs :: "nat \<Rightarrow> byte list"
  dbufs :: "nat \<Rightarrow> mattx_dirent list"

section \<open>Slots\<close>

datatype rpc_site = Site_plain | Site_data nat | Site_dirents nat

fun site_fields :: "rpc_site \<Rightarrow> vfs_rpc_ctx \<Rightarrow> vfs_rpc_ctx" where
  "site_fields Site_plain c = c"
| "site_fields (Site_data p) c = c\<lparr>x_data_buf := Some p\<rparr>"
| "site_fields (Site_dirents p) c = c\<lparr>x_dirents := Some p\<rparr>"

definition fresh_ctx :: "rpc_site \<Rightarrow> u64 \<Rightarrow> vfs_rpc_ctx \<Rightarrow> vfs_rpc_ctx" where
  "fresh_ctx site rid c = site_fields site (c\<lparr>x_in_use := True, x_req_id := rid, x_done := False\<rparr>)"

definition rpc_alloc :: "rpc_site \<Rightarrow> rpc \<Rightarrow> (nat \<times> rpc) option" where
  "rpc_alloc site s =
     (case scan (\<lambda>i. \<not> x_in_use (vfs_rpc_registry s i)) MAX_VFS_RPC of
        None \<Rightarrow> None
      | Some i \<Rightarrow> Some (i, s\<lparr>vfs_rpc_registry := (vfs_rpc_registry s)
            (i := fresh_ctx site (next_req_id s) (vfs_rpc_registry s i)),
          next_req_id := next_req_id s + 1\<rparr>))"

definition rpc_release :: "nat \<Rightarrow> rpc \<Rightarrow> rpc" where
  "rpc_release i s = s\<lparr>vfs_rpc_registry := (vfs_rpc_registry s)
     (i := (vfs_rpc_registry s i)\<lparr>x_in_use := False\<rparr>)\<rparr>"

definition rpc_lookup :: "u64 \<Rightarrow> rpc \<Rightarrow> nat option" where
  "rpc_lookup rid s = scan (\<lambda>i. x_in_use (vfs_rpc_registry s i) \<and> x_req_id (vfs_rpc_registry s i) = rid)
     MAX_VFS_RPC"

text \<open>Fill in the slot of a request and wake its owner.\<close>

definition rpc_complete :: "u64 \<Rightarrow> (vfs_rpc_ctx \<Rightarrow> vfs_rpc_ctx) \<Rightarrow> rpc \<Rightarrow> rpc" where
  "rpc_complete rid f s =
     (case rpc_lookup rid s of None \<Rightarrow> s
      | Some i \<Rightarrow> s\<lparr>vfs_rpc_registry := (vfs_rpc_registry s)
          (i := (f (vfs_rpc_registry s i))\<lparr>x_done := True\<rparr>)\<rparr>)"

definition memcpy_to :: "'a list \<Rightarrow> 'a list \<Rightarrow> 'a list" where
  "memcpy_to src dst = src @ drop (length src) dst"

definition fill_data :: "u64 \<Rightarrow> byte list \<Rightarrow> rpc \<Rightarrow> rpc" where
  "fill_data rid d s =
     (case rpc_lookup rid s of None \<Rightarrow> s
      | Some i \<Rightarrow>
        (case x_data_buf (vfs_rpc_registry s i) of None \<Rightarrow> s
         | Some p \<Rightarrow> s\<lparr>bufs := (bufs s)(p := memcpy_to d (bufs s p))\<rparr>))"

definition fill_dirents :: "u64 \<Rightarrow> mattx_dirent list \<Rightarrow> rpc \<Rightarrow> rpc" where
  "fill_dirents rid d s =
     (case rpc_lookup rid s of None \<Rightarrow> s
      | Some i \<Rightarrow>
        (case x_dirents (vfs_rpc_registry s i) of None \<Rightarrow> s
         | Some p \<Rightarrow> s\<lparr>dbufs := (dbufs s)(p := memcpy_to d (dbufs s p))\<rparr>))"

section \<open>Reply handlers\<close>

definition handle_vfs_getattr_reply :: "u64 \<Rightarrow> int \<Rightarrow> kstat \<Rightarrow> rpc \<Rightarrow> rpc" where
  "handle_vfs_getattr_reply rid err st s =
     rpc_complete rid (\<lambda>c. if err = 0 then c\<lparr>x_error := err, x_stat := st\<rparr> else c\<lparr>x_error := err\<rparr>) s"

definition handle_vfs_readdir_reply :: "u64 \<Rightarrow> int \<Rightarrow> int \<Rightarrow> mattx_dirent list \<Rightarrow> rpc \<Rightarrow> rpc" where
  "handle_vfs_readdir_reply rid err off es s =
     rpc_complete rid (\<lambda>c. if err = 0 then c\<lparr>x_error := err, x_new_offset := off, x_dirent_count := length es\<rparr>
         else c\<lparr>x_error := err\<rparr>)
       (if err = 0 \<and> 0 < length es then fill_dirents rid es s else s)"

definition handle_vfs_open_reply :: "u64 \<Rightarrow> int \<Rightarrow> int \<Rightarrow> rpc \<Rightarrow> rpc" where
  "handle_vfs_open_reply rid fd err s = rpc_complete rid (\<lambda>c. c\<lparr>x_error := err, x_remote_fd := fd\<rparr>) s"

definition handle_vfs_read_reply :: "u64 \<Rightarrow> int \<Rightarrow> byte list \<Rightarrow> rpc \<Rightarrow> rpc" where
  "handle_vfs_read_reply rid n d s =
     rpc_complete rid (\<lambda>c. c\<lparr>x_bytes_rw := n\<rparr>) (if 0 < n then fill_data rid (take (nat n) d) s else s)"

definition handle_vfs_write_reply :: "u64 \<Rightarrow> int \<Rightarrow> int \<Rightarrow> rpc \<Rightarrow> rpc" where
  "handle_vfs_write_reply rid n err s = rpc_complete rid (\<lambda>c. c\<lparr>x_bytes_rw := n, x_error := err\<rparr>) s"

definition handle_vfs_lseek_reply :: "u64 \<Rightarrow> int \<Rightarrow> int \<Rightarrow> rpc \<Rightarrow> rpc" where
  "handle_vfs_lseek_reply rid err off s = rpc_complete rid (\<lambda>c. c\<lparr>x_error := err, x_ret_offset := off\<rparr>) s"

definition handle_vfs_fsync_reply :: "u64 \<Rightarrow> int \<Rightarrow> rpc \<Rightarrow> rpc" where
  "handle_vfs_fsync_reply rid err s = rpc_complete rid (\<lambda>c. c\<lparr>x_error := err\<rparr>) s"

definition handle_dsm_page_fault_reply :: "u64 \<Rightarrow> int \<Rightarrow> page \<Rightarrow> rpc \<Rightarrow> rpc" where
  "handle_dsm_page_fault_reply rid err d s =
     rpc_complete rid (\<lambda>c. c\<lparr>x_error := err\<rparr>) (if err = 0 then fill_data rid d s else s)"

definition handle_dsm_write_acquire_reply :: "u64 \<Rightarrow> int \<Rightarrow> rpc \<Rightarrow> rpc" where
  "handle_dsm_write_acquire_reply rid err s = rpc_complete rid (\<lambda>c. c\<lparr>x_error := err\<rparr>) s"

definition handle_dsm_flush_reply :: "u64 \<Rightarrow> int \<Rightarrow> page \<Rightarrow> rpc \<Rightarrow> rpc" where
  "handle_dsm_flush_reply rid err d s =
     rpc_complete rid (\<lambda>c. c\<lparr>x_error := err\<rparr>) (if err = 0 then fill_data rid d s else s)"

text \<open>The answer to an unlink wakes a file-system client, a surrogate, or both.\<close>

definition handle_sys_unlink_reply :: "u32 \<Rightarrow> u64 \<Rightarrow> u32 \<Rightarrow> int \<Rightarrow> rpc \<times> guests \<Rightarrow> rpc \<times> guests" where
  "handle_sys_unlink_reply sender rid op err sg =
     (if rid \<noteq> 0 then rpc_complete rid (\<lambda>c. c\<lparr>x_error := err\<rparr>) (fst sg) else fst sg,
      if op \<noteq> 0 then
        (case scan (\<lambda>i. orig_pid (slots (snd sg) i) = op \<and> home_node (slots (snd sg) i) = sender) (cnt (snd sg)) of
           None \<Rightarrow> snd sg
         | Some i \<Rightarrow> upd_slot i (\<lambda>g. g\<lparr>rpc_fsync_res := err, rpc_done := True\<rparr>) (snd sg))
      else snd sg)"

text \<open>All the replies that complete a slot, as one type.\<close>

datatype vfs_reply =
  R_getattr u64 int kstat
| R_readdir u64 int int "mattx_dirent list"
| R_open u64 int int
| R_read u64 int "byte list"
| R_write u64 int int
| R_lseek u64 int int
| R_fsync u64 int
| R_fault u64 int page
| R_acquire u64 int
| R_flush u64 int page

fun reply_id :: "vfs_reply \<Rightarrow> u64" where
  "reply_id (R_getattr r _ _) = r" | "reply_id (R_readdir r _ _ _) = r" | "reply_id (R_open r _ _) = r"
| "reply_id (R_read r _ _) = r" | "reply_id (R_write r _ _) = r" | "reply_id (R_lseek r _ _) = r"
| "reply_id (R_fsync r _) = r" | "reply_id (R_fault r _ _) = r" | "reply_id (R_acquire r _) = r"
| "reply_id (R_flush r _ _) = r"

fun handle_reply :: "vfs_reply \<Rightarrow> rpc \<Rightarrow> rpc" where
  "handle_reply (R_getattr r e st) = handle_vfs_getattr_reply r e st"
| "handle_reply (R_readdir r e off es) = handle_vfs_readdir_reply r e off es"
| "handle_reply (R_open r fd e) = handle_vfs_open_reply r fd e"
| "handle_reply (R_read r n d) = handle_vfs_read_reply r n d"
| "handle_reply (R_write r n e) = handle_vfs_write_reply r n e"
| "handle_reply (R_lseek r e off) = handle_vfs_lseek_reply r e off"
| "handle_reply (R_fsync r e) = handle_vfs_fsync_reply r e"
| "handle_reply (R_fault r e d) = handle_dsm_page_fault_reply r e d"
| "handle_reply (R_acquire r e) = handle_dsm_write_acquire_reply r e"
| "handle_reply (R_flush r e d) = handle_dsm_flush_reply r e d"

lemmas reply_defs [mx_defs] =
  handle_vfs_getattr_reply_def handle_vfs_readdir_reply_def handle_vfs_open_reply_def
  handle_vfs_read_reply_def handle_vfs_write_reply_def handle_vfs_lseek_reply_def
  handle_vfs_fsync_reply_def handle_dsm_page_fault_reply_def handle_dsm_write_acquire_reply_def
  handle_dsm_flush_reply_def

section \<open>The slot-table contract\<close>

lemma fresh_ctx_simps [simp]:
  "x_in_use (fresh_ctx site rid c)" "x_req_id (fresh_ctx site rid c) = rid" "\<not> x_done (fresh_ctx site rid c)"
  by (cases site; simp add: fresh_ctx_def)+

lemma rpc_alloc_SomeD:
  assumes "rpc_alloc site s = Some (i, s')"
  shows "i < MAX_VFS_RPC" "\<not> x_in_use (vfs_rpc_registry s i)" "\<And>j. j < i \<Longrightarrow> x_in_use (vfs_rpc_registry s j)"
    "s' = s\<lparr>vfs_rpc_registry := (vfs_rpc_registry s)
            (i := fresh_ctx site (next_req_id s) (vfs_rpc_registry s i)),
          next_req_id := next_req_id s + 1\<rparr>"
  using assms by (auto simp: rpc_alloc_def scan_Some split: option.splits)

interpretation rpct: slot_table MAX_VFS_RPC "\<lambda>s i. x_in_use (vfs_rpc_registry s i)" rpc_alloc rpc_release
proof unfold_locales
  fix a :: rpc_site and t t' i assume "rpc_alloc a t = Some (i, t')"
  note d = rpc_alloc_SomeD [OF this]
  show "i < MAX_VFS_RPC \<and> \<not> x_in_use (vfs_rpc_registry t i) \<and> (\<forall>j<i. x_in_use (vfs_rpc_registry t j))"
    using d by blast
  show "(\<lambda>j. x_in_use (vfs_rpc_registry t' j)) = (\<lambda>j. x_in_use (vfs_rpc_registry t j))(i := True)"
    using d(4) by auto
next
  fix a :: rpc_site and t
  show "rpc_alloc a t = None \<longleftrightarrow> (\<forall>i<MAX_VFS_RPC. x_in_use (vfs_rpc_registry t i))"
    by (auto simp: rpc_alloc_def scan_None split: option.split dest: scan_SomeD)
next
  fix i t
  show "(\<lambda>j. x_in_use (vfs_rpc_registry (rpc_release i t) j)) =
      (\<lambda>j. x_in_use (vfs_rpc_registry t j))(i := False)"
    by (auto simp: rpc_release_def)
qed

section \<open>Request ids\<close>

text \<open>Requests in flight carry distinct ids, all below the counter.\<close>

definition rpc_ok :: "rpc \<Rightarrow> bool" where
  "rpc_ok s \<longleftrightarrow>
     (\<forall>i<MAX_VFS_RPC. x_in_use (vfs_rpc_registry s i) \<longrightarrow>
        unat (x_req_id (vfs_rpc_registry s i)) < unat (next_req_id s)) \<and>
     (\<forall>i<MAX_VFS_RPC. \<forall>j<MAX_VFS_RPC. x_in_use (vfs_rpc_registry s i) \<longrightarrow> x_in_use (vfs_rpc_registry s j) \<longrightarrow>
        x_req_id (vfs_rpc_registry s i) = x_req_id (vfs_rpc_registry s j) \<longrightarrow> i = j)"

lemma unat_Suc: "unat (w::u64) + 1 < 2 ^ 64 \<Longrightarrow> unat (w + 1) = unat w + 1"
  by (simp add: unat_word_ariths)

lemma rpc_ok_alloc:
  assumes "rpc_ok s" "rpc_alloc site s = Some (i, s')" "unat (next_req_id s) + 1 < 2 ^ 64"
  shows "rpc_ok s'" "unat (next_req_id s') = unat (next_req_id s) + 1"
proof -
  note d = rpc_alloc_SomeD [OF assms(2)]
  note n = unat_Suc [OF assms(3)]
  show "unat (next_req_id s') = unat (next_req_id s) + 1" using d(4) n by simp
  have old: "x_req_id (vfs_rpc_registry s j) \<noteq> next_req_id s"
    if "j < MAX_VFS_RPC" "x_in_use (vfs_rpc_registry s j)" for j
  proof -
    have "unat (x_req_id (vfs_rpc_registry s j)) < unat (next_req_id s)"
      using assms(1) that unfolding rpc_ok_def by simp
    then show ?thesis by auto
  qed
  show "rpc_ok s'" unfolding rpc_ok_def
  proof (intro conjI allI impI)
    fix j assume "j < MAX_VFS_RPC" "x_in_use (vfs_rpc_registry s' j)"
    then have j: "j \<noteq> i \<Longrightarrow> unat (x_req_id (vfs_rpc_registry s j)) < unat (next_req_id s)"
      using assms(1) d(4) unfolding rpc_ok_def by simp
    show "unat (x_req_id (vfs_rpc_registry s' j)) < unat (next_req_id s')"
    proof (cases "j = i")
      case False
      then show ?thesis using j d(4) n by simp
    qed (use d(4) n in simp)
  next
    fix j k assume jk: "j < MAX_VFS_RPC" "k < MAX_VFS_RPC" "x_in_use (vfs_rpc_registry s' j)"
      "x_in_use (vfs_rpc_registry s' k)" "x_req_id (vfs_rpc_registry s' j) = x_req_id (vfs_rpc_registry s' k)"
    show "j = k"
    proof (cases "j = i \<or> k = i")
      case True
      then show ?thesis using jk old [of j] old [of k] d(4) by (auto split: if_splits)
    next
      case False
      then show ?thesis using jk assms(1) d(4) unfolding rpc_ok_def by simp
    qed
  qed
qed

lemma rpc_ok_same_ids:
  assumes "rpc_ok s" "next_req_id s' = next_req_id s"
    "\<And>i. x_req_id (vfs_rpc_registry s' i) = x_req_id (vfs_rpc_registry s i)"
    "\<And>i. x_in_use (vfs_rpc_registry s' i) \<Longrightarrow> x_in_use (vfs_rpc_registry s i)"
  shows "rpc_ok s'"
  unfolding rpc_ok_def
proof (intro conjI allI impI)
  fix i assume "i < MAX_VFS_RPC" "x_in_use (vfs_rpc_registry s' i)"
  then show "unat (x_req_id (vfs_rpc_registry s' i)) < unat (next_req_id s')"
    using assms unfolding rpc_ok_def by simp
next
  fix i j assume "i < MAX_VFS_RPC" "j < MAX_VFS_RPC" "x_in_use (vfs_rpc_registry s' i)"
    "x_in_use (vfs_rpc_registry s' j)" "x_req_id (vfs_rpc_registry s' i) = x_req_id (vfs_rpc_registry s' j)"
  then show "i = j" using assms unfolding rpc_ok_def by simp
qed

lemma rpc_ok_release: "rpc_ok s \<Longrightarrow> rpc_ok (rpc_release i s)"
  by (erule rpc_ok_same_ids) (auto simp: rpc_release_def split: if_splits)

lemma rpc_lookup_slot:
  assumes "rpc_ok s" "i < MAX_VFS_RPC" "x_in_use (vfs_rpc_registry s i)"
  shows "rpc_lookup (x_req_id (vfs_rpc_registry s i)) s = Some i"
  unfolding rpc_lookup_def using assms unfolding rpc_ok_def by (intro scan_unique) auto

text \<open>
  What a reply does to the table: it leaves the counter, the occupancy and the ids alone, and
  touches no slot but the one that waits for it.
\<close>

lemma fill_registry [simp]:
  "vfs_rpc_registry (fill_data r d s) = vfs_rpc_registry s" "next_req_id (fill_data r d s) = next_req_id s"
  "vfs_rpc_registry (fill_dirents r es s) = vfs_rpc_registry s" "next_req_id (fill_dirents r es s) = next_req_id s"
  by (simp_all add: fill_data_def fill_dirents_def split: option.split)

lemma rpc_lookup_fill:
  "rpc_lookup r (fill_data q d s) = rpc_lookup r s" "rpc_lookup r (fill_dirents q es s) = rpc_lookup r s"
  by (simp_all add: rpc_lookup_def)

definition reply_upd :: "vfs_reply \<Rightarrow> vfs_rpc_ctx \<Rightarrow> vfs_rpc_ctx" where
  "reply_upd r c = (case r of
      R_getattr _ e st \<Rightarrow> if e = 0 then c\<lparr>x_error := e, x_stat := st\<rparr> else c\<lparr>x_error := e\<rparr>
    | R_readdir _ e off es \<Rightarrow> if e = 0 then c\<lparr>x_error := e, x_new_offset := off, x_dirent_count := length es\<rparr>
        else c\<lparr>x_error := e\<rparr>
    | R_open _ fd e \<Rightarrow> c\<lparr>x_error := e, x_remote_fd := fd\<rparr>
    | R_read _ n _ \<Rightarrow> c\<lparr>x_bytes_rw := n\<rparr>
    | R_write _ n e \<Rightarrow> c\<lparr>x_bytes_rw := n, x_error := e\<rparr>
    | R_lseek _ e off \<Rightarrow> c\<lparr>x_error := e, x_ret_offset := off\<rparr>
    | R_fsync _ e \<Rightarrow> c\<lparr>x_error := e\<rparr> | R_fault _ e _ \<Rightarrow> c\<lparr>x_error := e\<rparr>
    | R_acquire _ e \<Rightarrow> c\<lparr>x_error := e\<rparr> | R_flush _ e _ \<Rightarrow> c\<lparr>x_error := e\<rparr>)\<lparr>x_done := True\<rparr>"

lemma handle_reply_registry:
  "vfs_rpc_registry (handle_reply r s) = (case rpc_lookup (reply_id r) s of None \<Rightarrow> vfs_rpc_registry s
     | Some i \<Rightarrow> (vfs_rpc_registry s)(i := reply_upd r (vfs_rpc_registry s i)))"
  "next_req_id (handle_reply r s) = next_req_id s"
  by (cases r; simp add: mx_defs rpc_complete_def reply_upd_def rpc_lookup_fill split: option.split)+

lemma reply_upd_simps [simp]:
  "x_req_id (reply_upd r c) = x_req_id c" "x_in_use (reply_upd r c) = x_in_use c" "x_done (reply_upd r c)"
  by (cases r; simp add: reply_upd_def)+

lemma rpc_ok_reply: "rpc_ok s \<Longrightarrow> rpc_ok (handle_reply r s)"
  by (erule rpc_ok_same_ids) (auto simp: handle_reply_registry split: option.splits if_splits)

section \<open>Interleavings\<close>

text \<open>Anything else that can happen to the table while a request is in flight.\<close>

datatype rpc_ev = Ev_alloc rpc_site | Ev_reply vfs_reply | Ev_release nat

fun rpc_event :: "rpc_ev \<Rightarrow> rpc \<Rightarrow> rpc" where
  "rpc_event (Ev_alloc site) s = (case rpc_alloc site s of Some (_, s') \<Rightarrow> s' | None \<Rightarrow> s)"
| "rpc_event (Ev_reply r) s = handle_reply r s"
| "rpc_event (Ev_release i) s = rpc_release i s"

fun foreign :: "nat \<Rightarrow> u64 \<Rightarrow> rpc_ev \<Rightarrow> bool" where
  "foreign i rid (Ev_alloc site) = True"
| "foreign i rid (Ev_reply r) = (reply_id r \<noteq> rid)"
| "foreign i rid (Ev_release j) = (j \<noteq> i)"

lemma rpc_event_ok:
  assumes "rpc_ok s" "unat (next_req_id s) + 1 < 2 ^ 64"
  shows "rpc_ok (rpc_event e s) \<and> unat (next_req_id (rpc_event e s)) \<le> unat (next_req_id s) + 1"
proof (cases e)
  case (Ev_alloc site)
  then show ?thesis using assms rpc_ok_alloc [OF assms(1) _ assms(2)]
    by (auto split: option.splits)
next
  case (Ev_reply r)
  then show ?thesis using assms by (simp add: rpc_ok_reply handle_reply_registry)
next
  case (Ev_release i)
  then show ?thesis using assms rpc_ok_release by (simp add: rpc_release_def)
qed

lemma rpc_event_foreign:
  assumes "rpc_ok s" "i < MAX_VFS_RPC" "x_in_use (vfs_rpc_registry s i)"
    "foreign i (x_req_id (vfs_rpc_registry s i)) e"
  shows "vfs_rpc_registry (rpc_event e s) i = vfs_rpc_registry s i"
proof (cases e)
  case (Ev_alloc site)
  have "vfs_rpc_registry s' i = vfs_rpc_registry s i" if a: "rpc_alloc site s = Some (k, s')" for k s'
    using assms(3) rpc_alloc_SomeD(2,4) [OF a] by auto
  with Ev_alloc show ?thesis by (auto split: option.split)
next
  case (Ev_reply r)
  then have "reply_id r \<noteq> x_req_id (vfs_rpc_registry s i)" using assms(4) by simp
  then have "rpc_lookup (reply_id r) s \<noteq> Some i"
    by (auto simp: rpc_lookup_def scan_Some)
  then show ?thesis using Ev_reply by (auto simp: handle_reply_registry split: option.split)
next
  case (Ev_release j)
  then show ?thesis using assms(4) by (simp add: rpc_release_def)
qed

lemma rpc_events_foreign:
  assumes "rpc_ok s" "i < MAX_VFS_RPC" "x_in_use (vfs_rpc_registry s i)"
    "unat (next_req_id s) + length es < 2 ^ 64"
    "\<forall>e\<in>set es. foreign i (x_req_id (vfs_rpc_registry s i)) e"
  shows "rpc_ok (fold rpc_event es s) \<and> vfs_rpc_registry (fold rpc_event es s) i = vfs_rpc_registry s i"
  using assms
proof (induction es arbitrary: s)
  case (Cons e es)
  have "unat (next_req_id s) + 1 < 2 ^ 64" using Cons.prems(4) by simp
  note ok = rpc_event_ok [OF Cons.prems(1) this, of e]
  have same: "vfs_rpc_registry (rpc_event e s) i = vfs_rpc_registry s i"
    using Cons.prems by (intro rpc_event_foreign) auto
  have "rpc_ok (fold rpc_event es (rpc_event e s)) \<and>
      vfs_rpc_registry (fold rpc_event es (rpc_event e s)) i = vfs_rpc_registry (rpc_event e s) i"
    using Cons.prems ok same by (intro Cons.IH) auto
  with same show ?case by simp
qed simp

text \<open>
  C11. Request/reply matching. Take any table whose ids in flight are distinct and below the
  counter. Whatever other requests,
  replies to other requests and releases of other slots happen afterwards, in any order and
  number (up to the wrap of the 64-bit counter), the slot stays as it was and the owner stays
  asleep; the reply with the request's id then completes this slot with its own contents and
  touches no other. A further request is refused exactly when all 64 slots are taken.
\<close>

theorem rpc_reply_isolated:
  assumes "rpc_ok s" and "rpc_alloc site s = Some (i, s1)"
    and "unat (next_req_id s) + 1 + length es < 2 ^ 64"
    and "\<forall>e\<in>set es. foreign i (next_req_id s) e"
    and "s2 = fold rpc_event es s1" and "reply_id r = next_req_id s"
  shows "(rpc_alloc site' s1 = None \<longleftrightarrow> (\<forall>j<MAX_VFS_RPC. x_in_use (vfs_rpc_registry s1 j))) \<and>
    vfs_rpc_registry s2 i = vfs_rpc_registry s1 i \<and> \<not> x_done (vfs_rpc_registry s2 i) \<and>
    vfs_rpc_registry (handle_reply r s2) = (vfs_rpc_registry s2)(i := reply_upd r (vfs_rpc_registry s1 i))"
proof -
  note d = rpc_alloc_SomeD [OF assms(2)]
  have ok1: "rpc_ok s1" "unat (next_req_id s1) = unat (next_req_id s) + 1"
    using rpc_ok_alloc [OF assms(1,2)] assms(3) by simp_all
  have c: "x_in_use (vfs_rpc_registry s1 i)" "x_req_id (vfs_rpc_registry s1 i) = next_req_id s"
      "\<not> x_done (vfs_rpc_registry s1 i)" using d(4) by simp_all
  have f: "rpc_ok s2" "vfs_rpc_registry s2 i = vfs_rpc_registry s1 i"
    using rpc_events_foreign [OF ok1(1) d(1) c(1), of es] ok1(2) assms(3-5) c(2) by simp_all
  moreover have "rpc_lookup (next_req_id s) s2 = Some i"
    using rpc_lookup_slot [OF f(1) d(1)] f(2) c by simp
  ultimately show ?thesis using c(3) assms(6) rpct.alloc_full [of site' s1]
    by (simp add: handle_reply_registry)
qed

definition empty_ctx :: vfs_rpc_ctx where
  "empty_ctx = \<lparr>x_req_id = 0, x_done = False, x_error = 0, x_stat = \<lparr>st_mode = 0, st_size = 0, st_blocks = 0,
     st_blksize = 0, st_uid = 0, st_gid = 0, st_nlink = 0\<rparr>, x_dirents = None, x_dirent_count = 0,
     x_new_offset = 0, x_remote_fd = 0, x_bytes_rw = 0, x_data_buf = None, x_ret_offset = 0, x_in_use = False\<rparr>"

definition empty_rpc :: rpc where
  "empty_rpc = \<lparr>vfs_rpc_registry = (\<lambda>_. empty_ctx), next_req_id = 1, bufs = (\<lambda>_. []), dbufs = (\<lambda>_. [])\<rparr>"

lemma rpc_ok_empty: "rpc_ok empty_rpc"
  by (simp add: rpc_ok_def empty_rpc_def empty_ctx_def)

theorem rpc_reply_isolated_witness:
  "\<exists>s1. rpc_alloc Site_plain empty_rpc = Some (0, s1) \<and>
     (let s2 = fold rpc_event [Ev_alloc Site_plain, Ev_reply (R_fsync 2 (- 5)), Ev_release 1] s1 in
      x_error (vfs_rpc_registry (handle_reply (R_open 1 7 0) s2) 0) = 0 \<and>
      x_remote_fd (vfs_rpc_registry (handle_reply (R_open 1 7 0) s2) 0) = 7)"
proof -
  let ?es = "[Ev_alloc Site_plain, Ev_reply (R_fsync 2 (- 5)), Ev_release 1]"
  have free: "\<not> x_in_use (vfs_rpc_registry empty_rpc 0)" by (simp add: empty_rpc_def empty_ctx_def)
  then have "\<exists>j s'. rpc_alloc Site_plain empty_rpc = Some (j, s') \<and> j \<le> 0"
    by (intro rpct.alloc_ok) simp_all
  then obtain s1 where a: "rpc_alloc Site_plain empty_rpc = Some (0, s1)" by auto
  have n: "next_req_id empty_rpc = 1" by (simp add: empty_rpc_def)
  have "vfs_rpc_registry (handle_reply (R_open 1 7 0) (fold rpc_event ?es s1)) =
      (vfs_rpc_registry (fold rpc_event ?es s1))(0 := reply_upd (R_open 1 7 0) (vfs_rpc_registry s1 0))"
    using rpc_reply_isolated [OF rpc_ok_empty a, of ?es "fold rpc_event ?es s1" "R_open 1 7 0" Site_plain] n by simp
  with a show ?thesis by (auto simp: Let_def reply_upd_def)
qed

end
