(* ===== verification/Mx_Msg.thy ===== *)
theory Mx_Msg
  imports Mx_Prelude
begin

text \<open>
  The message types of the cluster protocol (\<^verbatim>\<open>enum mattx_msg_type\<close> of
  \<^verbatim>\<open>mattx.h\<close>). C gives the enumerators consecutive numbers from 1 on; each is a
  32-bit number here, as it travels in the header, and \<open>mattx_msg_type\<close> lists them in
  the order of the source.
\<close>

abbreviation (input) MATTX_MSG_HEARTBEAT :: u32 where "MATTX_MSG_HEARTBEAT \<equiv> 1"
abbreviation (input) MATTX_MSG_LOAD_UPDATE :: u32 where "MATTX_MSG_LOAD_UPDATE \<equiv> 2"
abbreviation (input) MATTX_MSG_MIGRATE_REQ :: u32 where "MATTX_MSG_MIGRATE_REQ \<equiv> 3"
abbreviation (input) MATTX_MSG_READY_FOR_DATA :: u32 where "MATTX_MSG_READY_FOR_DATA \<equiv> 4"
abbreviation (input) MATTX_MSG_PAGE_TRANSFER :: u32 where "MATTX_MSG_PAGE_TRANSFER \<equiv> 5"
abbreviation (input) MATTX_MSG_MIGRATE_DONE :: u32 where "MATTX_MSG_MIGRATE_DONE \<equiv> 6"
abbreviation (input) MATTX_MSG_PROCESS_EXIT :: u32 where "MATTX_MSG_PROCESS_EXIT \<equiv> 7"
abbreviation (input) MATTX_MSG_KILL_SURROGATE :: u32 where "MATTX_MSG_KILL_SURROGATE \<equiv> 8"
abbreviation (input) MATTX_MSG_SYSCALL_FWD :: u32 where "MATTX_MSG_SYSCALL_FWD \<equiv> 9"
abbreviation (input) MATTX_MSG_RECALL_REQ :: u32 where "MATTX_MSG_RECALL_REQ \<equiv> 10"
abbreviation (input) MATTX_MSG_RETURN_BLUEPRINT :: u32 where "MATTX_MSG_RETURN_BLUEPRINT \<equiv> 11"
abbreviation (input) MATTX_MSG_RETURN_DONE :: u32 where "MATTX_MSG_RETURN_DONE \<equiv> 12"
abbreviation (input) MATTX_MSG_SYS_OPEN_REQ :: u32 where "MATTX_MSG_SYS_OPEN_REQ \<equiv> 13"
abbreviation (input) MATTX_MSG_SYS_OPEN_REPLY :: u32 where "MATTX_MSG_SYS_OPEN_REPLY \<equiv> 14"
abbreviation (input) MATTX_MSG_SYS_CLOSE_REQ :: u32 where "MATTX_MSG_SYS_CLOSE_REQ \<equiv> 15"
abbreviation (input) MATTX_MSG_SYS_READ_REQ :: u32 where "MATTX_MSG_SYS_READ_REQ \<equiv> 16"
abbreviation (input) MATTX_MSG_SYS_READ_REPLY :: u32 where "MATTX_MSG_SYS_READ_REPLY \<equiv> 17"
abbreviation (input) MATTX_MSG_SYS_LSEEK_REQ :: u32 where "MATTX_MSG_SYS_LSEEK_REQ \<equiv> 18"
abbreviation (input) MATTX_MSG_SYS_LSEEK_REPLY :: u32 where "MATTX_MSG_SYS_LSEEK_REPLY \<equiv> 19"
abbreviation (input) MATTX_MSG_SYS_STATX_REQ :: u32 where "MATTX_MSG_SYS_STATX_REQ \<equiv> 20"
abbreviation (input) MATTX_MSG_SYS_STATX_REPLY :: u32 where "MATTX_MSG_SYS_STATX_REPLY \<equiv> 21"
abbreviation (input) MATTX_MSG_SYS_DUP_REQ :: u32 where "MATTX_MSG_SYS_DUP_REQ \<equiv> 22"
abbreviation (input) MATTX_MSG_SYS_DUP_REPLY :: u32 where "MATTX_MSG_SYS_DUP_REPLY \<equiv> 23"
abbreviation (input) MATTX_MSG_SYS_FSYNC_REQ :: u32 where "MATTX_MSG_SYS_FSYNC_REQ \<equiv> 24"
abbreviation (input) MATTX_MSG_SYS_FSYNC_REPLY :: u32 where "MATTX_MSG_SYS_FSYNC_REPLY \<equiv> 25"
abbreviation (input) MATTX_MSG_SYS_SOCKET_REQ :: u32 where "MATTX_MSG_SYS_SOCKET_REQ \<equiv> 26"
abbreviation (input) MATTX_MSG_SYS_SOCKET_REPLY :: u32 where "MATTX_MSG_SYS_SOCKET_REPLY \<equiv> 27"
abbreviation (input) MATTX_MSG_SYS_CONNECT_REQ :: u32 where "MATTX_MSG_SYS_CONNECT_REQ \<equiv> 28"
abbreviation (input) MATTX_MSG_SYS_CONNECT_REPLY :: u32 where "MATTX_MSG_SYS_CONNECT_REPLY \<equiv> 29"
abbreviation (input) MATTX_MSG_SYS_BIND_REQ :: u32 where "MATTX_MSG_SYS_BIND_REQ \<equiv> 30"
abbreviation (input) MATTX_MSG_SYS_BIND_REPLY :: u32 where "MATTX_MSG_SYS_BIND_REPLY \<equiv> 31"
abbreviation (input) MATTX_MSG_SYS_LISTEN_REQ :: u32 where "MATTX_MSG_SYS_LISTEN_REQ \<equiv> 32"
abbreviation (input) MATTX_MSG_SYS_LISTEN_REPLY :: u32 where "MATTX_MSG_SYS_LISTEN_REPLY \<equiv> 33"
abbreviation (input) MATTX_MSG_SYS_SEND_REQ :: u32 where "MATTX_MSG_SYS_SEND_REQ \<equiv> 34"
abbreviation (input) MATTX_MSG_SYS_SEND_REPLY :: u32 where "MATTX_MSG_SYS_SEND_REPLY \<equiv> 35"
abbreviation (input) MATTX_MSG_SYS_RECV_REQ :: u32 where "MATTX_MSG_SYS_RECV_REQ \<equiv> 36"
abbreviation (input) MATTX_MSG_SYS_RECV_REPLY :: u32 where "MATTX_MSG_SYS_RECV_REPLY \<equiv> 37"
abbreviation (input) MATTX_MSG_SYS_ACCEPT_REQ :: u32 where "MATTX_MSG_SYS_ACCEPT_REQ \<equiv> 38"
abbreviation (input) MATTX_MSG_SYS_ACCEPT_REPLY :: u32 where "MATTX_MSG_SYS_ACCEPT_REPLY \<equiv> 39"
abbreviation (input) MATTX_MSG_SYS_POLL_REQ :: u32 where "MATTX_MSG_SYS_POLL_REQ \<equiv> 40"
abbreviation (input) MATTX_MSG_SYS_POLL_REPLY :: u32 where "MATTX_MSG_SYS_POLL_REPLY \<equiv> 41"
abbreviation (input) MATTX_MSG_VFS_GETATTR_REQ :: u32 where "MATTX_MSG_VFS_GETATTR_REQ \<equiv> 42"
abbreviation (input) MATTX_MSG_VFS_GETATTR_REPLY :: u32 where "MATTX_MSG_VFS_GETATTR_REPLY \<equiv> 43"
abbreviation (input) MATTX_MSG_VFS_READDIR_REQ :: u32 where "MATTX_MSG_VFS_READDIR_REQ \<equiv> 44"
abbreviation (input) MATTX_MSG_VFS_READDIR_REPLY :: u32 where "MATTX_MSG_VFS_READDIR_REPLY \<equiv> 45"
abbreviation (input) MATTX_MSG_VFS_OPEN_REQ :: u32 where "MATTX_MSG_VFS_OPEN_REQ \<equiv> 46"
abbreviation (input) MATTX_MSG_VFS_OPEN_REPLY :: u32 where "MATTX_MSG_VFS_OPEN_REPLY \<equiv> 47"
abbreviation (input) MATTX_MSG_VFS_READ_REQ :: u32 where "MATTX_MSG_VFS_READ_REQ \<equiv> 48"
abbreviation (input) MATTX_MSG_VFS_READ_REPLY :: u32 where "MATTX_MSG_VFS_READ_REPLY \<equiv> 49"
abbreviation (input) MATTX_MSG_VFS_WRITE_REQ :: u32 where "MATTX_MSG_VFS_WRITE_REQ \<equiv> 50"
abbreviation (input) MATTX_MSG_VFS_WRITE_REPLY :: u32 where "MATTX_MSG_VFS_WRITE_REPLY \<equiv> 51"
abbreviation (input) MATTX_MSG_VFS_CLOSE_REQ :: u32 where "MATTX_MSG_VFS_CLOSE_REQ \<equiv> 52"
abbreviation (input) MATTX_MSG_VFS_LSEEK_REQ :: u32 where "MATTX_MSG_VFS_LSEEK_REQ \<equiv> 53"
abbreviation (input) MATTX_MSG_VFS_LSEEK_REPLY :: u32 where "MATTX_MSG_VFS_LSEEK_REPLY \<equiv> 54"
abbreviation (input) MATTX_MSG_VFS_FSYNC_REQ :: u32 where "MATTX_MSG_VFS_FSYNC_REQ \<equiv> 55"
abbreviation (input) MATTX_MSG_VFS_FSYNC_REPLY :: u32 where "MATTX_MSG_VFS_FSYNC_REPLY \<equiv> 56"
abbreviation (input) MATTX_MSG_SYS_UNLINK_REQ :: u32 where "MATTX_MSG_SYS_UNLINK_REQ \<equiv> 57"
abbreviation (input) MATTX_MSG_SYS_UNLINK_REPLY :: u32 where "MATTX_MSG_SYS_UNLINK_REPLY \<equiv> 58"
abbreviation (input) MATTX_MSG_SYS_EPOLL_CREATE_REQ :: u32 where "MATTX_MSG_SYS_EPOLL_CREATE_REQ \<equiv> 59"
abbreviation (input) MATTX_MSG_SYS_EPOLL_CREATE_REPLY :: u32 where "MATTX_MSG_SYS_EPOLL_CREATE_REPLY \<equiv> 60"
abbreviation (input) MATTX_MSG_SYS_EPOLL_CTL_REQ :: u32 where "MATTX_MSG_SYS_EPOLL_CTL_REQ \<equiv> 61"
abbreviation (input) MATTX_MSG_SYS_EPOLL_CTL_REPLY :: u32 where "MATTX_MSG_SYS_EPOLL_CTL_REPLY \<equiv> 62"
abbreviation (input) MATTX_MSG_SYS_EPOLL_WAIT_REQ :: u32 where "MATTX_MSG_SYS_EPOLL_WAIT_REQ \<equiv> 63"
abbreviation (input) MATTX_MSG_SYS_EPOLL_WAIT_REPLY :: u32 where "MATTX_MSG_SYS_EPOLL_WAIT_REPLY \<equiv> 64"
abbreviation (input) MATTX_MSG_SYS_GETSOCKNAME_REQ :: u32 where "MATTX_MSG_SYS_GETSOCKNAME_REQ \<equiv> 65"
abbreviation (input) MATTX_MSG_SYS_GETSOCKNAME_REPLY :: u32 where "MATTX_MSG_SYS_GETSOCKNAME_REPLY \<equiv> 66"
abbreviation (input) MATTX_MSG_SYS_GETPEERNAME_REQ :: u32 where "MATTX_MSG_SYS_GETPEERNAME_REQ \<equiv> 67"
abbreviation (input) MATTX_MSG_SYS_GETPEERNAME_REPLY :: u32 where "MATTX_MSG_SYS_GETPEERNAME_REPLY \<equiv> 68"
abbreviation (input) MATTX_MSG_SYS_SETSOCKOPT_REQ :: u32 where "MATTX_MSG_SYS_SETSOCKOPT_REQ \<equiv> 69"
abbreviation (input) MATTX_MSG_SYS_SETSOCKOPT_REPLY :: u32 where "MATTX_MSG_SYS_SETSOCKOPT_REPLY \<equiv> 70"
abbreviation (input) MATTX_MSG_SYS_GETSOCKOPT_REQ :: u32 where "MATTX_MSG_SYS_GETSOCKOPT_REQ \<equiv> 71"
abbreviation (input) MATTX_MSG_SYS_GETSOCKOPT_REPLY :: u32 where "MATTX_MSG_SYS_GETSOCKOPT_REPLY \<equiv> 72"
abbreviation (input) MATTX_MSG_SYS_SENDMSG_REQ :: u32 where "MATTX_MSG_SYS_SENDMSG_REQ \<equiv> 73"
abbreviation (input) MATTX_MSG_SYS_SENDMSG_REPLY :: u32 where "MATTX_MSG_SYS_SENDMSG_REPLY \<equiv> 74"
abbreviation (input) MATTX_MSG_SYS_RECVMSG_REQ :: u32 where "MATTX_MSG_SYS_RECVMSG_REQ \<equiv> 75"
abbreviation (input) MATTX_MSG_SYS_RECVMSG_REPLY :: u32 where "MATTX_MSG_SYS_RECVMSG_REPLY \<equiv> 76"
abbreviation (input) MATTX_MSG_SYS_UNAME_REQ :: u32 where "MATTX_MSG_SYS_UNAME_REQ \<equiv> 77"
abbreviation (input) MATTX_MSG_SYS_UNAME_REPLY :: u32 where "MATTX_MSG_SYS_UNAME_REPLY \<equiv> 78"
abbreviation (input) MATTX_MSG_SYS_PRLIMIT64_REQ :: u32 where "MATTX_MSG_SYS_PRLIMIT64_REQ \<equiv> 79"
abbreviation (input) MATTX_MSG_SYS_PRLIMIT64_REPLY :: u32 where "MATTX_MSG_SYS_PRLIMIT64_REPLY \<equiv> 80"
abbreviation (input) MATTX_MSG_SYS_PRCTL_REQ :: u32 where "MATTX_MSG_SYS_PRCTL_REQ \<equiv> 81"
abbreviation (input) MATTX_MSG_SYS_PRCTL_REPLY :: u32 where "MATTX_MSG_SYS_PRCTL_REPLY \<equiv> 82"
abbreviation (input) MATTX_MSG_SYS_FCNTL_REQ :: u32 where "MATTX_MSG_SYS_FCNTL_REQ \<equiv> 83"
abbreviation (input) MATTX_MSG_SYS_FCNTL_REPLY :: u32 where "MATTX_MSG_SYS_FCNTL_REPLY \<equiv> 84"
abbreviation (input) MATTX_MSG_SYS_IOCTL_REQ :: u32 where "MATTX_MSG_SYS_IOCTL_REQ \<equiv> 85"
abbreviation (input) MATTX_MSG_SYS_IOCTL_REPLY :: u32 where "MATTX_MSG_SYS_IOCTL_REPLY \<equiv> 86"
abbreviation (input) MATTX_MSG_SYS_PREAD64_REQ :: u32 where "MATTX_MSG_SYS_PREAD64_REQ \<equiv> 87"
abbreviation (input) MATTX_MSG_SYS_PREAD64_REPLY :: u32 where "MATTX_MSG_SYS_PREAD64_REPLY \<equiv> 88"
abbreviation (input) MATTX_MSG_SYS_STATFS_REQ :: u32 where "MATTX_MSG_SYS_STATFS_REQ \<equiv> 89"
abbreviation (input) MATTX_MSG_SYS_STATFS_REPLY :: u32 where "MATTX_MSG_SYS_STATFS_REPLY \<equiv> 90"
abbreviation (input) MATTX_MSG_SYS_FSTATFS_REQ :: u32 where "MATTX_MSG_SYS_FSTATFS_REQ \<equiv> 91"
abbreviation (input) MATTX_MSG_SYS_FSTATFS_REPLY :: u32 where "MATTX_MSG_SYS_FSTATFS_REPLY \<equiv> 92"
abbreviation (input) MATTX_MSG_SYS_NEWFSTATAT_REQ :: u32 where "MATTX_MSG_SYS_NEWFSTATAT_REQ \<equiv> 93"
abbreviation (input) MATTX_MSG_SYS_NEWFSTATAT_REPLY :: u32 where "MATTX_MSG_SYS_NEWFSTATAT_REPLY \<equiv> 94"
abbreviation (input) MATTX_MSG_SYS_FACCESSAT2_REQ :: u32 where "MATTX_MSG_SYS_FACCESSAT2_REQ \<equiv> 95"
abbreviation (input) MATTX_MSG_SYS_FACCESSAT2_REPLY :: u32 where "MATTX_MSG_SYS_FACCESSAT2_REPLY \<equiv> 96"
abbreviation (input) MATTX_MSG_SYS_READLINK_REQ :: u32 where "MATTX_MSG_SYS_READLINK_REQ \<equiv> 97"
abbreviation (input) MATTX_MSG_SYS_READLINK_REPLY :: u32 where "MATTX_MSG_SYS_READLINK_REPLY \<equiv> 98"
abbreviation (input) MATTX_MSG_SYS_READLINKAT_REQ :: u32 where "MATTX_MSG_SYS_READLINKAT_REQ \<equiv> 99"
abbreviation (input) MATTX_MSG_SYS_READLINKAT_REPLY :: u32 where "MATTX_MSG_SYS_READLINKAT_REPLY \<equiv> 100"
abbreviation (input) MATTX_MSG_SYS_GETDENTS64_REQ :: u32 where "MATTX_MSG_SYS_GETDENTS64_REQ \<equiv> 101"
abbreviation (input) MATTX_MSG_SYS_GETDENTS64_REPLY :: u32 where "MATTX_MSG_SYS_GETDENTS64_REPLY \<equiv> 102"
abbreviation (input) MATTX_MSG_SYS_PIPE2_REQ :: u32 where "MATTX_MSG_SYS_PIPE2_REQ \<equiv> 103"
abbreviation (input) MATTX_MSG_SYS_PIPE2_REPLY :: u32 where "MATTX_MSG_SYS_PIPE2_REPLY \<equiv> 104"
abbreviation (input) MATTX_MSG_SYS_SHMGET_REQ :: u32 where "MATTX_MSG_SYS_SHMGET_REQ \<equiv> 105"
abbreviation (input) MATTX_MSG_SYS_SHMGET_REPLY :: u32 where "MATTX_MSG_SYS_SHMGET_REPLY \<equiv> 106"
abbreviation (input) MATTX_MSG_SYS_SHMAT_REQ :: u32 where "MATTX_MSG_SYS_SHMAT_REQ \<equiv> 107"
abbreviation (input) MATTX_MSG_SYS_SHMAT_REPLY :: u32 where "MATTX_MSG_SYS_SHMAT_REPLY \<equiv> 108"
abbreviation (input) MATTX_MSG_SYS_SHMDT_REQ :: u32 where "MATTX_MSG_SYS_SHMDT_REQ \<equiv> 109"
abbreviation (input) MATTX_MSG_SYS_SHMDT_REPLY :: u32 where "MATTX_MSG_SYS_SHMDT_REPLY \<equiv> 110"
abbreviation (input) MATTX_MSG_SYS_SHMCTL_REQ :: u32 where "MATTX_MSG_SYS_SHMCTL_REQ \<equiv> 111"
abbreviation (input) MATTX_MSG_SYS_SHMCTL_REPLY :: u32 where "MATTX_MSG_SYS_SHMCTL_REPLY \<equiv> 112"
abbreviation (input) MATTX_MSG_DSM_PAGE_FAULT_REQ :: u32 where "MATTX_MSG_DSM_PAGE_FAULT_REQ \<equiv> 113"
abbreviation (input) MATTX_MSG_DSM_PAGE_FAULT_REPLY :: u32 where "MATTX_MSG_DSM_PAGE_FAULT_REPLY \<equiv> 114"
abbreviation (input) MATTX_MSG_DSM_PAGE_UPDATE :: u32 where "MATTX_MSG_DSM_PAGE_UPDATE \<equiv> 115"
abbreviation (input) MATTX_MSG_DSM_WRITE_ACQUIRE_REQ :: u32 where "MATTX_MSG_DSM_WRITE_ACQUIRE_REQ \<equiv> 116"
abbreviation (input) MATTX_MSG_DSM_WRITE_ACQUIRE_REPLY :: u32 where "MATTX_MSG_DSM_WRITE_ACQUIRE_REPLY \<equiv> 117"
abbreviation (input) MATTX_MSG_DSM_INVALIDATE_REQ :: u32 where "MATTX_MSG_DSM_INVALIDATE_REQ \<equiv> 118"
abbreviation (input) MATTX_MSG_DSM_INVALIDATE_REPLY :: u32 where "MATTX_MSG_DSM_INVALIDATE_REPLY \<equiv> 119"
abbreviation (input) MATTX_MSG_DSM_FLUSH_REQ :: u32 where "MATTX_MSG_DSM_FLUSH_REQ \<equiv> 120"
abbreviation (input) MATTX_MSG_DSM_FLUSH_REPLY :: u32 where "MATTX_MSG_DSM_FLUSH_REPLY \<equiv> 121"

definition mattx_msg_type :: "u32 list" where
  "mattx_msg_type = [
    MATTX_MSG_HEARTBEAT, MATTX_MSG_LOAD_UPDATE, MATTX_MSG_MIGRATE_REQ,
    MATTX_MSG_READY_FOR_DATA, MATTX_MSG_PAGE_TRANSFER, MATTX_MSG_MIGRATE_DONE,
    MATTX_MSG_PROCESS_EXIT, MATTX_MSG_KILL_SURROGATE, MATTX_MSG_SYSCALL_FWD,
    MATTX_MSG_RECALL_REQ, MATTX_MSG_RETURN_BLUEPRINT, MATTX_MSG_RETURN_DONE,
    MATTX_MSG_SYS_OPEN_REQ, MATTX_MSG_SYS_OPEN_REPLY, MATTX_MSG_SYS_CLOSE_REQ,
    MATTX_MSG_SYS_READ_REQ, MATTX_MSG_SYS_READ_REPLY, MATTX_MSG_SYS_LSEEK_REQ,
    MATTX_MSG_SYS_LSEEK_REPLY, MATTX_MSG_SYS_STATX_REQ, MATTX_MSG_SYS_STATX_REPLY,
    MATTX_MSG_SYS_DUP_REQ, MATTX_MSG_SYS_DUP_REPLY, MATTX_MSG_SYS_FSYNC_REQ,
    MATTX_MSG_SYS_FSYNC_REPLY, MATTX_MSG_SYS_SOCKET_REQ, MATTX_MSG_SYS_SOCKET_REPLY,
    MATTX_MSG_SYS_CONNECT_REQ, MATTX_MSG_SYS_CONNECT_REPLY, MATTX_MSG_SYS_BIND_REQ,
    MATTX_MSG_SYS_BIND_REPLY, MATTX_MSG_SYS_LISTEN_REQ, MATTX_MSG_SYS_LISTEN_REPLY,
    MATTX_MSG_SYS_SEND_REQ, MATTX_MSG_SYS_SEND_REPLY, MATTX_MSG_SYS_RECV_REQ,
    MATTX_MSG_SYS_RECV_REPLY, MATTX_MSG_SYS_ACCEPT_REQ, MATTX_MSG_SYS_ACCEPT_REPLY,
    MATTX_MSG_SYS_POLL_REQ, MATTX_MSG_SYS_POLL_REPLY, MATTX_MSG_VFS_GETATTR_REQ,
    MATTX_MSG_VFS_GETATTR_REPLY, MATTX_MSG_VFS_READDIR_REQ, MATTX_MSG_VFS_READDIR_REPLY,
    MATTX_MSG_VFS_OPEN_REQ, MATTX_MSG_VFS_OPEN_REPLY, MATTX_MSG_VFS_READ_REQ,
    MATTX_MSG_VFS_READ_REPLY, MATTX_MSG_VFS_WRITE_REQ, MATTX_MSG_VFS_WRITE_REPLY,
    MATTX_MSG_VFS_CLOSE_REQ, MATTX_MSG_VFS_LSEEK_REQ, MATTX_MSG_VFS_LSEEK_REPLY,
    MATTX_MSG_VFS_FSYNC_REQ, MATTX_MSG_VFS_FSYNC_REPLY, MATTX_MSG_SYS_UNLINK_REQ,
    MATTX_MSG_SYS_UNLINK_REPLY, MATTX_MSG_SYS_EPOLL_CREATE_REQ,
    MATTX_MSG_SYS_EPOLL_CREATE_REPLY, MATTX_MSG_SYS_EPOLL_CTL_REQ,
    MATTX_MSG_SYS_EPOLL_CTL_REPLY, MATTX_MSG_SYS_EPOLL_WAIT_REQ,
    MATTX_MSG_SYS_EPOLL_WAIT_REPLY, MATTX_MSG_SYS_GETSOCKNAME_REQ,
    MATTX_MSG_SYS_GETSOCKNAME_REPLY, MATTX_MSG_SYS_GETPEERNAME_REQ,
    MATTX_MSG_SYS_GETPEERNAME_REPLY, MATTX_MSG_SYS_SETSOCKOPT_REQ,
    MATTX_MSG_SYS_SETSOCKOPT_REPLY, MATTX_MSG_SYS_GETSOCKOPT_REQ,
    MATTX_MSG_SYS_GETSOCKOPT_REPLY, MATTX_MSG_SYS_SENDMSG_REQ, MATTX_MSG_SYS_SENDMSG_REPLY,
    MATTX_MSG_SYS_RECVMSG_REQ, MATTX_MSG_SYS_RECVMSG_REPLY, MATTX_MSG_SYS_UNAME_REQ,
    MATTX_MSG_SYS_UNAME_REPLY, MATTX_MSG_SYS_PRLIMIT64_REQ, MATTX_MSG_SYS_PRLIMIT64_REPLY,
    MATTX_MSG_SYS_PRCTL_REQ, MATTX_MSG_SYS_PRCTL_REPLY, MATTX_MSG_SYS_FCNTL_REQ,
    MATTX_MSG_SYS_FCNTL_REPLY, MATTX_MSG_SYS_IOCTL_REQ, MATTX_MSG_SYS_IOCTL_REPLY,
    MATTX_MSG_SYS_PREAD64_REQ, MATTX_MSG_SYS_PREAD64_REPLY, MATTX_MSG_SYS_STATFS_REQ,
    MATTX_MSG_SYS_STATFS_REPLY, MATTX_MSG_SYS_FSTATFS_REQ, MATTX_MSG_SYS_FSTATFS_REPLY,
    MATTX_MSG_SYS_NEWFSTATAT_REQ, MATTX_MSG_SYS_NEWFSTATAT_REPLY, MATTX_MSG_SYS_FACCESSAT2_REQ,
    MATTX_MSG_SYS_FACCESSAT2_REPLY, MATTX_MSG_SYS_READLINK_REQ, MATTX_MSG_SYS_READLINK_REPLY,
    MATTX_MSG_SYS_READLINKAT_REQ, MATTX_MSG_SYS_READLINKAT_REPLY, MATTX_MSG_SYS_GETDENTS64_REQ,
    MATTX_MSG_SYS_GETDENTS64_REPLY, MATTX_MSG_SYS_PIPE2_REQ, MATTX_MSG_SYS_PIPE2_REPLY,
    MATTX_MSG_SYS_SHMGET_REQ, MATTX_MSG_SYS_SHMGET_REPLY, MATTX_MSG_SYS_SHMAT_REQ,
    MATTX_MSG_SYS_SHMAT_REPLY, MATTX_MSG_SYS_SHMDT_REQ, MATTX_MSG_SYS_SHMDT_REPLY,
    MATTX_MSG_SYS_SHMCTL_REQ, MATTX_MSG_SYS_SHMCTL_REPLY, MATTX_MSG_DSM_PAGE_FAULT_REQ,
    MATTX_MSG_DSM_PAGE_FAULT_REPLY, MATTX_MSG_DSM_PAGE_UPDATE, MATTX_MSG_DSM_WRITE_ACQUIRE_REQ,
    MATTX_MSG_DSM_WRITE_ACQUIRE_REPLY, MATTX_MSG_DSM_INVALIDATE_REQ,
    MATTX_MSG_DSM_INVALIDATE_REPLY, MATTX_MSG_DSM_FLUSH_REQ, MATTX_MSG_DSM_FLUSH_REPLY]"

text \<open>The enumeration has no gaps and stays within the 256 entries of the dispatch table.\<close>

lemma msg_types_consecutive: "map unat mattx_msg_type = [1..<122]"
  by code_simp

lemma msg_type_bounds: "t \<in> set mattx_msg_type \<Longrightarrow> 1 \<le> unat t \<and> unat t \<le> 121"
proof -
  assume "t \<in> set mattx_msg_type"
  then have "unat t \<in> set (map unat mattx_msg_type)" by simp
  then show ?thesis unfolding msg_types_consecutive by simp
qed

lemma distinct_msg_types: "distinct mattx_msg_type"
  by (metis distinct_map distinct_upt msg_types_consecutive)

end
