(* ===== verification/Mx_Dsm.thy ===== *)
theory Mx_Dsm
  imports Mx_Rpc Mx_Msg
begin

text \<open>
  Distributed shared memory, \<^verbatim>\<open>mattx_fileio.c\<close>: the page directory of the home node with
  its sharer masks, the home-node workers (page fault, write acquire, page update, native
  sync), the guest-side fault and write-protect handlers, the workers that flush and
  invalidate guest copies, the sweeper thread, and the native fault interceptor of
  \<^verbatim>\<open>mattx_hooks.c\<close>.

  A worker that waits for a flush is split where it waits. The segment look-up in a process's
  memory map is an argument (\<open>seg pid shmid\<close> gives start and end of the first SYSV mapping of
  that segment), as are the outcomes of allocations. Physical pages of the home node are
  \<open>ram shmid index\<close>; pages of the guests live in a store indexed by their address. Page
  indices are not checked by the code; as everywhere in C, an index beyond the array is
  undefined, and the lemmas speak of indices below \<^verbatim>\<open>MAX_DSM_PAGES\<close> where it matters.
\<close>

abbreviation (input) MATTX_PAGE_INVALID :: u8 where "MATTX_PAGE_INVALID \<equiv> 0"
abbreviation (input) MATTX_PAGE_SHARED :: u8 where "MATTX_PAGE_SHARED \<equiv> 1"
abbreviation (input) MATTX_PAGE_EXCLUSIVE :: u8 where "MATTX_PAGE_EXCLUSIVE \<equiv> 2"

section \<open>The directory\<close>

record mattx_dsm_master_dir =
  dir_in_use :: bool
  dir_shmid :: u32
  home_pid :: u32
  page_state :: "nat \<Rightarrow> u8"
  page_owner_pid :: "nat \<Rightarrow> u32"
  page_shared_mask :: "nat \<Rightarrow> nat \<Rightarrow> u64"

type_synonym dsm_dir = "nat \<Rightarrow> mattx_dsm_master_dir"

definition dir_find :: "u32 \<Rightarrow> dsm_dir \<Rightarrow> nat option" where
  "dir_find shm dir = scan (\<lambda>d. dir_in_use (dir d) \<and> dir_shmid (dir d) = shm) MAX_DSM_SEGMENTS"

definition mask_add :: "nat \<Rightarrow> (nat \<Rightarrow> u64) \<Rightarrow> nat \<Rightarrow> u64" where
  "mask_add node m = m(node div 64 := m (node div 64) OR push_bit (node mod 64) 1)"

definition mask_has :: "nat \<Rightarrow> (nat \<Rightarrow> u64) \<Rightarrow> bool" where
  "mask_has node m = (m (node div 64) AND push_bit (node mod 64) 1 \<noteq> 0)"

definition zero_mask :: "nat \<Rightarrow> u64" where
  "zero_mask = (\<lambda>_. 0)"

definition set_page :: "nat \<Rightarrow> u8 \<Rightarrow> u32 \<Rightarrow> (nat \<Rightarrow> u64) \<Rightarrow> mattx_dsm_master_dir \<Rightarrow> mattx_dsm_master_dir" where
  "set_page p st owner mk e = e\<lparr>page_state := (page_state e)(p := st),
     page_owner_pid := (page_owner_pid e)(p := owner), page_shared_mask := (page_shared_mask e)(p := mk)\<rparr>"

definition page_of :: "u64 \<Rightarrow> nat" where
  "page_of off = unat off div PAGE_SIZE"

lemma mask_has_bit: "mask_has k m \<longleftrightarrow> bit (m (k div 64)) (k mod 64)"
proof -
  have "m (k div 64) AND push_bit (k mod 64) 1 = (if bit (m (k div 64)) (k mod 64) then push_bit (k mod 64) 1 else 0)"
    by (intro bit_word_eqI) (auto simp: bit_simps)
  moreover have "bit (push_bit (k mod 64) (1::u64)) (k mod 64)" by (simp add: bit_simps)
  then have "push_bit (k mod 64) (1::u64) \<noteq> 0" by auto
  ultimately show ?thesis by (simp add: mask_has_def)
qed

lemma mask_has_zero [simp]: "\<not> mask_has k zero_mask"
  by (simp add: mask_has_def zero_mask_def)

text \<open>The two-dimensional bit mask is a set of nodes.\<close>

lemma mask_has_add [simp]: "mask_has k (mask_add n m) \<longleftrightarrow> k = n \<or> mask_has k m"
proof -
  have "k = n \<longleftrightarrow> k div 64 = n div 64 \<and> k mod 64 = n mod 64"
    by (metis div_mult_mod_eq)
  then show ?thesis
    by (auto simp: mask_has_bit mask_add_def bit_simps)
qed

section \<open>Home node\<close>

record home =
  hdir :: dsm_dir
  ram :: "u32 \<Rightarrow> nat \<Rightarrow> page"
  hexports :: exports
  hlinks :: "u32 \<Rightarrow> bool"
  hmode :: nat

type_synonym seg_map = "u32 \<Rightarrow> u32 \<Rightarrow> (u64 \<times> u64) option"

record dsm_req =
  q_req_id :: u64
  q_orig_pid :: u32
  q_shmid :: u32
  q_offset :: u64

text \<open>What the workers send: messages to a node, and local shoot-downs of page-table entries.\<close>

datatype dsm_out =
  O_flush u32 dsm_req
| O_invalidate u32 dsm_req
| O_fault_reply u32 u64 int page
| O_acquire_reply u32 u64 int
| O_flush_reply u32 u64 int page
| O_update u32 u32 u32 u64 page
| O_shootdown u32 u64
| O_zap pid u64 u64
| O_signal signal pid

definition upd_dir :: "nat \<Rightarrow> (mattx_dsm_master_dir \<Rightarrow> mattx_dsm_master_dir) \<Rightarrow> home \<Rightarrow> home" where
  "upd_dir d f h = h\<lparr>hdir := (hdir h)(d := f (hdir h d))\<rparr>"

definition write_ram :: "u32 \<Rightarrow> nat \<Rightarrow> page \<Rightarrow> home \<Rightarrow> home" where
  "write_ram shm p d h = h\<lparr>ram := (ram h)(shm := (ram h shm)(p := d))\<rparr>"

definition fault_addr_of :: "seg_map \<Rightarrow> dsm_req \<Rightarrow> u64" where
  "fault_addr_of seg q =
     (case seg (q_orig_pid q) (q_shmid q) of None \<Rightarrow> 0
      | Some (st, en) \<Rightarrow> if st + q_offset q < en then st + q_offset q else 0)"

text \<open>The exclusive owner of a page, 0 if there is none (or if the home node owns it).\<close>

definition excl_owner :: "u32 \<Rightarrow> nat \<Rightarrow> dsm_dir \<Rightarrow> u32" where
  "excl_owner shm p dir =
     (case dir_find shm dir of None \<Rightarrow> 0
      | Some d \<Rightarrow> if page_state (dir d) p = MATTX_PAGE_EXCLUSIVE then page_owner_pid (dir d) p else 0)"

text \<open>
  First part of \<^verbatim>\<open>mattx_dsm_fault_kworker\<close>: whom to flush. \<open>buf\<close> says whether the flush
  buffer can be allocated; when it cannot, or no request slot is free, the worker goes on
  without the flush.
\<close>

datatype fault_plan = Fault_fail | Fault_pump | Fault_flush u32 u32 nat

definition dsm_fault_plan :: "seg_map \<Rightarrow> nat option \<Rightarrow> dsm_req \<Rightarrow> home \<Rightarrow> rpc \<Rightarrow> fault_plan \<times> rpc \<times> dsm_out list" where
  "dsm_fault_plan seg buf q h r =
     (if fault_addr_of seg q = 0 then (Fault_fail, r, [])
      else if hmode h \<noteq> 2 then (Fault_pump, r, [])
      else
        (let owner = excl_owner (q_shmid q) (page_of (q_offset q)) (hdir h);
             node = (if owner \<noteq> 0 \<and> owner \<noteq> q_orig_pid q then get_export_target owner (hexports h) else - 1)
         in if owner \<noteq> 0 \<and> owner \<noteq> q_orig_pid q \<and> node \<noteq> - 1 \<and> hlinks h node then
              (case buf of None \<Rightarrow> (Fault_pump, r, [])
               | Some b \<Rightarrow>
                  (case rpc_alloc (Site_data b) r of None \<Rightarrow> (Fault_pump, r, [])
                   | Some (i, r') \<Rightarrow> (Fault_flush owner node i, r',
                       [O_flush node (q\<lparr>q_req_id := next_req_id r, q_orig_pid := owner\<rparr>)])))
            else (Fault_pump, r, [])))"

text \<open>Second part, after the flush reply: \<open>err\<close> and \<open>d\<close> are what the slot and its buffer hold.\<close>

definition dsm_fault_flushed :: "seg_map \<Rightarrow> bool \<Rightarrow> int \<Rightarrow> page \<Rightarrow> dsm_req \<Rightarrow> home \<Rightarrow> home" where
  "dsm_fault_flushed seg page_ok err d q h =
     (let p = page_of (q_offset q);
          h1 = (if err = 0 \<and> seg (q_orig_pid q) (q_shmid q) \<noteq> None \<and> page_ok then write_ram (q_shmid q) p d h else h)
      in (case dir_find (q_shmid q) (hdir h1) of None \<Rightarrow> h1
          | Some g \<Rightarrow> upd_dir g (set_page p MATTX_PAGE_SHARED 0 zero_mask) h1))"

text \<open>The slot of the segment in the directory, registering it on first use.\<close>

definition fresh_dir :: "u32 \<Rightarrow> u32 \<Rightarrow> mattx_dsm_master_dir" where
  "fresh_dir shm pid = \<lparr>dir_in_use = True, dir_shmid = shm, home_pid = pid, page_state = (\<lambda>_. MATTX_PAGE_INVALID),
     page_owner_pid = (\<lambda>_. 0), page_shared_mask = (\<lambda>_. zero_mask)\<rparr>"

definition dir_register :: "u32 \<Rightarrow> u32 \<Rightarrow> dsm_dir \<Rightarrow> nat option \<times> dsm_dir" where
  "dir_register shm pid dir =
     (case dir_find shm dir of Some d \<Rightarrow> (Some d, dir)
      | None \<Rightarrow>
        (case scan (\<lambda>d. \<not> dir_in_use (dir d)) MAX_DSM_SEGMENTS of
           None \<Rightarrow> (None, dir) | Some d \<Rightarrow> (Some d, dir(d := fresh_dir shm pid))))"

definition dir_share :: "nat \<Rightarrow> nat \<Rightarrow> mattx_dsm_master_dir \<Rightarrow> mattx_dsm_master_dir" where
  "dir_share p node e = e\<lparr>page_state := (page_state e)(p :=
       if page_state e p = MATTX_PAGE_INVALID then MATTX_PAGE_SHARED else page_state e p),
     page_shared_mask := (page_shared_mask e)(p := mask_add node (page_shared_mask e p))\<rparr>"

text \<open>Third part: read the page, record the sharer, answer. \<open>ok\<close>: all 4096 bytes were read.\<close>

definition dsm_fault_pump :: "bool \<Rightarrow> u32 \<Rightarrow> dsm_req \<Rightarrow> home \<Rightarrow> home \<times> dsm_out list" where
  "dsm_fault_pump ok target q h =
     (let p = page_of (q_offset q); d = ram h (q_shmid q) p;
          h' = (if ok \<and> hmode h = 2 then
                  (case dir_register (q_shmid q) (q_orig_pid q) (hdir h) of
                     (None, dir) \<Rightarrow> h
                   | (Some i, dir) \<Rightarrow> upd_dir i (dir_share p (unat target)) (h\<lparr>hdir := dir\<rparr>))
                else h)
      in (h', if hlinks h target then [O_fault_reply target (q_req_id q) (if ok then 0 else - EFAULT) (if ok then d else replicate PAGE_SIZE 0)] else []))"

definition dsm_fault_fail :: "u32 \<Rightarrow> dsm_req \<Rightarrow> home \<Rightarrow> dsm_out list" where
  "dsm_fault_fail target q h =
     (if hlinks h target then [O_fault_reply target (q_req_id q) (- EFAULT) (replicate PAGE_SIZE 0)] else [])"

text \<open>\<^verbatim>\<open>mattx_dsm_update_kworker\<close>: \<open>folio\<close> says whether the page is still in the page cache.\<close>

definition mattx_dsm_update_kworker :: "seg_map \<Rightarrow> bool \<Rightarrow> u32 \<Rightarrow> u32 \<Rightarrow> u64 \<Rightarrow> page \<Rightarrow> home \<Rightarrow> home" where
  "mattx_dsm_update_kworker seg folio op shm off d h =
     (case seg op shm of
        None \<Rightarrow> h
      | Some (st, en) \<Rightarrow>
         if \<not> st + off < en then h
         else
           (let p = page_of off;
                h1 = (if folio then write_ram shm p d h else h)
            in if hmode h = 2 then
                 (case dir_find shm (hdir h1) of None \<Rightarrow> h1
                  | Some g \<Rightarrow>
                     if page_state (hdir h1 g) p = MATTX_PAGE_EXCLUSIVE \<and> page_owner_pid (hdir h1 g) p = op
                     then upd_dir g (set_page p MATTX_PAGE_SHARED 0 zero_mask) h1 else h1)
               else h1))"

definition invalidates :: "u32 \<Rightarrow> u32 \<Rightarrow> u64 \<Rightarrow> (nat \<Rightarrow> u64) \<Rightarrow> home \<Rightarrow> dsm_out list" where
  "invalidates op shm off m h =
     map (\<lambda>n. O_invalidate (of_nat n) \<lparr>q_req_id = 0, q_orig_pid = op, q_shmid = shm, q_offset = off\<rparr>)
       (filter (\<lambda>n. mask_has n m \<and> hlinks h (of_nat n)) [0..<MAX_NODES])"

text \<open>\<open>unmap\<close>: the kernel symbol for the shoot-down was found at load time.\<close>

definition mattx_dsm_write_acquire_kworker ::
    "seg_map \<Rightarrow> bool \<Rightarrow> u32 \<Rightarrow> dsm_req \<Rightarrow> home \<Rightarrow> home \<times> dsm_out list" where
  "mattx_dsm_write_acquire_kworker seg unmap target q h =
     (let p = page_of (q_offset q);
          reply = (if hlinks h target then [O_acquire_reply target (q_req_id q) 0] else [])
      in (case dir_find (q_shmid q) (hdir h) of
            None \<Rightarrow> (h, reply)
          | Some d \<Rightarrow>
             (upd_dir d (set_page p MATTX_PAGE_EXCLUSIVE (q_orig_pid q) zero_mask) h,
              invalidates (q_orig_pid q) (q_shmid q) (q_offset q) (page_shared_mask (hdir h d) p) h @
              (if unmap \<and> seg (q_orig_pid q) (q_shmid q) \<noteq> None then [O_shootdown (q_shmid q) (q_offset q)] else []) @
              reply)))"

section \<open>Native accesses on the home node\<close>

text \<open>
  \<^verbatim>\<open>entry_handler_shmem_fault\<close>: does a native fault have to wait for the network? The
  interceptor lets kernel threads pass and only works in mode 2.
\<close>

definition shmem_fault_needs_sync :: "bool \<Rightarrow> bool \<Rightarrow> u32 \<Rightarrow> u64 \<Rightarrow> home \<Rightarrow> bool" where
  "shmem_fault_needs_sync kthread is_write shm off h =
     (\<not> kthread \<and> hmode h = 2 \<and>
      (case dir_find shm (hdir h) of None \<Rightarrow> False
       | Some d \<Rightarrow>
          (let p = page_of off; st = page_state (hdir h d) p; owner = page_owner_pid (hdir h d) p
           in if st = MATTX_PAGE_EXCLUSIVE \<and> owner \<noteq> 0 then True
              else if is_write \<and> st = MATTX_PAGE_SHARED
                then scan (\<lambda>n. mask_has n (page_shared_mask (hdir h d) p)) MAX_NODES \<noteq> None
                else False)))"

text \<open>
  \<^verbatim>\<open>mattx_vm1_shm_sync_kworker\<close>, up to the flush request, after the flush reply, and the
  invalidation with the wake-up of the native process.
\<close>

definition vm1_sync_plan ::
    "nat option \<Rightarrow> u32 \<Rightarrow> u64 \<Rightarrow> home \<Rightarrow> rpc \<Rightarrow> nat option \<times> (u32 \<times> nat) option \<times> rpc \<times> dsm_out list" where
  "vm1_sync_plan buf shm off h r =
     (let dir_idx = dir_find shm (hdir h); owner = excl_owner shm (page_of off) (hdir h);
          node = get_export_target owner (hexports h)
      in if owner \<noteq> 0 \<and> node \<noteq> - 1 \<and> hlinks h node then
           (case buf of None \<Rightarrow> (dir_idx, None, r, [])
            | Some b \<Rightarrow>
               (case rpc_alloc (Site_data b) r of None \<Rightarrow> (dir_idx, None, r, [])
                | Some (i, r') \<Rightarrow> (dir_idx, Some (owner, i), r', [O_flush node \<lparr>q_req_id = next_req_id r,
                    q_orig_pid = owner, q_shmid = shm, q_offset = off\<rparr>])))
         else (dir_idx, None, r, []))"

definition vm1_sync_flushed ::
    "seg_map \<Rightarrow> bool \<Rightarrow> int \<Rightarrow> page \<Rightarrow> pid \<Rightarrow> u32 \<Rightarrow> u64 \<Rightarrow> nat option \<Rightarrow> home \<Rightarrow> home" where
  "vm1_sync_flushed seg page_ok err d lp shm off dir_idx h =
     (let h1 = (if err = 0 \<and> seg lp shm \<noteq> None \<and> page_ok then write_ram shm (page_of off) d h else h)
      in (case dir_idx of None \<Rightarrow> h1 | Some g \<Rightarrow> upd_dir g (set_page (page_of off) MATTX_PAGE_SHARED 0 zero_mask) h1))"

definition vm1_sync_finish ::
    "(pid \<Rightarrow> bool) \<Rightarrow> pid \<Rightarrow> bool \<Rightarrow> u32 \<Rightarrow> u64 \<Rightarrow> nat option \<Rightarrow> home \<Rightarrow> home \<times> dsm_out list" where
  "vm1_sync_finish alive lp is_write shm off dir_idx h =
     (let wake = (if alive lp then [O_signal SIGCONT lp] else []) in
      (case dir_idx of
         Some d \<Rightarrow>
          if is_write then
            (upd_dir d (set_page (page_of off) MATTX_PAGE_EXCLUSIVE 0 zero_mask) h,
             invalidates 0 shm off (page_shared_mask (hdir h d) (page_of off)) h @ wake)
          else (h, wake)
       | None \<Rightarrow> (h, wake)))"

section \<open>Guest side\<close>

record gnode =
  gregs :: guests
  gmem :: "nat \<Rightarrow> page"
  gmode :: nat
  glinks :: "u32 \<Rightarrow> bool"

definition upd_map :: "nat \<Rightarrow> nat \<Rightarrow> (mattx_dsm_mapping \<Rightarrow> mattx_dsm_mapping) \<Rightarrow> gnode \<Rightarrow> gnode" where
  "upd_map i d f g = g\<lparr>gregs := upd_slot i (\<lambda>e. e\<lparr>dsm_map := (dsm_map e)(d := f (dsm_map e d))\<rparr>) (gregs g)\<rparr>"

definition set_state :: "nat \<Rightarrow> u8 \<Rightarrow> mattx_dsm_mapping \<Rightarrow> mattx_dsm_mapping" where
  "set_state p st m = m\<lparr>page_states := (page_states m)(p := st)\<rparr>"

definition guest_at :: "pid \<Rightarrow> gnode \<Rightarrow> nat option" where
  "guest_at tgid g = scan (\<lambda>i. local_pid (slots (gregs g) i) = tgid) (cnt (gregs g))"

text \<open>The page address and the mapping of the current process that contains it.\<close>

definition page_mask :: "u64 \<Rightarrow> u64" where
  "page_mask a = a AND NOT 4095"

definition map_at :: "nat \<Rightarrow> u64 \<Rightarrow> gnode \<Rightarrow> nat option" where
  "map_at i a g = scan (\<lambda>d. base_addr (dsm_map (slots (gregs g) i) d) \<le> a \<and>
      a < base_addr (dsm_map (slots (gregs g) i) d) + m_size (dsm_map (slots (gregs g) i) d))
     (dsm_count (slots (gregs g) i))"

definition map_base :: "nat \<Rightarrow> u64 \<Rightarrow> gnode \<Rightarrow> nat option" where
  "map_base i b g = scan (\<lambda>d. base_addr (dsm_map (slots (gregs g) i) d) = b) (dsm_count (slots (gregs g) i))"

text \<open>Translation of a fault: home node and the request, before its id is known.\<close>

definition dsm_translate :: "pid \<Rightarrow> u64 \<Rightarrow> gnode \<Rightarrow> (u32 \<times> dsm_req) option" where
  "dsm_translate tgid a g =
     (case guest_at tgid g of None \<Rightarrow> None
      | Some i \<Rightarrow>
        (case map_at i a g of None \<Rightarrow> None
         | Some d \<Rightarrow>
            (let e = slots (gregs g) i; m = dsm_map e d
             in if home_node e = - 1 \<or> \<not> glinks g (home_node e) then None
                else Some (home_node e, \<lparr>q_req_id = 0, q_orig_pid = orig_pid e, q_shmid = m_shmid m,
                  q_offset = a - base_addr m\<rparr>))))"

datatype vm_fault = VM_FAULT_SIGSEGV | VM_FAULT_OOM | VM_FAULT_SIGBUS | VM_FAULT_RETRY | VM_FAULT_NOPAGE
  | VM_FAULT_OK | VM_FAULT_OTHER

text \<open>\<^verbatim>\<open>mattx_dsm_fault\<close> up to the sleep: \<open>Inr\<close> is the slot it sleeps on.\<close>

definition dsm_fault_start ::
    "nat option \<Rightarrow> pid \<Rightarrow> u64 \<Rightarrow> gnode \<Rightarrow> rpc \<Rightarrow> (vm_fault + nat) \<times> rpc \<times> (u32 \<times> dsm_req) list" where
  "dsm_fault_start buf tgid addr g r =
     (case dsm_translate tgid (page_mask addr) g of
        None \<Rightarrow> (Inl VM_FAULT_SIGSEGV, r, [])
      | Some (home, q) \<Rightarrow>
         (case buf of None \<Rightarrow> (Inl VM_FAULT_OOM, r, [])
          | Some b \<Rightarrow>
             (case rpc_alloc (Site_data b) r of None \<Rightarrow> (Inl VM_FAULT_SIGSEGV, r, [])
              | Some (i, r') \<Rightarrow> (Inr i, r', [(home, q\<lparr>q_req_id := next_req_id r\<rparr>)]))))"

text \<open>
  After the wake-up. \<open>err\<close> and \<open>d\<close>: slot error and received page; \<open>fresh\<close>: address of a new
  physical page if one can be had; \<open>ins\<close>: the outcome of the page-table insertion; \<open>prot\<close>: the
  kernel symbol for a read-only insertion was found.
\<close>

definition dsm_fault_finish ::
    "nat option \<Rightarrow> bool \<Rightarrow> vm_fault \<Rightarrow> bool \<Rightarrow> int \<Rightarrow> page \<Rightarrow> pid \<Rightarrow> u64 \<Rightarrow> dsm_req \<Rightarrow> gnode \<Rightarrow> vm_fault \<times> gnode" where
  "dsm_fault_finish fresh prot ins is_write err d tgid addr q g =
     (if err \<noteq> 0 then (VM_FAULT_SIGSEGV, g)
      else
        (let a = page_mask addr; p = page_of (q_offset q) in
         (case guest_at tgid g of None \<Rightarrow> (VM_FAULT_OOM, g)
          | Some i \<Rightarrow>
           (case map_base i (a - q_offset q) g of None \<Rightarrow> (VM_FAULT_OOM, g)
            | Some m \<Rightarrow>
              (case (case pages (dsm_map (slots (gregs g) i) m) p of Some k \<Rightarrow> Some k | None \<Rightarrow> fresh) of
                 None \<Rightarrow> (VM_FAULT_OOM, g)
               | Some k \<Rightarrow>
                 (let g1 = (upd_map i m (\<lambda>e. e\<lparr>pages := (pages e)(p := Some k)\<rparr>) g)\<lparr>gmem := (gmem g)(k := memcpy_to d (gmem g k))\<rparr>;
                      g2 = (if gmode g = 2 \<and> prot \<and> ins = VM_FAULT_NOPAGE
                            then upd_map i m (set_state p MATTX_PAGE_SHARED) g1 else g1);
                      g3 = (if gmode g = 3 then g2\<lparr>gregs := upd_slot i (\<lambda>e. e\<lparr>dsm_step_pending := True,
                              dsm_step_is_write := is_write, dsm_step_addr := a, dsm_step_shmid := q_shmid q\<rparr>) (gregs g2)\<rparr> else g2)
                  in if ins \<noteq> VM_FAULT_NOPAGE then (ins, g3)
                     else (VM_FAULT_NOPAGE,
                       if p < MAX_DSM_PAGES then upd_map i m (\<lambda>e. e\<lparr>present_pages := (present_pages e)(p := True)\<rparr>) g3 else g3)))))))"

text \<open>\<^verbatim>\<open>mattx_dsm_pfn_mkwrite\<close>, the first write to a read-only page.\<close>

definition dsm_mkwrite_start ::
    "pid \<Rightarrow> u64 \<Rightarrow> gnode \<Rightarrow> rpc \<Rightarrow> (vm_fault + nat) \<times> rpc \<times> (u32 \<times> dsm_req) list" where
  "dsm_mkwrite_start tgid addr g r =
     (case dsm_translate tgid (page_mask addr) g of
        None \<Rightarrow> (Inl VM_FAULT_SIGBUS, r, [])
      | Some (home, q) \<Rightarrow>
         if gmode g \<noteq> 2 then (Inl VM_FAULT_OK, r, [])
         else (case rpc_alloc Site_plain r of None \<Rightarrow> (Inl VM_FAULT_SIGBUS, r, [])
               | Some (i, r') \<Rightarrow> (Inr i, r', [(home, q\<lparr>q_req_id := next_req_id r\<rparr>)])))"

definition dsm_mkwrite_finish :: "bool \<Rightarrow> int \<Rightarrow> pid \<Rightarrow> u64 \<Rightarrow> dsm_req \<Rightarrow> gnode \<Rightarrow> vm_fault \<times> gnode" where
  "dsm_mkwrite_finish interrupted err tgid addr q g =
     (if interrupted then (VM_FAULT_RETRY, g)
      else if err \<noteq> 0 then (VM_FAULT_SIGBUS, g)
      else (VM_FAULT_OK,
        (case guest_at tgid g of None \<Rightarrow> g
         | Some i \<Rightarrow>
           (case map_base i (page_mask addr - q_offset q) g of None \<Rightarrow> g
            | Some m \<Rightarrow> upd_map i m (set_state (page_of (q_offset q)) MATTX_PAGE_EXCLUSIVE) g))))"

text \<open>
  \<^verbatim>\<open>mattx_dsm_invalidate_kworker\<close>: every mapping of the segment by every other guest.
  \<open>zap p base\<close> says whether the task, its memory and the mapping at \<open>base\<close> are found.
\<close>

definition mattx_dsm_invalidate_kworker :: "(pid \<Rightarrow> u64 \<Rightarrow> bool) \<Rightarrow> dsm_req \<Rightarrow> gnode \<Rightarrow> gnode \<times> dsm_out list" where
  "mattx_dsm_invalidate_kworker zap q g =
     (let p = page_of (q_offset q);
          hit = (\<lambda>e d. orig_pid e \<noteq> q_orig_pid q \<and> d < dsm_count e \<and> m_shmid (dsm_map e d) = q_shmid q)
      in (g\<lparr>gregs := (gregs g)\<lparr>slots := (\<lambda>i. if i < cnt (gregs g)
             then (slots (gregs g) i)\<lparr>dsm_map := (\<lambda>d. if hit (slots (gregs g) i) d
                    then set_state p MATTX_PAGE_INVALID (dsm_map (slots (gregs g) i) d) else dsm_map (slots (gregs g) i) d)\<rparr>
             else slots (gregs g) i)\<rparr>\<rparr>,
          concat (map (\<lambda>e. concat (map (\<lambda>d. if hit e d \<and> zap (local_pid e) (base_addr (dsm_map e d))
              then [O_zap (local_pid e) (base_addr (dsm_map e d) + q_offset q) 4096] else []) [0..<dsm_count e]))
            (entries (gregs g)))))"

text \<open>\<^verbatim>\<open>mattx_dsm_flush_kworker\<close>: give up an exclusive copy.\<close>

definition flush_site :: "u32 \<Rightarrow> u32 \<Rightarrow> gnode \<Rightarrow> (nat \<times> nat) option" where
  "flush_site op shm g =
     (case scan (\<lambda>i. orig_pid (slots (gregs g) i) = op) (cnt (gregs g)) of None \<Rightarrow> None
      | Some i \<Rightarrow>
        (case scan (\<lambda>d. m_shmid (dsm_map (slots (gregs g) i) d) = shm) (dsm_count (slots (gregs g) i)) of
           None \<Rightarrow> None | Some d \<Rightarrow> Some (i, d)))"

definition mattx_dsm_flush_kworker ::
    "(pid \<Rightarrow> u64 \<Rightarrow> bool) \<Rightarrow> u32 \<Rightarrow> dsm_req \<Rightarrow> gnode \<Rightarrow> gnode \<times> dsm_out list" where
  "mattx_dsm_flush_kworker zap target q g =
     (let p = page_of (q_offset q);
          fail = (if glinks g target then [O_flush_reply target (q_req_id q) (- ENOENT) (replicate PAGE_SIZE 0)] else [])
      in (case flush_site (q_orig_pid q) (q_shmid q) g of
            None \<Rightarrow> (g, fail)
          | Some (i, d) \<Rightarrow>
             (let e = slots (gregs g) i; m = dsm_map e d in
              (case pages m p of
                 None \<Rightarrow> (g, fail)
               | Some k \<Rightarrow>
                  if page_states m p = MATTX_PAGE_EXCLUSIVE then
                    (upd_map i d (set_state p MATTX_PAGE_INVALID) g,
                     (if zap (local_pid e) (base_addr m) then [O_zap (local_pid e) (base_addr m + q_offset q) 4096] else []) @
                     (if glinks g target then [O_flush_reply target (q_req_id q) 0 (gmem g k)] else []))
                  else (g, fail)))))"

text \<open>\<^verbatim>\<open>mattx_dsm_cleanup_cb\<close> of mode 3: write the stepped page back and unmap it.\<close>

definition mattx_dsm_cleanup_cb ::
    "bool \<Rightarrow> bool \<Rightarrow> bool \<Rightarrow> u32 \<Rightarrow> u32 \<Rightarrow> u32 \<Rightarrow> u64 \<Rightarrow> pid \<Rightarrow> gnode \<Rightarrow> dsm_out list" where
  "mattx_dsm_cleanup_cb mem zap is_write op home shm a tgid g =
     (let site = (case guest_at tgid g of None \<Rightarrow> None
                  | Some i \<Rightarrow> (case map_at i a g of None \<Rightarrow> None | Some d \<Rightarrow> Some (dsm_map (slots (gregs g) i) d)))
      in (if is_write then
            (case site of None \<Rightarrow> []
             | Some m \<Rightarrow>
                (case pages m (page_of (a - base_addr m)) of None \<Rightarrow> []
                 | Some k \<Rightarrow> if mem \<and> glinks g home then [O_update home op shm (a - base_addr m) (gmem g k)] else []))
          else []) @
         (if zap then [O_zap tgid a 4096] else []))"

text \<open>\<^verbatim>\<open>mattx_die_cb\<close>: the trap after a single step of mode 3 consumes the pending flag.\<close>

definition mattx_die_cb :: "pid \<Rightarrow> gnode \<Rightarrow> (bool \<times> u32 \<times> u32 \<times> u64) option \<times> gnode" where
  "mattx_die_cb tgid g =
     (if gmode g \<noteq> 3 then (None, g)
      else (case guest_at tgid g of None \<Rightarrow> (None, g)
        | Some i \<Rightarrow>
           (let e = slots (gregs g) i in
            if dsm_step_pending e
            then (Some (dsm_step_is_write e, home_node e, dsm_step_shmid e, dsm_step_addr e),
                  g\<lparr>gregs := upd_slot i (\<lambda>e. e\<lparr>dsm_step_pending := False\<rparr>) (gregs g)\<rparr>)
            else (None, g))))"

section \<open>The sweeper\<close>

text \<open>
  Mode 1, one guest: its present pages are written back to the home node and all its mappings
  are unmapped; the present bits are cleared first. \<open>vma b\<close>: the mapping at base \<open>b\<close> is found.
\<close>

definition sweep_guest :: "(pid \<Rightarrow> bool) \<Rightarrow> (u64 \<Rightarrow> bool) \<Rightarrow> bool \<Rightarrow> nat \<Rightarrow> gnode \<Rightarrow> gnode \<times> dsm_out list" where
  "sweep_guest alive vma zap i g =
     (if i < cnt (gregs g) \<and> 0 < dsm_count (slots (gregs g) i) then
        (let e = slots (gregs g) i;
             g' = g\<lparr>gregs := upd_slot i (\<lambda>e. e\<lparr>dsm_map := (\<lambda>d. if d < dsm_count e
                    then (dsm_map e d)\<lparr>present_pages := (\<lambda>_. False)\<rparr> else dsm_map e d)\<rparr>) (gregs g)\<rparr>
         in if local_pid e = - 1 \<or> \<not> alive (local_pid e) then (g', [])
            else (g', concat (map (\<lambda>d.
               (let m = dsm_map e d in
                concat (map (\<lambda>b. if present_pages m b \<and> \<not> m_size m \<le> of_nat (b * PAGE_SIZE) then
                    (case pages m b of None \<Rightarrow> []
                     | Some k \<Rightarrow> if glinks g (home_node e)
                         then [O_update (home_node e) (orig_pid e) (m_shmid m) (of_nat (b * PAGE_SIZE)) (gmem g k)] else [])
                  else []) [0..<MAX_DSM_PAGES]) @
                (if zap \<and> vma (base_addr m) then [O_zap (local_pid e) (base_addr m) (m_size m)] else [])))
               [0..<dsm_count e])))
      else (g, []))"

text \<open>Mode 2: at most 16 shared pages per pass are shot down, in directory order.\<close>

definition to_shoot :: "dsm_dir \<Rightarrow> (u32 \<times> u32 \<times> nat) list" where
  "to_shoot dir = take 16 (concat (map (\<lambda>d. if dir_in_use (dir d)
      then map (\<lambda>p. (dir_shmid (dir d), home_pid (dir d), p * PAGE_SIZE))
        (filter (\<lambda>p. page_state (dir d) p = MATTX_PAGE_SHARED) [0..<MAX_DSM_PAGES])
      else []) [0..<MAX_DSM_SEGMENTS]))"

definition sweep_native :: "seg_map \<Rightarrow> bool \<Rightarrow> home \<Rightarrow> dsm_out list" where
  "sweep_native seg unmap h =
     concat (map (\<lambda>(shm, hp, off). if unmap \<and> seg hp shm \<noteq> None then [O_shootdown shm (of_nat off)] else [])
       (to_shoot (hdir h)))"

end
