(* ===== verification/Mx_Mesi.thy ===== *)
theory Mx_Mesi
  imports Mx_Dsm
begin

text \<open>
  The coherence protocol of mode 2 over the whole cluster: one home node with the directory
  and the physical pages, and the nodes that run guests. A transaction composes the workers of
  \<^verbatim>\<open>mattx_fileio.c\<close> the way the messages do (fault, flush of the owner, page transfer,
  injection; acquire, invalidations, upgrade). The request/reply matching underneath is the
  subject of the theory on request slots.

  Transactions that run one after the other keep the single-writer invariant and give readers
  the last written page. Two findings show what happens when they overlap and when the home
  node itself owns a page.
\<close>

section \<open>Local copies\<close>

abbreviation cell :: "gnode \<Rightarrow> nat \<Rightarrow> nat \<Rightarrow> mattx_dsm_mapping" where
  "cell g i d \<equiv> dsm_map (slots (gregs g) i) d"

text \<open>State and contents of a page in the mapping of a guest.\<close>

definition view :: "gnode \<Rightarrow> u32 \<Rightarrow> nat \<Rightarrow> u32 \<Rightarrow> (u8 \<times> page option) option" where
  "view g shm p op = map_option (\<lambda>(i, d). (page_states (cell g i d) p, map_option (gmem g) (pages (cell g i d) p)))
     (flush_site op shm g)"

text \<open>
  A well-formed guest node: pids are unique, a guest maps a segment once, mappings have
  different bases, no physical page belongs to two cells, and pages have the page size.
\<close>

definition live :: "gnode \<Rightarrow> nat \<Rightarrow> nat \<Rightarrow> bool" where
  "live g i d \<longleftrightarrow> i < cnt (gregs g) \<and> d < dsm_count (slots (gregs g) i)"

definition wf_node :: "gnode \<Rightarrow> bool" where
  "wf_node g \<longleftrightarrow>
     (\<forall>i j. i < cnt (gregs g) \<longrightarrow> j < cnt (gregs g) \<longrightarrow>
        orig_pid (slots (gregs g) i) = orig_pid (slots (gregs g) j) \<or> local_pid (slots (gregs g) i) = local_pid (slots (gregs g) j) \<longrightarrow> i = j) \<and>
     (\<forall>i d e. live g i d \<longrightarrow> live g i e \<longrightarrow>
        m_shmid (cell g i d) = m_shmid (cell g i e) \<or> base_addr (cell g i d) = base_addr (cell g i e) \<longrightarrow> d = e) \<and>
     (\<forall>i d p i' d' p' k. live g i d \<longrightarrow> live g i' d' \<longrightarrow> pages (cell g i d) p = Some k \<longrightarrow>
        pages (cell g i' d') p' = Some k \<longrightarrow> (i, d, p) = (i', d', p')) \<and>
     (\<forall>k. length (gmem g k) = PAGE_SIZE)"

lemma wf_guest: "wf_node g \<Longrightarrow> i < cnt (gregs g) \<Longrightarrow> j < cnt (gregs g) \<Longrightarrow>
    orig_pid (slots (gregs g) i) = orig_pid (slots (gregs g) j) \<or> local_pid (slots (gregs g) i) = local_pid (slots (gregs g) j) \<Longrightarrow> i = j"
  unfolding wf_node_def by blast

lemma wf_seg: "wf_node g \<Longrightarrow> live g i d \<Longrightarrow> live g i e \<Longrightarrow>
    m_shmid (cell g i d) = m_shmid (cell g i e) \<or> base_addr (cell g i d) = base_addr (cell g i e) \<Longrightarrow> d = e"
  unfolding wf_node_def by blast

lemma wf_ptr: "wf_node g \<Longrightarrow> live g i d \<Longrightarrow> live g i' d' \<Longrightarrow> pages (cell g i d) p = Some k \<Longrightarrow>
    pages (cell g i' d') p' = Some k \<Longrightarrow> i = i' \<and> d = d' \<and> p = p'"
  unfolding wf_node_def by blast

lemma flush_site_iff:
  assumes "wf_node g"
  shows "flush_site op shm g = Some (i, d) \<longleftrightarrow>
    live g i d \<and> orig_pid (slots (gregs g) i) = op \<and> m_shmid (cell g i d) = shm"
proof
  assume "flush_site op shm g = Some (i, d)"
  then show "live g i d \<and> orig_pid (slots (gregs g) i) = op \<and> m_shmid (cell g i d) = shm"
    by (auto simp: flush_site_def live_def scan_Some split: option.splits)
next
  assume a: "live g i d \<and> orig_pid (slots (gregs g) i) = op \<and> m_shmid (cell g i d) = shm"
  have "scan (\<lambda>i. orig_pid (slots (gregs g) i) = op) (cnt (gregs g)) = Some i"
    using a wf_guest [OF assms] by (intro scan_unique) (auto simp: live_def)
  moreover have "scan (\<lambda>d. m_shmid (cell g i d) = shm) (dsm_count (slots (gregs g) i)) = Some d"
    using a wf_seg [OF assms] by (intro scan_unique) (auto simp: live_def)
  ultimately show "flush_site op shm g = Some (i, d)" by (simp add: flush_site_def)
qed

text \<open>Updates of one cell that keep its identity.\<close>

definition keeps_id :: "(mattx_dsm_mapping \<Rightarrow> mattx_dsm_mapping) \<Rightarrow> bool" where
  "keeps_id f \<longleftrightarrow> (\<forall>m. m_shmid (f m) = m_shmid m \<and> base_addr (f m) = base_addr m \<and> m_size (f m) = m_size m)"

lemma upd_map_shape:
  "cnt (gregs (upd_map i d f g)) = cnt (gregs g)" "gmem (upd_map i d f g) = gmem g"
  "gmode (upd_map i d f g) = gmode g" "glinks (upd_map i d f g) = glinks g"
  "orig_pid (slots (gregs (upd_map i d f g)) j) = orig_pid (slots (gregs g) j)"
  "local_pid (slots (gregs (upd_map i d f g)) j) = local_pid (slots (gregs g) j)"
  "home_node (slots (gregs (upd_map i d f g)) j) = home_node (slots (gregs g) j)"
  "dsm_count (slots (gregs (upd_map i d f g)) j) = dsm_count (slots (gregs g) j)"
  "cell (upd_map i d f g) j e = (if j = i \<and> e = d then f (cell g i d) else cell g j e)"
  by (auto simp: upd_map_def)

lemma live_upd_map [simp]: "live (upd_map i d f g) j e = live g j e"
  by (simp add: live_def upd_map_shape)

lemma flush_site_upd_map:
  assumes "keeps_id f"
  shows "flush_site op shm (upd_map i d f g) = flush_site op shm g"
proof -
  have m: "m_shmid (cell (upd_map i d f g) j e) = m_shmid (cell g j e)" for j e
    using assms by (auto simp: upd_map_shape keeps_id_def)
  show ?thesis unfolding flush_site_def upd_map_shape(1,5,8) m ..
qed

lemma wf_upd_map:
  assumes "wf_node g" "keeps_id f" "\<And>m. pages (f m) = pages m"
  shows "wf_node (upd_map i d f g)"
proof -
  have m: "m_shmid (cell (upd_map i d f g) j e) = m_shmid (cell g j e)"
      "base_addr (cell (upd_map i d f g) j e) = base_addr (cell g j e)"
      "pages (cell (upd_map i d f g) j e) = pages (cell g j e)" for j e
    using assms(2,3) by (auto simp: upd_map_shape keeps_id_def)
  show ?thesis using assms(1) unfolding wf_node_def live_upd_map upd_map_shape(1,2,5,6,8) m .
qed

lemma keeps_set_state [simp]: "keeps_id (set_state p st)"
  by (simp add: keeps_id_def set_state_def)

lemma pages_set_state [simp]: "pages (set_state p st m) = pages m"
  by (simp add: set_state_def)

lemma map_at_upd_map:
  assumes "keeps_id f"
  shows "map_at j a (upd_map i d f g) = map_at j a g"
proof -
  have m: "base_addr (cell (upd_map i d f g) j e) = base_addr (cell g j e)"
      "m_size (cell (upd_map i d f g) j e) = m_size (cell g j e)" for e
    using assms by (auto simp: upd_map_shape keeps_id_def)
  show ?thesis unfolding map_at_def upd_map_shape(8) m ..
qed

lemma translate_upd_map:
  assumes "keeps_id f"
  shows "dsm_translate tgid a (upd_map i d f g) = dsm_translate tgid a g"
proof -
  have g: "guest_at tgid (upd_map i d f g) = guest_at tgid g" by (simp add: guest_at_def upd_map_shape)
  have m: "m_shmid (cell (upd_map i d f g) j e) = m_shmid (cell g j e)"
      "base_addr (cell (upd_map i d f g) j e) = base_addr (cell g j e)" for j e
    using assms by (auto simp: upd_map_shape keeps_id_def)
  show ?thesis unfolding dsm_translate_def g map_at_upd_map [OF assms] Let_def upd_map_shape(4,5,7) m ..
qed

text \<open>Changing the state of a page in one cell changes the view of its guest only.\<close>

lemma view_set_state:
  assumes "wf_node g" "flush_site op shm g = Some (i, d)"
  shows "view (upd_map i d (set_state p st) g) shm p op' =
    (if op' = op then map_option (\<lambda>(s, c). (st, c)) (view g shm p op) else view g shm p op')"
proof (cases "op' = op")
  case True
  then show ?thesis using assms(2) by (simp add: view_def flush_site_upd_map upd_map_shape) (simp add: set_state_def)
next
  case False
  have "\<not> (i' = i \<and> d' = d)" if "flush_site op' shm g = Some (i', d')" for i' d'
    using that assms False by (auto simp: flush_site_iff)
  then have "\<And>z. flush_site op' shm g = Some z \<Longrightarrow> cell (upd_map i d (set_state p st) g) (fst z) (snd z) = cell g (fst z) (snd z)"
    by (auto simp: upd_map_shape)
  then show ?thesis using False
    by (cases "flush_site op' shm g") (auto simp: view_def flush_site_upd_map upd_map_shape(2))
qed

section \<open>What the guest-side workers do to the views\<close>

fun flush_reply_of :: "dsm_out list \<Rightarrow> (int \<times> page) option" where
  "flush_reply_of [] = None"
| "flush_reply_of (O_flush_reply t r e d # out) = Some (e, d)"
| "flush_reply_of (_ # out) = flush_reply_of out"

lemma flush_kworker_view:
  assumes "wf_node g" "glinks g t" "view g (q_shmid q) (page_of (q_offset q)) (q_orig_pid q) = Some (MATTX_PAGE_EXCLUSIVE, Some c)"
    "mattx_dsm_flush_kworker zap t q g = (g', out)"
  shows "flush_reply_of out = Some (0, c)" "wf_node g'" "glinks g' = glinks g" "gmode g' = gmode g"
    "dsm_translate tgid a g' = dsm_translate tgid a g" "live g' j e = live g j e" "pages (cell g' j e) = pages (cell g j e)"
    "view g' (q_shmid q) (page_of (q_offset q)) op' =
       (if op' = q_orig_pid q then Some (MATTX_PAGE_INVALID, Some c) else view g (q_shmid q) (page_of (q_offset q)) op')"
proof -
  let ?p = "page_of (q_offset q)"
  obtain i d where s: "flush_site (q_orig_pid q) (q_shmid q) g = Some (i, d)"
      "page_states (cell g i d) ?p = MATTX_PAGE_EXCLUSIVE" "map_option (gmem g) (pages (cell g i d) ?p) = Some c"
    using assms(3) by (auto simp: view_def)
  then obtain k where k: "pages (cell g i d) ?p = Some k" "gmem g k = c" by auto
  have g': "g' = upd_map i d (set_state ?p MATTX_PAGE_INVALID) g" and o: "flush_reply_of out = Some (0, c)"
    using assms(2,4) s k by (auto simp: mattx_dsm_flush_kworker_def Let_def)
  show "flush_reply_of out = Some (0, c)" by (rule o)
  show "wf_node g'" using assms(1) g' by (simp add: wf_upd_map)
  show "glinks g' = glinks g" "gmode g' = gmode g" "dsm_translate tgid a g' = dsm_translate tgid a g"
      "live g' j e = live g j e" "pages (cell g' j e) = pages (cell g j e)"
    using g' by (simp_all add: upd_map_shape translate_upd_map)
  show "view g' (q_shmid q) ?p op' = (if op' = q_orig_pid q then Some (MATTX_PAGE_INVALID, Some c) else view g (q_shmid q) ?p op')"
    using view_set_state [OF assms(1) s(1), of ?p MATTX_PAGE_INVALID op'] assms(3) g' by simp
qed

lemma invalidate_shape:
  assumes "mattx_dsm_invalidate_kworker zap q g = (g', out)"
  shows "cnt (gregs g') = cnt (gregs g)" "gmem g' = gmem g" "glinks g' = glinks g" "gmode g' = gmode g"
    "orig_pid (slots (gregs g') i) = orig_pid (slots (gregs g) i)" "local_pid (slots (gregs g') i) = local_pid (slots (gregs g) i)"
    "dsm_count (slots (gregs g') i) = dsm_count (slots (gregs g) i)"
    "cell g' i d = (if live g i d \<and> orig_pid (slots (gregs g) i) \<noteq> q_orig_pid q \<and> m_shmid (cell g i d) = q_shmid q
       then set_state (page_of (q_offset q)) MATTX_PAGE_INVALID (cell g i d) else cell g i d)"
  using assms by (auto simp: mattx_dsm_invalidate_kworker_def Let_def live_def)

lemma invalidate_kworker_view:
  assumes "wf_node g" "mattx_dsm_invalidate_kworker zap q g = (g', out)"
  shows "wf_node g'"
    "view g' (q_shmid q) (page_of (q_offset q)) op' = (if op' = q_orig_pid q then view g (q_shmid q) (page_of (q_offset q)) op'
       else map_option (\<lambda>(s, c). (MATTX_PAGE_INVALID, c)) (view g (q_shmid q) (page_of (q_offset q)) op'))"
proof -
  note sh = invalidate_shape [OF assms(2)]
  have l: "live g' i d = live g i d" for i d by (simp add: live_def sh)
  have m: "m_shmid (cell g' i d) = m_shmid (cell g i d)" "base_addr (cell g' i d) = base_addr (cell g i d)"
      "pages (cell g' i d) = pages (cell g i d)" for i d
    by (simp_all add: sh(8) set_state_def)
  show wf': "wf_node g'" using assms(1) unfolding wf_node_def l m sh(1,2,5,6,7) .
  have fs: "flush_site o' (q_shmid q) g' = flush_site o' (q_shmid q) g" for o'
    unfolding flush_site_def sh(1,5,7) m ..
  show "view g' (q_shmid q) (page_of (q_offset q)) op' = (if op' = q_orig_pid q then view g (q_shmid q) (page_of (q_offset q)) op'
       else map_option (\<lambda>(s, c). (MATTX_PAGE_INVALID, c)) (view g (q_shmid q) (page_of (q_offset q)) op'))"
  proof (cases "flush_site op' (q_shmid q) g")
    case None
    then show ?thesis by (auto simp: view_def fs)
  next
    case (Some z)
    obtain i d where z: "z = (i, d)" by fastforce
    then have "live g i d" "orig_pid (slots (gregs g) i) = op'" "m_shmid (cell g i d) = q_shmid q"
      using Some flush_site_iff [OF assms(1)] by auto
    then have c: "cell g' i d = (if op' \<noteq> q_orig_pid q then set_state (page_of (q_offset q)) MATTX_PAGE_INVALID (cell g i d) else cell g i d)"
      by (simp add: sh(8))
    show ?thesis using Some z c
      by (cases "op' = q_orig_pid q") (simp_all add: view_def fs sh(2) set_state_def)
  qed
qed

text \<open>Invalidations change page states only.\<close>

definition same_maps :: "gnode \<Rightarrow> gnode \<Rightarrow> bool" where
  "same_maps g g' \<longleftrightarrow> glinks g' = glinks g \<and> gmode g' = gmode g \<and> gmem g' = gmem g \<and>
     (\<forall>tgid a. dsm_translate tgid a g' = dsm_translate tgid a g) \<and>
     (\<forall>op shm. flush_site op shm g' = flush_site op shm g) \<and>
     (\<forall>i d. pages (cell g' i d) = pages (cell g i d))"

lemma same_maps_refl [simp]: "same_maps g g"
  by (simp add: same_maps_def)

lemma same_maps_trans: "same_maps g g' \<Longrightarrow> same_maps g' g'' \<Longrightarrow> same_maps g g''"
  by (simp add: same_maps_def)

lemma invalidate_same_maps:
  assumes "mattx_dsm_invalidate_kworker zap q g = (g', out)"
  shows "same_maps g g'"
proof -
  note sh = invalidate_shape [OF assms]
  have hm: "home_node (slots (gregs g') i) = home_node (slots (gregs g) i)" for i
    using assms by (auto simp: mattx_dsm_invalidate_kworker_def Let_def)
  have m: "m_shmid (cell g' i d) = m_shmid (cell g i d)" "base_addr (cell g' i d) = base_addr (cell g i d)"
      "pages (cell g' i d) = pages (cell g i d)" "m_size (cell g' i d) = m_size (cell g i d)" for i d
    by (simp_all add: sh(8) set_state_def)
  have fs: "flush_site op shm g' = flush_site op shm g" for op shm
    unfolding flush_site_def sh(1,5,7) m ..
  have ga: "guest_at tgid g' = guest_at tgid g" "map_at i a g' = map_at i a g" for tgid i a
    unfolding guest_at_def map_at_def sh(1,6,7) m by simp_all
  have "dsm_translate tgid a g' = dsm_translate tgid a g" for tgid a
    unfolding dsm_translate_def ga Let_def sh(3,5) hm m ..
  then show ?thesis using sh(2,3,4) fs m(3) by (simp add: same_maps_def)
qed

text \<open>The cell that a translated fault address names, and that the injection finds again.\<close>

lemma translate_cell:
  assumes "wf_node g" "dsm_translate tgid a g = Some (hm, q)"
  obtains i d where "guest_at tgid g = Some i" "live g i d" "flush_site (q_orig_pid q) (q_shmid q) g = Some (i, d)"
    "map_base i (a - q_offset q) g = Some d" "hm = home_node (slots (gregs g) i)" "q_req_id q = 0"
proof -
  obtain i d where id: "guest_at tgid g = Some i" "map_at i a g = Some d" "q_orig_pid q = orig_pid (slots (gregs g) i)"
      "q_shmid q = m_shmid (cell g i d)" "q_offset q = a - base_addr (cell g i d)"
      "hm = home_node (slots (gregs g) i)" "q_req_id q = 0"
    using assms(2) by (auto simp: dsm_translate_def Let_def split: option.splits if_splits)
  have l: "live g i d"
    using id(1,2) by (simp add: guest_at_def map_at_def live_def scan_Some)
  have b: "map_base i (a - q_offset q) g = Some d"
    unfolding map_base_def id(5) using l wf_seg [OF assms(1)] by (intro scan_unique) (auto simp: live_def)
  have "flush_site (q_orig_pid q) (q_shmid q) g = Some (i, d)"
    using l id(3,4) by (simp add: flush_site_iff [OF assms(1)])
  with id l b that show thesis by blast
qed

text \<open>Giving a cell a page pointer that no other cell has, or writing to the page it has.\<close>

definition put_page :: "nat \<Rightarrow> nat \<Rightarrow> nat \<Rightarrow> nat \<Rightarrow> page \<Rightarrow> gnode \<Rightarrow> gnode" where
  "put_page i d p k c g = (upd_map i d (\<lambda>e. e\<lparr>pages := (pages e)(p := Some k)\<rparr>) g)\<lparr>gmem := (gmem g)(k := c)\<rparr>"

lemma put_page_view:
  assumes "wf_node g" "flush_site op shm g = Some (i, d)" "length c = PAGE_SIZE"
    "pages (cell g i d) p = Some k \<or> (\<forall>i d p. live g i d \<longrightarrow> pages (cell g i d) p \<noteq> Some k)"
  shows "wf_node (put_page i d p k c g)"
    "view (put_page i d p k c g) shm p op' =
       (if op' = op then map_option (\<lambda>(s, _). (s, Some c)) (view g shm p op) else view g shm p op')"
    "flush_site op' shm (put_page i d p k c g) = flush_site op' shm g"
proof -
  let ?f = "\<lambda>e::mattx_dsm_mapping. e\<lparr>pages := (pages e)(p := Some k)\<rparr>" and ?g = "put_page i d p k c g"
  have f: "keeps_id ?f" by (simp add: keeps_id_def)
  have sh: "cnt (gregs ?g) = cnt (gregs g)" "gmem ?g = (gmem g)(k := c)"
      "orig_pid (slots (gregs ?g) j) = orig_pid (slots (gregs g) j)" "local_pid (slots (gregs ?g) j) = local_pid (slots (gregs g) j)"
      "dsm_count (slots (gregs ?g) j) = dsm_count (slots (gregs g) j)"
      "cell ?g j e = (if j = i \<and> e = d then ?f (cell g i d) else cell g j e)" for j e
    using upd_map_shape [of i d ?f g] by (simp_all add: put_page_def)
  have l: "live ?g j e = live g j e" for j e by (simp add: live_def sh)
  have m: "m_shmid (cell ?g j e) = m_shmid (cell g j e)" "base_addr (cell ?g j e) = base_addr (cell g j e)" for j e
    by (simp_all add: sh(6))
  show fs: "flush_site op' shm ?g = flush_site op' shm g" for op'
    unfolding flush_site_def sh(1,3,5) m ..
  have lid: "live g i d" using assms(2) flush_site_iff [OF assms(1)] by blast
  have own: "(j, e, p') = (i, d, p)" if "live g j e" "pages (cell ?g j e) p' = Some k" for j e p'
  proof (rule ccontr)
    assume n: "(j, e, p') \<noteq> (i, d, p)"
    then have "pages (cell g j e) p' = Some k" using that(2) by (auto simp: sh(6) split: if_splits)
    then show False using assms(4) that(1) n lid wf_ptr [OF assms(1)] by blast
  qed
  have ptr: "(j, e, p1) = (j', e', p2)" if "live g j e" "live g j' e'" "pages (cell ?g j e) p1 = Some k'"
      "pages (cell ?g j' e') p2 = Some k'" for j e p1 j' e' p2 k'
  proof (cases "k' = k")
    case True
    then show ?thesis using own that by metis
  next
    case False
    have "pages (cell g j e) p1 = Some k'" "pages (cell g j' e') p2 = Some k'"
      using that(3,4) False by (auto simp: sh(6) split: if_splits)
    then show ?thesis using wf_ptr [OF assms(1)] that(1,2) by blast
  qed
  show "wf_node ?g" unfolding wf_node_def l m sh(1,3,4,5)
  proof (intro conjI)
    show "\<forall>i d p i' d' p' k'. live g i d \<longrightarrow> live g i' d' \<longrightarrow> pages (cell ?g i d) p = Some k' \<longrightarrow>
        pages (cell ?g i' d') p' = Some k' \<longrightarrow> (i, d, p) = (i', d', p')" using ptr by blast
    show "\<forall>k'. length (gmem ?g k') = PAGE_SIZE" using assms(1,3) by (simp add: sh(2) wf_node_def)
  qed (use assms(1)[unfolded wf_node_def] in \<open>fast+\<close>)
  show "view ?g shm p op' =
       (if op' = op then map_option (\<lambda>(s, _). (s, Some c)) (view g shm p op) else view g shm p op')"
  proof (cases "op' = op")
    case True
    then show ?thesis using assms(2) by (simp add: view_def fs sh(2,6))
  next
    case False
    show ?thesis
    proof (cases "flush_site op' shm g")
      case None
      then show ?thesis using False by (simp add: view_def fs)
    next
      case (Some z)
      obtain j e where z: "z = (j, e)" by fastforce
      have je: "live g j e" "(j, e) \<noteq> (i, d)" using Some z False assms(2) flush_site_iff [OF assms(1)] by auto
      then have c: "cell ?g j e = cell g j e" by (auto simp: sh(6))
      have "pages (cell g j e) p \<noteq> Some k" using own [OF je(1), of p] je(2) c by auto
      then show ?thesis using Some z False c by (simp add: view_def fs sh(2) map_option_case split: option.split)
    qed
  qed
qed

lemma upd_map_put_page:
  "upd_map i d (set_state p st) (put_page i d p k c g) =
     (upd_map i d (set_state p st) (upd_map i d (\<lambda>e. e\<lparr>pages := (pages e)(p := Some k)\<rparr>) g))\<lparr>gmem := (gmem g)(k := c)\<rparr>"
  by (simp add: put_page_def upd_map_def)

lemma keeps_present: "keeps_id (\<lambda>e. e\<lparr>present_pages := P e\<rparr>)"
  by (simp add: keeps_id_def)

lemma view_present:
  "view (upd_map i d (\<lambda>e. e\<lparr>present_pages := P e\<rparr>) g) shm p op = view g shm p op"
  by (cases "flush_site op shm g") (auto simp: view_def flush_site_upd_map keeps_present upd_map_shape)

text \<open>The injection of a received page makes the faulting guest a sharer and nothing else.\<close>

lemma fault_finish_view:
  assumes "wf_node g" "gmode g = 2" "dsm_translate tgid (page_mask addr) g = Some (hm, q)"
    "length d = PAGE_SIZE" "\<forall>i d p. live g i d \<longrightarrow> pages (cell g i d) p \<noteq> Some k0"
    "dsm_fault_finish (Some k0) True VM_FAULT_NOPAGE w 0 d tgid addr q' g = (vf, g')"
    "q_offset q' = q_offset q" "q_shmid q' = q_shmid q"
  shows "vf = VM_FAULT_NOPAGE" "wf_node g'" "glinks g' = glinks g" "gmode g' = gmode g"
    "view g' (q_shmid q) (page_of (q_offset q)) op' = (if op' = q_orig_pid q
       then Some (MATTX_PAGE_SHARED, Some d) else view g (q_shmid q) (page_of (q_offset q)) op')"
proof -
  let ?p = "page_of (q_offset q)" and ?shm = "q_shmid q"
  obtain i m where c: "guest_at tgid g = Some i" "live g i m" "flush_site (q_orig_pid q) ?shm g = Some (i, m)"
      "map_base i (page_mask addr - q_offset q) g = Some m"
    using translate_cell [OF assms(1,3)] by metis
  define k where "k = (case pages (cell g i m) ?p of Some k \<Rightarrow> k | None \<Rightarrow> k0)"
  have kc: "(case pages (cell g i m) ?p of Some k \<Rightarrow> Some k | None \<Rightarrow> Some k0) = Some k"
    by (simp add: k_def split: option.split)
  have kp: "pages (cell g i m) ?p = Some k \<or> (\<forall>i d p. live g i d \<longrightarrow> pages (cell g i d) p \<noteq> Some k)"
    using assms(5) by (auto simp: k_def split: option.split)
  have mc: "memcpy_to d (gmem g k) = d"
    using assms(1,4) by (simp add: memcpy_to_def wf_node_def)
  let ?g1 = "put_page i m ?p k d g" and ?P = "\<lambda>e. (present_pages e)(?p := True)"
  let ?g2 = "upd_map i m (set_state ?p MATTX_PAGE_SHARED) ?g1"
  have r: "vf = VM_FAULT_NOPAGE" "g' = (if ?p < MAX_DSM_PAGES then upd_map i m (\<lambda>e. e\<lparr>present_pages := ?P e\<rparr>) ?g2 else ?g2)"
    using assms(2,6,7,8) c(1,4) kc mc by (auto simp: dsm_fault_finish_def Let_def put_page_def)
  show "vf = VM_FAULT_NOPAGE" by (rule r)
  note pv = put_page_view [OF assms(1) c(3) assms(4) kp]
  have w2: "wf_node ?g2" using pv(1) by (simp add: wf_upd_map)
  then show "wf_node g'" using r(2) by (simp add: wf_upd_map keeps_present)
  show "glinks g' = glinks g" "gmode g' = gmode g" using r(2) by (simp_all add: upd_map_shape put_page_def)
  have fs: "flush_site (q_orig_pid q) ?shm ?g1 = Some (i, m)" using pv(3) c(3) by simp
  have "view g' ?shm ?p op' = view ?g2 ?shm ?p op'" using r(2) by (simp add: view_present)
  also have "\<dots> = (if op' = q_orig_pid q then map_option (\<lambda>(s, c). (MATTX_PAGE_SHARED, c)) (view ?g1 ?shm ?p (q_orig_pid q))
      else view ?g1 ?shm ?p op')"
    by (rule view_set_state [OF pv(1) fs])
  also have "\<dots> = (if op' = q_orig_pid q then Some (MATTX_PAGE_SHARED, Some d) else view g ?shm ?p op')"
    using c(3) by (simp add: pv(2)) (simp add: view_def)
  finally show "view g' ?shm ?p op' = (if op' = q_orig_pid q then Some (MATTX_PAGE_SHARED, Some d) else view g ?shm ?p op')" .
qed

lemma mkwrite_finish_view:
  assumes "wf_node g" "dsm_translate tgid (page_mask addr) g = Some (hm, q)"
    "dsm_mkwrite_finish False 0 tgid addr q' g = (vf, g')" "q_offset q' = q_offset q"
  shows "vf = VM_FAULT_OK" "wf_node g'" "glinks g' = glinks g" "gmode g' = gmode g"
    "flush_site op' shm' g' = flush_site op' shm' g" "gmem g' = gmem g" "pages (cell g' i e) = pages (cell g i e)"
    "view g' (q_shmid q) (page_of (q_offset q)) op' = (if op' = q_orig_pid q
       then map_option (\<lambda>(s, c). (MATTX_PAGE_EXCLUSIVE, c)) (view g (q_shmid q) (page_of (q_offset q)) op')
       else view g (q_shmid q) (page_of (q_offset q)) op')"
proof -
  let ?p = "page_of (q_offset q)"
  obtain j m where c: "guest_at tgid g = Some j" "flush_site (q_orig_pid q) (q_shmid q) g = Some (j, m)"
      "map_base j (page_mask addr - q_offset q) g = Some m"
    using translate_cell [OF assms(1,2)] by metis
  have r: "vf = VM_FAULT_OK" "g' = upd_map j m (set_state ?p MATTX_PAGE_EXCLUSIVE) g"
    using assms(3,4) c by (auto simp: dsm_mkwrite_finish_def)
  show "vf = VM_FAULT_OK" "wf_node g'" "glinks g' = glinks g" "gmode g' = gmode g" "gmem g' = gmem g"
      "flush_site op' shm' g' = flush_site op' shm' g" "pages (cell g' i e) = pages (cell g i e)"
    using r assms(1) by (simp_all add: wf_upd_map upd_map_shape flush_site_upd_map)
  show "view g' (q_shmid q) ?p op' = (if op' = q_orig_pid q
       then map_option (\<lambda>(s, c). (MATTX_PAGE_EXCLUSIVE, c)) (view g (q_shmid q) ?p op') else view g (q_shmid q) ?p op')"
    using view_set_state [OF assms(1) c(2), of ?p MATTX_PAGE_EXCLUSIVE op'] r(2) by simp
qed

section \<open>The cluster\<close>

record cluster =
  c_home :: home
  c_id :: u32
  c_nodes :: "u32 \<Rightarrow> gnode"

definition set_node :: "u32 \<Rightarrow> gnode \<Rightarrow> cluster \<Rightarrow> cluster" where
  "set_node n g c = c\<lparr>c_nodes := (c_nodes c)(n := g)\<rparr>"

text \<open>
  A read fault of process \<open>tgid\<close> on node \<open>n\<close> at \<open>addr\<close>. \<open>b\<close>, \<open>r\<close>: flush buffer and request table
  of the home node; \<open>k0\<close>: the physical page the guest node allocates if it needs one. \<open>None\<close>
  means that the owner never answers the flush.
\<close>

definition tx_pump :: "nat \<Rightarrow> u32 \<Rightarrow> pid \<Rightarrow> u64 \<Rightarrow> dsm_req \<Rightarrow> cluster \<Rightarrow> vm_fault \<times> cluster" where
  "tx_pump k0 n tgid addr q c =
     (case dsm_fault_pump True n q (c_home c) of (h, out) \<Rightarrow>
       (case out of
          [O_fault_reply t rid e d] \<Rightarrow>
            (case dsm_fault_finish (Some k0) True VM_FAULT_NOPAGE False e d tgid addr q (c_nodes c n) of
               (vf, g) \<Rightarrow> (vf, set_node n g (c\<lparr>c_home := h\<rparr>)))
        | _ \<Rightarrow> (VM_FAULT_SIGSEGV, c\<lparr>c_home := h\<rparr>)))"

definition tx_read ::
    "(pid \<Rightarrow> u64 \<Rightarrow> bool) \<Rightarrow> seg_map \<Rightarrow> nat option \<Rightarrow> rpc \<Rightarrow> nat \<Rightarrow> u32 \<Rightarrow> pid \<Rightarrow> u64 \<Rightarrow> cluster \<Rightarrow> (vm_fault \<times> cluster) option" where
  "tx_read zap seg b r k0 n tgid addr c =
     (case dsm_translate tgid (page_mask addr) (c_nodes c n) of
        None \<Rightarrow> Some (VM_FAULT_SIGSEGV, c)
      | Some (hm, q) \<Rightarrow>
         (case fst (dsm_fault_plan seg b q (c_home c) r) of
            Fault_fail \<Rightarrow> Some (VM_FAULT_SIGSEGV, c)
          | Fault_pump \<Rightarrow> Some (tx_pump k0 n tgid addr q c)
          | Fault_flush ow nd i \<Rightarrow>
             (case mattx_dsm_flush_kworker zap (c_id c) (q\<lparr>q_orig_pid := ow\<rparr>) (c_nodes c nd) of
                (g, out) \<Rightarrow>
                  (case flush_reply_of out of None \<Rightarrow> None
                   | Some (e, d) \<Rightarrow> Some (tx_pump k0 n tgid addr q
                       (set_node nd g (c\<lparr>c_home := dsm_fault_flushed seg True e d q (c_home c)\<rparr>)))))))"

text \<open>Deliver the invalidations of a worker's output.\<close>

fun deliver :: "(pid \<Rightarrow> u64 \<Rightarrow> bool) \<Rightarrow> dsm_out list \<Rightarrow> cluster \<Rightarrow> cluster" where
  "deliver zap [] c = c"
| "deliver zap (O_invalidate t q # out) c =
     deliver zap out (set_node t (fst (mattx_dsm_invalidate_kworker zap q (c_nodes c t))) c)"
| "deliver zap (_ # out) c = deliver zap out c"

text \<open>A first write: acquire, invalidations, upgrade of the local copy, and the store.\<close>

definition store_page :: "u32 \<Rightarrow> u32 \<Rightarrow> nat \<Rightarrow> page \<Rightarrow> gnode \<Rightarrow> gnode" where
  "store_page op shm p c g =
     (case flush_site op shm g of None \<Rightarrow> g
      | Some (i, d) \<Rightarrow>
        (case pages (cell g i d) p of None \<Rightarrow> g | Some k \<Rightarrow> g\<lparr>gmem := (gmem g)(k := c)\<rparr>))"

definition tx_write ::
    "(pid \<Rightarrow> u64 \<Rightarrow> bool) \<Rightarrow> seg_map \<Rightarrow> u32 \<Rightarrow> pid \<Rightarrow> u64 \<Rightarrow> page \<Rightarrow> cluster \<Rightarrow> vm_fault \<times> cluster" where
  "tx_write zap seg n tgid addr new c =
     (case dsm_translate tgid (page_mask addr) (c_nodes c n) of
        None \<Rightarrow> (VM_FAULT_SIGBUS, c)
      | Some (hm, q) \<Rightarrow>
         (case mattx_dsm_write_acquire_kworker seg True n q (c_home c) of
            (h, out) \<Rightarrow>
              (let c1 = deliver zap out (c\<lparr>c_home := h\<rparr>) in
               (case dsm_mkwrite_finish False 0 tgid addr q (c_nodes c1 n) of
                  (vf, g) \<Rightarrow> (vf, set_node n (store_page (q_orig_pid q) (q_shmid q) (page_of (q_offset q)) new g) c1)))))"

section \<open>Coherence\<close>

text \<open>All nodes run mode 2 and are connected; the registries are well formed.\<close>

definition cluster_ok :: "cluster \<Rightarrow> bool" where
  "cluster_ok c \<longleftrightarrow> hmode (c_home c) = 2 \<and> (\<forall>n. unat n < MAX_NODES \<longrightarrow> hlinks (c_home c) n) \<and>
     (\<forall>n. wf_node (c_nodes c n) \<and> gmode (c_nodes c n) = 2 \<and> glinks (c_nodes c n) (c_id c)) \<and>
     (\<forall>shm p. length (ram (c_home c) shm p) = PAGE_SIZE)"

text \<open>
  What the directory says about a page and what the guests hold: nothing valid while it is
  INVALID or unknown; while it is SHARED, clean copies on nodes of the mask only, each of a
  guest that was exported to that node; while it is
  EXCLUSIVE, exactly one copy, the writable one of the owner, on the node to which the owner
  was exported.
\<close>

definition coherent :: "u32 \<Rightarrow> nat \<Rightarrow> cluster \<Rightarrow> bool" where
  "coherent shm p c \<longleftrightarrow>
     (case dir_find shm (hdir (c_home c)) of
        None \<Rightarrow> (\<forall>n op s d. view (c_nodes c n) shm p op = Some (s, d) \<longrightarrow> s = MATTX_PAGE_INVALID)
      | Some e \<Rightarrow>
         (let st = page_state (hdir (c_home c) e) p; ow = page_owner_pid (hdir (c_home c) e) p;
              m = page_shared_mask (hdir (c_home c) e) p; home_n = get_export_target ow (hexports (c_home c))
          in st \<in> {MATTX_PAGE_INVALID, MATTX_PAGE_SHARED, MATTX_PAGE_EXCLUSIVE} \<and>
             (st = MATTX_PAGE_EXCLUSIVE \<longrightarrow> ow \<noteq> 0 \<and> unat home_n < MAX_NODES \<and>
                (\<exists>d. view (c_nodes c home_n) shm p ow = Some (MATTX_PAGE_EXCLUSIVE, Some d))) \<and>
             (\<forall>n op s d. view (c_nodes c n) shm p op = Some (s, d) \<longrightarrow> s \<noteq> MATTX_PAGE_INVALID \<longrightarrow>
                (s = MATTX_PAGE_SHARED \<and> st = MATTX_PAGE_SHARED \<and> unat n < MAX_NODES \<and> mask_has (unat n) m \<and>
                   n = get_export_target op (hexports (c_home c)) \<and> d = Some (ram (c_home c) shm p)) \<or>
                (s = MATTX_PAGE_EXCLUSIVE \<and> st = MATTX_PAGE_EXCLUSIVE \<and> op = ow \<and> n = home_n))))"

text \<open>The current contents of the page: the owner's copy, or the home node's memory.\<close>

definition current :: "u32 \<Rightarrow> nat \<Rightarrow> cluster \<Rightarrow> page" where
  "current shm p c =
     (let ow = excl_owner shm p (hdir (c_home c)) in
      (case view (c_nodes c (get_export_target ow (hexports (c_home c)))) shm p ow of
         Some (s, Some d) \<Rightarrow> if ow \<noteq> 0 then d else ram (c_home c) shm p
       | _ \<Rightarrow> ram (c_home c) shm p))"

section \<open>What the home-node workers do to the directory\<close>

text \<open>Directory entry of a page: state, owner, sharers; all empty for an unknown segment.\<close>

definition entry :: "u32 \<Rightarrow> nat \<Rightarrow> home \<Rightarrow> u8 \<times> u32 \<times> (nat \<Rightarrow> u64)" where
  "entry shm p h = (case dir_find shm (hdir h) of None \<Rightarrow> (MATTX_PAGE_INVALID, 0, zero_mask)
     | Some d \<Rightarrow> (page_state (hdir h d) p, page_owner_pid (hdir h d) p, page_shared_mask (hdir h d) p))"

lemma dir_find_upd:
  assumes "dir_find shm (hdir h) = Some d" "dir_in_use (f (hdir h d)) = dir_in_use (hdir h d)"
    "dir_shmid (f (hdir h d)) = dir_shmid (hdir h d)"
  shows "dir_find shm (hdir (upd_dir d f h)) = Some d"
proof -
  have "dir_find shm (hdir (upd_dir d f h)) = dir_find shm (hdir h)"
    unfolding dir_find_def using assms(2,3) by (intro scan_cong) (auto simp: upd_dir_def)
  with assms(1) show ?thesis by simp
qed

lemma entry_set_page:
  assumes "dir_find shm (hdir h) = Some d"
  shows "dir_find shm (hdir (upd_dir d (set_page p st ow m) h)) = Some d"
    "entry shm p (upd_dir d (set_page p st ow m) h) = (st, ow, m)"
proof -
  show f: "dir_find shm (hdir (upd_dir d (set_page p st ow m) h)) = Some d"
    using assms by (rule dir_find_upd) (simp_all add: set_page_def)
  then show "entry shm p (upd_dir d (set_page p st ow m) h) = (st, ow, m)"
    by (simp add: entry_def) (simp add: upd_dir_def set_page_def)
qed

lemma upd_dir_simps [simp]:
  "ram (upd_dir d f h) = ram h" "hexports (upd_dir d f h) = hexports h" "hlinks (upd_dir d f h) = hlinks h"
  "hmode (upd_dir d f h) = hmode h" "hdir (write_ram shm p x h) = hdir h" "hexports (write_ram shm p x h) = hexports h"
  "hlinks (write_ram shm p x h) = hlinks h" "hmode (write_ram shm p x h) = hmode h"
  "ram (write_ram shm p x h) = (ram h)(shm := (ram h shm)(p := x))"
  by (simp_all add: upd_dir_def write_ram_def)

definition dir_room :: "u32 \<Rightarrow> home \<Rightarrow> bool" where
  "dir_room shm h \<longleftrightarrow> dir_find shm (hdir h) \<noteq> None \<or> (\<exists>d<MAX_DSM_SEGMENTS. \<not> dir_in_use (hdir h d))"

lemma register_entry:
  assumes "dir_room shm h" "dir_register shm pid (hdir h) = (x, dir)"
  shows "\<exists>d. x = Some d \<and> dir_find shm dir = Some d \<and> entry shm p (h\<lparr>hdir := dir\<rparr>) = entry shm p h"
proof (cases "dir_find shm (hdir h)")
  case (Some d)
  then have "x = Some d \<and> dir = hdir h" using assms(2) by (simp add: dir_register_def)
  with Some show ?thesis by simp
next
  case None
  then obtain d where d: "scan (\<lambda>d. \<not> dir_in_use (hdir h d)) MAX_DSM_SEGMENTS = Some d"
    using assms(1) scan_exists [of _ MAX_DSM_SEGMENTS "\<lambda>d. \<not> dir_in_use (hdir h d)"] by (auto simp: dir_room_def)
  have x: "x = Some d" "dir = (hdir h)(d := fresh_dir shm pid)" using assms(2) None d by (simp_all add: dir_register_def)
  have no: "\<not> (dir_in_use (hdir h j) \<and> dir_shmid (hdir h j) = shm)" if "j < MAX_DSM_SEGMENTS" for j
    using None that unfolding dir_find_def scan_None by blast
  have f: "dir_find shm dir = Some d" unfolding dir_find_def
    using scan_SomeD(1) [OF d] no by (intro scan_unique) (auto simp: x fresh_dir_def split: if_splits)
  moreover have "entry shm p (h\<lparr>hdir := dir\<rparr>) = entry shm p h"
    using f None by (simp add: entry_def) (simp add: x fresh_dir_def)
  ultimately show ?thesis using x by blast
qed

lemma pump_entry:
  assumes "hmode h = 2" "hlinks h n" "dir_room (q_shmid q) h" "p = page_of (q_offset q)"
    "dsm_fault_pump True n q h = (h', out)" "entry (q_shmid q) p h = (st, ow, m)"
  shows "out = [O_fault_reply n (q_req_id q) 0 (ram h (q_shmid q) p)]"
    "entry (q_shmid q) p h' = (if st = MATTX_PAGE_INVALID then MATTX_PAGE_SHARED else st, ow, mask_add (unat n) m)"
    "dir_find (q_shmid q) (hdir h') \<noteq> None"
    "ram h' = ram h" "hexports h' = hexports h" "hlinks h' = hlinks h" "hmode h' = hmode h"
proof -
  obtain x dir where rg: "dir_register (q_shmid q) (q_orig_pid q) (hdir h) = (x, dir)" by fastforce
  from register_entry [OF assms(3) rg, of p] obtain d where
    d: "x = Some d" "dir_find (q_shmid q) dir = Some d" "entry (q_shmid q) p (h\<lparr>hdir := dir\<rparr>) = entry (q_shmid q) p h"
    by blast
  have r: "h' = upd_dir d (dir_share p (unat n)) (h\<lparr>hdir := dir\<rparr>)"
      "out = [O_fault_reply n (q_req_id q) 0 (ram h (q_shmid q) p)]"
    using assms(1,2,4,5) rg d(1) by (auto simp: dsm_fault_pump_def Let_def)
  show "out = [O_fault_reply n (q_req_id q) 0 (ram h (q_shmid q) p)]" by (rule r)
  have f: "dir_find (q_shmid q) (hdir h') = Some d"
    unfolding r(1) using d(2) by (intro dir_find_upd) (simp_all add: dir_share_def)
  then show "dir_find (q_shmid q) (hdir h') \<noteq> None" by simp
  have "page_state (dir d) p = st" "page_owner_pid (dir d) p = ow" "page_shared_mask (dir d) p = m"
    using d(2,3) assms(6) by (simp_all add: entry_def)
  then show "entry (q_shmid q) p h' = (if st = MATTX_PAGE_INVALID then MATTX_PAGE_SHARED else st, ow, mask_add (unat n) m)"
    using f by (simp add: entry_def) (simp add: r(1) upd_dir_def dir_share_def)
  show "ram h' = ram h" "hexports h' = hexports h" "hlinks h' = hlinks h" "hmode h' = hmode h"
    by (simp_all add: r(1))
qed

text \<open>Coherence in terms of the entry, in two directions that the proofs use.\<close>

lemma coherent_entry:
  assumes "entry shm p (c_home c) = (st, ow, m)"
  shows "coherent shm p c \<longleftrightarrow>
    st \<in> {MATTX_PAGE_INVALID, MATTX_PAGE_SHARED, MATTX_PAGE_EXCLUSIVE} \<and>
    (st = MATTX_PAGE_EXCLUSIVE \<longrightarrow> ow \<noteq> 0 \<and> unat (get_export_target ow (hexports (c_home c))) < MAX_NODES \<and>
       (\<exists>d. view (c_nodes c (get_export_target ow (hexports (c_home c)))) shm p ow = Some (MATTX_PAGE_EXCLUSIVE, Some d))) \<and>
    (\<forall>n op s d. view (c_nodes c n) shm p op = Some (s, d) \<longrightarrow> s \<noteq> MATTX_PAGE_INVALID \<longrightarrow>
       (s = MATTX_PAGE_SHARED \<and> st = MATTX_PAGE_SHARED \<and> unat n < MAX_NODES \<and> mask_has (unat n) m \<and>
          n = get_export_target op (hexports (c_home c)) \<and> d = Some (ram (c_home c) shm p)) \<or>
       (s = MATTX_PAGE_EXCLUSIVE \<and> st = MATTX_PAGE_EXCLUSIVE \<and> op = ow \<and> n = get_export_target ow (hexports (c_home c))))"
  using assms by (cases "dir_find shm (hdir (c_home c))") (auto simp: coherent_def entry_def Let_def)

lemma coherent_copy:
  assumes "coherent shm p c" "entry shm p (c_home c) = (st, ow, m)" "view (c_nodes c n) shm p op = Some (s, d)"
    "s \<noteq> MATTX_PAGE_INVALID"
  shows "(s = MATTX_PAGE_SHARED \<and> st = MATTX_PAGE_SHARED \<and> unat n < MAX_NODES \<and> mask_has (unat n) m \<and>
          n = get_export_target op (hexports (c_home c)) \<and> d = Some (ram (c_home c) shm p)) \<or>
       (s = MATTX_PAGE_EXCLUSIVE \<and> st = MATTX_PAGE_EXCLUSIVE \<and> op = ow \<and> n = get_export_target ow (hexports (c_home c)))"
  using assms(1) unfolding coherent_entry [OF assms(2)] using assms(3,4) by simp

lemma excl_owner_entry: "entry shm p h = (st, ow, m) \<Longrightarrow> excl_owner shm p (hdir h) = (if st = MATTX_PAGE_EXCLUSIVE then ow else 0)"
  by (auto simp: excl_owner_def entry_def split: option.splits)

lemma current_shared:
  assumes "entry shm p (c_home c) = (st, ow, m)" "st \<noteq> MATTX_PAGE_EXCLUSIVE"
  shows "current shm p c = ram (c_home c) shm p"
  using assms by (simp add: current_def excl_owner_entry Let_def split: option.split)

lemma current_excl:
  assumes "entry shm p (c_home c) = (MATTX_PAGE_EXCLUSIVE, ow, m)" "ow \<noteq> 0"
    "view (c_nodes c (get_export_target ow (hexports (c_home c)))) shm p ow = Some (s, Some d)"
  shows "current shm p c = d"
  using assms by (simp add: current_def excl_owner_entry Let_def)

section \<open>A small cluster\<close>

text \<open>Home node 1 and one guest on node 2 (pid 500 there, 42 at home) that maps segment 7.\<close>

definition zpage :: page where
  "zpage = replicate PAGE_SIZE 0"

definition demo_gnode :: "u8 \<Rightarrow> nat \<Rightarrow> gnode" where
  "demo_gnode st c = \<lparr>gregs = \<lparr>slots = (\<lambda>_. (demo_guest 500 42 1 0)\<lparr>dsm_map := (\<lambda>_. \<lparr>base_addr = 0x10000, m_shmid = 7,
      m_size = 0x2000, present_pages = (\<lambda>_. False), pages = [0 \<mapsto> 3], page_states = (\<lambda>_. st)\<rparr>)\<rparr>), cnt = c\<rparr>,
    gmem = (\<lambda>_. zpage), gmode = 2, glinks = (\<lambda>_. True)\<rparr>"

definition demo_home :: "u8 \<Rightarrow> home" where
  "demo_home st = \<lparr>hdir = (\<lambda>d. if d = 0 then (fresh_dir 7 42)\<lparr>page_state := (\<lambda>_. st), page_shared_mask := (\<lambda>_. mask_add 2 zero_mask)\<rparr>
      else (fresh_dir 0 0)\<lparr>dir_in_use := False\<rparr>), ram = (\<lambda>_ _. zpage),
    hexports = \<lparr>slots = (\<lambda>_. \<lparr>e_orig_pid = 42, e_target_node = 2, e_remote_files = (\<lambda>_. None), e_abort_rpc = False,
      e_is_growing_gang = False\<rparr>), cnt = 1\<rparr>, hlinks = (\<lambda>_. True), hmode = 2\<rparr>"

definition demo_cluster :: "u8 \<Rightarrow> cluster" where
  "demo_cluster st = \<lparr>c_home = demo_home st, c_id = 1, c_nodes = (\<lambda>n. demo_gnode st (if n = 2 then 1 else 0))\<rparr>"

lemma demo_wf: "c \<le> 1 \<Longrightarrow> wf_node (demo_gnode st c)"
  by (auto simp: wf_node_def live_def demo_gnode_def demo_guest_def zpage_def split: if_splits)

lemma demo_view: "view (c_nodes (demo_cluster st) n) 7 0 op = (if n = 2 \<and> op = 42 then Some (st, Some zpage) else None)"
proof -
  have fs: "flush_site op 7 (demo_gnode st 1) = (if op = 42 then Some (0, 0) else None)"
  proof (cases "op = 42")
    case True
    then show ?thesis using flush_site_iff [OF demo_wf [of 1 st], of op 7 0 0]
      by (simp add: live_def demo_gnode_def demo_guest_def)
  next
    case False
    have "flush_site op 7 (demo_gnode st 1) \<noteq> Some (i, d)" for i d
      using flush_site_iff [OF demo_wf [of 1 st], of op 7 i d] False by (auto simp: demo_gnode_def demo_guest_def)
    with False show ?thesis by (metis option.exhaust surj_pair)
  qed
  have fs0: "flush_site op 7 (demo_gnode st 0) = None"
    by (simp add: flush_site_def demo_gnode_def scan_None split: option.split)
  show ?thesis
    using fs fs0 by (auto simp: demo_cluster_def view_def) (simp_all add: demo_gnode_def demo_guest_def)
qed

lemma demo_ok: "cluster_ok (demo_cluster st)"
  using demo_wf by (simp add: cluster_ok_def demo_cluster_def demo_home_def) (simp add: demo_gnode_def zpage_def)

lemma demo_target: "get_export_target 42 (hexports (c_home (demo_cluster st))) = 2"
proof -
  have "scan (\<lambda>i. e_orig_pid (slots (hexports (demo_home st)) i) = 42) (cnt (hexports (demo_home st))) = Some 0"
    by (rule scan_unique) (simp_all add: demo_home_def)
  then show ?thesis by (simp add: get_export_target_def demo_cluster_def) (simp add: demo_home_def)
qed

lemma demo_entry: "entry 7 0 (c_home (demo_cluster st)) = (st, 0, mask_add 2 zero_mask)"
proof -
  have "dir_find 7 (hdir (demo_home st)) = Some 0" unfolding dir_find_def
    by (rule scan_unique) (auto simp: demo_home_def fresh_dir_def split: if_splits)
  then show ?thesis by (simp add: entry_def demo_cluster_def) (simp add: demo_home_def fresh_dir_def)
qed

lemma demo_coherent: "st \<in> {MATTX_PAGE_INVALID, MATTX_PAGE_SHARED} \<Longrightarrow> coherent 7 0 (demo_cluster st)"
  unfolding coherent_entry [OF demo_entry] demo_view
  using demo_target by (auto simp: demo_cluster_def demo_home_def split: if_splits)

lemma demo_translate: "dsm_translate 500 (page_mask 0x10000) (c_nodes (demo_cluster st) 2) =
    Some (c_id (demo_cluster st), \<lparr>q_req_id = 0, q_orig_pid = 42, q_shmid = 7, q_offset = 0\<rparr>)"
proof -
  have a: "page_mask 0x10000 = 0x10000" by (simp add: page_mask_def)
  have g: "guest_at 500 (demo_gnode st 1) = Some 0" unfolding guest_at_def
    by (rule scan_unique) (simp_all add: demo_gnode_def demo_guest_def)
  have m: "map_at 0 0x10000 (demo_gnode st 1) = Some 0" unfolding map_at_def
    by (rule scan_unique) (simp_all add: demo_gnode_def demo_guest_def)
  show ?thesis using g m
    by (simp add: a dsm_translate_def demo_cluster_def Let_def, simp add: demo_gnode_def demo_guest_def)
qed

section \<open>Transactions keep coherence\<close>

lemma cluster_ok_set_node:
  assumes "cluster_ok c" "wf_node g" "gmode g = 2" "glinks g (c_id c)" "hmode h = 2" "hlinks h = hlinks (c_home c)"
    "\<And>shm p. length (ram h shm p) = PAGE_SIZE"
  shows "cluster_ok (set_node n g (c\<lparr>c_home := h\<rparr>))"
  using assms by (simp add: cluster_ok_def set_node_def)

lemma pump_coherent:
  assumes "cluster_ok c" "coherent shm p c" "unat n < MAX_NODES"
    "dsm_translate tgid (page_mask addr) (c_nodes c n) = Some (hm, q)" "q_shmid q = shm" "page_of (q_offset q) = p"
    "\<forall>i d p. live (c_nodes c n) i d \<longrightarrow> pages (cell (c_nodes c n) i d) p \<noteq> Some k0"
    "dir_room shm (c_home c)" "entry shm p (c_home c) = (st, ow, m)" "st \<noteq> MATTX_PAGE_EXCLUSIVE"
    "get_export_target (q_orig_pid q) (hexports (c_home c)) = n"
  shows "\<exists>c'. tx_pump k0 n tgid addr q c = (VM_FAULT_NOPAGE, c') \<and> cluster_ok c' \<and> coherent shm p c' \<and>
    view (c_nodes c' n) shm p (q_orig_pid q) = Some (MATTX_PAGE_SHARED, Some (current shm p c)) \<and>
    current shm p c' = current shm p c"
proof -
  let ?h = "c_home c" and ?g = "c_nodes c n" and ?r = "ram (c_home c) shm p"
  have ok: "hmode ?h = 2" "hlinks ?h n" "wf_node ?g" "gmode ?g = 2" "glinks ?g (c_id c)" "length ?r = PAGE_SIZE"
    using assms(1,3) by (auto simp: cluster_ok_def)
  obtain h' out where pm: "dsm_fault_pump True n q ?h = (h', out)" by fastforce
  note pe = pump_entry [OF ok(1,2) _ _ pm, of p st ow m, unfolded assms(5,6), OF assms(8) refl assms(9)]
  obtain vf g' where fin: "dsm_fault_finish (Some k0) True VM_FAULT_NOPAGE False 0 ?r tgid addr q ?g = (vf, g')" by fastforce
  note fv = fault_finish_view [OF ok(3,4) assms(4) ok(6) assms(7) fin refl refl, unfolded assms(5,6)]
  let ?c' = "set_node n g' (c\<lparr>c_home := h'\<rparr>)"
  have tx: "tx_pump k0 n tgid addr q c = (VM_FAULT_NOPAGE, ?c')"
    using pm pe(1) fin fv(1) by (simp add: tx_pump_def)
  have ok': "cluster_ok ?c'"
    using cluster_ok_set_node [OF assms(1) fv(2)] fv(3,4) ok(1,4,5) pe(4,6,7) assms(1) by (simp add: cluster_ok_def)
  have e': "entry shm p (c_home ?c') = (MATTX_PAGE_SHARED, ow, mask_add (unat n) m)"
    using pe(2) assms(2,9,10) by (auto simp: set_node_def coherent_entry [OF assms(9)])
  have vw: "view (c_nodes ?c' n') shm p op' = (if n' = n \<and> op' = q_orig_pid q then Some (MATTX_PAGE_SHARED, Some ?r)
      else view (c_nodes c n') shm p op')" for n' op'
    using fv(5) by (simp add: set_node_def)
  have ram': "ram (c_home ?c') = ram ?h" using pe(4) by (simp add: set_node_def)
  have "s = MATTX_PAGE_SHARED \<and> unat n' < MAX_NODES \<and> mask_has (unat n') (mask_add (unat n) m) \<and>
      n' = get_export_target op' (hexports ?h) \<and> y = Some ?r"
    if "view (c_nodes ?c' n') shm p op' = Some (s, y)" "s \<noteq> MATTX_PAGE_INVALID" for n' op' s y
    using that vw [of n' op'] assms(2,3,10,11) unfolding coherent_entry [OF assms(9)] by (auto split: if_splits)
  moreover have "hexports (c_home ?c') = hexports ?h" using pe(5) by (simp add: set_node_def)
  ultimately have "coherent shm p ?c'" unfolding coherent_entry [OF e'] ram' by auto
  moreover have "current shm p ?c' = ?r" using current_shared [OF e'] ram' by simp
  moreover have "current shm p c = ?r" using current_shared [OF assms(9,10)] .
  ultimately show ?thesis using tx ok' vw by auto
qed

lemma flushed_entry:
  assumes "dir_find (q_shmid q) (hdir h) = Some e" "seg (q_orig_pid q) (q_shmid q) \<noteq> None" "p = page_of (q_offset q)"
    "h' = dsm_fault_flushed seg True 0 d q h"
  shows "entry (q_shmid q) p h' = (MATTX_PAGE_SHARED, 0, zero_mask)" "dir_find (q_shmid q) (hdir h') = Some e"
    "ram h' = (ram h)(q_shmid q := (ram h (q_shmid q))(p := d))" "hexports h' = hexports h" "hlinks h' = hlinks h" "hmode h' = hmode h"
proof -
  let ?h1 = "write_ram (q_shmid q) p d h"
  have f1: "dir_find (q_shmid q) (hdir ?h1) = Some e" using assms(1) by simp
  have h': "h' = upd_dir e (set_page p MATTX_PAGE_SHARED 0 zero_mask) ?h1"
    using assms by (simp add: dsm_fault_flushed_def Let_def)
  show "entry (q_shmid q) p h' = (MATTX_PAGE_SHARED, 0, zero_mask)" "dir_find (q_shmid q) (hdir h') = Some e"
    unfolding h' using entry_set_page [OF f1] by simp_all
  show "ram h' = (ram h)(q_shmid q := (ram h (q_shmid q))(p := d))" "hexports h' = hexports h" "hlinks h' = hlinks h" "hmode h' = hmode h"
    by (simp_all add: h')
qed

text \<open>An exclusive page is flushed: its owner loses it and the home node has its contents.\<close>

lemma flush_owner:
  assumes ok: "cluster_ok c" and co: "coherent (q_shmid q) p c" and p: "page_of (q_offset q) = p"
    and e: "entry (q_shmid q) p (c_home c) = (MATTX_PAGE_EXCLUSIVE, ow, m)"
    and sg: "seg (q_orig_pid q) (q_shmid q) \<noteq> None"
    and q': "q_orig_pid q' = ow" "q_shmid q' = q_shmid q" "q_offset q' = q_offset q"
    and fl: "mattx_dsm_flush_kworker zap (c_id c) q' (c_nodes c (get_export_target ow (hexports (c_home c)))) = (g, out)"
  shows "\<exists>d. flush_reply_of out = Some (0, d) \<and>
    (let h = dsm_fault_flushed seg True 0 d q (c_home c);
         c1 = set_node (get_export_target ow (hexports (c_home c))) g (c\<lparr>c_home := h\<rparr>)
     in cluster_ok c1 \<and> coherent (q_shmid q) p c1 \<and> current (q_shmid q) p c1 = current (q_shmid q) p c \<and>
       ram h (q_shmid q) p = current (q_shmid q) p c \<and> hexports h = hexports (c_home c) \<and>
       entry (q_shmid q) p h = (MATTX_PAGE_SHARED, 0, zero_mask) \<and> dir_find (q_shmid q) (hdir h) = dir_find (q_shmid q) (hdir (c_home c)) \<and>
       (\<forall>n op s y. view (c_nodes c1 n) (q_shmid q) p op = Some (s, y) \<longrightarrow> s = MATTX_PAGE_INVALID) \<and>
       (\<forall>n op. view (c_nodes c1 n) (q_shmid q) p op = None \<longleftrightarrow> view (c_nodes c n) (q_shmid q) p op = None) \<and>
       (\<forall>n i d. live (c_nodes c1 n) i d = live (c_nodes c n) i d) \<and>
       (\<forall>n i d. pages (cell (c_nodes c1 n) i d) = pages (cell (c_nodes c n) i d)) \<and>
       (\<forall>n tgid a. dsm_translate tgid a (c_nodes c1 n) = dsm_translate tgid a (c_nodes c n)))"
proof -
  let ?nd = "get_export_target ow (hexports (c_home c))" and ?shm = "q_shmid q"
  note ce = co [unfolded coherent_entry [OF e]]
  obtain d where own: "ow \<noteq> 0" "unat ?nd < MAX_NODES" "view (c_nodes c ?nd) ?shm p ow = Some (MATTX_PAGE_EXCLUSIVE, Some d)"
    using ce by auto
  have links: "hmode (c_home c) = 2" "wf_node (c_nodes c ?nd)" "glinks (c_nodes c ?nd) (c_id c)" "gmode (c_nodes c ?nd) = 2"
    using ok by (auto simp: cluster_ok_def)
  note fk = flush_kworker_view [OF links(2,3) _ fl, of d, unfolded q' p, OF own(3)]
  obtain di where di: "dir_find ?shm (hdir (c_home c)) = Some di"
    using e by (auto simp: entry_def split: option.splits)
  let ?h = "dsm_fault_flushed seg True 0 d q (c_home c)"
  note fe = flushed_entry [where h' = ?h, OF di sg p [symmetric] refl]
  let ?c1 = "set_node ?nd g (c\<lparr>c_home := ?h\<rparr>)"
  have len: "length d = PAGE_SIZE"
    using own(3) links(2) by (auto simp: view_def wf_node_def)
  have ok1: "cluster_ok ?c1"
    using cluster_ok_set_node [OF ok fk(2)] fk(3,4) links(1,3,4) fe(3,5,6) ok len by (simp add: cluster_ok_def)
  have vw: "view (c_nodes ?c1 n') ?shm p op' = (if n' = ?nd \<and> op' = ow then Some (MATTX_PAGE_INVALID, Some d)
      else view (c_nodes c n') ?shm p op')" for n' op'
    using fk(8) by (simp add: set_node_def)
  have e1: "entry ?shm p (c_home ?c1) = (MATTX_PAGE_SHARED, 0, zero_mask)" using fe(1) by (simp add: set_node_def)
  have all_inv: "s = MATTX_PAGE_INVALID" if "view (c_nodes ?c1 n') ?shm p op' = Some (s, y)" for n' op' s y
    using that ce vw [of n' op'] by (auto split: if_splits)
  have co1: "coherent ?shm p ?c1" unfolding coherent_entry [OF e1] using all_inv by fastforce
  have cur: "current ?shm p c = d" by (rule current_excl [OF e own(1,3)])
  have ram: "ram ?h ?shm p = d" using fe(3) by simp
  have cur1: "current ?shm p ?c1 = d"
    using current_shared [OF e1] ram by (simp add: set_node_def)
  have none: "view (c_nodes ?c1 n) ?shm p op = None \<longleftrightarrow> view (c_nodes c n) ?shm p op = None" for n op
    using vw [of n op] own(3) by auto
  have rest: "live (c_nodes ?c1 n) i e = live (c_nodes c n) i e" "pages (cell (c_nodes ?c1 n) i e) = pages (cell (c_nodes c n) i e)"
      "dsm_translate tgid a (c_nodes ?c1 n) = dsm_translate tgid a (c_nodes c n)" for n i e tgid a
    using fk(5-7) by (cases "n = ?nd", simp_all add: set_node_def)+
  show ?thesis unfolding Let_def
    by (intro exI [of _ d] conjI allI impI)
      (use fk(1) ok1 co1 cur cur1 ram fe(1,2,4) di all_inv none rest in auto)
qed



lemma deliver_home [simp]: "c_home (deliver zap out c) = c_home c" "c_id (deliver zap out c) = c_id c"
  by (induction zap out c rule: deliver.induct) (simp_all add: set_node_def)

text \<open>Delivered invalidations revoke the copies of all other guests on the addressed nodes.\<close>

definition hit_by :: "u32 \<Rightarrow> dsm_out list \<Rightarrow> bool" where
  "hit_by t out \<longleftrightarrow> (\<exists>q. O_invalidate t q \<in> set out)"

lemma deliver_view:
  assumes "\<forall>n. wf_node (c_nodes c n)" "\<forall>t q. O_invalidate t q \<in> set out \<longrightarrow> q_shmid q = shm \<and> q_orig_pid q = op \<and> page_of (q_offset q) = p"
  shows "wf_node (c_nodes (deliver zap out c) n) \<and> same_maps (c_nodes c n) (c_nodes (deliver zap out c) n) \<and>
    view (c_nodes (deliver zap out c) n) shm p op' = (if hit_by n out \<and> op' \<noteq> op
      then map_option (\<lambda>(s, x). (MATTX_PAGE_INVALID, x)) (view (c_nodes c n) shm p op') else view (c_nodes c n) shm p op')"
  using assms
proof (induction zap out c rule: deliver.induct)
  case (2 zap t q out c)
  let ?g = "fst (mattx_dsm_invalidate_kworker zap q (c_nodes c t))" and ?c = "set_node t (fst (mattx_dsm_invalidate_kworker zap q (c_nodes c t))) c"
  have q: "q_shmid q = shm" "q_orig_pid q = op" "page_of (q_offset q) = p"
    using 2(3) [rule_format, of t q] by simp_all
  have iv: "mattx_dsm_invalidate_kworker zap q (c_nodes c t) = (?g, snd (mattx_dsm_invalidate_kworker zap q (c_nodes c t)))" by simp
  have wf: "wf_node (c_nodes c t)" using 2(2) by simp
  note k = invalidate_kworker_view [OF wf iv, unfolded q] invalidate_same_maps [OF iv]
  have IH: "wf_node (c_nodes (deliver zap out ?c) n) \<and> same_maps (c_nodes ?c n) (c_nodes (deliver zap out ?c) n) \<and>
    view (c_nodes (deliver zap out ?c) n) shm p op' = (if hit_by n out \<and> op' \<noteq> op
      then map_option (\<lambda>(s, x). (MATTX_PAGE_INVALID, x)) (view (c_nodes ?c n) shm p op') else view (c_nodes ?c n) shm p op')"
    using 2(2,3) k(1) by (intro 2(1)) (auto simp: set_node_def)
  have hb: "hit_by n (O_invalidate t q # out) \<longleftrightarrow> n = t \<or> hit_by n out" by (auto simp: hit_by_def)
  show ?case
  proof (cases "n = t")
    case True
    then have c': "c_nodes ?c n = ?g" by (simp add: set_node_def)
    have "map_option (\<lambda>(s, x). (MATTX_PAGE_INVALID, x)) (map_option (\<lambda>(s, x). (MATTX_PAGE_INVALID, x)) v) =
        map_option (\<lambda>(s, x). (MATTX_PAGE_INVALID, x)) v" for v :: "(u8 \<times> page option) option"
      by (cases v) auto
    then have vv: "view (c_nodes (deliver zap out ?c) n) shm p op' = (if op' \<noteq> op
        then map_option (\<lambda>(s, x). (MATTX_PAGE_INVALID, x)) (view (c_nodes c t) shm p op') else view (c_nodes c t) shm p op')"
      using IH unfolding c' k(2) by simp
    have "same_maps (c_nodes c t) (c_nodes (deliver zap out ?c) n)"
      using IH same_maps_trans [OF k(3)] unfolding c' by blast
    then show ?thesis using vv IH [THEN conjunct1] hb True by simp
  next
    case False
    then show ?thesis using IH hb by (simp add: set_node_def)
  qed
qed (auto simp: hit_by_def)

lemma store_page_put:
  assumes "flush_site op shm g = Some (i, d)" "pages (cell g i d) p = Some k"
  shows "store_page op shm p c g = put_page i d p k c g"
proof -
  have "(dsm_map (slots (gregs g) i))(d := (cell g i d)\<lparr>pages := (pages (cell g i d))(p := Some k)\<rparr>) = dsm_map (slots (gregs g) i)"
    using assms(2) by (auto simp: fun_upd_idem)
  then have "upd_map i d (\<lambda>e. e\<lparr>pages := (pages e)(p := Some k)\<rparr>) g = g"
    by (simp add: upd_map_def upd_slot_def)
  then show ?thesis using assms by (simp add: store_page_def put_page_def)
qed

lemma acquire_out:
  assumes "mattx_dsm_write_acquire_kworker seg True n q h = (h', out)" "dir_find (q_shmid q) (hdir h) = Some d"
    "\<forall>t. unat t < MAX_NODES \<longrightarrow> hlinks h t"
  shows "h' = upd_dir d (set_page (page_of (q_offset q)) MATTX_PAGE_EXCLUSIVE (q_orig_pid q) zero_mask) h"
    "\<forall>t q'. O_invalidate t q' \<in> set out \<longrightarrow> q_shmid q' = q_shmid q \<and> q_orig_pid q' = q_orig_pid q \<and> page_of (q_offset q') = page_of (q_offset q)"
    "unat t < MAX_NODES \<Longrightarrow> mask_has (unat t) (page_shared_mask (hdir h d) (page_of (q_offset q))) \<Longrightarrow> hit_by t out"
proof -
  let ?inv = "invalidates (q_orig_pid q) (q_shmid q) (q_offset q) (page_shared_mask (hdir h d) (page_of (q_offset q))) h"
  show "h' = upd_dir d (set_page (page_of (q_offset q)) MATTX_PAGE_EXCLUSIVE (q_orig_pid q) zero_mask) h"
    using assms by (auto simp: mattx_dsm_write_acquire_kworker_def Let_def)
  have o: "O_invalidate t q' \<in> set out \<longleftrightarrow> O_invalidate t q' \<in> set ?inv" for t q'
    using assms by (auto simp: mattx_dsm_write_acquire_kworker_def Let_def)
  show "\<forall>t q'. O_invalidate t q' \<in> set out \<longrightarrow> q_shmid q' = q_shmid q \<and> q_orig_pid q' = q_orig_pid q \<and> page_of (q_offset q') = page_of (q_offset q)"
    unfolding o by (auto simp: invalidates_def)
  show "hit_by t out" if "unat t < MAX_NODES" "mask_has (unat t) (page_shared_mask (hdir h d) (page_of (q_offset q)))"
    unfolding hit_by_def o using that assms(3) by (auto simp: invalidates_def intro!: image_eqI [where x = "unat t"])
qed



section \<open>Findings\<close>

lemma zero_mask_invalidates: "invalidates op shm off zero_mask h = []"
  by (simp add: invalidates_def)

text \<open>
  Overlapping acquires are both granted. When a second process's acquire for the same page
  is served after a first one, whatever the directory said before, both get a positive reply,
  no message ever asks the first to give the page back (the first acquire cleared the sharer
  mask, and an acquire never flushes the recorded owner), and the directory then names only the
  second as owner. Nothing in the worker prevents this: a process that is already waiting for
  its acquire reply is not affected by the invalidation the first acquire sends.
\<close>

theorem acquire_race:
  assumes "dir_find shm (hdir h) = Some d" and "q_shmid q1 = shm" "q_shmid q2 = shm"
    and "page_of (q_offset q1) = p" "page_of (q_offset q2) = p" and "hlinks h t1" "hlinks h t2"
    and "mattx_dsm_write_acquire_kworker seg um t1 q1 h = (h1, out1)"
    and "mattx_dsm_write_acquire_kworker seg um t2 q2 h1 = (h2, out2)"
  shows "O_acquire_reply t1 (q_req_id q1) 0 \<in> set out1 \<and> O_acquire_reply t2 (q_req_id q2) 0 \<in> set out2 \<and>
    (\<forall>t q. O_invalidate t q \<notin> set out2) \<and> (\<forall>t q. O_flush t q \<notin> set out1 \<union> set out2) \<and>
    excl_owner shm p (hdir h2) = q_orig_pid q2"
proof -
  have h1: "h1 = upd_dir d (set_page p MATTX_PAGE_EXCLUSIVE (q_orig_pid q1) zero_mask) h"
    using assms(1,2,4,8) by (auto simp: mattx_dsm_write_acquire_kworker_def Let_def)
  note e1 = entry_set_page [OF assms(1), of p MATTX_PAGE_EXCLUSIVE "q_orig_pid q1" zero_mask, folded h1]
  have mk: "page_shared_mask (hdir h1 d) p = zero_mask" using e1 by (simp add: entry_def)
  have h2: "h2 = upd_dir d (set_page p MATTX_PAGE_EXCLUSIVE (q_orig_pid q2) zero_mask) h1"
    using assms(3,5,9) e1(1) by (auto simp: mattx_dsm_write_acquire_kworker_def Let_def)
  have l: "hlinks h1 t2" using assms(7) h1 by simp
  have o1: "O_acquire_reply t1 (q_req_id q1) 0 \<in> set out1" "\<And>t q. O_flush t q \<notin> set out1"
    using assms(1,2,4,6,8) by (auto simp: mattx_dsm_write_acquire_kworker_def Let_def invalidates_def)
  have o2: "out2 = (if um \<and> seg (q_orig_pid q2) shm \<noteq> None then [O_shootdown shm (q_offset q2)] else []) @
      [O_acquire_reply t2 (q_req_id q2) 0]"
    using assms(3,5,9) e1(1) mk l
    by (auto simp: mattx_dsm_write_acquire_kworker_def Let_def zero_mask_invalidates split: if_splits)
  have "excl_owner shm p (hdir h2) = q_orig_pid q2"
    using excl_owner_entry [OF entry_set_page(2) [OF e1(1), of p MATTX_PAGE_EXCLUSIVE "q_orig_pid q2" zero_mask]] h2 by simp
  with o1 o2 show ?thesis by auto
qed

theorem acquire_race_witness:
  "excl_owner 7 0 (hdir (fst (mattx_dsm_write_acquire_kworker (\<lambda>_ _. None) True 3 \<lparr>q_req_id = 8, q_orig_pid = 43, q_shmid = 7, q_offset = 0\<rparr>
     (fst (mattx_dsm_write_acquire_kworker (\<lambda>_ _. None) True 2 \<lparr>q_req_id = 9, q_orig_pid = 42, q_shmid = 7, q_offset = 0\<rparr> (demo_home 1)))))) = 43"
proof -
  let ?q1 = "\<lparr>q_req_id = 9, q_orig_pid = 42, q_shmid = 7, q_offset = 0\<rparr>" and ?q2 = "\<lparr>q_req_id = 8, q_orig_pid = 43, q_shmid = 7, q_offset = 0\<rparr>"
  have f: "dir_find 7 (hdir (demo_home 1)) = Some 0" unfolding dir_find_def
    by (rule scan_unique) (auto simp: demo_home_def fresh_dir_def split: if_splits)
  have "hlinks (demo_home 1) 2" "hlinks (demo_home 1) 3" by (simp_all add: demo_home_def)
  from acquire_race [OF f, of ?q1 ?q2 0, OF _ _ _ _ this prod.collapse [symmetric] prod.collapse [symmetric], THEN conjunct2,
      THEN conjunct2, THEN conjunct2, THEN conjunct2]
  show ?thesis by (simp add: page_of_def)
qed

text \<open>
  A page owned by the home node can go stale. After a native write has made the home node
  the owner of a page (EXCLUSIVE with owner 0), a guest's read fault on another node hands out
  a copy and records the sharer but leaves the page EXCLUSIVE; from then on no native write to
  it is intercepted, although the node holds a copy.
\<close>

theorem native_owner_stale:
  assumes "dir_find (q_shmid q) (hdir h) = Some d" and "hmode h = 2" and "hlinks h n"
    and "vm1_sync_finish alive lp True (q_shmid q) (q_offset q) (Some d) h = (h1, out1)"
    and "dsm_fault_plan seg b q h1 r = (plan, r', out2)" and "fault_addr_of seg q \<noteq> 0"
    and "dsm_fault_pump True n q h1 = (h2, out3)"
  shows "plan = Fault_pump \<and>
    out3 = [O_fault_reply n (q_req_id q) 0 (ram h (q_shmid q) (page_of (q_offset q)))] \<and>
    mask_has (unat n) (snd (snd (entry (q_shmid q) (page_of (q_offset q)) h2))) \<and>
    \<not> shmem_fault_needs_sync False True (q_shmid q) (q_offset q) h2"
proof -
  let ?p = "page_of (q_offset q)" and ?shm = "q_shmid q"
  have h1: "h1 = upd_dir d (set_page ?p MATTX_PAGE_EXCLUSIVE 0 zero_mask) h"
    using assms(4) by (auto simp: vm1_sync_finish_def Let_def)
  note e1 = entry_set_page [OF assms(1), of ?p MATTX_PAGE_EXCLUSIVE 0 zero_mask, folded h1]
  have m1: "hmode h1 = 2" "hlinks h1 n" "ram h1 = ram h" using assms(2,3) h1 by simp_all
  have plan: "plan = Fault_pump"
    using assms(5,6) m1(1) excl_owner_entry [OF e1(2)] by (simp add: dsm_fault_plan_def Let_def)
  have room: "dir_room ?shm h1" using e1(1) by (simp add: dir_room_def)
  note pe = pump_entry [OF m1(1,2) room refl assms(7) e1(2)]
  obtain d2 where d2: "dir_find ?shm (hdir h2) = Some d2" using pe(3) by auto
  then have "page_state (hdir h2 d2) ?p = MATTX_PAGE_EXCLUSIVE" "page_owner_pid (hdir h2 d2) ?p = 0"
    using pe(2) by (simp_all add: entry_def)
  then have "\<not> shmem_fault_needs_sync False True ?shm (q_offset q) h2"
    using d2 by (simp add: shmem_fault_needs_sync_def Let_def)
  then show ?thesis using plan pe(1,2) m1(3) by simp
qed

theorem native_owner_stale_witness:
  "\<not> shmem_fault_needs_sync False True 7 0 (fst (dsm_fault_pump True 2 \<lparr>q_req_id = 9, q_orig_pid = 42, q_shmid = 7, q_offset = 0\<rparr>
      (fst (vm1_sync_finish (\<lambda>_. True) 300 True 7 0 (Some 0) (demo_home 1)))))"
proof -
  let ?q = "\<lparr>q_req_id = 9, q_orig_pid = 42, q_shmid = 7, q_offset = 0\<rparr>"
  have f: "dir_find (q_shmid ?q) (hdir (demo_home 1)) = Some 0" unfolding dir_find_def
    by (rule scan_unique) (auto simp: demo_home_def fresh_dir_def split: if_splits)
  have m: "hmode (demo_home 1) = 2" "hlinks (demo_home 1) 2" by (simp_all add: demo_home_def)
  have s: "fault_addr_of (\<lambda>_ _. Some (0x5000, 0x7000)) ?q \<noteq> 0" by (simp add: fault_addr_of_def)
  let ?h1 = "fst (vm1_sync_finish (\<lambda>_. True) 300 True (q_shmid ?q) (q_offset ?q) (Some 0) (demo_home 1))"
  have pl: "dsm_fault_plan (\<lambda>_ _. Some (0x5000, 0x7000)) None ?q ?h1 empty_rpc =
      (fst (dsm_fault_plan (\<lambda>_ _. Some (0x5000, 0x7000)) None ?q ?h1 empty_rpc),
       fst (snd (dsm_fault_plan (\<lambda>_ _. Some (0x5000, 0x7000)) None ?q ?h1 empty_rpc)),
       snd (snd (dsm_fault_plan (\<lambda>_ _. Some (0x5000, 0x7000)) None ?q ?h1 empty_rpc)))" by simp
  from native_owner_stale [OF f m prod.collapse [symmetric] pl s prod.collapse [symmetric]]
  show ?thesis by simp
qed

end
