(* ===== verification/Mx_Native.thy ===== *)
theory Mx_Native
  imports Mx_Mesi
begin

text \<open>
  Processes of the home node that use a shared segment themselves. Their page faults are
  intercepted (\<^verbatim>\<open>mattx_hooks.c\<close>): when a guest elsewhere owns the page, or holds copies that a write
  would make stale, the fault is aborted, the process is frozen and a worker
  (\<^verbatim>\<open>mattx_vm1_shm_sync_kworker\<close> in \<^verbatim>\<open>mattx_fileio.c\<close>) fetches the page or revokes the copies and
  wakes the process, which faults again. The worker's steps are those of \<open>Mx_Dsm\<close>; here they are
  put together with the two halves of the hook and run in a cluster.

  Also here: how the handlers of the shared-memory messages start their workers.
\<close>

section \<open>The hook\<close>

text \<open>The fault: address, start of its area, name and inode number of the mapped file, write or read.\<close>

record vmf =
  vf_address :: u64
  vf_start :: u64
  vf_file :: "(string \<times> u32) option"
  vf_write :: bool

record shmem_fault_kretprobe_data =
  needs_sync :: bool
  sd_shmid :: u32
  sd_offset :: u64
  sd_write :: bool

definition no_sync :: shmem_fault_kretprobe_data where
  "no_sync = \<lparr>needs_sync = False, sd_shmid = 0, sd_offset = 0, sd_write = False\<rparr>"

definition entry_handler_shmem_fault :: "bool \<Rightarrow> vmf \<Rightarrow> home \<Rightarrow> shmem_fault_kretprobe_data" where
  "entry_handler_shmem_fault kthread v h =
     (if kthread \<or> hmode h \<noteq> 2 then no_sync
      else case vf_file v of None \<Rightarrow> no_sync
       | Some (name, ino) \<Rightarrow>
          if take 4 name \<noteq> ''SYSV'' then no_sync
          else (let off = page_mask (vf_address v) - vf_start v in
            if shmem_fault_needs_sync kthread (vf_write v) ino off h
            then \<lparr>needs_sync = True, sd_shmid = ino, sd_offset = off, sd_write = vf_write v\<rparr> else no_sync))"

record mattx_vm1_sync_work =
  w_local_pid :: pid
  w_shmid :: u32
  w_offset :: u64
  w_write :: bool

datatype native_effect = Unlock_page | Put_page | Mmap_read_unlock | Freeze_self pid | Schedule mattx_vm1_sync_work

definition mattx_schedule_vm1_sync :: "bool \<Rightarrow> pid \<Rightarrow> u32 \<Rightarrow> u64 \<Rightarrow> bool \<Rightarrow> native_effect list" where
  "mattx_schedule_vm1_sync mem pid shm off w =
     (if mem then [Schedule \<lparr>w_local_pid = pid, w_shmid = shm, w_offset = off, w_write = w\<rparr>] else [])"

text \<open>
  The native handler has run in between and \<open>ax\<close> is its result. A page that it locked is unlocked
  and released, the lock of the address space is dropped, as the result RETRY promises, and the
  process is frozen.
\<close>

definition ret_handler_shmem_fault ::
    "bool \<Rightarrow> bool \<Rightarrow> bool \<Rightarrow> pid \<Rightarrow> shmem_fault_kretprobe_data \<Rightarrow> u64 \<Rightarrow> u64 \<times> native_effect list" where
  "ret_handler_shmem_fault mem mm page pid dat ax =
     (if needs_sync dat then
        (0x400,
         (if ax AND 0x200 \<noteq> 0 \<and> page then [Unlock_page, Put_page] else []) @
         (if mm then [Mmap_read_unlock] else []) @
         [Freeze_self pid] @ mattx_schedule_vm1_sync mem pid (sd_shmid dat) (sd_offset dat) (sd_write dat))
      else (ax, []))"

section \<open>A native access in the cluster\<close>

text \<open>
  The worker of a frozen process. \<open>b\<close>: the buffer for a flushed page, if there is memory; \<open>seg\<close>:
  where the process has mapped the segment. The result is the cluster and whether the process was
  woken; \<open>None\<close> if the owner never answers.
\<close>

definition vm1_conclude ::
    "(pid \<Rightarrow> u64 \<Rightarrow> bool) \<Rightarrow> (pid \<Rightarrow> bool) \<Rightarrow> mattx_vm1_sync_work \<Rightarrow> nat option \<Rightarrow> cluster \<Rightarrow> cluster \<times> bool" where
  "vm1_conclude zap alive wk dir_idx c =
     (case vm1_sync_finish alive (w_local_pid wk) (w_write wk) (w_shmid wk) (w_offset wk) dir_idx (c_home c) of
        (h, out) \<Rightarrow> (deliver zap out (c\<lparr>c_home := h\<rparr>), O_signal SIGCONT (w_local_pid wk) \<in> set out))"

definition mattx_vm1_shm_sync_kworker ::
    "(pid \<Rightarrow> u64 \<Rightarrow> bool) \<Rightarrow> seg_map \<Rightarrow> nat option \<Rightarrow> rpc \<Rightarrow> (pid \<Rightarrow> bool) \<Rightarrow> mattx_vm1_sync_work \<Rightarrow> cluster \<Rightarrow> (cluster \<times> bool) option" where
  "mattx_vm1_shm_sync_kworker zap seg b r alive wk c =
     (case vm1_sync_plan b (w_shmid wk) (w_offset wk) (c_home c) r of
        (dir_idx, None, _, _) \<Rightarrow> Some (vm1_conclude zap alive wk dir_idx c)
      | (dir_idx, Some (ow, i), _, _) \<Rightarrow>
         (let nd = get_export_target ow (hexports (c_home c)) in
          case mattx_dsm_flush_kworker zap (c_id c) \<lparr>q_req_id = next_req_id r, q_orig_pid = ow,
              q_shmid = w_shmid wk, q_offset = w_offset wk\<rparr> (c_nodes c nd) of
            (g, out) \<Rightarrow>
              (case flush_reply_of out of None \<Rightarrow> None
               | Some (e, d) \<Rightarrow> Some (vm1_conclude zap alive wk dir_idx (set_node nd g
                   (c\<lparr>c_home := vm1_sync_flushed seg True e d (w_local_pid wk) (w_shmid wk) (w_offset wk) dir_idx (c_home c)\<rparr>))))))"

text \<open>
  An access of process \<open>lp\<close>, with at most \<open>k\<close> interceptions: a fault that is not intercepted goes
  on in the local memory, and a write then stores \<open>new\<close>. A process that nobody wakes never gets on.
\<close>

fun native_access ::
    "(pid \<Rightarrow> u64 \<Rightarrow> bool) \<Rightarrow> seg_map \<Rightarrow> nat option \<Rightarrow> rpc \<Rightarrow> (pid \<Rightarrow> bool) \<Rightarrow> nat \<Rightarrow> pid \<Rightarrow> vmf \<Rightarrow> page \<Rightarrow> cluster \<Rightarrow> cluster option" where
  "native_access zap seg b r alive k lp v new c =
     (let dat = entry_handler_shmem_fault False v (c_home c) in
      if \<not> needs_sync dat then
        Some (case vf_file v of
            Some (name, ino) \<Rightarrow>
              if vf_write v then c\<lparr>c_home := write_ram ino (page_of (page_mask (vf_address v) - vf_start v)) new (c_home c)\<rparr> else c
          | None \<Rightarrow> c)
      else case k of 0 \<Rightarrow> None
       | Suc k \<Rightarrow>
          (case [wk. Schedule wk \<leftarrow> snd (ret_handler_shmem_fault True True True lp dat 0)] of
             wk # _ \<Rightarrow>
               (case mattx_vm1_shm_sync_kworker zap seg b r alive wk c of
                  Some (c', True) \<Rightarrow> native_access zap seg b r alive k lp v new c'
                | _ \<Rightarrow> None)
           | [] \<Rightarrow> None))"

declare native_access.simps [simp del]

section \<open>Native accesses are coherent\<close>

text \<open>The home node owns the page after a native write to a page that was shared or owned elsewhere.\<close>

definition home_owned :: "u32 \<Rightarrow> nat \<Rightarrow> cluster \<Rightarrow> bool" where
  "home_owned shm p c \<longleftrightarrow> (\<exists>m. entry shm p (c_home c) = (MATTX_PAGE_EXCLUSIVE, 0, m)) \<and>
     (\<forall>n op s d. view (c_nodes c n) shm p op = Some (s, d) \<longrightarrow> s = MATTX_PAGE_INVALID)"

definition mask_empty :: "(nat \<Rightarrow> u64) \<Rightarrow> bool" where
  "mask_empty m \<longleftrightarrow> (\<forall>n < MAX_NODES. \<not> mask_has n m)"

lemma needs_sync_entry:
  assumes "entry shm (page_of off) h = (st, ow, m)" "hmode h = 2"
  shows "shmem_fault_needs_sync False w shm off h \<longleftrightarrow>
    st = MATTX_PAGE_EXCLUSIVE \<and> ow \<noteq> 0 \<or> w \<and> st = MATTX_PAGE_SHARED \<and> \<not> mask_empty m"
proof -
  have sc: "scan (\<lambda>n. mask_has n m) MAX_NODES \<noteq> None \<longleftrightarrow> \<not> mask_empty m"
    unfolding scan_None mask_empty_def by auto
  show ?thesis
  proof (cases "dir_find shm (hdir h)")
    case None
    then have "st = MATTX_PAGE_INVALID" using assms(1) by (simp add: entry_def)
    then show ?thesis using None by (simp add: shmem_fault_needs_sync_def)
  next
    case (Some d)
    then have "page_state (hdir h d) (page_of off) = st" "page_owner_pid (hdir h d) (page_of off) = ow"
        "page_shared_mask (hdir h d) (page_of off) = m"
      using assms(1) by (simp_all add: entry_def)
    then show ?thesis using Some assms(2) sc by (auto simp: shmem_fault_needs_sync_def Let_def)
  qed
qed

definition fault_on :: "u32 \<Rightarrow> nat \<Rightarrow> vmf \<Rightarrow> bool" where
  "fault_on shm p v \<longleftrightarrow> (\<exists>name. vf_file v = Some (name, shm) \<and> take 4 name = ''SYSV'') \<and>
     page_of (page_mask (vf_address v) - vf_start v) = p"

lemma fault_intercepted:
  assumes "fault_on shm p v" "hmode h = 2" "entry shm p h = (st, ow, m)"
  shows "entry_handler_shmem_fault False v h =
    (if st = MATTX_PAGE_EXCLUSIVE \<and> ow \<noteq> 0 \<or> vf_write v \<and> st = MATTX_PAGE_SHARED \<and> \<not> mask_empty m
     then \<lparr>needs_sync = True, sd_shmid = shm, sd_offset = page_mask (vf_address v) - vf_start v, sd_write = vf_write v\<rparr>
     else no_sync)"
proof -
  obtain name where f: "vf_file v = Some (name, shm)" "take 4 name = ''SYSV''" and
    p: "page_of (page_mask (vf_address v) - vf_start v) = p" using assms(1) by (auto simp: fault_on_def)
  show ?thesis
    using needs_sync_entry [OF assms(3) [folded p] assms(2), of "vf_write v"] f assms(2)
    by (simp add: entry_handler_shmem_fault_def Let_def)
qed

lemma access_goes_on:
  assumes "fault_on shm p v" "\<not> needs_sync (entry_handler_shmem_fault False v (c_home c))"
  shows "native_access zap seg b r alive k lp v new c =
    Some (if vf_write v then c\<lparr>c_home := write_ram shm p new (c_home c)\<rparr> else c)"
  using assms by (auto simp: native_access.simps [of _ _ _ _ _ k] fault_on_def)

lemma access_intercepted:
  assumes "entry_handler_shmem_fault False v (c_home c) = \<lparr>needs_sync = True, sd_shmid = shm, sd_offset = off, sd_write = w\<rparr>"
  shows "native_access zap seg b r alive (Suc k) lp v new c =
    (case mattx_vm1_shm_sync_kworker zap seg b r alive \<lparr>w_local_pid = lp, w_shmid = shm, w_offset = off, w_write = w\<rparr> c of
       Some (c', True) \<Rightarrow> native_access zap seg b r alive k lp v new c' | _ \<Rightarrow> None)"
  by (simp add: native_access.simps [of _ _ _ _ _ "Suc k"] assms ret_handler_shmem_fault_def mattx_schedule_vm1_sync_def)


lemma no_copies:
  assumes "coherent shm p c" "entry shm p (c_home c) = (st, ow, m)" "st \<noteq> MATTX_PAGE_EXCLUSIVE" "st = MATTX_PAGE_SHARED \<longrightarrow> mask_empty m"
    "view (c_nodes c n) shm p op = Some (s, d)"
  shows "s = MATTX_PAGE_INVALID"
  using coherent_copy [OF assms(1,2,5)] assms(3,4) by (auto simp: mask_empty_def)

text \<open>A store into the local memory while no guest holds a copy.\<close>

lemma entry_write_ram [simp]: "entry shm p (write_ram shm' p' x h) = entry shm p h"
  by (simp add: entry_def split: option.split)

lemma store_home:
  assumes ok: "cluster_ok c" and len: "length new = PAGE_SIZE"
    and co: "coherent shm p c \<or> home_owned shm p c"
    and none: "\<forall>n op s d. view (c_nodes c n) shm p op = Some (s, d) \<longrightarrow> s = MATTX_PAGE_INVALID"
  shows "cluster_ok (c\<lparr>c_home := write_ram shm p new (c_home c)\<rparr>)"
    "coherent shm p (c\<lparr>c_home := write_ram shm p new (c_home c)\<rparr>) \<or> home_owned shm p (c\<lparr>c_home := write_ram shm p new (c_home c)\<rparr>)"
proof -
  let ?c = "c\<lparr>c_home := write_ram shm p new (c_home c)\<rparr>"
  show "cluster_ok ?c" using ok len by (simp add: cluster_ok_def)
  obtain st ow m where e: "entry shm p (c_home c) = (st, ow, m)" by (cases "entry shm p (c_home c)") auto
  have e': "entry shm p (c_home ?c) = (st, ow, m)" using e by simp
  show "coherent shm p ?c \<or> home_owned shm p ?c"
    using co
  proof
    assume "coherent shm p c"
    then have "coherent shm p ?c"
      unfolding coherent_entry [OF e] coherent_entry [OF e'] using none by auto
    then show ?thesis ..
  next
    assume "home_owned shm p c"
    then show ?thesis by (simp add: home_owned_def)
  qed
qed

text \<open>The last part of the worker: nothing for a read; for a write the copies are revoked.\<close>

lemma conclude_read:
  assumes "\<not> w_write wk" "alive (w_local_pid wk)"
  shows "vm1_conclude zap alive wk dir_idx c = (c, True)"
  using assms by (simp add: vm1_conclude_def vm1_sync_finish_def Let_def split: option.split)

lemma conclude_write:
  assumes ok: "cluster_ok c" and co: "coherent shm p c" and e: "entry shm p (c_home c) = (MATTX_PAGE_SHARED, ow, m)"
    and wk: "w_write wk" "w_shmid wk = shm" "page_of (w_offset wk) = p" "alive (w_local_pid wk)"
    and zero: "\<forall>n. view (c_nodes c n) shm p 0 = None"
  shows "\<exists>c'. vm1_conclude zap alive wk (dir_find shm (hdir (c_home c))) c = (c', True) \<and> cluster_ok c' \<and> home_owned shm p c' \<and>
    ram (c_home c') = ram (c_home c)"
proof -
  obtain d where d: "dir_find shm (hdir (c_home c)) = Some d"
    using e by (auto simp: entry_def split: option.splits)
  have m: "page_shared_mask (hdir (c_home c) d) p = m" using e d by (simp add: entry_def)
  let ?h = "upd_dir d (set_page p MATTX_PAGE_EXCLUSIVE 0 zero_mask) (c_home c)"
  let ?out = "invalidates 0 shm (w_offset wk) m (c_home c) @ [O_signal SIGCONT (w_local_pid wk)]"
  let ?c' = "deliver zap ?out (c\<lparr>c_home := ?h\<rparr>)"
  have r: "vm1_conclude zap alive wk (dir_find shm (hdir (c_home c))) c = (?c', True)"
    using wk d m by (simp add: vm1_conclude_def vm1_sync_finish_def)
  have lk: "\<forall>t. unat t < MAX_NODES \<longrightarrow> hlinks (c_home c) t" using ok by (simp add: cluster_ok_def)
  have wf: "\<forall>n. wf_node (c_nodes (c\<lparr>c_home := ?h\<rparr>) n)" using ok by (simp add: cluster_ok_def)
  have iv: "\<forall>t q. O_invalidate t q \<in> set ?out \<longrightarrow> q_shmid q = shm \<and> q_orig_pid q = 0 \<and> page_of (q_offset q) = p"
    using wk(3) by (auto simp: invalidates_def)
  note dv = deliver_view [OF wf iv, of zap]
  have hit: "hit_by t ?out" if "unat t < MAX_NODES" "mask_has (unat t) m" for t
    unfolding hit_by_def using that lk by (auto simp: invalidates_def intro!: image_eqI [where x = "unat t"])
  have e': "entry shm p ?h = (MATTX_PAGE_EXCLUSIVE, 0, zero_mask)" by (rule entry_set_page(2) [OF d])
  have none: "s = MATTX_PAGE_INVALID" if v: "view (c_nodes ?c' n) shm p op = Some (s, y)" for n op s y
  proof (rule ccontr)
    assume ns: "s \<noteq> MATTX_PAGE_INVALID"
    have op: "op \<noteq> 0" using v dv [of n 0] zero by auto
    then have "view (c_nodes c n) shm p op = Some (s, y)" "\<not> hit_by n ?out"
      using v ns dv [of n op] by (auto split: if_splits)
    then show False using coherent_copy [OF co e _ ns] hit by auto
  qed
  have "wf_node (c_nodes ?c' n) \<and> gmode (c_nodes ?c' n) = gmode (c_nodes c n) \<and> glinks (c_nodes ?c' n) = glinks (c_nodes c n)" for n
    using dv [of n 0] by (simp add: same_maps_def)
  then have "cluster_ok ?c'" using ok unfolding cluster_ok_def by simp
  moreover have "home_owned shm p ?c'" using e' none by (auto simp: home_owned_def)
  ultimately show ?thesis using r by auto
qed

text \<open>The flush on behalf of a native process is the one that a page fault makes.\<close>

lemma vm1_flushed_eq:
  "dir_idx = dir_find shm (hdir h) \<Longrightarrow>
   vm1_sync_flushed seg ok err d lp shm off dir_idx h =
   dsm_fault_flushed seg ok err d \<lparr>q_req_id = x, q_orig_pid = lp, q_shmid = shm, q_offset = off\<rparr> h"
  by (auto simp: vm1_sync_flushed_def dsm_fault_flushed_def Let_def split: option.split)

lemma plan_idle:
  assumes "entry shm (page_of off) h = (st, ow, m)" "st \<noteq> MATTX_PAGE_EXCLUSIVE \<or> ow = 0 \<or> get_export_target ow (hexports h) = - 1 \<or> \<not> hlinks h (get_export_target ow (hexports h))"
  shows "vm1_sync_plan b shm off h r = (dir_find shm (hdir h), None, r, [])"
  using assms(2) excl_owner_entry [OF assms(1)] by (auto simp: vm1_sync_plan_def Let_def)


lemma native_flushes:
  assumes ok: "cluster_ok c" and co: "coherent shm p c" and e: "entry shm p (c_home c) = (MATTX_PAGE_EXCLUSIVE, ow, m)"
    and wk: "w_shmid wk = shm" "page_of (w_offset wk) = p" and sg: "seg (w_local_pid wk) shm \<noteq> None"
    and slot: "\<exists>j<MAX_VFS_RPC. \<not> x_in_use (vfs_rpc_registry r j)"
  shows "\<exists>c1. mattx_vm1_shm_sync_kworker zap seg (Some b) r alive wk c = Some (vm1_conclude zap alive wk (dir_find shm (hdir (c_home c1))) c1) \<and>
    cluster_ok c1 \<and> coherent shm p c1 \<and> ram (c_home c1) shm p = current shm p c \<and>
    entry shm p (c_home c1) = (MATTX_PAGE_SHARED, 0, zero_mask) \<and>
    (\<forall>n op. view (c_nodes c1 n) shm p op = None \<longleftrightarrow> view (c_nodes c n) shm p op = None)"
proof -
  let ?nd = "get_export_target ow (hexports (c_home c))"
  have own: "ow \<noteq> 0" "unat ?nd < MAX_NODES" using co unfolding coherent_entry [OF e] by auto
  have nd: "?nd \<noteq> - 1" using own(2) by (auto simp: unsigned_minus_1_eq_mask mask_eq_exp_minus_1)
  have lk: "hlinks (c_home c) ?nd" using ok own(2) by (simp add: cluster_ok_def)
  obtain i r' where al: "rpc_alloc (Site_data b) r = Some (i, r')" using rpct.alloc_ok slot by blast
  let ?fq = "\<lparr>q_req_id = next_req_id r, q_orig_pid = ow, q_shmid = shm, q_offset = w_offset wk\<rparr>"
  let ?q = "\<lparr>q_req_id = 0, q_orig_pid = w_local_pid wk, q_shmid = shm, q_offset = w_offset wk\<rparr>"
  have plan: "vm1_sync_plan (Some b) shm (w_offset wk) (c_home c) r =
      (dir_find shm (hdir (c_home c)), Some (ow, i), r', [O_flush ?nd ?fq])"
    using excl_owner_entry [OF e] own(1) nd lk al wk(2) by (simp add: vm1_sync_plan_def Let_def)
  obtain g out where fl: "mattx_dsm_flush_kworker zap (c_id c) ?fq (c_nodes c ?nd) = (g, out)" by fastforce
  have c': "coherent (q_shmid ?q) p c" "page_of (q_offset ?q) = p" "entry (q_shmid ?q) p (c_home c) = (MATTX_PAGE_EXCLUSIVE, ow, m)"
      "seg (q_orig_pid ?q) (q_shmid ?q) \<noteq> None" "q_orig_pid ?fq = ow" "q_shmid ?fq = q_shmid ?q" "q_offset ?fq = q_offset ?q"
    using co wk(2) e sg by simp_all
  from flush_owner [where q = ?q and q' = ?fq and seg = seg, OF ok c' fl] obtain d where fo: "flush_reply_of out = Some (0, d)" and
    c1: "let h = dsm_fault_flushed seg True 0 d ?q (c_home c); c1 = set_node ?nd g (c\<lparr>c_home := h\<rparr>)
      in cluster_ok c1 \<and> coherent shm p c1 \<and> ram h shm p = current shm p c \<and> entry shm p h = (MATTX_PAGE_SHARED, 0, zero_mask) \<and>
        dir_find shm (hdir h) = dir_find shm (hdir (c_home c)) \<and>
        (\<forall>n op. view (c_nodes c1 n) shm p op = None \<longleftrightarrow> view (c_nodes c n) shm p op = None)"
    by (simp add: Let_def) blast
  let ?c1 = "set_node ?nd g (c\<lparr>c_home := dsm_fault_flushed seg True 0 d ?q (c_home c)\<rparr>)"
  have home: "c_home ?c1 = dsm_fault_flushed seg True 0 d ?q (c_home c)" by (simp add: set_node_def)
  have "dir_find shm (hdir (c_home ?c1)) = dir_find shm (hdir (c_home c))" unfolding home using c1 [unfolded Let_def] by blast
  moreover have "mattx_vm1_shm_sync_kworker zap seg (Some b) r alive wk c = Some (vm1_conclude zap alive wk (dir_find shm (hdir (c_home c))) ?c1)"
    unfolding mattx_vm1_shm_sync_kworker_def wk(1) plan Let_def
    by (simp only: prod.case option.case fl fo vm1_flushed_eq [OF refl, where x = 0])
  ultimately have "mattx_vm1_shm_sync_kworker zap seg (Some b) r alive wk c = Some (vm1_conclude zap alive wk (dir_find shm (hdir (c_home ?c1))) ?c1)"
    by (simp only:)
  moreover note c1 [unfolded Let_def]
  ultimately show ?thesis by (intro exI [of _ ?c1]) (simp only: home, blast)
qed



definition demo_vmf :: "bool \<Rightarrow> vmf" where
  "demo_vmf w = \<lparr>vf_address = 0x10000, vf_start = 0x10000, vf_file = Some (''SYSV00000007'', 7), vf_write = w\<rparr>"

lemma demo_fault_on: "fault_on 7 0 (demo_vmf w)"
  by (simp add: fault_on_def demo_vmf_def page_mask_def page_of_def)


section \<open>What goes wrong\<close>

text \<open>
  When the owner's node cannot be reached (or there is no memory for its page), a reader is woken
  without anything having changed and faults again, as often as you like.
\<close>

definition unreachable :: "u32 \<Rightarrow> home \<Rightarrow> bool" where
  "unreachable ow h \<longleftrightarrow> get_export_target ow (hexports h) = - 1 \<or> \<not> hlinks h (get_export_target ow (hexports h))"

lemma unreachable_owner_livelock:
  assumes "hmode (c_home c) = 2" "fault_on shm p v" "\<not> vf_write v" "alive lp"
    "entry shm p (c_home c) = (MATTX_PAGE_EXCLUSIVE, ow, m)" "ow \<noteq> 0" "unreachable ow (c_home c)"
  shows "native_access zap seg b r alive k lp v new c = None"
proof (induction k)
  note fi = fault_intercepted [OF assms(2,1,5)]
  case 0
  show ?case using fi assms(6) by (simp add: native_access.simps [of _ _ _ _ _ 0])
next
  note fi = fault_intercepted [OF assms(2,1,5)]
  case (Suc k)
  let ?off = "page_mask (vf_address v) - vf_start v"
  have e: "entry shm (page_of ?off) (c_home c) = (MATTX_PAGE_EXCLUSIVE, ow, m)" using assms(2,5) by (simp add: fault_on_def)
  have "vm1_sync_plan b shm ?off (c_home c) r = (dir_find shm (hdir (c_home c)), None, r, [])"
    by (rule plan_idle [OF e]) (use assms(7) in \<open>simp add: unreachable_def\<close>)
  then have "mattx_vm1_shm_sync_kworker zap seg b r alive \<lparr>w_local_pid = lp, w_shmid = shm, w_offset = ?off, w_write = False\<rparr> c = Some (c, True)"
    using conclude_read [of "\<lparr>w_local_pid = lp, w_shmid = shm, w_offset = ?off, w_write = False\<rparr>"] assms(4)
    by (simp add: mattx_vm1_shm_sync_kworker_def)
  then show ?case using access_intercepted [of v c shm ?off False] fi assms(3,6) Suc.IH by simp
qed

text \<open>
  A writer in the same situation becomes the owner with the old contents: what the unreachable
  owner wrote is lost when it comes back, and until then there are two writable copies.
\<close>

lemma unreachable_owner_overruled:
  assumes "hmode (c_home c) = 2" "fault_on shm p v" "vf_write v" "alive lp"
    "entry shm p (c_home c) = (MATTX_PAGE_EXCLUSIVE, ow, zero_mask)" "ow \<noteq> 0" "unreachable ow (c_home c)"
  shows "\<exists>c'. native_access zap seg b r alive 1 lp v new c = Some c' \<and> c_nodes c' = c_nodes c \<and>
    entry shm p (c_home c') = (MATTX_PAGE_EXCLUSIVE, 0, zero_mask) \<and> ram (c_home c') shm p = new"
proof -
  note fi = fault_intercepted [OF assms(2,1,5)]
  let ?off = "page_mask (vf_address v) - vf_start v" and ?h = "c_home c"
  let ?wk = "\<lparr>w_local_pid = lp, w_shmid = shm, w_offset = ?off, w_write = True\<rparr>"
  have p: "page_of ?off = p" using assms(2) by (simp add: fault_on_def)
  then have e: "entry shm (page_of ?off) ?h = (MATTX_PAGE_EXCLUSIVE, ow, zero_mask)" using assms(5) by simp
  have pl: "vm1_sync_plan b shm ?off ?h r = (dir_find shm (hdir ?h), None, r, [])"
    by (rule plan_idle [OF e]) (use assms(7) in \<open>simp add: unreachable_def\<close>)
  obtain d where d: "dir_find shm (hdir ?h) = Some d" using assms(5) by (auto simp: entry_def split: option.splits)
  have m: "page_shared_mask (hdir ?h d) p = zero_mask" using assms(5) d by (simp add: entry_def)
  have ni: "invalidates op s off zero_mask h = []" for op s off h by (simp add: invalidates_def)
  let ?c1 = "c\<lparr>c_home := upd_dir d (set_page p MATTX_PAGE_EXCLUSIVE 0 zero_mask) ?h\<rparr>"
  have "vm1_conclude zap alive ?wk (dir_find shm (hdir ?h)) c = (?c1, True)"
    using d m p assms(4) by (simp add: vm1_conclude_def vm1_sync_finish_def ni)
  then have s: "mattx_vm1_shm_sync_kworker zap seg b r alive ?wk c = Some (?c1, True)"
    using pl by (simp add: mattx_vm1_shm_sync_kworker_def)
  have e1: "entry shm p (c_home ?c1) = (MATTX_PAGE_EXCLUSIVE, 0, zero_mask)" using entry_set_page(2) [OF d] by simp
  have "hmode (c_home ?c1) = 2" using assms(1) by simp
  from fault_intercepted [OF assms(2) this e1] have "\<not> needs_sync (entry_handler_shmem_fault False v (c_home ?c1))"
    by (simp add: no_sync_def)
  from access_goes_on [OF assms(2) this] s access_intercepted [of v c shm ?off True zap seg b r alive 0 lp new] fi assms(3,6) e1
  show ?thesis by simp
qed

text \<open>Without memory for the work item the process is frozen all the same, and nobody wakes it.\<close>

lemma failed_sync_strands:
  "needs_sync dat \<Longrightarrow> Freeze_self pid \<in> set (snd (ret_handler_shmem_fault False mm page pid dat ax)) \<and>
    Schedule wk \<notin> set (snd (ret_handler_shmem_fault False mm page pid dat ax))"
  by (auto simp: ret_handler_shmem_fault_def mattx_schedule_vm1_sync_def)


section \<open>Mode 3: one instruction at a time\<close>

text \<open>
  In this mode a page is mapped for a single instruction. After it the processor traps, the notifier
  consumes the pending mark and queues a callback, which sends a written page home and unmaps it.
\<close>

record mattx_dsm_cleanup_ctx =
  cc_orig_pid :: u32
  cc_home_node :: u32
  cc_shmid :: u32
  cc_fault_addr :: u64
  cc_write :: bool

definition mattx_inject_dsm_cleanup :: "bool \<Rightarrow> bool \<Rightarrow> mattx_dsm_cleanup_ctx \<Rightarrow> mattx_dsm_cleanup_ctx option" where
  "mattx_inject_dsm_cleanup mem real_task_work_add ctx = (if mem \<and> real_task_work_add then Some ctx else None)"

text \<open>Whether the trap was ours, the queued callback, and the node.\<close>

definition die_notifier :: "bool \<Rightarrow> bool \<Rightarrow> bool \<Rightarrow> pid \<Rightarrow> gnode \<Rightarrow> bool \<times> mattx_dsm_cleanup_ctx option \<times> gnode" where
  "die_notifier debug mem twa tgid g =
     (if \<not> debug then (False, None, g)
      else (case (mattx_die_cb tgid g, guest_at tgid g) of
          ((Some (w, hm, shm, a), g'), Some i) \<Rightarrow>
            (True, mattx_inject_dsm_cleanup mem twa \<lparr>cc_orig_pid = orig_pid (slots (gregs g) i), cc_home_node = hm,
               cc_shmid = shm, cc_fault_addr = a, cc_write = w\<rparr>, g')
        | ((_, g'), _) \<Rightarrow> (False, None, g')))"

definition run_cleanup :: "bool \<Rightarrow> bool \<Rightarrow> mattx_dsm_cleanup_ctx option \<Rightarrow> pid \<Rightarrow> gnode \<Rightarrow> dsm_out list" where
  "run_cleanup mem zap cb tgid g =
     (case cb of None \<Rightarrow> []
      | Some x \<Rightarrow> mattx_dsm_cleanup_cb mem zap (cc_write x) (cc_orig_pid x) (cc_home_node x) (cc_shmid x) (cc_fault_addr x) tgid g)"

text \<open>What the message handlers start; without memory the message is dropped.\<close>

datatype dsm_work =
  Fault_work u32 dsm_req | Acquire_work u32 dsm_req | Invalidate_work u32 dsm_req | Flush_work u32 dsm_req
| Update_work u32 u32 u64 page

definition handle_dsm_page_fault_req :: "bool \<Rightarrow> u32 \<Rightarrow> dsm_req \<Rightarrow> dsm_work list" where
  "handle_dsm_page_fault_req mem sender q = (if mem then [Fault_work sender q] else [])"

definition handle_dsm_write_acquire_req :: "bool \<Rightarrow> u32 \<Rightarrow> dsm_req \<Rightarrow> dsm_work list" where
  "handle_dsm_write_acquire_req mem sender q = (if mem then [Acquire_work sender q] else [])"

definition handle_dsm_invalidate_req :: "bool \<Rightarrow> u32 \<Rightarrow> dsm_req \<Rightarrow> dsm_work list" where
  "handle_dsm_invalidate_req mem sender q = (if mem then [Invalidate_work sender q] else [])"

definition handle_dsm_flush_req :: "bool \<Rightarrow> u32 \<Rightarrow> dsm_req \<Rightarrow> dsm_work list" where
  "handle_dsm_flush_req mem sender q = (if mem then [Flush_work sender q] else [])"

definition handle_dsm_page_update :: "bool \<Rightarrow> u32 \<Rightarrow> u32 \<Rightarrow> u64 \<Rightarrow> page \<Rightarrow> dsm_work list" where
  "handle_dsm_page_update mem op shm off d = (if mem then [Update_work op shm off d] else [])"

text \<open>The updates among the messages of a callback, as the home node serves them.\<close>

fun updates_arrive :: "seg_map \<Rightarrow> bool \<Rightarrow> dsm_out list \<Rightarrow> home \<Rightarrow> home" where
  "updates_arrive seg folio [] h = h"
| "updates_arrive seg folio (O_update t op shm off d # out) h =
     updates_arrive seg folio out (mattx_dsm_update_kworker seg folio op shm off d h)"
| "updates_arrive seg folio (_ # out) h = updates_arrive seg folio out h"

text \<open>Nodes with the same guests and mappings, whatever pages and marks they have.\<close>

definition same_frame :: "gnode \<Rightarrow> gnode \<Rightarrow> bool" where
  "same_frame g g' \<longleftrightarrow> cnt (gregs g') = cnt (gregs g) \<and> gmode g' = gmode g \<and> glinks g' = glinks g \<and>
     (\<forall>i. local_pid (slots (gregs g') i) = local_pid (slots (gregs g) i) \<and> orig_pid (slots (gregs g') i) = orig_pid (slots (gregs g) i) \<and>
        home_node (slots (gregs g') i) = home_node (slots (gregs g) i) \<and> dsm_count (slots (gregs g') i) = dsm_count (slots (gregs g) i) \<and>
        (\<forall>d. base_addr (cell g' i d) = base_addr (cell g i d) \<and> m_size (cell g' i d) = m_size (cell g i d) \<and>
           m_shmid (cell g' i d) = m_shmid (cell g i d)))"

lemma same_frame_lookups:
  assumes "same_frame g g'"
  shows "guest_at tgid g' = guest_at tgid g" "map_at i a g' = map_at i a g" "map_base i a g' = map_base i a g"
    "flush_site op shm g' = flush_site op shm g"
proof -
  note a = assms [unfolded same_frame_def]
  show "guest_at tgid g' = guest_at tgid g" "map_at i a g' = map_at i a g" "map_base i a g' = map_base i a g"
    using a by (simp_all add: guest_at_def map_at_def map_base_def)
  show "flush_site op shm g' = flush_site op shm g"
    using a by (simp add: flush_site_def cong: option.case_cong)
qed

lemma same_frame_trans: "same_frame g g' \<Longrightarrow> same_frame g' g'' \<Longrightarrow> same_frame g g''"
  by (simp add: same_frame_def)

text \<open>A write fault in mode 3 marks the guest and gives it the page.\<close>

lemma step_fault:
  assumes "wf_node g" "gmode g = 3" "dsm_translate tgid (page_mask addr) g = Some (hm, q)"
    "dsm_fault_finish (Some k0) prot VM_FAULT_NOPAGE True 0 d tgid addr q g = (vf, g')"
  obtains i m k where "vf = VM_FAULT_NOPAGE" "same_frame g g'" "guest_at tgid g = Some i" "map_at i (page_mask addr) g = Some m"
    "flush_site (q_orig_pid q) (q_shmid q) g = Some (i, m)" "pages (cell g' i m) (page_of (q_offset q)) = Some k"
    "dsm_step_pending (slots (gregs g') i)" "dsm_step_is_write (slots (gregs g') i)"
    "dsm_step_addr (slots (gregs g') i) = page_mask addr" "dsm_step_shmid (slots (gregs g') i) = q_shmid q"
    "q_offset q = page_mask addr - base_addr (cell g i m)" "q_orig_pid q = orig_pid (slots (gregs g) i)" "hm = home_node (slots (gregs g) i)"
proof -
  let ?p = "page_of (q_offset q)"
  from translate_cell [OF assms(1,3)] obtain i m where c: "guest_at tgid g = Some i"
    "flush_site (q_orig_pid q) (q_shmid q) g = Some (i, m)" "map_base i (page_mask addr - q_offset q) g = Some m"
    by metis
  have t: "map_at i (page_mask addr) g = Some m" "q_offset q = page_mask addr - base_addr (cell g i m)"
      "q_orig_pid q = orig_pid (slots (gregs g) i)" "hm = home_node (slots (gregs g) i)"
  proof -
    obtain m' where m': "map_at i (page_mask addr) g = Some m'" "q_offset q = page_mask addr - base_addr (cell g i m')"
        "q_orig_pid q = orig_pid (slots (gregs g) i)" "hm = home_node (slots (gregs g) i)" "q_shmid q = m_shmid (cell g i m')"
      using assms(3) c(1) by (auto simp: dsm_translate_def Let_def split: option.splits if_splits)
    have "live g i m'" using m'(1) c(1) by (simp add: guest_at_def map_at_def live_def scan_Some)
    moreover have "live g i m" "m_shmid (cell g i m) = q_shmid q" using c(2) flush_site_iff [OF assms(1)] by auto
    ultimately have "m' = m" using wf_seg [OF assms(1)] m'(5) by metis
    then show "map_at i (page_mask addr) g = Some m" "q_offset q = page_mask addr - base_addr (cell g i m)"
        "q_orig_pid q = orig_pid (slots (gregs g) i)" "hm = home_node (slots (gregs g) i)" using m' by simp_all
  qed
  define k where "k = (case pages (cell g i m) ?p of Some k \<Rightarrow> k | None \<Rightarrow> k0)"
  have kc: "(case pages (cell g i m) ?p of Some k \<Rightarrow> Some k | None \<Rightarrow> Some k0) = Some k"
    by (simp add: k_def split: option.split)
  let ?g1 = "(upd_map i m (\<lambda>e. e\<lparr>pages := (pages e)(?p := Some k)\<rparr>) g)\<lparr>gmem := (gmem g)(k := memcpy_to d (gmem g k))\<rparr>"
  let ?g3 = "?g1\<lparr>gregs := upd_slot i (\<lambda>e. e\<lparr>dsm_step_pending := True, dsm_step_is_write := True,
      dsm_step_addr := page_mask addr, dsm_step_shmid := q_shmid q\<rparr>) (gregs ?g1)\<rparr>"
  have r: "vf = VM_FAULT_NOPAGE" "g' = (if ?p < MAX_DSM_PAGES then upd_map i m (\<lambda>e. e\<lparr>present_pages := (present_pages e)(?p := True)\<rparr>) ?g3 else ?g3)"
    using assms(2,4) c(1,3) kc by (simp_all add: dsm_fault_finish_def Let_def upd_map_shape)
  have g: "same_frame g g'" "pages (cell g' i m) ?p = Some k" "dsm_step_pending (slots (gregs g') i)" "dsm_step_is_write (slots (gregs g') i)"
      "dsm_step_addr (slots (gregs g') i) = page_mask addr" "dsm_step_shmid (slots (gregs g') i) = q_shmid q"
    unfolding r(2) by (auto simp: same_frame_def upd_map_def upd_slot_def)
  show thesis by (rule that [OF r(1) g(1) c(1) t(1) c(2) g(2-6) t(2-4)])
qed

lemma store_page_frame:
  assumes "flush_site op shm g = Some (i, m)" "pages (cell g i m) p = Some k"
  shows "store_page op shm p new g = g\<lparr>gmem := (gmem g)(k := new)\<rparr>"
  using assms by (simp add: store_page_def)

text \<open>
  C32. A write in mode 3. The page that a write fault brings in is mapped for one instruction: when
  the trap after it is served (with memory for the callback), the page is unmapped again, the mark
  is gone, and the home node's memory holds what was written, if the segment is still mapped there
  and its page in memory.
\<close>

theorem stepped_write_reaches_home:
  assumes wf: "wf_node g" and md: "gmode g = 3" "hmode h = 3" and tr: "dsm_translate tgid (page_mask addr) g = Some (hm, q)"
    and fin: "dsm_fault_finish (Some k0) prot VM_FAULT_NOPAGE True 0 d tgid addr q g = (vf, g1)"
    and st: "store_page (q_orig_pid q) (q_shmid q) (page_of (q_offset q)) new g1 = g2"
    and die: "die_notifier True True True tgid g2 = (ours, cb, g3)"
    and seg: "fault_addr_of seg q \<noteq> 0"
  shows "vf = VM_FAULT_NOPAGE \<and> ours \<and> O_zap tgid (page_mask addr) 4096 \<in> set (run_cleanup True True cb tgid g3) \<and>
    fst (mattx_die_cb tgid g3) = None \<and>
    ram (updates_arrive seg True (run_cleanup True True cb tgid g3) h) (q_shmid q) (page_of (q_offset q)) = new"
proof -
  let ?p = "page_of (q_offset q)"
  from step_fault [OF wf md(1) tr fin] obtain i m k where f: "vf = VM_FAULT_NOPAGE" "same_frame g g1" "guest_at tgid g = Some i"
    "map_at i (page_mask addr) g = Some m" "flush_site (q_orig_pid q) (q_shmid q) g = Some (i, m)" "pages (cell g1 i m) ?p = Some k"
    "dsm_step_pending (slots (gregs g1) i)" "dsm_step_is_write (slots (gregs g1) i)"
    "dsm_step_addr (slots (gregs g1) i) = page_mask addr" "dsm_step_shmid (slots (gregs g1) i) = q_shmid q"
    "q_offset q = page_mask addr - base_addr (cell g i m)" "q_orig_pid q = orig_pid (slots (gregs g) i)" "hm = home_node (slots (gregs g) i)" .
  note fr = f(2) [unfolded same_frame_def]
  note l1 = same_frame_lookups [OF f(2)]
  have g2: "g2 = g1\<lparr>gmem := (gmem g1)(k := new)\<rparr>"
    using st store_page_frame [of _ _ g1] l1(4) f(5,6) by simp
  then have f2: "same_frame g g2" using f(2) by (simp add: same_frame_def)
  note l2 = same_frame_lookups [OF f2]
  let ?g3 = "g2\<lparr>gregs := upd_slot i (\<lambda>e. e\<lparr>dsm_step_pending := False\<rparr>) (gregs g2)\<rparr>"
  have dc: "mattx_die_cb tgid g2 = (Some (True, hm, q_shmid q, page_mask addr), ?g3)"
    using fr md(1) l2(1) f(3,7-10,13) by (simp add: mattx_die_cb_def Let_def g2)
  have o: "orig_pid (slots (gregs g2) i) = q_orig_pid q" using fr f(12) by (simp add: g2)
  have g3: "g3 = ?g3" "ours" "cb = Some \<lparr>cc_orig_pid = q_orig_pid q, cc_home_node = hm, cc_shmid = q_shmid q,
      cc_fault_addr = page_mask addr, cc_write = True\<rparr>"
    using die dc l2(1) f(3) o by (simp_all add: die_notifier_def mattx_inject_dsm_cleanup_def)
  have f3: "same_frame g g3" unfolding g3(1) using f2 by (simp add: same_frame_def upd_slot_def)
  note l3 = same_frame_lookups [OF f3]
  have b: "base_addr (cell g3 i m) = base_addr (cell g i m)" "glinks g3 = glinks g" using f3 by (simp_all add: same_frame_def)
  have pg: "pages (cell g3 i m) (page_of (page_mask addr - base_addr (cell g3 i m))) = Some k" "gmem g3 k = new"
    unfolding b using f(6,11) by (simp_all add: g3(1) g2 upd_slot_def)
  have "glinks g hm" using tr by (auto simp: dsm_translate_def Let_def split: option.splits if_splits)
  then have out: "run_cleanup True True cb tgid g3 =
      [O_update hm (q_orig_pid q) (q_shmid q) (q_offset q) new, O_zap tgid (page_mask addr) 4096]"
    using l3(1,2) f(3,4,11) pg b by (simp add: run_cleanup_def g3(3) mattx_dsm_cleanup_cb_def)
  have nd: "fst (mattx_die_cb tgid g3) = None"
    using l3(1) f(3) by (simp add: mattx_die_cb_def Let_def g3(1) upd_slot_def)
  from seg obtain a b where s: "seg (q_orig_pid q) (q_shmid q) = Some (a, b)" "a + q_offset q < b"
    by (auto simp: fault_addr_of_def split: option.splits if_splits)
  have "ram (mattx_dsm_update_kworker seg True (q_orig_pid q) (q_shmid q) (q_offset q) new h) (q_shmid q) ?p = new"
    using s md(2) by (simp add: mattx_dsm_update_kworker_def Let_def)
  then show ?thesis using f(1) g3(2) out nd by simp
qed


definition step_gnode :: gnode where
  "step_gnode = (demo_gnode 0 1)\<lparr>gmode := 3\<rparr>"

definition step_home :: home where
  "step_home = (demo_home 0)\<lparr>hmode := 3\<rparr>"

definition step_req :: dsm_req where
  "step_req = \<lparr>q_req_id = 0, q_orig_pid = 42, q_shmid = 7, q_offset = 0\<rparr>"

definition step_mem :: seg_map where
  "step_mem = (\<lambda>_ _. Some (0x5000, 0x7000))"

definition step_trap :: "bool \<times> mattx_dsm_cleanup_ctx option \<times> gnode" where
  "step_trap = die_notifier True True True 500 (store_page (q_orig_pid step_req) (q_shmid step_req) (page_of (q_offset step_req))
     (replicate PAGE_SIZE 5) (snd (dsm_fault_finish (Some 9) True VM_FAULT_NOPAGE True 0 zpage 500 0x10000 step_req step_gnode)))"

theorem stepped_write_reaches_home_witness:
  "ram (updates_arrive step_mem True (run_cleanup True True (fst (snd step_trap)) 500 (snd (snd step_trap))) step_home) 7 0 = replicate PAGE_SIZE 5"
proof -
  have g: "guest_at t (x\<lparr>gmode := 3\<rparr>) = guest_at t x" "map_at i a (x\<lparr>gmode := 3\<rparr>) = map_at i a x" for t i a x
    by (simp_all add: guest_at_def map_at_def)
  have "dsm_translate t a (x\<lparr>gmode := 3\<rparr>) = dsm_translate t a x" for t a x
    unfolding dsm_translate_def g by (simp cong: option.case_cong)
  then have tr: "dsm_translate 500 (page_mask 0x10000) step_gnode = Some (1, step_req)"
    using demo_translate [of 0] by (simp add: step_gnode_def step_req_def demo_cluster_def)
  have "wf_node (x\<lparr>gmode := 3\<rparr>) = wf_node x" for x
  proof -
    have e: "gregs (x\<lparr>gmode := 3\<rparr>) = gregs x" "gmem (x\<lparr>gmode := 3\<rparr>) = gmem x" by simp_all
    show ?thesis unfolding wf_node_def live_def e ..
  qed
  then have wf: "wf_node step_gnode" using demo_wf [of 1 0] by (simp add: step_gnode_def)
  have md: "gmode step_gnode = 3" "hmode step_home = 3" by (simp_all add: step_gnode_def step_home_def)
  have seg: "fault_addr_of step_mem step_req \<noteq> 0" by (simp add: fault_addr_of_def step_req_def step_mem_def)
  have die: "die_notifier True True True 500 (store_page (q_orig_pid step_req) (q_shmid step_req) (page_of (q_offset step_req)) (replicate PAGE_SIZE 5)
      (snd (dsm_fault_finish (Some 9) True VM_FAULT_NOPAGE True 0 zpage 500 0x10000 step_req step_gnode))) =
      (fst step_trap, fst (snd step_trap), snd (snd step_trap))" by (simp add: step_trap_def)
  from stepped_write_reaches_home [OF wf md tr prod.collapse [symmetric] refl die seg]
  show ?thesis by (simp add: step_req_def page_of_def)
qed

text \<open>
  Without memory for the callback the mark is consumed all the same: the page stays mapped, and what
  was written (and is written from then on) does not reach the home node.
\<close>

lemma lost_step:
  assumes "die_notifier True False twa tgid g = (ours, cb, g')"
  shows "cb = None \<and> run_cleanup mem zap cb tgid g' = []"
  using assms by (auto simp: die_notifier_def mattx_inject_dsm_cleanup_def run_cleanup_def split: prod.splits option.splits)

end
