(* ===== verification/Mx_Comm.thy ===== *)
theory Mx_Comm
  imports Mx_Msg
begin

text \<open>
  The networking subsystem, \<^verbatim>\<open>mattx_comm.c\<close>: the frame format, the exact reader and
  the receiver loop, the two senders, the dispatch table, and the life of a link
  (connect, listen, disconnect).

  The TCP socket is code outside the repository. It is a parameter: \<open>rx\<close> answers one
  \<^verbatim>\<open>kernel_recvmsg\<close> (return value and bytes), \<open>tx\<close> one \<^verbatim>\<open>kernel_sendmsg\<close>.
  \<open>stream_source\<close> and \<open>stream_sink\<close> state what a TCP socket promises: bytes arrive
  in order and in pieces of any size up to the one asked for.
\<close>

section \<open>Frames\<close>

record mattx_header =
  magic :: u32
  h_type :: u32
  h_length :: u32
  sender_id :: u32

definition MATTX_MAGIC :: u32 where "MATTX_MAGIC = 0x4D415454"
definition MATTX_MAX_PAYLOAD :: u32 where "MATTX_MAX_PAYLOAD = 10 * 1024 * 1024"

abbreviation (input) HEADER_SIZE :: nat where "HEADER_SIZE \<equiv> 16"

definition header_bytes :: "mattx_header \<Rightarrow> byte list" where
  "header_bytes h = le32 (magic h) @ le32 (h_type h) @ le32 (h_length h) @ le32 (sender_id h)"

definition read_header :: "byte list \<Rightarrow> mattx_header" where
  "read_header bs = \<lparr>magic = un32 bs, h_type = un32 (drop 4 bs),
     h_length = un32 (drop 8 bs), sender_id = un32 (drop 12 bs)\<rparr>"

definition mk_header :: "u32 \<Rightarrow> u32 \<Rightarrow> byte list \<Rightarrow> mattx_header" where
  "mk_header my_node_id ty data = \<lparr>magic = MATTX_MAGIC, h_type = ty,
     h_length = of_nat (length data), sender_id = my_node_id\<rparr>"

definition frame :: "u32 \<Rightarrow> u32 \<Rightarrow> byte list \<Rightarrow> byte list" where
  "frame my_node_id ty data = header_bytes (mk_header my_node_id ty data) @ data"

lemma length_header_bytes [simp]: "length (header_bytes h) = HEADER_SIZE"
  by (simp add: header_bytes_def)

lemma un32_le32_all [simp]: "un32 (le32 w) = w"
  using un32_le32 [of w "[]"] by simp

lemma read_header_bytes [simp]: "read_header (header_bytes h) = h"
  by (simp add: read_header_def header_bytes_def drop_append)

lemma length_frame [simp]: "length (frame n ty d) = HEADER_SIZE + length d"
  by (simp add: frame_def)

lemma take_frame0 [simp]: "take HEADER_SIZE (frame n ty d) = header_bytes (mk_header n ty d)"
  by (simp add: frame_def)

lemma drop_frame0 [simp]: "drop HEADER_SIZE (frame n ty d) = d"
  by (simp add: frame_def)

lemma take_frame [simp]: "take HEADER_SIZE (frame n ty d @ bs) = header_bytes (mk_header n ty d)"
  by (simp add: frame_def)

lemma drop_frame [simp]: "drop HEADER_SIZE (frame n ty d @ bs) = d @ bs"
  by (simp add: frame_def)

section \<open>The exact reader and the receiver loop\<close>

type_synonym 's receiver = "'s \<Rightarrow> nat \<Rightarrow> (int \<times> byte list) \<times> 's"

function mattx_recv_exact ::
    "'s receiver \<Rightarrow> 's \<Rightarrow> byte list \<Rightarrow> nat \<Rightarrow> nat \<Rightarrow> (int \<times> byte list) \<times> 's" where
  "mattx_recv_exact rx s buf received len =
     (if received < len then
        (case rx s (len - received) of ((ret, bs), s') \<Rightarrow>
           if ret \<le> 0 then ((ret, buf), s')
           else mattx_recv_exact rx s' (buf @ bs) (received + nat ret) len)
      else ((int received, buf), s))"
  by pat_completeness auto
termination
  by (relation "measure (\<lambda>(rx, s, buf, received, len). len - received)") auto

declare mattx_recv_exact.simps [simp del]

datatype halt_reason =
    Stopped
  | Recv_failed int
  | Bad_magic u32
  | Too_large u32
  | Out_of_memory u32
  | Payload_failed int

definition receiver_iteration ::
    "'s receiver \<Rightarrow> (u32 \<Rightarrow> bool) \<Rightarrow> 's \<Rightarrow>
     (halt_reason + mattx_header \<times> byte list option) \<times> 's" where
  "receiver_iteration rx kvmalloc s =
     (case mattx_recv_exact rx s [] 0 HEADER_SIZE of ((ret, bs), s1) \<Rightarrow>
        if ret \<le> 0 then (Inl (Recv_failed ret), s1)
        else let hdr = read_header bs in
          if magic hdr \<noteq> MATTX_MAGIC then (Inl (Bad_magic (magic hdr)), s1)
          else if h_length hdr > MATTX_MAX_PAYLOAD then (Inl (Too_large (h_length hdr)), s1)
          else if h_length hdr > 0 then
            if \<not> kvmalloc (h_length hdr) then (Inl (Out_of_memory (h_length hdr)), s1)
            else (case mattx_recv_exact rx s1 [] 0 (unat (h_length hdr)) of ((ret2, payload), s2) \<Rightarrow>
              if ret2 \<le> 0 then (Inl (Payload_failed ret2), s2)
              else (Inr (hdr, Some payload), s2))
          else (Inr (hdr, None), s1))"

text \<open>
  \<open>mattx_receiver_loop n\<close> runs the loop while \<^verbatim>\<open>kthread_should_stop()\<close> answers no,
  which it does \<open>n\<close> times. The result is the list of dispatched messages in order and why
  the loop ended; after that the thread only waits for \<^verbatim>\<open>kthread_stop()\<close>.
\<close>

fun mattx_receiver_loop ::
    "nat \<Rightarrow> 's receiver \<Rightarrow> (u32 \<Rightarrow> bool) \<Rightarrow> 's \<Rightarrow>
     (mattx_header \<times> byte list option) list \<times> halt_reason \<times> 's" where
  "mattx_receiver_loop 0 rx kvmalloc s = ([], Stopped, s)"
| "mattx_receiver_loop (Suc n) rx kvmalloc s =
     (case receiver_iteration rx kvmalloc s of
        (Inl why, s') \<Rightarrow> ([], why, s')
      | (Inr msg, s') \<Rightarrow>
          (case mattx_receiver_loop n rx kvmalloc s' of (msgs, why, s'') \<Rightarrow> (msg # msgs, why, s'')))"

definition stream_source :: "'s receiver \<Rightarrow> ('s \<Rightarrow> byte list) \<Rightarrow> bool" where
  "stream_source rx pending \<longleftrightarrow>
     (\<forall>s n. 0 < n \<longrightarrow> pending s \<noteq> [] \<longrightarrow>
        (\<exists>k s'. 0 < k \<and> k \<le> n \<and> k \<le> length (pending s) \<and>
           rx s n = ((int k, take k (pending s)), s') \<and> pending s' = drop k (pending s)))"

lemma recv_exact_stream:
  "stream_source rx pending \<Longrightarrow> received \<le> len \<Longrightarrow> len - received \<le> length (pending s) \<Longrightarrow>
    \<exists>s'. mattx_recv_exact rx s buf received len =
           ((int len, buf @ take (len - received) (pending s)), s') \<and>
         pending s' = drop (len - received) (pending s)"
proof (induction rx s buf received len rule: mattx_recv_exact.induct)
  case (1 rx s buf received len)
  show ?case
  proof (cases "received < len")
    case False
    with 1 have "received = len" by simp
    then show ?thesis
      by (simp add: mattx_recv_exact.simps [of rx s buf len len])
  next
    case True
    with "1.prems" have "pending s \<noteq> []" by auto
    with True "1.prems"(1) obtain k s' where
      k: "0 < k" "k \<le> len - received" "k \<le> length (pending s)" and
      rx: "rx s (len - received) = ((int k, take k (pending s)), s')" and
      s': "pending s' = drop k (pending s)"
      unfolding stream_source_def by (metis zero_less_diff)
    have IH: "\<exists>t. mattx_recv_exact rx s' (buf @ take k (pending s)) (received + k) len =
        ((int len, (buf @ take k (pending s)) @ take (len - (received + k)) (pending s')), t) \<and>
        pending t = drop (len - (received + k)) (pending s')"
      using "1.IH" [OF True rx [symmetric] refl] "1.prems" k s' by simp
    have split: "len - received = k + (len - (received + k))" using k by simp
    have "take (len - received) (pending s) =
        take k (pending s) @ take (len - (received + k)) (pending s')"
      and "drop (len - received) (pending s) = drop (len - (received + k)) (pending s')"
      unfolding split s' by (simp_all only: take_add drop_drop add.commute)
    with IH True k rx show ?thesis
      by (simp add: mattx_recv_exact.simps [of rx s buf received len])
  qed
qed

corollary recv_exact_stream0:
  "stream_source rx pending \<Longrightarrow> len \<le> length (pending s) \<Longrightarrow>
   \<exists>s'. mattx_recv_exact rx s [] 0 len = ((int len, take len (pending s)), s') \<and>
        pending s' = drop len (pending s)"
  using recv_exact_stream [of rx pending 0 len s "[]"] by simp

text \<open>What the receiver dispatches for one frame.\<close>

definition delivered :: "u32 \<Rightarrow> u32 \<times> byte list \<Rightarrow> mattx_header \<times> byte list option" where
  "delivered n m = (mk_header n (fst m) (snd m), if snd m = [] then None else Some (snd m))"

lemma payload_length:
  "length d \<le> unat MATTX_MAX_PAYLOAD \<Longrightarrow> unat (of_nat (length d) :: u32) = length d"
  by (simp add: MATTX_MAX_PAYLOAD_def unat_of_nat)

lemma receiver_iteration_frame:
  assumes src: "stream_source rx pending"
    and pend: "pending s = frame n ty d @ rest"
    and len: "length d \<le> unat MATTX_MAX_PAYLOAD"
    and mem: "\<And>l. kvmalloc l"
  shows "\<exists>s'. receiver_iteration rx kvmalloc s = (Inr (delivered n (ty, d)), s') \<and> pending s' = rest"
proof -
  let ?h = "mk_header n ty d"
  obtain s1 where r1: "mattx_recv_exact rx s [] 0 HEADER_SIZE = ((16, header_bytes ?h), s1)"
    and p1: "pending s1 = d @ rest"
    using recv_exact_stream0 [OF src, of HEADER_SIZE s] pend by auto
  have h: "magic ?h = MATTX_MAGIC" "h_length ?h = of_nat (length d)" by (simp_all add: mk_header_def)
  have small: "\<not> (h_length ?h > MATTX_MAX_PAYLOAD)"
    using len by (simp add: h word_less_nat_alt payload_length)
  show ?thesis
  proof (cases "d = []")
    case True
    then show ?thesis using r1 p1 h small
      by (simp add: receiver_iteration_def delivered_def MATTX_MAX_PAYLOAD_def)
  next
    case False
    then have pos: "h_length ?h > 0"
      using len by (simp add: h word_less_nat_alt payload_length)
    obtain s2 where r2: "mattx_recv_exact rx s1 [] 0 (length d) = ((int (length d), d), s2)"
      and p2: "pending s2 = rest"
      using recv_exact_stream0 [OF src, of "length d" s1] p1 by auto
    have "unat (h_length ?h) = length d" using len by (simp add: h payload_length)
    with False show ?thesis using r1 r2 p2 h(1) small pos mem
      by (simp add: receiver_iteration_def delivered_def)
  qed
qed

lemma receiver_loop_frames:
  assumes src: "stream_source rx pending" and mem: "\<And>l. kvmalloc l"
  shows "pending s = concat (map (\<lambda>m. frame n (fst m) (snd m)) ms) @ rest \<Longrightarrow>
    \<forall>m\<in>set ms. length (snd m) \<le> unat MATTX_MAX_PAYLOAD \<Longrightarrow>
    \<exists>s'. mattx_receiver_loop (length ms) rx kvmalloc s = (map (delivered n) ms, Stopped, s') \<and>
         pending s' = rest"
proof (induction ms arbitrary: s)
  case Nil
  then show ?case by simp
next
  case (Cons m ms)
  obtain s1 where 1: "receiver_iteration rx kvmalloc s = (Inr (delivered n m), s1)"
    "pending s1 = concat (map (\<lambda>m. frame n (fst m) (snd m)) ms) @ rest"
    using receiver_iteration_frame [OF src, of s n "fst m" "snd m" _ kvmalloc] Cons.prems mem
    by fastforce
  then obtain s2 where "mattx_receiver_loop (length ms) rx kvmalloc s1 = (map (delivered n) ms, Stopped, s2)"
    "pending s2 = rest"
    using Cons.IH Cons.prems by fastforce
  with 1 show ?case by simp
qed

section \<open>The senders\<close>

type_synonym 's sender = "'s \<Rightarrow> byte list \<Rightarrow> int \<times> 's"

function send_loop :: "'s sender \<Rightarrow> 's \<Rightarrow> byte list \<Rightarrow> nat \<Rightarrow> int \<times> 's" where
  "send_loop tx s buf sent =
     (if sent < length buf then
        (case tx s (drop sent buf) of (ret, s') \<Rightarrow>
           if ret \<le> 0 then (ret, s') else send_loop tx s' buf (sent + nat ret))
      else (int sent, s))"
  by pat_completeness auto
termination
  by (relation "measure (\<lambda>(tx, s, buf, sent). length buf - sent)") auto

declare send_loop.simps [simp del]

definition mattx_comm_send ::
    "u32 \<Rightarrow> bool \<Rightarrow> 's sender \<Rightarrow> 's \<Rightarrow> u32 \<Rightarrow> byte list \<Rightarrow> int \<times> 's" where
  "mattx_comm_send my_node_id kvmalloc_ok tx s ty data =
     (if \<not> kvmalloc_ok then (- ENOMEM, s)
      else send_loop tx s (frame my_node_id ty data) 0)"

definition mattx_comm_send_ctrl ::
    "u32 \<Rightarrow> bool \<Rightarrow> bool \<Rightarrow> 's sender \<Rightarrow> 's \<Rightarrow> u32 \<Rightarrow> byte list \<Rightarrow> int \<times> 's" where
  "mattx_comm_send_ctrl my_node_id mutex_held kvmalloc_ok tx s ty data =
     (if mutex_held then (- EBUSY, s)
      else if \<not> kvmalloc_ok then (- ENOMEM, s)
      else send_loop tx s (frame my_node_id ty data) 0)"

definition stream_sink :: "'s sender \<Rightarrow> ('s \<Rightarrow> byte list) \<Rightarrow> bool" where
  "stream_sink tx out \<longleftrightarrow>
     (\<forall>s bs ret s'. tx s bs = (ret, s') \<longrightarrow>
        (if ret \<le> 0 then out s' = out s
         else nat ret \<le> length bs \<and> out s' = out s @ take (nat ret) bs))"

lemma send_loop_sink:
  "stream_sink tx out \<Longrightarrow> send_loop tx s buf sent = (r, s') \<Longrightarrow> sent \<le> length buf \<Longrightarrow>
    \<exists>k. sent \<le> k \<and> k \<le> length buf \<and> out s' = out s @ take (k - sent) (drop sent buf) \<and>
        (if r \<le> 0 \<and> buf \<noteq> [] then k < length buf else r = int (length buf) \<and> k = length buf)"
proof (induction tx s buf sent arbitrary: r s' rule: send_loop.induct)
  case (1 tx s buf sent)
  show ?case
  proof (cases "sent < length buf")
    case False
    with 1 show ?thesis by (auto simp: send_loop.simps [of tx s buf sent])
  next
    case True
    obtain ret t where tx: "tx s (drop sent buf) = (ret, t)" by fastforce
    show ?thesis
    proof (cases "ret \<le> 0")
      case le: True
      with "1.prems"(1) tx have "out t = out s" unfolding stream_sink_def by (metis (full_types))
      moreover have "r = ret" "s' = t" using "1.prems"(2) True tx le
        by (simp_all add: send_loop.simps [of tx s buf sent])
      ultimately show ?thesis using True le by (intro exI [of _ sent]) auto
    next
      case gt: False
      have sink: "nat ret \<le> length (drop sent buf)" "out t = out s @ take (nat ret) (drop sent buf)"
        using "1.prems"(1) tx gt unfolding stream_sink_def by (metis (full_types))+
      have "send_loop tx t buf (sent + nat ret) = (r, s')" using "1.prems"(2) True tx gt
        by (simp add: send_loop.simps [of tx s buf sent])
      moreover have "sent + nat ret \<le> length buf" using sink True by simp
      ultimately obtain k where k: "sent + nat ret \<le> k" "k \<le> length buf"
        "out s' = out t @ take (k - (sent + nat ret)) (drop (sent + nat ret) buf)"
        "if r \<le> 0 \<and> buf \<noteq> [] then k < length buf else r = int (length buf) \<and> k = length buf"
        using "1.IH" [OF True tx [symmetric] gt "1.prems"(1)] by blast
      have "k - sent = nat ret + (k - (sent + nat ret))" using k(1) by simp
      then have "take (k - sent) (drop sent buf) =
          take (nat ret) (drop sent buf) @ take (k - (sent + nat ret)) (drop (sent + nat ret) buf)"
        by (metis add.commute drop_drop take_add)
      with k sink show ?thesis by (intro exI [of _ k]) simp
    qed
  qed
qed

text \<open>A positive result means that the whole frame went out and nothing else.\<close>

lemma comm_send_complete:
  assumes sink: "stream_sink tx out"
    and snd: "mattx_comm_send n ok tx s ty d = (r, s')" and pos: "0 < r"
  shows "out s' = out s @ frame n ty d \<and> r = int (HEADER_SIZE + length d)"
proof -
  have ok: "send_loop tx s (frame n ty d) 0 = (r, s')"
    using snd pos by (auto simp: mattx_comm_send_def split: if_splits)
  have ne: "frame n ty d \<noteq> []"
    by (metis length_frame list.size(3) add_is_0 zero_neq_numeral)
  show ?thesis
    using send_loop_sink [OF sink ok] ne pos by auto
qed

fun send_all ::
    "u32 \<Rightarrow> 's sender \<Rightarrow> 's \<Rightarrow> (u32 \<times> byte list) list \<Rightarrow> int list \<times> 's" where
  "send_all n tx s [] = ([], s)"
| "send_all n tx s (m # ms) =
     (case mattx_comm_send n True tx s (fst m) (snd m) of (r, s') \<Rightarrow>
        (case send_all n tx s' ms of (rs, s'') \<Rightarrow> (r # rs, s'')))"

lemma send_all_complete:
  assumes "stream_sink tx out"
  shows "send_all n tx s ms = (rs, s') \<Longrightarrow> \<forall>r\<in>set rs. 0 < r \<Longrightarrow>
    out s' = out s @ concat (map (\<lambda>m. frame n (fst m) (snd m)) ms)"
proof (induction ms arbitrary: s rs)
  case Nil
  then show ?case by simp
next
  case (Cons m ms)
  obtain r t where 1: "mattx_comm_send n True tx s (fst m) (snd m) = (r, t)" by fastforce
  obtain rs2 t2 where 2: "send_all n tx t ms = (rs2, t2)" by fastforce
  have eq: "rs = r # rs2" "s' = t2" using Cons.prems(1) 1 2 by auto
  have "out t = out s @ frame n (fst m) (snd m)"
    using comm_send_complete [OF assms 1] Cons.prems(2) eq by simp
  moreover have "out t2 = out t @ concat (map (\<lambda>m. frame n (fst m) (snd m)) ms)"
    using Cons.IH [of t rs2] 2 Cons.prems(2) eq by simp
  ultimately show ?case using eq by simp
qed

text \<open>
  A socket that moves at most \<open>c\<close> bytes per call, in both directions: the instance used
  to show that the assumptions on sockets can hold.
\<close>

definition chunk_tx :: "nat \<Rightarrow> byte list sender" where
  "chunk_tx c s bs = (int (length (take c bs)), s @ take c bs)"

definition chunk_rx :: "nat \<Rightarrow> byte list receiver" where
  "chunk_rx c s n = ((int (length (take (min c n) s)), take (min c n) s), drop (min c n) s)"

lemma chunk_tx_sink: "stream_sink (chunk_tx c) (\<lambda>s. s)"
  by (auto simp: stream_sink_def chunk_tx_def min_def)

lemma chunk_rx_source: "0 < c \<Longrightarrow> stream_source (chunk_rx c) (\<lambda>s. s)"
proof -
  assume c: "0 < c"
  { fix s :: "byte list" and n :: nat
    assume "0 < n" "s \<noteq> []"
    with c have "0 < min (min c n) (length s) \<and> min (min c n) (length s) \<le> n \<and>
        min (min c n) (length s) \<le> length s \<and>
        chunk_rx c s n = ((int (min (min c n) (length s)), take (min (min c n) (length s)) s),
          drop (min (min c n) (length s)) s)"
      by (auto simp: chunk_rx_def min_def) }
  then show ?thesis unfolding stream_source_def by meson
qed

text \<open>
  C1. Wire round trip: if every \<^verbatim>\<open>mattx_comm_send\<close> of a sequence of messages reports
  success, the receiver loop of the peer dispatches exactly these messages, in order, with
  their type, length, sender and payload, however TCP cuts the stream into pieces.
\<close>

theorem wire_roundtrip:
  assumes "stream_sink tx out" and "stream_source rx pending" and "\<And>l. kvmalloc l"
    and "send_all n tx s0 ms = (rs, s1)" and "\<forall>r\<in>set rs. 0 < r" and "out s0 = []"
    and "\<forall>m\<in>set ms. length (snd m) \<le> unat MATTX_MAX_PAYLOAD" and "pending r0 = out s1"
  shows "\<exists>r1. mattx_receiver_loop (length ms) rx kvmalloc r0 = (map (delivered n) ms, Stopped, r1) \<and>
    pending r1 = []"
  using receiver_loop_frames [OF assms(2,3), of r0 n ms "[]"]
    send_all_complete [OF assms(1,4,5)] assms(6,7,8) by simp

theorem wire_roundtrip_witness:
  "\<exists>r1. mattx_receiver_loop 2 (chunk_rx 5) (\<lambda>_. True)
      (snd (send_all 7 (chunk_tx 3) [] [(MATTX_MSG_HEARTBEAT, []), (MATTX_MSG_LOAD_UPDATE, [1, 2, 3])])) =
    (map (delivered 7) [(MATTX_MSG_HEARTBEAT, []), (MATTX_MSG_LOAD_UPDATE, [1, 2, 3])], Stopped, r1) \<and>
    r1 = []"
proof -
  let ?ms = "[(MATTX_MSG_HEARTBEAT, []), (MATTX_MSG_LOAD_UPDATE, [1, 2, 3])] :: (u32 \<times> byte list) list"
  have len: "length ?ms = 2" by simp
  have pos: "\<forall>r\<in>set (fst (send_all 7 (chunk_tx 3) [] ?ms)). 0 < r" by code_simp
  have sz: "\<forall>m\<in>set ?ms. length (snd m) \<le> unat MATTX_MAX_PAYLOAD"
    by (simp add: MATTX_MAX_PAYLOAD_def)
  have "\<exists>r1. mattx_receiver_loop (length ?ms) (chunk_rx 5) (\<lambda>_. True)
      (snd (send_all 7 (chunk_tx 3) [] ?ms)) = (map (delivered 7) ?ms, Stopped, r1) \<and> r1 = []"
    by (rule wire_roundtrip [OF chunk_tx_sink chunk_rx_source _ prod.collapse [symmetric] pos _ sz])
      simp_all
  then show ?thesis by (simp only: len)
qed

section \<open>The dispatch table\<close>

type_synonym 'h dispatch = "nat \<Rightarrow> 'h option"

definition mattx_register_handler :: "u32 \<Rightarrow> 'h \<Rightarrow> 'h dispatch \<Rightarrow> 'h dispatch" where
  "mattx_register_handler ty handler msg_handlers =
     (if ty < 256 then msg_handlers(unat ty \<mapsto> handler) else msg_handlers)"

definition mattx_handle_message :: "'h dispatch \<Rightarrow> mattx_header \<Rightarrow> 'h option" where
  "mattx_handle_message msg_handlers hdr =
     (if h_type hdr < 256 then msg_handlers (unat (h_type hdr)) else None)"

text \<open>
  The handlers that the five \<^verbatim>\<open>_init_handlers\<close> functions install. A handler is named by
  its C function; \<open>None\<close> is the "unhandled or unknown" branch.
\<close>

definition mattx_sched_init_handlers :: "(u32 \<times> string) list" where
  "mattx_sched_init_handlers =
     [(MATTX_MSG_HEARTBEAT, ''handle_heartbeat''), (MATTX_MSG_LOAD_UPDATE, ''handle_load_update'')]"

definition mattx_import_init_handlers :: "(u32 \<times> string) list" where
  "mattx_import_init_handlers =
     [(MATTX_MSG_MIGRATE_REQ, ''handle_migrate_req''),
      (MATTX_MSG_PAGE_TRANSFER, ''handle_page_transfer''),
      (MATTX_MSG_MIGRATE_DONE, ''handle_migrate_done''),
      (MATTX_MSG_RETURN_BLUEPRINT, ''handle_return_blueprint''),
      (MATTX_MSG_RETURN_DONE, ''handle_return_done'')]"

definition mattx_migr_init_handlers :: "(u32 \<times> string) list" where
  "mattx_migr_init_handlers =
     [(MATTX_MSG_READY_FOR_DATA, ''handle_ready_for_data''),
      (MATTX_MSG_RECALL_REQ, ''handle_recall_req'')]"

definition mattx_guest_init_handlers :: "(u32 \<times> string) list" where
  "mattx_guest_init_handlers =
     [(MATTX_MSG_PROCESS_EXIT, ''handle_process_exit''),
      (MATTX_MSG_KILL_SURROGATE, ''handle_kill_surrogate'')]"

definition mattx_fileio_init_handlers :: "(u32 \<times> string) list" where
  "mattx_fileio_init_handlers = [
     (MATTX_MSG_SYSCALL_FWD, ''handle_syscall_fwd''),
     (MATTX_MSG_SYS_OPEN_REQ, ''handle_sys_open_req''),
     (MATTX_MSG_SYS_OPEN_REPLY, ''handle_sys_open_reply''),
     (MATTX_MSG_SYS_CLOSE_REQ, ''handle_sys_close_req''),
     (MATTX_MSG_SYS_READ_REQ, ''handle_sys_read_req''),
     (MATTX_MSG_SYS_READ_REPLY, ''handle_sys_read_reply''),
     (MATTX_MSG_SYS_LSEEK_REQ, ''handle_sys_lseek_req''),
     (MATTX_MSG_SYS_LSEEK_REPLY, ''handle_sys_lseek_reply''),
     (MATTX_MSG_SYS_STATX_REQ, ''handle_sys_statx_req''),
     (MATTX_MSG_SYS_STATX_REPLY, ''handle_sys_statx_reply''),
     (MATTX_MSG_SYS_DUP_REQ, ''handle_sys_dup_req''),
     (MATTX_MSG_SYS_DUP_REPLY, ''handle_sys_dup_reply''),
     (MATTX_MSG_SYS_FSYNC_REQ, ''handle_sys_fsync_req''),
     (MATTX_MSG_SYS_FSYNC_REPLY, ''handle_sys_fsync_reply''),
     (MATTX_MSG_SYS_UNLINK_REQ, ''handle_sys_unlink_req''),
     (MATTX_MSG_SYS_UNLINK_REPLY, ''handle_sys_unlink_reply''),
     (MATTX_MSG_SYS_SOCKET_REQ, ''handle_sys_socket_req''),
     (MATTX_MSG_SYS_SOCKET_REPLY, ''handle_sys_socket_reply''),
     (MATTX_MSG_SYS_CONNECT_REQ, ''handle_sys_connect_req''),
     (MATTX_MSG_SYS_CONNECT_REPLY, ''handle_sys_connect_reply''),
     (MATTX_MSG_SYS_BIND_REQ, ''handle_sys_bind_req''),
     (MATTX_MSG_SYS_BIND_REPLY, ''handle_sys_generic_int_reply''),
     (MATTX_MSG_SYS_LISTEN_REQ, ''handle_sys_listen_req''),
     (MATTX_MSG_SYS_LISTEN_REPLY, ''handle_sys_generic_int_reply''),
     (MATTX_MSG_SYS_SEND_REQ, ''handle_sys_send_req''),
     (MATTX_MSG_SYS_SEND_REPLY, ''handle_sys_generic_int_reply''),
     (MATTX_MSG_SYS_RECV_REQ, ''handle_sys_recv_req''),
     (MATTX_MSG_SYS_RECV_REPLY, ''handle_sys_recv_reply''),
     (MATTX_MSG_SYS_ACCEPT_REQ, ''handle_sys_accept_req''),
     (MATTX_MSG_SYS_ACCEPT_REPLY, ''handle_sys_accept_reply''),
     (MATTX_MSG_SYS_POLL_REQ, ''handle_sys_poll_req''),
     (MATTX_MSG_SYS_POLL_REPLY, ''handle_sys_poll_reply''),
     (MATTX_MSG_VFS_GETATTR_REQ, ''handle_vfs_getattr_req''),
     (MATTX_MSG_VFS_GETATTR_REPLY, ''handle_vfs_getattr_reply''),
     (MATTX_MSG_VFS_READDIR_REQ, ''handle_vfs_readdir_req''),
     (MATTX_MSG_VFS_READDIR_REPLY, ''handle_vfs_readdir_reply''),
     (MATTX_MSG_VFS_OPEN_REQ, ''handle_vfs_open_req''),
     (MATTX_MSG_VFS_OPEN_REPLY, ''handle_vfs_open_reply''),
     (MATTX_MSG_VFS_READ_REQ, ''handle_vfs_read_req''),
     (MATTX_MSG_VFS_READ_REPLY, ''handle_vfs_read_reply''),
     (MATTX_MSG_VFS_WRITE_REQ, ''handle_vfs_write_req''),
     (MATTX_MSG_VFS_WRITE_REPLY, ''handle_vfs_write_reply''),
     (MATTX_MSG_VFS_CLOSE_REQ, ''handle_vfs_close_req''),
     (MATTX_MSG_VFS_LSEEK_REQ, ''handle_vfs_lseek_req''),
     (MATTX_MSG_VFS_LSEEK_REPLY, ''handle_vfs_lseek_reply''),
     (MATTX_MSG_VFS_FSYNC_REQ, ''handle_vfs_fsync_req''),
     (MATTX_MSG_VFS_FSYNC_REPLY, ''handle_vfs_fsync_reply''),
     (MATTX_MSG_SYS_EPOLL_CREATE_REQ, ''handle_sys_epoll_create_req''),
     (MATTX_MSG_SYS_EPOLL_CREATE_REPLY, ''handle_sys_epoll_create_reply''),
     (MATTX_MSG_SYS_EPOLL_CTL_REQ, ''handle_sys_epoll_ctl_req''),
     (MATTX_MSG_SYS_EPOLL_CTL_REPLY, ''handle_sys_generic_int_reply''),
     (MATTX_MSG_SYS_EPOLL_WAIT_REQ, ''handle_sys_epoll_wait_req''),
     (MATTX_MSG_SYS_EPOLL_WAIT_REPLY, ''handle_sys_epoll_wait_reply''),
     (MATTX_MSG_SYS_GETSOCKNAME_REQ, ''handle_sys_getsockname_req''),
     (MATTX_MSG_SYS_GETSOCKNAME_REPLY, ''handle_sys_sockname_reply''),
     (MATTX_MSG_SYS_GETPEERNAME_REQ, ''handle_sys_getpeername_req''),
     (MATTX_MSG_SYS_GETPEERNAME_REPLY, ''handle_sys_sockname_reply''),
     (MATTX_MSG_SYS_SETSOCKOPT_REQ, ''handle_sys_setsockopt_req''),
     (MATTX_MSG_SYS_SETSOCKOPT_REPLY, ''handle_sys_generic_int_reply''),
     (MATTX_MSG_SYS_GETSOCKOPT_REQ, ''handle_sys_getsockopt_req''),
     (MATTX_MSG_SYS_GETSOCKOPT_REPLY, ''handle_sys_getsockopt_reply''),
     (MATTX_MSG_SYS_SENDMSG_REQ, ''handle_sys_sendmsg_req''),
     (MATTX_MSG_SYS_SENDMSG_REPLY, ''handle_sys_sendmsg_reply''),
     (MATTX_MSG_SYS_RECVMSG_REQ, ''handle_sys_recvmsg_req''),
     (MATTX_MSG_SYS_RECVMSG_REPLY, ''handle_sys_recvmsg_reply''),
     (MATTX_MSG_SYS_UNAME_REQ, ''handle_sys_uname_req''),
     (MATTX_MSG_SYS_UNAME_REPLY, ''handle_sys_uname_reply''),
     (MATTX_MSG_SYS_PRLIMIT64_REQ, ''handle_sys_prlimit64_req''),
     (MATTX_MSG_SYS_PRLIMIT64_REPLY, ''handle_sys_prlimit64_reply''),
     (MATTX_MSG_SYS_PRCTL_REQ, ''handle_sys_prctl_req''),
     (MATTX_MSG_SYS_PRCTL_REPLY, ''handle_sys_generic_int_reply''),
     (MATTX_MSG_SYS_FCNTL_REPLY, ''handle_sys_fio_reply''),
     (MATTX_MSG_SYS_FCNTL_REQ, ''handle_sys_fcntl_req''),
     (MATTX_MSG_SYS_IOCTL_REPLY, ''handle_sys_fio_reply''),
     (MATTX_MSG_SYS_IOCTL_REQ, ''handle_sys_ioctl_req''),
     (MATTX_MSG_SYS_PREAD64_REPLY, ''handle_sys_read_reply''),
     (MATTX_MSG_SYS_PREAD64_REQ, ''handle_sys_pread64_req''),
     (MATTX_MSG_SYS_STATFS_REQ, ''handle_sys_statfs_req''),
     (MATTX_MSG_SYS_STATFS_REPLY, ''handle_sys_statfs_reply''),
     (MATTX_MSG_SYS_FSTATFS_REQ, ''handle_sys_fstatfs_req''),
     (MATTX_MSG_SYS_FSTATFS_REPLY, ''handle_sys_fstatfs_reply''),
     (MATTX_MSG_SYS_NEWFSTATAT_REQ, ''handle_sys_newfstatat_req''),
     (MATTX_MSG_SYS_NEWFSTATAT_REPLY, ''handle_sys_newfstatat_reply''),
     (MATTX_MSG_SYS_FACCESSAT2_REQ, ''handle_sys_faccessat2_req''),
     (MATTX_MSG_SYS_FACCESSAT2_REPLY, ''handle_sys_generic_int_reply''),
     (MATTX_MSG_SYS_READLINK_REQ, ''handle_sys_readlink_req''),
     (MATTX_MSG_SYS_READLINK_REPLY, ''handle_sys_readlink_reply''),
     (MATTX_MSG_SYS_READLINKAT_REQ, ''handle_sys_readlinkat_req''),
     (MATTX_MSG_SYS_READLINKAT_REPLY, ''handle_sys_readlinkat_reply''),
     (MATTX_MSG_SYS_GETDENTS64_REQ, ''handle_sys_getdents64_req''),
     (MATTX_MSG_SYS_GETDENTS64_REPLY, ''handle_sys_getdents64_reply''),
     (MATTX_MSG_SYS_PIPE2_REQ, ''handle_sys_pipe2_req''),
     (MATTX_MSG_SYS_PIPE2_REPLY, ''handle_sys_pipe2_reply''),
     (MATTX_MSG_SYS_SHMGET_REQ, ''handle_sys_shmget_req''),
     (MATTX_MSG_SYS_SHMGET_REPLY, ''handle_sys_shmget_reply''),
     (MATTX_MSG_SYS_SHMCTL_REQ, ''handle_sys_shmctl_req''),
     (MATTX_MSG_SYS_SHMCTL_REPLY, ''handle_sys_shmctl_reply''),
     (MATTX_MSG_SYS_SHMDT_REQ, ''handle_sys_shmdt_req''),
     (MATTX_MSG_SYS_SHMDT_REPLY, ''handle_sys_shmdt_reply''),
     (MATTX_MSG_SYS_SHMAT_REQ, ''handle_sys_shmat_req''),
     (MATTX_MSG_SYS_SHMAT_REPLY, ''handle_sys_shmat_reply''),
     (MATTX_MSG_DSM_PAGE_FAULT_REQ, ''handle_dsm_page_fault_req''),
     (MATTX_MSG_DSM_PAGE_FAULT_REPLY, ''handle_dsm_page_fault_reply''),
     (MATTX_MSG_DSM_PAGE_UPDATE, ''handle_dsm_page_update''),
     (MATTX_MSG_DSM_WRITE_ACQUIRE_REQ, ''handle_dsm_write_acquire_req''),
     (MATTX_MSG_DSM_WRITE_ACQUIRE_REPLY, ''handle_dsm_write_acquire_reply''),
     (MATTX_MSG_DSM_INVALIDATE_REQ, ''handle_dsm_invalidate_req''),
     (MATTX_MSG_DSM_FLUSH_REQ, ''handle_dsm_flush_req''),
     (MATTX_MSG_DSM_FLUSH_REPLY, ''handle_dsm_flush_reply'')]"

definition register_all :: "(u32 \<times> 'h) list \<Rightarrow> 'h dispatch \<Rightarrow> 'h dispatch" where
  "register_all = fold (\<lambda>(ty, h). mattx_register_handler ty h)"

text \<open>The table after \<^verbatim>\<open>mattx_init\<close>, in the order of its calls.\<close>

definition registered :: "(u32 \<times> string) list" where
  "registered = mattx_sched_init_handlers @ mattx_import_init_handlers @ mattx_migr_init_handlers @
     mattx_guest_init_handlers @ mattx_fileio_init_handlers"

definition init_dispatch :: "string dispatch" where
  "init_dispatch = register_all registered (\<lambda>_. None)"

lemma register_all_lookup:
  assumes "\<forall>p\<in>set ps. unat (fst p) < 256"
  shows "register_all ps tab (unat t) =
    (case map_of (rev ps) t of Some h \<Rightarrow> Some h | None \<Rightarrow> tab (unat t))"
  using assms
proof (induction ps arbitrary: tab)
  case Nil
  then show ?case by (simp add: register_all_def)
next
  case (Cons p ps)
  obtain ty h where p: "p = (ty, h)" by fastforce
  then have ty: "ty < 256" using Cons.prems by (simp add: word_less_nat_alt)
  have "register_all (p # ps) tab (unat t) = register_all ps (tab(unat ty \<mapsto> h)) (unat t)"
    using ty p by (simp add: register_all_def mattx_register_handler_def)
  also have "\<dots> = (case map_of (rev ps) t of Some h \<Rightarrow> Some h | None \<Rightarrow> (tab(unat ty \<mapsto> h)) (unat t))"
    using Cons by simp
  finally show ?case using p by (auto split: option.splits simp: map_add_def word_unat_eq_iff)
qed

lemma map_of_rev_distinct: "distinct (map fst ps) \<Longrightarrow> map_of (rev ps) = map_of ps"
  by (rule map_of_eqI) (auto simp: rev_map [symmetric] map_of_eq_Some_iff)

text \<open>The registered type numbers, sorted: all of 1 to 121 but 119.\<close>

lemma sorted_registered: "sort (map (unat \<circ> fst) registered) = [1..<119] @ [120, 121]"
  by code_simp

lemma distinct_registered: "distinct (map fst registered)"
proof -
  have "distinct (sort (map (unat \<circ> fst) registered))" by (simp add: sorted_registered)
  then have "distinct (map unat (map fst registered))" by simp
  then show ?thesis by (metis distinct_map)
qed

lemma registered_types:
  "set (map fst registered) = set mattx_msg_type - {MATTX_MSG_DSM_INVALIDATE_REPLY}"
proof -
  have "unat ` set (map fst registered) = set (sort (map (unat \<circ> fst) registered))"
    by (simp add: image_comp)
  also have "\<dots> = {1..<119} \<union> {120, 121}" by (simp only: sorted_registered) auto
  also have "\<dots> = {1..<122} - {119}" by auto
  also have "\<dots> = unat ` set mattx_msg_type - {119}"
    by (metis list.set_map msg_types_consecutive set_upt)
  also have "\<dots> = unat ` (set mattx_msg_type - {MATTX_MSG_DSM_INVALIDATE_REPLY})"
    by (subst image_set_diff) (auto simp: inj_def word_unat_eq_iff)
  finally show ?thesis by (simp add: inj_image_eq_iff inj_def word_unat_eq_iff)
qed

lemma registered_small: "\<forall>p\<in>set registered. unat (fst p) < 256"
proof
  fix p assume "p \<in> set registered"
  then have "fst p \<in> set mattx_msg_type" using registered_types by (metis DiffD1 image_eqI list.set_map)
  then show "unat (fst p) < 256" using msg_type_bounds by fastforce
qed

text \<open>
  Dispatch is complete: after initialisation every message type of the protocol except
  \<^verbatim>\<open>DSM_INVALIDATE_REPLY\<close> is routed to the one handler registered for it, and every
  other 32-bit type number, however large, is reported as unknown.
\<close>

theorem dispatch_complete:
  "mattx_handle_message init_dispatch hdr = map_of registered (h_type hdr) \<and>
   (mattx_handle_message init_dispatch hdr \<noteq> None \<longleftrightarrow>
      h_type hdr \<in> set mattx_msg_type - {MATTX_MSG_DSM_INVALIDATE_REPLY})"
proof -
  let ?t = "h_type hdr"
  have look: "init_dispatch (unat ?t) = map_of registered ?t"
    using register_all_lookup [OF registered_small, of "\<lambda>_. None" ?t]
      map_of_rev_distinct [OF distinct_registered]
    by (simp add: init_dispatch_def split: option.splits)
  have big: "map_of registered ?t = None" if "\<not> ?t < 256"
  proof -
    have "?t \<notin> set (map fst registered)"
      using that registered_small by (auto simp: word_less_nat_alt)
    then show ?thesis by (metis map_of_eq_None_iff set_map)
  qed
  have "mattx_handle_message init_dispatch hdr = map_of registered ?t"
    using look big by (simp add: mattx_handle_message_def)
  moreover have "map_of registered ?t \<noteq> None \<longleftrightarrow> ?t \<in> set (map fst registered)"
    by (simp add: map_of_eq_None_iff)
  ultimately show ?thesis by (simp only: registered_types)
qed

end
