(* ===== verification/Mx_Links.thy ===== *)
theory Mx_Links
  imports Mx_Comm
begin

text \<open>
  Cluster membership: the table \<^verbatim>\<open>cluster_map\<close> of live links and the operations that
  create, register, replace and tear down links (\<^verbatim>\<open>mattx_comm.c\<close>), the netlink
  commands of the discovery daemon (\<^verbatim>\<open>mattx_main.c\<close>), the heartbeat and load handlers
  (\<^verbatim>\<open>mattx_sched.c\<close>).

  A link is identified by the name its allocation gets (allocations are never given the name
  of another link of the run). Stopping the receiver thread, releasing the socket
  and freeing the structure are recorded as effects, in the order of the source. The results
  of the kernel calls (socket creation, connect, accept, allocation) are arguments.
\<close>

section \<open>State\<close>

record mattx_link =
  l_addr :: nat
  node_id :: u32
  ip_addr :: u32
  sock :: nat
  receiver_thread :: bool

record mattx_load_info =
  cpu_load :: u32
  mem_free_mb :: u32
  affinity :: u32
  accept_guests :: u32

type_synonym cluster_map = "nat \<Rightarrow> mattx_link option"

datatype link_effect = Kthread_stop nat | Sock_release nat | Kfree_link nat | Kthread_run nat

record membership =
  cluster_map :: "nat \<Rightarrow> mattx_link option"
  cluster_load_table :: "nat \<Rightarrow> mattx_load_info"
  my_node_id :: u32

section \<open>Connecting and disconnecting\<close>

definition mattx_setup_link :: "mattx_link \<Rightarrow> mattx_link \<times> link_effect list" where
  "mattx_setup_link link = (link\<lparr>receiver_thread := True\<rparr>, [Kthread_run (l_addr link)])"

text \<open>
  \<open>mem\<close> is the address \<^verbatim>\<open>kzalloc\<close> returns (\<open>None\<close> when it fails), \<open>mk\<close> the socket
  or the error of \<^verbatim>\<open>sock_create_kern\<close>, \<open>err\<close> the result of \<^verbatim>\<open>kernel_connect\<close>.
\<close>

definition mattx_comm_connect ::
    "nat option \<Rightarrow> int + nat \<Rightarrow> int \<Rightarrow> u32 \<Rightarrow> u32 \<Rightarrow> mattx_link option \<times> link_effect list" where
  "mattx_comm_connect mem mk err ip nid =
     (case mem of None \<Rightarrow> (None, [])
      | Some p \<Rightarrow>
        (case mk of Inl e \<Rightarrow> (None, [Kfree_link p])
         | Inr sk \<Rightarrow>
           (if err < 0 then (None, [Sock_release sk, Kfree_link p])
            else (case mattx_setup_link \<lparr>l_addr = p, node_id = nid, ip_addr = ip, sock = sk,
                     receiver_thread = False\<rparr> of (l, effs) \<Rightarrow> (Some l, effs)))))"

definition mattx_comm_disconnect :: "u32 \<Rightarrow> cluster_map \<Rightarrow> cluster_map \<times> link_effect list" where
  "mattx_comm_disconnect nid cm =
     (if sint nid < 0 \<or> int MAX_NODES \<le> sint nid then (cm, [])
      else (case cm (unat nid) of None \<Rightarrow> (cm, [])
        | Some l \<Rightarrow> (cm(unat nid := None),
            (if receiver_thread l then [Kthread_stop (l_addr l)] else []) @
            [Sock_release (sock l), Kfree_link (l_addr l)])))"

section \<open>The listener thread\<close>

text \<open>
  One attempt to set up the listening socket: the results of \<^verbatim>\<open>sock_create_kern\<close>,
  \<^verbatim>\<open>kernel_bind\<close> and \<^verbatim>\<open>kernel_listen\<close>. The list of attempts ends where
  \<^verbatim>\<open>kthread_should_stop()\<close> turns true. (The release at the top of the loop of the source
  never fires: every failing branch has already cleared the pointer.)
\<close>

record setup_attempt =
  s_create :: "int + nat"
  s_bind :: int
  s_listen :: int

fun listener_setup :: "setup_attempt list \<Rightarrow> nat option \<times> link_effect list" where
  "listener_setup [] = (None, [])"
| "listener_setup (a # as) =
     (case s_create a of
        Inl e \<Rightarrow> listener_setup as
      | Inr sk \<Rightarrow>
          if s_bind a < 0 \<or> s_listen a < 0
          then (case listener_setup as of (r, effs) \<Rightarrow> (r, Sock_release sk # effs))
          else (Some sk, []))"

text \<open>One accept: an error, or a client socket with the allocation and the peer address.\<close>

datatype accept_event = Accept_error int | Accepted nat "nat option" "u32 option"

fun listener_accept :: "accept_event \<Rightarrow> mattx_link option \<times> link_effect list" where
  "listener_accept (Accept_error e) = (None, [])"
| "listener_accept (Accepted sk None peer) = (None, [Sock_release sk])"
| "listener_accept (Accepted sk (Some p) peer) =
     (case mattx_setup_link \<lparr>l_addr = p, node_id = - 1,
          ip_addr = (case peer of None \<Rightarrow> 0 | Some ip \<Rightarrow> ip), sock = sk,
          receiver_thread = False\<rparr> of (l, effs) \<Rightarrow> (Some l, effs))"

definition mattx_listener_loop ::
    "setup_attempt list \<Rightarrow> accept_event list \<Rightarrow> mattx_link list \<times> link_effect list" where
  "mattx_listener_loop attempts events =
     (case listener_setup attempts of
        (None, effs) \<Rightarrow> ([], effs)
      | (Some sk, effs) \<Rightarrow>
          (let rs = map listener_accept events
           in (List.map_filter fst rs, effs @ concat (map snd rs) @ [Sock_release sk])))"

section \<open>Registration of links\<close>

definition handle_heartbeat ::
    "mattx_link \<Rightarrow> mattx_header \<Rightarrow> cluster_map \<Rightarrow> mattx_link \<times> cluster_map \<times> link_effect list" where
  "handle_heartbeat link hdr cm =
     (if node_id link = - 1 \<and> unat (sender_id hdr) < MAX_NODES then
        (let (cm1, effs) =
           (case cm (unat (sender_id hdr)) of
              None \<Rightarrow> (cm, [])
            | Some old \<Rightarrow>
                if l_addr old \<noteq> l_addr link then mattx_comm_disconnect (sender_id hdr) cm else (cm, []));
             link' = link\<lparr>node_id := sender_id hdr\<rparr>
         in (link', cm1(unat (node_id link') := Some link'), effs))
      else (link, cm, []))"

definition handle_load_update ::
    "mattx_header \<Rightarrow> mattx_load_info option \<Rightarrow> (nat \<Rightarrow> mattx_load_info) \<Rightarrow> nat \<Rightarrow> mattx_load_info" where
  "handle_load_update hdr payload tab =
     (case payload of
        Some load \<Rightarrow> if unat (sender_id hdr) < MAX_NODES then tab(unat (sender_id hdr) := load) else tab
      | None \<Rightarrow> tab)"

text \<open>\<^verbatim>\<open>if (cluster_map[node_id]) mattx_comm_disconnect(node_id);\<close>\<close>

definition drop_old :: "u32 \<Rightarrow> cluster_map \<Rightarrow> cluster_map \<times> link_effect list" where
  "drop_old nid cm = (if cm (unat nid) \<noteq> None then mattx_comm_disconnect nid cm else (cm, []))"

text \<open>
  \<^verbatim>\<open>MATTX_CMD_NODE_JOIN\<close>: an old link of the node is torn down, then a new one is
  connected. The heartbeat that announces this node is reported in the last component.
\<close>

definition mattx_nl_cmd_node_join ::
    "(u32 \<Rightarrow> u32 \<Rightarrow> mattx_link option \<times> link_effect list) \<Rightarrow> u32 \<Rightarrow> u32 \<Rightarrow> u32 option \<Rightarrow> membership \<Rightarrow>
     int \<times> membership \<times> link_effect list \<times> u32 list" where
  "mattx_nl_cmd_node_join connect nid ip my m =
     (let m1 = (case my of Some me \<Rightarrow> m\<lparr>my_node_id := me\<rparr> | None \<Rightarrow> m)
      in if MAX_NODES \<le> unat nid then (- EINVAL, m1, [], [])
         else
           (let (cm, effs) = drop_old nid (cluster_map m1)
            in (case connect ip nid of
                  (Some link, e2) \<Rightarrow>
                    (0, m1\<lparr>cluster_map := cm(unat nid \<mapsto> link)\<rparr>, effs @ e2, [MATTX_MSG_HEARTBEAT])
                | (None, e2) \<Rightarrow> (- ECONNREFUSED, m1\<lparr>cluster_map := cm\<rparr>, effs @ e2, []))))"

definition mattx_nl_cmd_node_leave :: "u32 \<Rightarrow> membership \<Rightarrow> int \<times> membership \<times> link_effect list" where
  "mattx_nl_cmd_node_leave nid m =
     (case mattx_comm_disconnect nid (cluster_map m) of (cm, effs) \<Rightarrow> (0, m\<lparr>cluster_map := cm\<rparr>, effs))"

text \<open>The teardown loop of \<^verbatim>\<open>mattx_exit\<close>: disconnect every slot.\<close>

definition disconnect_all :: "cluster_map \<Rightarrow> cluster_map \<times> link_effect list" where
  "disconnect_all cm = fold (\<lambda>i (c, effs). case mattx_comm_disconnect (of_nat i) c of
      (c', e) \<Rightarrow> (c', effs @ e)) [0..<MAX_NODES] (cm, [])"

function active_from :: "cluster_map \<Rightarrow> nat \<Rightarrow> nat \<Rightarrow> u32 list \<Rightarrow> u32 list" where
  "active_from cm max_nodes i acc =
     (if i < MAX_NODES \<and> length acc < max_nodes then
        (case cm i of
           Some l \<Rightarrow> active_from cm max_nodes (Suc i) (if node_id l \<noteq> - 1 then acc @ [node_id l] else acc)
         | None \<Rightarrow> active_from cm max_nodes (Suc i) acc)
      else acc)"
  by pat_completeness auto
termination
  by (relation "measure (\<lambda>(cm, mx, i, acc). MAX_NODES - i)") auto

declare active_from.simps [simp del]

definition mattx_get_active_nodes :: "membership \<Rightarrow> nat \<Rightarrow> u32 list" where
  "mattx_get_active_nodes m max_nodes =
     (let acc = active_from (cluster_map m) max_nodes 0 []
      in if length acc < max_nodes \<and> my_node_id m \<noteq> 0 then acc @ [my_node_id m] else acc)"

section \<open>The table invariant\<close>

text \<open>
  Every registered link sits at the index of its node, below \<^verbatim>\<open>MAX_NODES\<close>, and no link
  is registered twice.
\<close>

definition map_ok :: "cluster_map \<Rightarrow> bool" where
  "map_ok cm \<longleftrightarrow>
     (\<forall>n l. cm n = Some l \<longrightarrow> n < MAX_NODES \<and> unat (node_id l) = n) \<and>
     (\<forall>n m l k. cm n = Some l \<longrightarrow> cm m = Some k \<longrightarrow> l_addr l = l_addr k \<longrightarrow> n = m)"

definition addrs :: "cluster_map \<Rightarrow> nat set" where
  "addrs cm = l_addr ` ran cm"

lemma map_ok_nth: "map_ok cm \<Longrightarrow> cm n = Some l \<Longrightarrow> n < MAX_NODES \<and> unat (node_id l) = n"
  by (simp add: map_ok_def)

lemma disconnect_eq:
  "unat nid < MAX_NODES \<Longrightarrow> cm (unat nid) = Some l \<Longrightarrow>
   mattx_comm_disconnect nid cm = (cm(unat nid := None),
     (if receiver_thread l then [Kthread_stop (l_addr l)] else []) @
     [Sock_release (sock l), Kfree_link (l_addr l)])"
  using uint_less_unat [of nid MAX_NODES] by (simp add: mattx_comm_disconnect_def sint_small)

lemma disconnect_map: "fst (mattx_comm_disconnect nid cm) =
    (if sint nid < 0 \<or> int MAX_NODES \<le> sint nid then cm else cm(unat nid := None))"
  by (auto simp: mattx_comm_disconnect_def split: option.splits)

lemma map_ok_delete: "map_ok cm \<Longrightarrow> map_ok (cm(n := None))"
  unfolding map_ok_def fun_upd_apply by (auto split: if_splits)

lemma addrs_iff: "p \<in> addrs cm \<longleftrightarrow> (\<exists>n l. cm n = Some l \<and> l_addr l = p)"
  by (auto simp: addrs_def ran_def)

lemma addrs_del_iff: "p \<in> addrs (cm(n := None)) \<longleftrightarrow> (\<exists>m l. m \<noteq> n \<and> cm m = Some l \<and> l_addr l = p)"
  by (auto simp: addrs_iff)

lemma map_ok_insert:
  assumes "map_ok cm" "n < MAX_NODES" "unat (node_id l) = n" "l_addr l \<notin> addrs (cm(n := None))"
  shows "map_ok (cm(n \<mapsto> l))"
proof -
  have new: "l_addr k \<noteq> l_addr l" if "cm m = Some k" "m \<noteq> n" for m k
    using assms(4) that unfolding addrs_del_iff by metis
  then show ?thesis
    using assms(1-3) unfolding map_ok_def fun_upd_apply by (simp split: if_splits) metis
qed

definition freed :: "link_effect list \<Rightarrow> nat set" where
  "freed effs = {p. Kfree_link p \<in> set effs}"

lemma freed_simps [simp]:
  "freed [] = {}" "freed (e # es) = (case e of Kfree_link p \<Rightarrow> insert p (freed es) | _ \<Rightarrow> freed es)"
  "freed (es @ fs) = freed es \<union> freed fs"
  by (auto simp: freed_def split: link_effect.splits)

lemma addrs_insert: "addrs (cm(n \<mapsto> l)) = insert (l_addr l) (addrs (cm(n := None)))"
  using ran_map_upd [of "cm(n := None)" n l] by (simp add: addrs_def)

lemma addrs_delete:
  assumes "map_ok cm" "cm n = Some l"
  shows "addrs cm = insert (l_addr l) (addrs (cm(n := None)))" "l_addr l \<notin> addrs (cm(n := None))"
proof -
  show "l_addr l \<notin> addrs (cm(n := None))" unfolding addrs_del_iff
    using assms unfolding map_ok_def by blast
  show "addrs cm = insert (l_addr l) (addrs (cm(n := None)))"
    using addrs_insert [of cm n l] assms(2) by (simp add: map_upd_triv)
qed

lemma addrs_None: "cm n = None \<Longrightarrow> addrs (cm(n := None)) = addrs cm"
  by (simp add: fun_upd_idem)

text \<open>Both registering operations clear the slot first and free what was in it.\<close>

lemma drop_old_eq:
  assumes "map_ok cm" "unat nid < MAX_NODES" "drop_old nid cm = (cm1, effs)"
  shows "cm1 = cm(unat nid := None)" "addrs cm = addrs cm1 \<union> freed effs" "addrs cm1 \<inter> freed effs = {}"
proof -
  have "cm1 = cm(unat nid := None) \<and> addrs cm = addrs cm1 \<union> freed effs \<and> addrs cm1 \<inter> freed effs = {}"
  proof (cases "cm (unat nid)")
    case None
    then have "cm(unat nid := None) = cm" by auto
    with None assms(3) show ?thesis by (simp add: drop_old_def)
  next
    case (Some l)
    have "drop_old nid cm = (cm(unat nid := None),
        (if receiver_thread l then [Kthread_stop (l_addr l)] else []) @
        [Sock_release (sock l), Kfree_link (l_addr l)])"
      using disconnect_eq [of nid cm l] Some assms(2) by (simp add: drop_old_def)
    with assms(3) have "cm1 = cm(unat nid := None)" "freed effs = {l_addr l}"
      by (auto split: if_splits)
    with addrs_delete [OF assms(1) Some] show ?thesis by simp
  qed
  then show "cm1 = cm(unat nid := None)" "addrs cm = addrs cm1 \<union> freed effs" "addrs cm1 \<inter> freed effs = {}"
    by blast+
qed

text \<open>
  C29. Registering a connection: when the first heartbeat arrives on a fresh link, the link is
  entered under its sender, every other slot is untouched, the table invariant is kept, and a
  stale link of the same node is torn down completely: receiver stopped, socket released,
  structure freed, in this order and once.
\<close>

theorem heartbeat_registers:
  assumes "map_ok cm" and "node_id link = - 1" and "unat (sender_id hdr) < MAX_NODES"
    and "l_addr link \<notin> addrs cm"
  shows "\<exists>effs. handle_heartbeat link hdr cm =
      (link\<lparr>node_id := sender_id hdr\<rparr>, cm(unat (sender_id hdr) \<mapsto> link\<lparr>node_id := sender_id hdr\<rparr>), effs) \<and>
    map_ok (cm(unat (sender_id hdr) \<mapsto> link\<lparr>node_id := sender_id hdr\<rparr>)) \<and>
    effs = (case cm (unat (sender_id hdr)) of None \<Rightarrow> []
      | Some old \<Rightarrow> (if receiver_thread old then [Kthread_stop (l_addr old)] else []) @
          [Sock_release (sock old), Kfree_link (l_addr old)])"
proof -
  let ?n = "unat (sender_id hdr)" and ?l = "link\<lparr>node_id := sender_id hdr\<rparr>"
  have "l_addr ?l \<notin> addrs (cm(?n := None))" using assms(4) by (auto simp: addrs_iff)
  then have ok: "map_ok (cm(?n \<mapsto> ?l))" using assms by (intro map_ok_insert) simp_all
  show ?thesis
  proof (cases "cm ?n")
    case None
    with assms ok show ?thesis by (simp add: handle_heartbeat_def Let_def)
  next
    case (Some old)
    then have "l_addr old \<noteq> l_addr link" using assms(4) by (auto simp: addrs_iff)
    with Some assms ok show ?thesis
      by (simp add: handle_heartbeat_def Let_def disconnect_eq [of "sender_id hdr" cm old])
  qed
qed

definition demo_link :: "nat \<Rightarrow> u32 \<Rightarrow> mattx_link" where
  "demo_link p n = \<lparr>l_addr = p, node_id = n, ip_addr = 0, sock = p + 100, receiver_thread = True\<rparr>"

theorem heartbeat_registers_witness:
  "\<exists>effs. handle_heartbeat (demo_link 2 (- 1)) (mk_header 7 MATTX_MSG_HEARTBEAT []) [7 \<mapsto> demo_link 1 7] =
     (demo_link 2 7, [7 \<mapsto> demo_link 2 7], effs) \<and>
   effs = [Kthread_stop 1, Sock_release 101, Kfree_link 1]"
proof -
  have "map_ok [7 \<mapsto> demo_link 1 7]" by (auto simp: map_ok_def demo_link_def split: if_splits)
  moreover have "l_addr (demo_link 2 (- 1)) \<notin> addrs [7 \<mapsto> demo_link 1 7]"
    by (auto simp: addrs_iff demo_link_def split: if_splits)
  ultimately show ?thesis
    using heartbeat_registers [of "[7 \<mapsto> demo_link 1 7]" "demo_link 2 (- 1)"
        "mk_header 7 MATTX_MSG_HEARTBEAT []"]
    by (simp add: mk_header_def demo_link_def)
qed

text \<open>
  C30. No link is lost on a join: the addresses of the registered links before the command,
  together with the one the command allocates, are afterwards either registered or freed,
  and never both, on the success path and on every error path of the connect.
\<close>

theorem node_join_no_leak:
  assumes "map_ok (cluster_map m)" and "unat nid < MAX_NODES"
    and "set_option mem \<inter> addrs (cluster_map m) = {}"
    and "mattx_nl_cmd_node_join (mattx_comm_connect mem mk err) nid ip my m = (r, m', effs, hb)"
  shows "addrs (cluster_map m') \<union> freed effs = addrs (cluster_map m) \<union> set_option mem \<and>
    addrs (cluster_map m') \<inter> freed effs = {} \<and> map_ok (cluster_map m') \<and>
    (r = 0 \<longleftrightarrow> cluster_map m' (unat nid) \<noteq> None) \<and> (r = 0 \<longleftrightarrow> hb = [MATTX_MSG_HEARTBEAT])"
proof -
  let ?cm = "cluster_map m"
  obtain cm1 e1 where c: "drop_old nid ?cm = (cm1, e1)" by fastforce
  note cl = drop_old_eq [OF assms(1,2) c]
  have ok1: "map_ok cm1" using assms(1) cl(1) by (simp add: map_ok_delete)
  have my: "cluster_map (case my of None \<Rightarrow> m | Some me \<Rightarrow> m\<lparr>my_node_id := me\<rparr>) = ?cm"
    by (cases my) simp_all
  show ?thesis
  proof (cases "mattx_comm_connect mem mk err ip nid")
    case (Pair lo e2)
    show ?thesis
    proof (cases lo)
      case None
      then have "freed e2 = set_option mem" using Pair
        by (auto simp: mattx_comm_connect_def mattx_setup_link_def split: option.splits sum.splits if_splits)
      moreover have "r = - ECONNREFUSED" "cluster_map m' = cm1" "effs = e1 @ e2" "hb = []"
        using assms(2,4) c my Pair None by (auto simp: mattx_nl_cmd_node_join_def Let_def)
      ultimately show ?thesis using cl assms(3) ok1 by auto
    next
      case (Some l)
      then have l: "set_option mem = {l_addr l}" "freed e2 = {}" "node_id l = nid" using Pair
        by (auto simp: mattx_comm_connect_def mattx_setup_link_def split: option.splits sum.splits if_splits)
      have m': "r = 0" "cluster_map m' = cm1(unat nid \<mapsto> l)" "effs = e1 @ e2" "hb = [MATTX_MSG_HEARTBEAT]"
        using assms(2,4) c my Pair Some by (auto simp: mattx_nl_cmd_node_join_def Let_def)
      have cmn: "cm1(unat nid := None) = cm1" using cl(1) by simp
      have fresh: "l_addr l \<notin> addrs cm1 \<union> freed e1" using assms(3) l(1) cl(2) by auto
      have "map_ok (cm1(unat nid \<mapsto> l))"
        using ok1 assms(2) l(3) fresh cmn by (intro map_ok_insert) auto
      then show ?thesis using m' l cl fresh addrs_insert [of cm1 "unat nid" l] cmn by auto
    qed
  qed
qed

theorem node_join_no_leak_witness:
  "addrs [7 \<mapsto> demo_link 2 7] \<union> freed [Kthread_stop 1, Sock_release 101, Kfree_link 1, Kthread_run 2] =
     addrs [7 \<mapsto> demo_link 1 7] \<union> set_option (Some 2)"
proof -
  let ?m = "\<lparr>cluster_map = [7 \<mapsto> demo_link 1 7], cluster_load_table = (\<lambda>_. \<lparr>cpu_load = 0, mem_free_mb = 0,
      affinity = 0, accept_guests = 1\<rparr>), my_node_id = 5\<rparr>"
  have ok: "map_ok (cluster_map ?m)" by (auto simp: map_ok_def demo_link_def split: if_splits)
  have lt: "unat (7::u32) < MAX_NODES" by simp
  have fresh: "set_option (Some 2) \<inter> addrs (cluster_map ?m) = {}"
    by (auto simp: addrs_iff demo_link_def split: if_splits)
  have run: "mattx_nl_cmd_node_join (mattx_comm_connect (Some 2) (Inr 102) 0) 7 0 None ?m =
      (0, ?m\<lparr>cluster_map := [7 \<mapsto> demo_link 2 7]\<rparr>,
       [Kthread_stop 1, Sock_release 101, Kfree_link 1, Kthread_run 2], [MATTX_MSG_HEARTBEAT])"
    by (simp add: mattx_nl_cmd_node_join_def mattx_comm_connect_def mattx_setup_link_def
        mattx_comm_disconnect_def drop_old_def demo_link_def Let_def)
  from node_join_no_leak [OF ok lt fresh run, THEN conjunct1] show ?thesis
    by (simp only: membership.simps)
qed

end
