(* ===== verification/Mx_Sched.thy ===== *)
theory Mx_Sched
  imports Mx_Links Mx_Dsm
begin

text \<open>
  The load balancer thread, \<^verbatim>\<open>mattx_sched.c\<close>: the include and exclude lists, the local load,
  the choice of a task and of a target node, the cooldown, and the two watchers that bury dead
  guests and dead deputies. Loads and affinities are \<^verbatim>\<open>u32\<close> and wrap as in the code; the task
  list and the clock are arguments. A dispatched migration is a value: the task and the node
  handed to \<^verbatim>\<open>mattx_capture_and_send_state\<close>.
\<close>

section \<open>Name lists\<close>

text \<open>The tokens \<^verbatim>\<open>strsep(&rest, ",")\<close> yields one after the other.\<close>

fun strsep_tokens :: "string \<Rightarrow> string list" where
  "strsep_tokens [] = [[]]"
| "strsep_tokens (c # cs) =
     (if c = CHR '','' then [] # strsep_tokens cs
      else (case strsep_tokens cs of t # ts \<Rightarrow> (c # t) # ts | [] \<Rightarrow> [[c]]))"

definition is_task_excluded :: "string \<Rightarrow> string \<Rightarrow> bool" where
  "is_task_excluded cfg comm = (\<exists>t\<in>set (strsep_tokens (take 511 cfg)). dropWhile (\<lambda>c. c = CHR '' '') t = comm)"

definition is_task_included :: "string \<Rightarrow> string \<Rightarrow> bool" where
  "is_task_included cfg comm = (\<exists>t\<in>set (strsep_tokens (take 511 cfg)). dropWhile (\<lambda>c. c = CHR '' '') t = comm)"

record sched_cfg =
  migration_excludes :: string
  migration_includes :: string
  balancer_enabled :: bool
  node_affinity :: u32
  s_accept_guests :: bool

text \<open>Whitelist mode when the include list is not empty, blacklist mode otherwise.\<close>

definition name_ok :: "sched_cfg \<Rightarrow> string \<Rightarrow> bool" where
  "name_ok cfg comm = (if migration_includes cfg \<noteq> [] then is_task_included (migration_includes cfg) comm
     else \<not> is_task_excluded (migration_excludes cfg) comm)"

section \<open>Tasks\<close>

record task =
  t_pid :: u32
  t_tgid :: u32
  t_kthread :: bool
  t_mm :: bool
  t_exiting :: bool
  t_comm :: string
  t_runtime :: u64
  t_running :: bool
  t_current :: bool

definition mother :: "task \<Rightarrow> bool" where
  "mother p \<longleftrightarrow> t_pid p = t_tgid p \<and> \<not> t_kthread p \<and> t_mm p \<and> \<not> sint (t_pid p) \<le> 1 \<and> \<not> t_exiting p"

definition counts :: "sched_cfg \<Rightarrow> task \<Rightarrow> bool" where
  "counts cfg p \<longleftrightarrow> mother p \<and> name_ok cfg (t_comm p) \<and> \<not> t_current p \<and> \<not> t_runtime p < 50000000 \<and> t_running p"

definition mattx_calc_local_load :: "sched_cfg \<Rightarrow> task list \<Rightarrow> u32" where
  "mattx_calc_local_load cfg ps = of_nat (length (filter (counts cfg) ps)) * 1000"

definition eligible :: "sched_cfg \<Rightarrow> guests \<Rightarrow> u32 \<Rightarrow> task \<Rightarrow> bool" where
  "eligible cfg r lst p \<longleftrightarrow> mother p \<and> \<not> is_guest_process (t_pid p) r \<and> name_ok cfg (t_comm p) \<and>
     t_pid p \<noteq> lst \<and> t_running p"

fun candidate_loop :: "(task \<Rightarrow> bool) \<Rightarrow> task list \<Rightarrow> u64 \<Rightarrow> task option \<Rightarrow> task option" where
  "candidate_loop ok [] mx best = best"
| "candidate_loop ok (p # ps) mx best =
     (if ok p \<and> mx < t_runtime p then candidate_loop ok ps (t_runtime p) (Some p) else candidate_loop ok ps mx best)"

definition mattx_find_candidate_task :: "sched_cfg \<Rightarrow> guests \<Rightarrow> u32 \<Rightarrow> task list \<Rightarrow> task option" where
  "mattx_find_candidate_task cfg r lst ps = candidate_loop (eligible cfg r lst) ps 0 None"

section \<open>Choosing the target\<close>

definition norm_load :: "u32 \<Rightarrow> u32 \<Rightarrow> u32" where
  "norm_load load aff = (load * 1000) div aff"

definition remote_norm :: "mattx_load_info \<Rightarrow> u32" where
  "remote_norm l = norm_load (cpu_load l) (if affinity l = 0 then 1000 else affinity l)"

definition open_node :: "membership \<Rightarrow> nat \<Rightarrow> bool" where
  "open_node m i \<longleftrightarrow> (case cluster_map m i of Some l \<Rightarrow> node_id l \<noteq> - 1 | None \<Rightarrow> False) \<and>
     accept_guests (cluster_load_table m i) \<noteq> 0"

fun best_loop :: "membership \<Rightarrow> nat list \<Rightarrow> u32 \<times> nat option \<Rightarrow> u32 \<times> nat option" where
  "best_loop m [] acc = acc"
| "best_loop m (i # is) (lo, best) =
     (if open_node m i \<and> remote_norm (cluster_load_table m i) < lo
      then best_loop m is (remote_norm (cluster_load_table m i), Some i)
      else best_loop m is (lo, best))"

text \<open>\<^verbatim>\<open>time_before(a, b)\<close>: the signed difference of the 64-bit counters.\<close>

definition time_before :: "u64 \<Rightarrow> u64 \<Rightarrow> bool" where
  "time_before a b \<longleftrightarrow> sint (a - b) < 0"

record sched =
  last_migrated_pid :: u32
  last_migration_jiffies :: u64

text \<open>\<open>hz\<close> is \<^verbatim>\<open>msecs_to_jiffies(1000)\<close>; \<open>now\<close> is the counter at the cooldown test, \<open>fin\<close> its value
  when the capture has returned. The result names the dispatched task and node.\<close>

definition mattx_evaluate_and_balance ::
    "sched_cfg \<Rightarrow> u64 \<Rightarrow> u64 \<Rightarrow> u64 \<Rightarrow> guests \<Rightarrow> task list \<Rightarrow> membership \<Rightarrow> u32 \<Rightarrow> u32 \<Rightarrow> sched \<Rightarrow> sched \<times> (task \<times> nat) option" where
  "mattx_evaluate_and_balance cfg hz now fin r ps m load aff s =
     (if \<not> balancer_enabled cfg \<or> aff = 0 \<or> load = 0 then (s, None)
      else if last_migration_jiffies s \<noteq> 0 \<and> time_before now (last_migration_jiffies s + hz) then (s, None)
      else
        (case best_loop m [0..<MAX_NODES] (0xFFFFFFFF, None) of
           (lo, None) \<Rightarrow> (s, None)
         | (lo, Some n) \<Rightarrow>
            if lo < norm_load load aff \<and> 250 \<le> norm_load load aff - lo then
              (case mattx_find_candidate_task cfg r (last_migrated_pid s) ps of
                 None \<Rightarrow> (s, None)
               | Some t \<Rightarrow> (\<lparr>last_migrated_pid = t_pid t, last_migration_jiffies = fin\<rparr>, Some (t, n)))
            else (s, None)))"

section \<open>The watchers\<close>

datatype watch_out =
  W_update u32 u32 u32 nat page
| W_exit u32 u32
| W_kill u32 u32
| W_null
| W_life life_effect

text \<open>The dirty pages of a dead guest (a missing page under an EXCLUSIVE state is a null access).\<close>

definition funeral_pages :: "gnode \<Rightarrow> mattx_guest_info \<Rightarrow> watch_out list" where
  "funeral_pages g e = concat (map (\<lambda>d. concat (map (\<lambda>p.
      if page_states (dsm_map e d) p = MATTX_PAGE_EXCLUSIVE then
        (case pages (dsm_map e d) p of
           Some k \<Rightarrow> [W_update (home_node e) (orig_pid e) (m_shmid (dsm_map e d)) (p * PAGE_SIZE) (gmem g k)]
         | None \<Rightarrow> [W_null])
      else []) [0..<MAX_DSM_PAGES])) [0..<dsm_count e])"

definition bury_guest :: "bool \<Rightarrow> gnode \<Rightarrow> nat \<Rightarrow> gnode \<times> watch_out list" where
  "bury_guest mem g i =
     (let e = slots (gregs g) i in
      (case remove_guest_process (int i) (gregs g) of (r, frees) \<Rightarrow>
        (g\<lparr>gregs := r\<rparr>,
         map W_life frees @
         (if gmode g = 2 \<and> mem \<and> glinks g (home_node e) then funeral_pages g e else []) @
         map (W_life \<circ> Kfree) (List.map_filter id [rpc_read_buf e, rpc_statx_buf e]) @
         (if \<not> is_migrating e \<and> glinks g (home_node e) then [W_exit (home_node e) (orig_pid e)] else []))))"

lemma bury_guest_cnt: "bury_guest mem g i = (g1, o1) \<Longrightarrow> i < cnt (gregs g) \<Longrightarrow> cnt (gregs g1) < cnt (gregs g)"
  by (auto simp: bury_guest_def remove_guest_process_def Let_def)

text \<open>\<open>alive p\<close>: a task with this pid exists and has not exited. The scan restarts after each burial.\<close>

function guest_watcher :: "(pid \<Rightarrow> bool) \<Rightarrow> bool \<Rightarrow> gnode \<Rightarrow> gnode \<times> watch_out list" where
  "guest_watcher alive mem g =
     (case scan (\<lambda>i. \<not> alive (local_pid (slots (gregs g) i))) (cnt (gregs g)) of
        None \<Rightarrow> (g, [])
      | Some i \<Rightarrow>
         (case bury_guest mem g i of (g1, o1) \<Rightarrow>
           (case guest_watcher alive mem g1 of (g2, o2) \<Rightarrow> (g2, o1 @ o2))))"
  by pat_completeness auto
termination
  by (relation "measure (\<lambda>(alive, mem, g). cnt (gregs g))")
    (auto intro!: bury_guest_cnt [OF sym] dest: scan_SomeD(1))

declare guest_watcher.simps [simp del]

definition bury_export :: "bool \<Rightarrow> (u32 \<Rightarrow> bool) \<Rightarrow> exports \<Rightarrow> nat \<Rightarrow> exports \<times> watch_out list" where
  "bury_export mem links r i =
     (let e = slots r i in
      (remove_export_process (int i) r,
       (if mem then map (W_life \<circ> Fput) (List.map_filter (e_remote_files e) [0..<MAX_FDS]) else []) @
       (if links (e_target_node e) then [W_kill (e_target_node e) (e_orig_pid e)] else [])))"

lemma bury_export_cnt: "bury_export mem links r i = (r1, o1) \<Longrightarrow> i < cnt r \<Longrightarrow> cnt r1 < cnt r"
  by (auto simp: bury_export_def remove_export_process_def Let_def)

function export_watcher :: "(pid \<Rightarrow> bool) \<Rightarrow> bool \<Rightarrow> (u32 \<Rightarrow> bool) \<Rightarrow> exports \<Rightarrow> exports \<times> watch_out list" where
  "export_watcher alive mem links r =
     (case scan (\<lambda>i. \<not> alive (e_orig_pid (slots r i))) (cnt r) of
        None \<Rightarrow> (r, [])
      | Some i \<Rightarrow>
         (case bury_export mem links r i of (r1, o1) \<Rightarrow>
           (case export_watcher alive mem links r1 of (r2, o2) \<Rightarrow> (r2, o1 @ o2))))"
  by pat_completeness auto
termination
  by (relation "measure (\<lambda>(alive, mem, links, r). cnt r)")
    (auto intro!: bury_export_cnt [OF sym] dest: scan_SomeD(1))

declare export_watcher.simps [simp del]

section \<open>One round of the thread\<close>

definition broadcast_targets :: "membership \<Rightarrow> nat list" where
  "broadcast_targets m = filter (\<lambda>i. case cluster_map m i of Some l \<Rightarrow> node_id l \<noteq> - 1 | None \<Rightarrow> False) [0..<MAX_NODES]"

record balancer =
  b_sched :: sched
  b_members :: membership
  b_gnode :: gnode
  b_exports :: exports

text \<open>\<open>cpus\<close>, \<open>mem_mb\<close>: what the kernel reports; \<open>links\<close>: connected nodes, for the watchers.\<close>

definition mattx_balancer_loop ::
    "sched_cfg \<Rightarrow> u64 \<Rightarrow> u64 \<Rightarrow> u64 \<Rightarrow> u32 \<Rightarrow> u32 \<Rightarrow> task list \<Rightarrow> (pid \<Rightarrow> bool) \<Rightarrow> bool \<Rightarrow> (u32 \<Rightarrow> bool) \<Rightarrow> balancer \<Rightarrow>
     balancer \<times> (nat \<times> mattx_load_info) list \<times> (task \<times> nat) option \<times> watch_out list" where
  "mattx_balancer_loop cfg hz now fin cpus mem_mb ps alive mem links b =
     (let aff = (if node_affinity cfg \<noteq> 0 then node_affinity cfg else cpus * 1000);
          load = mattx_calc_local_load cfg ps;
          info = \<lparr>cpu_load = load, mem_free_mb = mem_mb, affinity = aff,
            accept_guests = (if s_accept_guests cfg then 1 else 0)\<rparr>;
          bc = map (\<lambda>i. (i, info)) (broadcast_targets (b_members b))
      in (case mattx_evaluate_and_balance cfg hz now fin (gregs (b_gnode b)) ps (b_members b) load aff (b_sched b) of
            (s, mig) \<Rightarrow>
             (case guest_watcher alive mem (b_gnode b) of (g, o1) \<Rightarrow>
               (case export_watcher alive mem links (b_exports b) of (r, o2) \<Rightarrow>
                 (b\<lparr>b_sched := s, b_gnode := g, b_exports := r\<rparr>, bc, mig, o1 @ o2)))))"

section \<open>The lists mean what the administrator writes\<close>

lemma strsep_plain: "CHR '','' \<notin> set w \<Longrightarrow> strsep_tokens w = [w]"
  by (induction w) auto

lemma strsep_cons: "CHR '','' \<notin> set w \<Longrightarrow> strsep_tokens (w @ CHR '','' # cs) = w # strsep_tokens cs"
  by (induction w) auto

fun join_names :: "string list \<Rightarrow> string" where
  "join_names [] = []"
| "join_names [w] = w"
| "join_names (w # ws) = w @ CHR '','' # join_names ws"

lemma strsep_join:
  "ws \<noteq> [] \<Longrightarrow> \<forall>w\<in>set ws. CHR '','' \<notin> set w \<Longrightarrow> strsep_tokens (join_names ws) = ws"
  by (induction ws rule: join_names.induct) (auto simp: strsep_plain strsep_cons)

lemma excluded_names:
  assumes "ws \<noteq> []" "\<forall>w\<in>set ws. CHR '','' \<notin> set w \<and> (w = [] \<or> hd w \<noteq> CHR '' '')" "length (join_names ws) \<le> 511"
  shows "is_task_excluded (join_names ws) comm \<longleftrightarrow> comm \<in> set ws"
    and "is_task_included (join_names ws) comm \<longleftrightarrow> comm \<in> set ws"
proof -
  have "dropWhile (\<lambda>c. c = CHR '' '') w = w" if "w \<in> set ws" for w
    using assms(2) that by (cases w) auto
  moreover have "strsep_tokens (take 511 (join_names ws)) = ws" using assms strsep_join by simp
  ultimately show "is_task_excluded (join_names ws) comm \<longleftrightarrow> comm \<in> set ws"
      "is_task_included (join_names ws) comm \<longleftrightarrow> comm \<in> set ws"
    by (auto simp: is_task_excluded_def is_task_included_def)
qed

section \<open>The candidate\<close>

lemma candidate_loop_spec:
  "candidate_loop ok ps mx best = best \<and> (\<forall>p\<in>set ps. ok p \<longrightarrow> t_runtime p \<le> mx) \<or>
   (\<exists>t\<in>set ps. ok t \<and> mx < t_runtime t \<and> candidate_loop ok ps mx best = Some t \<and>
      (\<forall>p\<in>set ps. ok p \<longrightarrow> t_runtime p \<le> t_runtime t))"
proof (induction ps arbitrary: mx best)
  case (Cons p ps)
  show ?case
  proof (cases "ok p \<and> mx < t_runtime p")
    case True
    then show ?thesis using Cons.IH [of "t_runtime p" "Some p"] by auto
  next
    case False
    then show ?thesis using Cons.IH [of mx best] by auto
  qed
qed simp

lemma candidate_best:
  assumes "mattx_find_candidate_task cfg r lst ps = Some t"
  shows "t \<in> set ps" "eligible cfg r lst t" "\<And>p. p \<in> set ps \<Longrightarrow> eligible cfg r lst p \<Longrightarrow> t_runtime p \<le> t_runtime t"
  using candidate_loop_spec [of "eligible cfg r lst" ps 0 None] assms
  by (auto simp: mattx_find_candidate_task_def)

section \<open>The decision\<close>

lemma best_loop_spec:
  "(best_loop m is (lo, best) = (lo, best) \<and> (\<forall>i\<in>set is. open_node m i \<longrightarrow> lo \<le> remote_norm (cluster_load_table m i))) \<or>
   (\<exists>i\<in>set is. open_node m i \<and> remote_norm (cluster_load_table m i) < lo \<and>
      best_loop m is (lo, best) = (remote_norm (cluster_load_table m i), Some i) \<and>
      (\<forall>j\<in>set is. open_node m j \<longrightarrow> remote_norm (cluster_load_table m i) \<le> remote_norm (cluster_load_table m j)))"
proof (induction "is" arbitrary: lo best)
  case (Cons i "is")
  show ?case
  proof (cases "open_node m i \<and> remote_norm (cluster_load_table m i) < lo")
    case True
    then show ?thesis using Cons.IH [of "remote_norm (cluster_load_table m i)" "Some i"] by auto
  next
    case False
    then show ?thesis using Cons.IH [of lo best] by auto
  qed
qed simp

text \<open>
  C16. A dispatched migration is justified: the balancer is on and its cooldown is over; the
  target is a connected, registered node that accepts guests and has the least normalised load
  of all such nodes; the local normalised load exceeds it by at least 250; the task is a
  runnable user process that is neither a guest nor the one migrated last, passes the name
  lists, and has run longest of all such tasks. The dispatch starts the cooldown and remembers
  the task.
\<close>

theorem migration_justified:
  assumes "mattx_evaluate_and_balance cfg hz now fin r ps m load aff s = (s', Some (t, n))"
  shows "balancer_enabled cfg \<and> \<not> (last_migration_jiffies s \<noteq> 0 \<and> time_before now (last_migration_jiffies s + hz)) \<and>
    n < MAX_NODES \<and> open_node m n \<and>
    (\<forall>i<MAX_NODES. open_node m i \<longrightarrow> remote_norm (cluster_load_table m n) \<le> remote_norm (cluster_load_table m i)) \<and>
    remote_norm (cluster_load_table m n) < norm_load load aff \<and> 250 \<le> norm_load load aff - remote_norm (cluster_load_table m n) \<and>
    t \<in> set ps \<and> eligible cfg r (last_migrated_pid s) t \<and>
    (\<forall>p\<in>set ps. eligible cfg r (last_migrated_pid s) p \<longrightarrow> t_runtime p \<le> t_runtime t) \<and>
    s' = \<lparr>last_migrated_pid = t_pid t, last_migration_jiffies = fin\<rparr>"
proof -
  obtain lo where b: "best_loop m [0..<MAX_NODES] (0xFFFFFFFF, None) = (lo, Some n)"
      "lo < norm_load load aff" "250 \<le> norm_load load aff - lo"
      "mattx_find_candidate_task cfg r (last_migrated_pid s) ps = Some t"
      "balancer_enabled cfg" "\<not> (last_migration_jiffies s \<noteq> 0 \<and> time_before now (last_migration_jiffies s + hz))"
      "s' = \<lparr>last_migrated_pid = t_pid t, last_migration_jiffies = fin\<rparr>"
    using assms unfolding mattx_evaluate_and_balance_def by (auto split: if_splits prod.splits option.splits)
  then have "n < MAX_NODES" "open_node m n" "lo = remote_norm (cluster_load_table m n)"
      "\<forall>i<MAX_NODES. open_node m i \<longrightarrow> lo \<le> remote_norm (cluster_load_table m i)"
    using best_loop_spec [of m "[0..<MAX_NODES]" "0xFFFFFFFF" None] by auto
  with b candidate_best [OF b(4)] show ?thesis by blast
qed

definition demo_task :: "u32 \<Rightarrow> u64 \<Rightarrow> task" where
  "demo_task p rt = \<lparr>t_pid = p, t_tgid = p, t_kthread = False, t_mm = True, t_exiting = False, t_comm = ''sim'',
     t_runtime = rt, t_running = True, t_current = False\<rparr>"

definition demo_cfg :: sched_cfg where
  "demo_cfg = \<lparr>migration_excludes = ''bash,sshd'', migration_includes = [], balancer_enabled = True, node_affinity = 1000,
     s_accept_guests = True\<rparr>"

definition demo_members :: membership where
  "demo_members = \<lparr>cluster_map = [3 \<mapsto> demo_link 1 3, 5 \<mapsto> demo_link 2 5], cluster_load_table = (\<lambda>i. \<lparr>cpu_load = (if i = 3 then 1000 else 500),
     mem_free_mb = 0, affinity = 1000, accept_guests = 1\<rparr>), my_node_id = 1\<rparr>"

definition no_guests :: guests where
  "no_guests = \<lparr>slots = (\<lambda>_. demo_guest 0 0 0 0), cnt = 0\<rparr>"

lemma demo_candidate: "mattx_find_candidate_task demo_cfg no_guests 0 [demo_task 70 9, demo_task 71 20] = Some (demo_task 71 20)"
proof -
  have g: "\<not> is_guest_process p no_guests" for p by (simp add: is_guest_process_def no_guests_def scan_None)
  have "eligible demo_cfg no_guests 0 (demo_task p rt)" if "p = 70 \<or> p = 71" for p rt
    using that g by (auto simp: eligible_def mother_def name_ok_def demo_cfg_def demo_task_def is_task_excluded_def)
  then show ?thesis by (simp add: mattx_find_candidate_task_def demo_task_def)
qed

lemma demo_best: "best_loop demo_members [0..<MAX_NODES] (0xFFFFFFFF, None) = (500, Some 5)"
proof -
  have o: "open_node demo_members i \<longleftrightarrow> i = 3 \<or> i = 5" for i
    by (auto simp: open_node_def demo_members_def demo_link_def)
  have r: "remote_norm (cluster_load_table demo_members i) = (if i = 3 then 1000 else 500)" for i
    by (simp add: remote_norm_def norm_load_def demo_members_def)
  show ?thesis using best_loop_spec [of demo_members "[0..<MAX_NODES]" "0xFFFFFFFF" None] by (auto simp: o r)
qed

theorem migration_justified_witness:
  "mattx_evaluate_and_balance demo_cfg 250 8990 9000 no_guests [demo_task 70 9, demo_task 71 20] demo_members 2000 1000
     \<lparr>last_migrated_pid = 0, last_migration_jiffies = 100\<rparr> =
     (\<lparr>last_migrated_pid = 71, last_migration_jiffies = 9000\<rparr>, Some (demo_task 71 20, 5)) \<and>
   open_node demo_members 5 \<and> eligible demo_cfg no_guests 0 (demo_task 71 20)"
proof -
  let ?s = "\<lparr>last_migrated_pid = 0, last_migration_jiffies = 100\<rparr>"
  have e: "mattx_evaluate_and_balance demo_cfg 250 8990 9000 no_guests [demo_task 70 9, demo_task 71 20] demo_members 2000 1000 ?s =
     (\<lparr>last_migrated_pid = 71, last_migration_jiffies = 9000\<rparr>, Some (demo_task 71 20, 5))"
    unfolding mattx_evaluate_and_balance_def demo_best
    by (simp add: demo_candidate time_before_def norm_load_def) (simp add: demo_cfg_def demo_task_def)
  from migration_justified [OF e] e show ?thesis by simp
qed

text \<open>A later reading of the counter, less than the window away, wrapped or not.\<close>

lemma time_before_window:
  assumes "unat (now - t0) < unat hz" "unat hz < 2 ^ 63"
  shows "time_before now (t0 + hz)"
proof -
  define k where "k = unat hz - unat (now - t0)"
  have k: "0 < k" "k < 2 ^ 63" using assms by (simp_all add: k_def)
  have "of_nat k = hz - (now - t0)"
    using assms(1) by (simp add: k_def of_nat_diff)
  then have "now - (t0 + hz) = - of_nat k" by (simp add: algebra_simps)
  also have "\<dots> = word_of_int (- int k)" by simp
  finally have "sint (now - (t0 + hz)) = signed_take_bit 63 (- int k)" by (simp only: sint_sbintrunc') simp
  also have "\<dots> = - int k"
  proof (rule signed_take_bit_int_eq_self)
    show "- (2 ^ 63) \<le> - int k" using k(2) by simp
  qed (use k in simp)
  finally show ?thesis using k(1) by (simp add: time_before_def)
qed

text \<open>
  The cooldown holds: after a dispatch whose capture ends at a nonzero clock value \<open>t0\<close> no evaluation dispatches
  again until \<open>hz\<close> ticks (one second) have passed, also across a wrap of the tick counter.
\<close>

theorem cooldown_blocks:
  assumes "mattx_evaluate_and_balance cfg hz before t0 r ps m load aff s = (s', Some d)" and "t0 \<noteq> 0"
    and "unat (now - t0) < unat hz" and "unat hz < 2 ^ 63"
  shows "mattx_evaluate_and_balance cfg2 hz now fin r2 ps2 m2 load2 aff2 s' = (s', None)"
proof -
  have "last_migration_jiffies s' = t0"
    using assms(1) unfolding mattx_evaluate_and_balance_def by (auto split: if_splits prod.splits option.splits)
  then have "last_migration_jiffies s' \<noteq> 0 \<and> time_before now (last_migration_jiffies s' + hz)"
    using time_before_window [OF assms(3,4)] assms(2) by simp
  then show ?thesis by (simp add: mattx_evaluate_and_balance_def)
qed

theorem cooldown_blocks_witness:
  "mattx_evaluate_and_balance demo_cfg 250 9100 9110 no_guests [demo_task 72 50] demo_members 2000 1000
     \<lparr>last_migrated_pid = 71, last_migration_jiffies = 9000\<rparr> = (\<lparr>last_migrated_pid = 71, last_migration_jiffies = 9000\<rparr>, None)"
proof -
  have e: "mattx_evaluate_and_balance demo_cfg 250 8990 9000 no_guests [demo_task 70 9, demo_task 71 20] demo_members 2000 1000
     \<lparr>last_migrated_pid = 0, last_migration_jiffies = 100\<rparr> =
     (\<lparr>last_migrated_pid = 71, last_migration_jiffies = 9000\<rparr>, Some (demo_task 71 20, 5))"
    unfolding mattx_evaluate_and_balance_def demo_best
    by (simp add: demo_candidate time_before_def norm_load_def) (simp add: demo_cfg_def demo_task_def)
  show ?thesis by (rule cooldown_blocks [OF e]) simp_all
qed

section \<open>Burials\<close>

definition exits :: "watch_out list \<Rightarrow> (u32 \<times> u32) list" where
  "exits out = List.map_filter (\<lambda>w. case w of W_exit n p \<Rightarrow> Some (n, p) | _ \<Rightarrow> None) out"

definition kills :: "watch_out list \<Rightarrow> (u32 \<times> u32) list" where
  "kills out = List.map_filter (\<lambda>w. case w of W_kill n p \<Rightarrow> Some (n, p) | _ \<Rightarrow> None) out"

definition page_frees :: "watch_out list \<Rightarrow> nat list" where
  "page_frees out = List.map_filter (\<lambda>w. case w of W_life (Free_page p) \<Rightarrow> Some p | _ \<Rightarrow> None) out"

lemma filter_mset_all: "(\<And>x. x \<in># M \<Longrightarrow> P x) \<Longrightarrow> filter_mset P M = M"
  by (induction M) auto

lemma filter_mset_no: "(\<And>x. x \<in># M \<Longrightarrow> \<not> P x) \<Longrightarrow> filter_mset P M = {#}"
  by (induction M) auto

lemma map_filter_none: "(\<And>x. x \<in> set xs \<Longrightarrow> f x = None) \<Longrightarrow> List.map_filter f xs = []"
  by (induction xs) (auto simp: map_filter_simps)

lemma out_append [simp]:
  "exits (a @ b) = exits a @ exits b" "kills (a @ b) = kills a @ kills b" "page_frees (a @ b) = page_frees a @ page_frees b"
  by (simp_all add: exits_def kills_def page_frees_def map_filter_append)

lemma funeral_only: "w \<in> set (funeral_pages g e) \<Longrightarrow> (\<exists>a b c d x. w = W_update a b c d x) \<or> w = W_null"
  by (auto simp: funeral_pages_def split: if_splits option.splits)

lemma bury_guest_out:
  assumes "i < cnt (gregs g)" "bury_guest mem g i = (g1, o1)"
  shows "exits o1 = (if \<not> is_migrating (slots (gregs g) i) \<and> glinks g (home_node (slots (gregs g) i))
      then [(home_node (slots (gregs g) i), orig_pid (slots (gregs g) i))] else [])"
    "page_frees o1 = guest_pages (slots (gregs g) i)"
    "mset (entries (gregs g)) = add_mset (slots (gregs g) i) (mset (entries (gregs g1)))" "glinks g1 = glinks g"
    "mset (all_pages (gregs g)) = mset (all_pages (gregs g1)) + mset (page_frees o1)"
proof -
  let ?e = "slots (gregs g) i"
  obtain r fr where rm: "remove_guest_process (int i) (gregs g) = (r, fr)" by fastforce
  note rp = remove_guest_pages [OF assms(1) rm]
  let ?fp = "if gmode g = 2 \<and> mem \<and> glinks g (home_node ?e) then funeral_pages g ?e else []"
  let ?kf = "map (W_life \<circ> Kfree) (List.map_filter id [rpc_read_buf ?e, rpc_statx_buf ?e])"
  have g1: "g1 = g\<lparr>gregs := r\<rparr>"
      "o1 = map W_life fr @ ?fp @ ?kf @ (if \<not> is_migrating ?e \<and> glinks g (home_node ?e) then [W_exit (home_node ?e) (orig_pid ?e)] else [])"
    using assms(2) rm by (simp_all add: bury_guest_def Let_def)
  have fp: "exits ?fp = []" "page_frees ?fp = []"
    by (auto simp: exits_def page_frees_def dest: funeral_only intro!: map_filter_none)
  have kf: "exits ?kf = []" "page_frees ?kf = []" "exits (map W_life fr) = []"
    by (auto simp: exits_def page_frees_def intro!: map_filter_none)
  have fr: "page_frees (map W_life fr) = guest_pages ?e"
    unfolding rp(1) by (simp add: page_frees_def map_filter_map_Some)
  show ex: "exits o1 = (if \<not> is_migrating ?e \<and> glinks g (home_node ?e) then [(home_node ?e, orig_pid ?e)] else [])"
    unfolding g1(2) out_append fp kf by (simp add: exits_def map_filter_simps)
  show pf: "page_frees o1 = guest_pages ?e"
    unfolding g1(2) out_append fp kf fr by (simp add: page_frees_def map_filter_simps)
  show "mset (entries (gregs g)) = add_mset ?e (mset (entries (gregs g1)))" "glinks g1 = glinks g"
    using rp(2) g1(1) by simp_all
  show "mset (all_pages (gregs g)) = mset (all_pages (gregs g1)) + mset (page_frees o1)"
    using rp(1,3) g1(1) pf by simp
qed

text \<open>
  C26. The guest watcher ends, and it buries exactly the dead: afterwards the registry holds
  the living guests and only them; for each dead guest that was not being recalled and whose
  home is connected exactly one exit notice goes to its home node, and none for anyone else;
  and every DSM page is still owned by a living guest or has been freed, once.
\<close>

theorem guest_watcher_exact:
  "\<exists>g' out. guest_watcher alive mem g = (g', out) \<and>
    mset (entries (gregs g')) = filter_mset (\<lambda>e. alive (local_pid e)) (mset (entries (gregs g))) \<and>
    mset (exits out) = image_mset (\<lambda>e. (home_node e, orig_pid e)) (filter_mset (\<lambda>e. \<not> alive (local_pid e) \<and>
       \<not> is_migrating e \<and> glinks g (home_node e)) (mset (entries (gregs g)))) \<and>
    mset (all_pages (gregs g)) = mset (all_pages (gregs g')) + mset (page_frees out)"
proof (induction alive mem g rule: guest_watcher.induct)
  case (1 alive mem g)
  show ?case
  proof (cases "scan (\<lambda>i. \<not> alive (local_pid (slots (gregs g) i))) (cnt (gregs g))")
    case None
    then have "\<forall>e\<in>#mset (entries (gregs g)). alive (local_pid e)" by (auto simp: scan_None in_set_entries)
    then have "filter_mset (\<lambda>e. alive (local_pid e)) (mset (entries (gregs g))) = mset (entries (gregs g))"
      "filter_mset (\<lambda>e. \<not> alive (local_pid e) \<and> \<not> is_migrating e \<and> glinks g (home_node e)) (mset (entries (gregs g))) = {#}"
      by (auto intro!: filter_mset_all filter_mset_no)
    then show ?thesis using None by (simp add: guest_watcher.simps [of alive mem g] exits_def page_frees_def map_filter_def)
  next
    case (Some i)
    note i = scan_SomeD(1,2) [OF Some]
    obtain g1 o1 where b: "bury_guest mem g i = (g1, o1)" by fastforce
    note bo = bury_guest_out [OF i(1) b]
    from 1 [OF Some b [symmetric]] obtain g' o2 where IH: "guest_watcher alive mem g1 = (g', o2)"
        "mset (entries (gregs g')) = filter_mset (\<lambda>e. alive (local_pid e)) (mset (entries (gregs g1)))"
        "mset (exits o2) = image_mset (\<lambda>e. (home_node e, orig_pid e)) (filter_mset (\<lambda>e. \<not> alive (local_pid e) \<and>
           \<not> is_migrating e \<and> glinks g (home_node e)) (mset (entries (gregs g1))))"
        "mset (all_pages (gregs g1)) = mset (all_pages (gregs g')) + mset (page_frees o2)"
      using bo(4) by auto
    have "guest_watcher alive mem g = (g', o1 @ o2)" using Some b IH(1) by (simp add: guest_watcher.simps [of alive mem g])
    then show ?thesis using bo(1,3,5) IH(2-4) i(2) by simp
  qed
qed

text \<open>
  The home watcher ends, and it keeps exactly the exports whose deputy lives: for each
  dead deputy one kill order goes to the node that runs its surrogate, if connected.
\<close>

theorem export_watcher_exact:
  "\<exists>r' out. export_watcher alive mem links r = (r', out) \<and>
    mset (entries r') = filter_mset (\<lambda>e. alive (e_orig_pid e)) (mset (entries r)) \<and>
    mset (kills out) = image_mset (\<lambda>e. (e_target_node e, e_orig_pid e)) (filter_mset (\<lambda>e. \<not> alive (e_orig_pid e) \<and>
       links (e_target_node e)) (mset (entries r)))"
proof (induction alive mem links r rule: export_watcher.induct)
  case (1 alive mem links r)
  show ?case
  proof (cases "scan (\<lambda>i. \<not> alive (e_orig_pid (slots r i))) (cnt r)")
    case None
    then have "\<forall>e\<in>#mset (entries r). alive (e_orig_pid e)" by (auto simp: scan_None in_set_entries)
    then have "filter_mset (\<lambda>e. alive (e_orig_pid e)) (mset (entries r)) = mset (entries r)"
      "filter_mset (\<lambda>e. \<not> alive (e_orig_pid e) \<and> links (e_target_node e)) (mset (entries r)) = {#}"
      by (auto intro!: filter_mset_all filter_mset_no)
    then show ?thesis using None by (simp add: export_watcher.simps [of alive mem links r] kills_def map_filter_def)
  next
    case (Some i)
    note i = scan_SomeD(1,2) [OF Some]
    obtain r1 o1 where b: "bury_export mem links r i = (r1, o1)" by fastforce
    have r1: "r1 = remove_export_process (int i) r" using b by (simp add: bury_export_def Let_def)
    have "slots r i \<in># mset (entries r)" using i(1) by auto
    then have ms: "mset (entries r) = add_mset (slots r i) (mset (entries r1))"
      using ereg.mset_remove [OF i(1)] i(1) r1 by simp
    have k1: "kills o1 = (if links (e_target_node (slots r i)) then [(e_target_node (slots r i), e_orig_pid (slots r i))] else [])"
      using b by (auto simp: bury_export_def Let_def kills_def map_filter_append map_filter_map_None map_filter_simps comp_def)
    from 1 [OF Some b [symmetric]] obtain r' o2 where IH: "export_watcher alive mem links r1 = (r', o2)"
        "mset (entries r') = filter_mset (\<lambda>e. alive (e_orig_pid e)) (mset (entries r1))"
        "mset (kills o2) = image_mset (\<lambda>e. (e_target_node e, e_orig_pid e)) (filter_mset (\<lambda>e. \<not> alive (e_orig_pid e) \<and>
           links (e_target_node e)) (mset (entries r1)))" by blast
    have "export_watcher alive mem links r = (r', o1 @ o2)" using Some b IH(1) by (simp add: export_watcher.simps [of alive mem links r])
    then show ?thesis using k1 ms IH(2,3) i(2) by simp
  qed
qed

end
