(* ===== verification/Mx_Vfs.thy ===== *)
theory Mx_Vfs
  imports Mx_Rpc
begin

text \<open>
  The remote file service of \<^verbatim>\<open>mattx_fileio.c\<close>: the client calls that MattXFS makes
  (\<^verbatim>\<open>mattx_rpc_vfs_*\<close>), with their local fast path, and the handlers of the serving node
  with its table \<^verbatim>\<open>mfs_open_files\<close> of files opened for clients.

  A client call is a start (everything up to the sleep) and a finish (after the wake-up). The
  VFS of the local kernel is a record of functions, an argument of the operations that use it:
  what it answers is not part of this program. The table is indexed by \<open>int\<close> because the code
  checks only the upper bound of a file descriptor; the cells below 0 stand for whatever memory
  precedes the array.
\<close>

section \<open>State and messages\<close>

record vfs_node =
  v_my_node :: int
  v_links :: "int \<Rightarrow> bool"
  v_rpc :: rpc
  mfs_open_files :: "int \<Rightarrow> nat option"
  config_hpc_local_libs :: bool

text \<open>What the kernel below answers; \<open>k_dir f pos\<close> lists the entries from a position on.\<close>

record kernel =
  k_getattr :: "string \<Rightarrow> int \<times> kstat"
  k_opendir :: "string \<Rightarrow> int + nat"
  k_dir :: "nat \<Rightarrow> int \<Rightarrow> (mattx_dirent \<times> int) list"
  k_open :: "string \<Rightarrow> int \<Rightarrow> int \<Rightarrow> int + nat"
  k_read :: "nat \<Rightarrow> nat \<Rightarrow> int \<Rightarrow> int \<times> byte list"
  k_write :: "nat \<Rightarrow> byte list \<Rightarrow> int \<Rightarrow> int"
  k_llseek :: "nat \<Rightarrow> int \<Rightarrow> int \<Rightarrow> int"
  k_fsync :: "nat \<Rightarrow> int \<Rightarrow> int \<Rightarrow> int \<Rightarrow> int"
  k_path :: "string \<Rightarrow> int"
  k_want_write :: "string \<Rightarrow> int"
  k_positive :: "string \<Rightarrow> bool"
  k_unlink :: "string \<Rightarrow> int"

datatype vfs_req =
  Q_getattr u64 string
| Q_readdir u64 int string
| Q_open u64 int int nat nat string
| Q_read u64 int nat int
| Q_write u64 int nat int "byte list"
| Q_lseek u64 int int int
| Q_fsync u64 int int int int
| Q_unlink u64 nat nat string
| Q_close int

fun req_id :: "vfs_req \<Rightarrow> u64 option" where
  "req_id (Q_getattr r _) = Some r" | "req_id (Q_readdir r _ _) = Some r"
| "req_id (Q_open r _ _ _ _ _) = Some r" | "req_id (Q_read r _ _ _) = Some r"
| "req_id (Q_write r _ _ _ _) = Some r" | "req_id (Q_lseek r _ _ _) = Some r"
| "req_id (Q_fsync r _ _ _ _) = Some r" | "req_id (Q_unlink r _ _ _) = Some r"
| "req_id (Q_close _) = None"

section \<open>Helpers\<close>

definition hpc_prefixes :: "string list" where
  "hpc_prefixes = [''/lib/'', ''/lib64/'', ''/usr/lib/'', ''/usr/lib64/'', ''/etc/ld.so.cache'',
     ''/usr/share/locale/'', ''/proc/'', ''/sys/'']"

definition is_hpc_local_lib :: "string option \<Rightarrow> bool" where
  "is_hpc_local_lib path =
     (case path of None \<Rightarrow> False | Some p \<Rightarrow> \<exists>pre\<in>set hpc_prefixes. take (length pre) p = pre)"

text \<open>\<^verbatim>\<open>strncpy(req.path, path, sizeof(req.path) - 1)\<close>\<close>

definition req_path :: "string \<Rightarrow> string" where
  "req_path p = take 255 p"

definition mattx_filldir :: "mattx_dirent \<Rightarrow> mattx_dirent list \<Rightarrow> bool \<times> mattx_dirent list" where
  "mattx_filldir e acc =
     (if 20 \<le> length acc then (False, acc) else (True, acc @ [e\<lparr>d_name := take 63 (d_name e)\<rparr>]))"

text \<open>\<^verbatim>\<open>iterate_dir\<close> with this actor: entries are offered until one is refused.\<close>

fun iterate_dir :: "(mattx_dirent \<times> int) list \<Rightarrow> int \<Rightarrow> mattx_dirent list \<Rightarrow> int \<times> mattx_dirent list" where
  "iterate_dir [] pos acc = (pos, acc)"
| "iterate_dir ((e, nxt) # es) pos acc =
     (case mattx_filldir e acc of
        (True, acc') \<Rightarrow> iterate_dir es nxt acc'
      | (False, acc') \<Rightarrow> (pos, acc'))"

text \<open>The look-up, locking and deletion sequence used on both sides of an unlink.\<close>

definition unlink_dance :: "kernel \<Rightarrow> string \<Rightarrow> int" where
  "unlink_dance k path =
     (let err = k_path k path in
      if err \<noteq> 0 then err
      else let err = k_want_write k path in
        if err \<noteq> 0 then err else if k_positive k path then k_unlink k path else - ENOENT)"

definition mfs_get :: "int \<Rightarrow> vfs_node \<Rightarrow> nat option" where
  "mfs_get fd n = (if fd < int MAX_FDS then mfs_open_files n fd else None)"

definition mfs_alloc :: "nat \<Rightarrow> vfs_node \<Rightarrow> (nat \<times> vfs_node) option" where
  "mfs_alloc f n =
     (case scan (\<lambda>i. mfs_open_files n (int i) = None) MAX_FDS of
        None \<Rightarrow> None
      | Some i \<Rightarrow> Some (i, n\<lparr>mfs_open_files := (mfs_open_files n)(int i := Some f)\<rparr>))"

definition mfs_close :: "int \<Rightarrow> vfs_node \<Rightarrow> vfs_node \<times> life_effect list" where
  "mfs_close fd n =
     (case mfs_get fd n of None \<Rightarrow> (n, [])
      | Some f \<Rightarrow> (n\<lparr>mfs_open_files := (mfs_open_files n)(fd := None)\<rparr>, [Fput f]))"

section \<open>Client calls\<close>

text \<open>The common remote part: link check, slot, request. \<open>Inr i\<close> means asleep on slot \<open>i\<close>.\<close>

definition remote_call ::
    "rpc_site \<Rightarrow> int \<Rightarrow> (u64 \<Rightarrow> vfs_req) \<Rightarrow> vfs_node \<Rightarrow> (int + nat) \<times> vfs_node \<times> (int \<times> vfs_req) list" where
  "remote_call site node mk n =
     (if \<not> v_links n node then (Inl (- ENOTCONN), n, [])
      else (case rpc_alloc site (v_rpc n) of
              None \<Rightarrow> (Inl (- EBUSY), n, [])
            | Some (i, r) \<Rightarrow> (Inr i, n\<lparr>v_rpc := r\<rparr>, [(node, mk (next_req_id (v_rpc n)))])))"

definition slot_of :: "nat \<Rightarrow> vfs_node \<Rightarrow> vfs_rpc_ctx" where
  "slot_of i n = vfs_rpc_registry (v_rpc n) i"

definition free_slot :: "nat \<Rightarrow> vfs_node \<Rightarrow> vfs_node" where
  "free_slot i n = n\<lparr>v_rpc := rpc_release i (v_rpc n)\<rparr>"

definition hpc_local :: "string \<Rightarrow> vfs_node \<Rightarrow> bool" where
  "hpc_local path n \<longleftrightarrow> config_hpc_local_libs n \<and> is_hpc_local_lib (Some path)"

definition mattx_rpc_vfs_getattr ::
    "kernel \<Rightarrow> int \<Rightarrow> string \<Rightarrow> kstat \<Rightarrow> vfs_node \<Rightarrow>
     ((int \<times> kstat) + nat) \<times> vfs_node \<times> (int \<times> vfs_req) list" where
  "mattx_rpc_vfs_getattr k node path old n =
     (if node = v_my_node n \<or> hpc_local path n then
        (case k_getattr k path of (err, st) \<Rightarrow> (Inl (err, if err = 0 then st else old), n, []))
      else (case remote_call Site_plain node (\<lambda>r. Q_getattr r (req_path path)) n of
              (Inl e, n', m) \<Rightarrow> (Inl (e, old), n', m)
            | (Inr i, n', m) \<Rightarrow> (Inr i, n', m)))"

definition getattr_finish :: "nat \<Rightarrow> kstat \<Rightarrow> vfs_node \<Rightarrow> (int \<times> kstat) \<times> vfs_node" where
  "getattr_finish i old n =
     ((x_error (slot_of i n), if x_error (slot_of i n) = 0 then x_stat (slot_of i n) else old), free_slot i n)"

text \<open>\<open>mem\<close> says whether the reply buffer of the local path can be allocated.\<close>

definition mattx_rpc_vfs_readdir ::
    "kernel \<Rightarrow> bool \<Rightarrow> int \<Rightarrow> string \<Rightarrow> int \<Rightarrow> nat \<Rightarrow> vfs_node \<Rightarrow>
     ((int \<times> int \<times> mattx_dirent list) + nat) \<times> vfs_node \<times> (int \<times> vfs_req) list" where
  "mattx_rpc_vfs_readdir k mem node path off ebuf n =
     (if node = v_my_node n then
        (case k_opendir k path of
           Inl e \<Rightarrow> (Inl (e, off, []), n, [])
         | Inr f \<Rightarrow>
             if \<not> mem then (Inl (- ENOMEM, off, []), n, [])
             else (case iterate_dir (k_dir k f off) off [] of (pos, es) \<Rightarrow> (Inl (0, pos, es), n, [])))
      else (case remote_call (Site_dirents ebuf) node (\<lambda>r. Q_readdir r off (req_path path)) n of
              (Inl e, n', m) \<Rightarrow> (Inl (e, off, []), n', m)
            | (Inr i, n', m) \<Rightarrow> (Inr i, n', m)))"

definition readdir_finish :: "nat \<Rightarrow> int \<Rightarrow> nat \<Rightarrow> vfs_node \<Rightarrow> (int \<times> int \<times> mattx_dirent list) \<times> vfs_node" where
  "readdir_finish i off ebuf n =
     (if x_error (slot_of i n) = 0
      then ((0, x_new_offset (slot_of i n), take (x_dirent_count (slot_of i n)) (dbufs (v_rpc n) ebuf)), free_slot i n)
      else ((x_error (slot_of i n), off, []), free_slot i n))"

definition mattx_rpc_vfs_open ::
    "kernel \<Rightarrow> nat \<times> nat \<Rightarrow> int \<Rightarrow> string \<Rightarrow> int \<Rightarrow> int \<Rightarrow> vfs_node \<Rightarrow>
     ((int \<times> int option) + nat) \<times> vfs_node \<times> (int \<times> vfs_req) list \<times> life_effect list" where
  "mattx_rpc_vfs_open k ids node path flags mode n =
     (if node = v_my_node n \<or> hpc_local path n then
        (case k_open k path flags mode of
           Inl e \<Rightarrow> (Inl (e, None), n, [], [])
         | Inr f \<Rightarrow>
            (case mfs_alloc f n of
               Some (i, n') \<Rightarrow> (Inl (0, Some (int i)), n', [], [])
             | None \<Rightarrow> (Inl (- ENFILE, None), n, [], [Fput f])))
      else (case remote_call Site_plain node (\<lambda>r. Q_open r flags mode (fst ids) (snd ids) (req_path path)) n of
              (Inl e, n', m) \<Rightarrow> (Inl (e, None), n', m, [])
            | (Inr i, n', m) \<Rightarrow> (Inr i, n', m, [])))"

definition open_finish :: "nat \<Rightarrow> vfs_node \<Rightarrow> (int \<times> int option) \<times> vfs_node" where
  "open_finish i n =
     ((x_error (slot_of i n), if x_error (slot_of i n) = 0 then Some (x_remote_fd (slot_of i n)) else None),
      free_slot i n)"

text \<open>The file position moves by the bytes transferred; \<open>k_read\<close> of the local path does the same.\<close>

definition mattx_rpc_vfs_read ::
    "kernel \<Rightarrow> int \<Rightarrow> int \<Rightarrow> nat \<Rightarrow> nat \<Rightarrow> int \<Rightarrow> vfs_node \<Rightarrow>
     ((int \<times> int) + nat) \<times> vfs_node \<times> (int \<times> vfs_req) list" where
  "mattx_rpc_vfs_read k node fd buf len pos n =
     (if node = v_my_node n then
        (case mfs_get fd n of
           None \<Rightarrow> (Inl (- EBADF, pos), n, [])
         | Some f \<Rightarrow>
            (case k_read k f len pos of (ret, d) \<Rightarrow>
              (Inl (ret, if 0 < ret then pos + ret else pos),
               (if 0 < ret then n\<lparr>v_rpc := (v_rpc n)\<lparr>bufs := (bufs (v_rpc n))(buf := memcpy_to d (bufs (v_rpc n) buf))\<rparr>\<rparr> else n), [])))
      else (case remote_call (Site_data buf) node (\<lambda>r. Q_read r fd len pos) n of
              (Inl e, n', m) \<Rightarrow> (Inl (e, pos), n', m)
            | (Inr i, n', m) \<Rightarrow> (Inr i, n', m)))"

definition rw_finish :: "nat \<Rightarrow> int \<Rightarrow> vfs_node \<Rightarrow> (int \<times> int) \<times> vfs_node" where
  "rw_finish i pos n =
     (let b = x_bytes_rw (slot_of i n) in ((b, if 0 < b then pos + b else pos), free_slot i n))"

definition mattx_rpc_vfs_write ::
    "kernel \<Rightarrow> bool \<Rightarrow> int \<Rightarrow> int \<Rightarrow> byte list \<Rightarrow> int \<Rightarrow> vfs_node \<Rightarrow>
     ((int \<times> int) + nat) \<times> vfs_node \<times> (int \<times> vfs_req) list" where
  "mattx_rpc_vfs_write k mem node fd data pos n =
     (if \<not> mem then (Inl (- ENOMEM, pos), n, [])
      else if node = v_my_node n then
        (case mfs_get fd n of
           None \<Rightarrow> (Inl (- EBADF, pos), n, [])
         | Some f \<Rightarrow>
            (let ret = k_write k f data pos in (Inl (ret, if 0 < ret then pos + ret else pos), n, [])))
      else (case remote_call Site_plain node (\<lambda>r. Q_write r fd (length data) pos data) n of
              (Inl e, n', m) \<Rightarrow> (Inl (e, pos), n', m)
            | (Inr i, n', m) \<Rightarrow> (Inr i, n', m)))"

definition mattx_rpc_vfs_llseek ::
    "kernel \<Rightarrow> int \<Rightarrow> int \<Rightarrow> int \<Rightarrow> int \<Rightarrow> vfs_node \<Rightarrow> (int + nat) \<times> vfs_node \<times> (int \<times> vfs_req) list" where
  "mattx_rpc_vfs_llseek k node fd off whence n =
     (if node = v_my_node n then
        (case mfs_get fd n of None \<Rightarrow> (Inl (- EBADF), n, []) | Some f \<Rightarrow> (Inl (k_llseek k f off whence), n, []))
      else remote_call Site_plain node (\<lambda>r. Q_lseek r fd off whence) n)"

definition llseek_finish :: "nat \<Rightarrow> vfs_node \<Rightarrow> int \<times> vfs_node" where
  "llseek_finish i n =
     (if x_error (slot_of i n) = 0 then x_ret_offset (slot_of i n) else x_error (slot_of i n), free_slot i n)"

definition mattx_rpc_vfs_fsync ::
    "kernel \<Rightarrow> int \<Rightarrow> int \<Rightarrow> int \<Rightarrow> int \<Rightarrow> int \<Rightarrow> vfs_node \<Rightarrow> (int + nat) \<times> vfs_node \<times> (int \<times> vfs_req) list" where
  "mattx_rpc_vfs_fsync k node fd start en datasync n =
     (if node = v_my_node n then
        (case mfs_get fd n of None \<Rightarrow> (Inl (- EBADF), n, []) | Some f \<Rightarrow> (Inl (k_fsync k f start en datasync), n, []))
      else remote_call Site_plain node (\<lambda>r. Q_fsync r fd start en datasync) n)"

definition err_finish :: "nat \<Rightarrow> vfs_node \<Rightarrow> int \<times> vfs_node" where
  "err_finish i n = (x_error (slot_of i n), free_slot i n)"

definition mattx_rpc_vfs_unlink ::
    "kernel \<Rightarrow> nat \<times> nat \<Rightarrow> int \<Rightarrow> string \<Rightarrow> vfs_node \<Rightarrow> (int + nat) \<times> vfs_node \<times> (int \<times> vfs_req) list" where
  "mattx_rpc_vfs_unlink k ids node path n =
     (if node = v_my_node n then (Inl (unlink_dance k path), n, [])
      else remote_call Site_plain node (\<lambda>r. Q_unlink r (fst ids) (snd ids) (req_path path)) n)"

definition mattx_rpc_vfs_close ::
    "int \<Rightarrow> int \<Rightarrow> vfs_node \<Rightarrow> vfs_node \<times> (int \<times> vfs_req) list \<times> life_effect list" where
  "mattx_rpc_vfs_close node fd n =
     (if node = v_my_node n then (case mfs_close fd n of (n', effs) \<Rightarrow> (n', [], effs))
      else if v_links n node then (n, [(node, Q_close fd)], []) else (n, [], []))"

section \<open>Serving handlers\<close>

text \<open>A reply goes to the sender if its link is up.\<close>

definition answer :: "int \<Rightarrow> vfs_node \<Rightarrow> 'm \<Rightarrow> (int \<times> 'm) list" where
  "answer sender n m = (if v_links n sender then [(sender, m)] else [])"

definition zero_stat :: kstat where
  "zero_stat = \<lparr>st_mode = 0, st_size = 0, st_blocks = 0, st_blksize = 0, st_uid = 0, st_gid = 0, st_nlink = 0\<rparr>"

definition handle_vfs_getattr_req :: "kernel \<Rightarrow> int \<Rightarrow> u64 \<Rightarrow> string \<Rightarrow> vfs_node \<Rightarrow> (int \<times> vfs_reply) list" where
  "handle_vfs_getattr_req k sender rid path n =
     (case k_getattr k path of (err, st) \<Rightarrow>
       answer sender n (R_getattr rid err (if err = 0 then st else zero_stat)))"

definition handle_vfs_readdir_req ::
    "kernel \<Rightarrow> bool \<Rightarrow> int \<Rightarrow> u64 \<Rightarrow> int \<Rightarrow> string \<Rightarrow> vfs_node \<Rightarrow> (int \<times> vfs_reply) list" where
  "handle_vfs_readdir_req k mem sender rid off path n =
     (if \<not> mem then []
      else (case k_opendir k path of
              Inl e \<Rightarrow> answer sender n (R_readdir rid e 0 [])
            | Inr f \<Rightarrow> (case iterate_dir (k_dir k f off) off [] of (pos, es) \<Rightarrow>
                answer sender n (R_readdir rid 0 pos es))))"

definition handle_vfs_open_req ::
    "kernel \<Rightarrow> int \<Rightarrow> u64 \<Rightarrow> int \<Rightarrow> int \<Rightarrow> string \<Rightarrow> vfs_node \<Rightarrow> vfs_node \<times> (int \<times> vfs_reply) list \<times> life_effect list" where
  "handle_vfs_open_req k sender rid flags mode path n =
     (case k_open k path flags mode of
        Inl e \<Rightarrow> (n, answer sender n (R_open rid 0 e), [])
      | Inr f \<Rightarrow>
         (case mfs_alloc f n of
            Some (i, n') \<Rightarrow> (n', answer sender n (R_open rid (int i) 0), [])
          | None \<Rightarrow> (n, answer sender n (R_open rid 0 (- ENFILE)), [Fput f])))"

text \<open>\<open>m1\<close> and \<open>m2\<close>: the read buffer and the reply can be allocated.\<close>

definition handle_vfs_read_req ::
    "kernel \<Rightarrow> bool \<Rightarrow> bool \<Rightarrow> int \<Rightarrow> u64 \<Rightarrow> int \<Rightarrow> nat \<Rightarrow> int \<Rightarrow> vfs_node \<Rightarrow> (int \<times> vfs_reply) list" where
  "handle_vfs_read_req k m1 m2 sender rid fd len pos n =
     (case mfs_get fd n of None \<Rightarrow> []
      | Some f \<Rightarrow>
         if m1 then
           (case k_read k f len pos of (ret, d) \<Rightarrow>
              if m2 then answer sender n (R_read rid ret (if 0 < ret then take (nat ret) d else [])) else [])
         else [])"

definition handle_vfs_write_req ::
    "kernel \<Rightarrow> int \<Rightarrow> u64 \<Rightarrow> int \<Rightarrow> nat \<Rightarrow> int \<Rightarrow> byte list \<Rightarrow> vfs_node \<Rightarrow> (int \<times> vfs_reply) list" where
  "handle_vfs_write_req k sender rid fd len pos data n =
     (case mfs_get fd n of
        None \<Rightarrow> answer sender n (R_write rid (- EBADF) 0)
      | Some f \<Rightarrow> (let w = k_write k f (take len data) pos in
          answer sender n (R_write rid w (if w < 0 then w else 0))))"

definition handle_vfs_lseek_req ::
    "kernel \<Rightarrow> int \<Rightarrow> u64 \<Rightarrow> int \<Rightarrow> int \<Rightarrow> int \<Rightarrow> vfs_node \<Rightarrow> (int \<times> vfs_reply) list" where
  "handle_vfs_lseek_req k sender rid fd off whence n =
     (case mfs_get fd n of
        None \<Rightarrow> answer sender n (R_lseek rid (- EBADF) 0)
      | Some f \<Rightarrow> (let r = k_llseek k f off whence in
          answer sender n (if r < 0 then R_lseek rid r 0 else R_lseek rid 0 r)))"

definition handle_vfs_fsync_req ::
    "kernel \<Rightarrow> int \<Rightarrow> u64 \<Rightarrow> int \<Rightarrow> int \<Rightarrow> int \<Rightarrow> int \<Rightarrow> vfs_node \<Rightarrow> (int \<times> vfs_reply) list" where
  "handle_vfs_fsync_req k sender rid fd start en datasync n =
     (case mfs_get fd n of
        None \<Rightarrow> answer sender n (R_fsync rid (- EBADF))
      | Some f \<Rightarrow> answer sender n (R_fsync rid (k_fsync k f start en datasync)))"

text \<open>
  The answer to an unlink has the shape of the answer to a sync: an id and an error. Only the
  MattXFS case (no original pid) is a message of this service.
\<close>

definition handle_sys_unlink_req :: "kernel \<Rightarrow> int \<Rightarrow> u64 \<Rightarrow> string \<Rightarrow> vfs_node \<Rightarrow> (int \<times> vfs_reply) list" where
  "handle_sys_unlink_req k sender rid path n = answer sender n (R_fsync rid (unlink_dance k path))"

definition handle_vfs_close_req :: "int \<Rightarrow> vfs_node \<Rightarrow> vfs_node \<times> life_effect list" where
  "handle_vfs_close_req fd n = mfs_close fd n"

text \<open>The dispatch of one request; \<open>mem\<close> gives the outcomes of the two allocations.\<close>

fun serve :: "kernel \<Rightarrow> bool \<times> bool \<Rightarrow> int \<Rightarrow> vfs_req \<Rightarrow> vfs_node \<Rightarrow>
    vfs_node \<times> (int \<times> vfs_reply) list \<times> life_effect list" where
  "serve k mem s (Q_getattr r p) n = (n, handle_vfs_getattr_req k s r p n, [])"
| "serve k mem s (Q_readdir r off p) n = (n, handle_vfs_readdir_req k (fst mem) s r off p n, [])"
| "serve k mem s (Q_open r fl md u g p) n = handle_vfs_open_req k s r fl md p n"
| "serve k mem s (Q_read r fd c pos) n = (n, handle_vfs_read_req k (fst mem) (snd mem) s r fd c pos n, [])"
| "serve k mem s (Q_write r fd c pos d) n = (n, handle_vfs_write_req k s r fd c pos d n, [])"
| "serve k mem s (Q_lseek r fd off w) n = (n, handle_vfs_lseek_req k s r fd off w n, [])"
| "serve k mem s (Q_fsync r fd a b c) n = (n, handle_vfs_fsync_req k s r fd a b c n, [])"
| "serve k mem s (Q_unlink r u g p) n = (n, handle_sys_unlink_req k s r p n, [])"
| "serve k mem s (Q_close fd) n = (case handle_vfs_close_req fd n of (n', e) \<Rightarrow> (n', [], e))"

section \<open>Shutdown\<close>

text \<open>\<^verbatim>\<open>mattx_fileio_exit\<close>: every file is dropped once and both tables end empty.\<close>

definition purge :: "nat \<Rightarrow> (nat \<Rightarrow> nat option) \<Rightarrow> (nat \<Rightarrow> nat option) \<times> life_effect list" where
  "purge m t = (\<lambda>i. if i < m then None else t i, map Fput (List.map_filter t [0..<m]))"

definition mattx_fileio_exit :: "vfs_node \<Rightarrow> exports \<Rightarrow> vfs_node \<times> exports \<times> life_effect list" where
  "mattx_fileio_exit n r =
     (n\<lparr>mfs_open_files := (\<lambda>i. if 0 \<le> i \<and> i < int MAX_FDS then None else mfs_open_files n i)\<rparr>,
      r\<lparr>slots := (\<lambda>i. if i < cnt r then (slots r i)\<lparr>e_remote_files := fst (purge MAX_FDS (e_remote_files (slots r i)))\<rparr>
          else slots r i), cnt := 0\<rparr>,
      snd (purge MAX_FDS (\<lambda>i. mfs_open_files n (int i))) @
      concat (map (\<lambda>e. snd (purge MAX_FDS (e_remote_files e))) (entries r)))"

section \<open>The table of open files\<close>

interpretation mfs: slot_table MAX_FDS "\<lambda>n i. mfs_open_files n (int i) \<noteq> None" mfs_alloc
  "\<lambda>i n. fst (mfs_close (int i) n)"
proof unfold_locales
  fix a t i t' assume "mfs_alloc a t = Some (i, t')"
  then have s: "scan (\<lambda>i. mfs_open_files t (int i) = None) MAX_FDS = Some i"
      "t' = t\<lparr>mfs_open_files := (mfs_open_files t)(int i := Some a)\<rparr>"
    by (auto simp: mfs_alloc_def split: option.splits)
  show "i < MAX_FDS \<and> \<not> mfs_open_files t (int i) \<noteq> None \<and> (\<forall>j<i. mfs_open_files t (int j) \<noteq> None)"
    using scan_SomeD [OF s(1)] by blast
  show "(\<lambda>j. mfs_open_files t' (int j) \<noteq> None) = (\<lambda>j. mfs_open_files t (int j) \<noteq> None)(i := True)"
    using s(2) by auto
next
  fix a t
  show "mfs_alloc a t = None \<longleftrightarrow> (\<forall>i<MAX_FDS. mfs_open_files t (int i) \<noteq> None)"
    using scan_None [of "\<lambda>i. mfs_open_files t (int i) = None" MAX_FDS]
    by (auto simp: mfs_alloc_def split: option.split)
next
  fix i t assume "i < MAX_FDS"
  then show "(\<lambda>j. mfs_open_files (fst (mfs_close (int i) t)) (int j) \<noteq> None) =
      (\<lambda>j. mfs_open_files t (int j) \<noteq> None)(i := False)"
    by (auto simp: mfs_close_def mfs_get_def fun_eq_iff split: option.split)
qed

definition open_files :: "vfs_node \<Rightarrow> nat list" where
  "open_files n = List.map_filter (\<lambda>i. mfs_open_files n (int i)) [0..<MAX_FDS]"

definition fputs :: "life_effect list \<Rightarrow> nat list" where
  "fputs effs = List.map_filter (\<lambda>e. case e of Fput f \<Rightarrow> Some f | _ \<Rightarrow> None) effs"

lemma fputs_simps [simp]:
  "fputs [] = []" "fputs (e # es) = (case e of Fput f \<Rightarrow> [f] | _ \<Rightarrow> []) @ fputs es"
  "fputs (es @ fs) = fputs es @ fputs fs" "fputs (map Fput xs) = xs"
  by (simp_all add: fputs_def map_filter_append map_filter_simps map_filter_map_Some split: life_effect.split)

lemma open_files_upd:
  assumes "i < MAX_FDS" "mfs_open_files n (int i) = None"
  shows "mset (open_files (n\<lparr>mfs_open_files := (mfs_open_files n)(int i := Some f)\<rparr>)) = add_mset f (mset (open_files n))"
proof -
  have "(\<lambda>j. ((mfs_open_files n)(int i := Some f)) (int j)) = (\<lambda>j. mfs_open_files n (int j))(i := Some f)" by auto
  then show ?thesis using mset_map_filter_upd [of "[0..<MAX_FDS]" i "\<lambda>j. mfs_open_files n (int j)" f] assms
    by (simp add: open_files_def)
qed

lemma mfs_alloc_files:
  assumes "mfs_alloc f n = Some (i, n')"
  shows "mset (open_files n') = add_mset f (mset (open_files n))" "mfs_get (int i) n' = Some f" "i < MAX_FDS"
proof -
  have d: "i < MAX_FDS" "mfs_open_files n (int i) = None" using mfs.alloc_slot [OF assms] by auto
  have n': "n' = n\<lparr>mfs_open_files := (mfs_open_files n)(int i := Some f)\<rparr>"
    using assms by (auto simp: mfs_alloc_def split: option.splits)
  show "mset (open_files n') = add_mset f (mset (open_files n))" using open_files_upd [OF d] n' by simp
  show "mfs_get (int i) n' = Some f" "i < MAX_FDS" using d n' by (simp_all add: mfs_get_def)
qed

lemma mfs_close_files:
  assumes "mfs_close fd n = (n', effs)" "0 \<le> fd"
  shows "mset (open_files n) = mset (open_files n') + mset (fputs effs)" "mfs_get fd n' = None"
proof -
  have "mset (open_files n) = mset (open_files n') + mset (fputs effs) \<and> mfs_get fd n' = None"
  proof (cases "mfs_get fd n")
    case None
    then show ?thesis using assms by (auto simp: mfs_close_def)
  next
    case (Some f)
    then have n': "n' = n\<lparr>mfs_open_files := (mfs_open_files n)(fd := None)\<rparr>" "effs = [Fput f]"
      using assms(1) by (auto simp: mfs_close_def)
    have fd: "nat fd < MAX_FDS" "mfs_open_files n fd = Some f"
      using Some assms(2) by (auto simp: mfs_get_def split: if_splits)
    have "n = n'\<lparr>mfs_open_files := (mfs_open_files n')(int (nat fd) := Some f)\<rparr>"
      using n'(1) fd(2) assms(2) by (simp add: fun_upd_idem)
    moreover have "mset (open_files (n'\<lparr>mfs_open_files := (mfs_open_files n')(int (nat fd) := Some f)\<rparr>)) =
        add_mset f (mset (open_files n'))"
      using fd(1) n'(1) assms(2) by (intro open_files_upd) simp_all
    ultimately have "mset (open_files n) = add_mset f (mset (open_files n'))" by simp
    then show ?thesis using n' by (simp add: mfs_get_def)
  qed
  then show "mset (open_files n) = mset (open_files n') + mset (fputs effs)" "mfs_get fd n' = None" by simp_all
qed

text \<open>The file an open request gets from the kernel, if any.\<close>

fun opened :: "kernel \<Rightarrow> vfs_req \<Rightarrow> nat list" where
  "opened k (Q_open r fl md u g p) = (case k_open k p fl md of Inr f \<Rightarrow> [f] | Inl _ \<Rightarrow> [])"
| "opened k q = []"

fun fd_ok :: "vfs_req \<Rightarrow> bool" where
  "fd_ok (Q_close fd) = (0 \<le> fd)"
| "fd_ok q = True"

lemma serve_files:
  assumes "serve k mem sndr q n = (n', rs, effs)" "fd_ok q"
  shows "mset (open_files n) + mset (opened k q) = mset (open_files n') + mset (fputs effs)"
proof (cases q)
  case (Q_open r fl md u g p)
  show ?thesis
  proof (cases "k_open k p fl md")
    case (Inl e)
    then show ?thesis using assms(1) Q_open by (auto simp: handle_vfs_open_req_def)
  next
    case (Inr f)
    then show ?thesis using assms(1) Q_open mfs_alloc_files(1) [of f n]
      by (cases "mfs_alloc f n") (auto simp: handle_vfs_open_req_def)
  qed
next
  case (Q_close fd)
  then show ?thesis using assms mfs_close_files(1) [of fd n n' effs]
    by (auto simp: handle_vfs_close_req_def split: prod.splits)
qed (use assms in auto)

text \<open>A session of requests from any clients, each with its allocation outcomes.\<close>

fun serve_all :: "kernel \<Rightarrow> ((bool \<times> bool) \<times> int \<times> vfs_req) list \<Rightarrow> vfs_node \<Rightarrow> vfs_node \<times> life_effect list" where
  "serve_all k [] n = (n, [])"
| "serve_all k ((mem, sndr, q) # qs) n =
     (case serve k mem sndr q n of (n1, rs, e1) \<Rightarrow>
       (case serve_all k qs n1 of (n2, e2) \<Rightarrow> (n2, e1 @ e2)))"

text \<open>
  C9. No file is leaked or released twice by the serving node: over any session of requests,
  whatever the kernel answers, the files open at the start together with all files that opens
  obtained are exactly the files open at the end together with those whose reference was
  dropped, with multiplicities. (Descriptors in close requests must not be negative: the code
  checks only the upper bound.)
\<close>

theorem open_files_conserved:
  assumes "\<forall>q\<in>set qs. fd_ok (snd (snd q))" and "serve_all k qs n = (n', effs)"
  shows "mset (open_files n) + mset (concat (map (opened k \<circ> snd \<circ> snd) qs)) =
    mset (open_files n') + mset (fputs effs)"
  using assms
proof (induction qs arbitrary: n n' effs)
  case (Cons q qs)
  obtain mem sndr r where q: "q = (mem, sndr, r)" by (cases q) auto
  obtain n1 rs e1 where s1: "serve k mem sndr r n = (n1, rs, e1)" by (cases "serve k mem sndr r n") auto
  obtain n2 e2 where s2: "serve_all k qs n1 = (n2, e2)" by fastforce
  have e: "n' = n2" "effs = e1 @ e2" using Cons.prems(2) q s1 s2 by auto
  have h1: "mset (open_files n) + mset (opened k r) = mset (open_files n1) + mset (fputs e1)"
    using serve_files [OF s1] Cons.prems(1) q by simp
  have h2: "mset (open_files n1) + mset (concat (map (opened k \<circ> snd \<circ> snd) qs)) =
      mset (open_files n2) + mset (fputs e2)"
    by (rule Cons.IH [OF _ s2]) (use Cons.prems(1) in simp)
  have "mset (open_files n) + mset (concat (map (opened k \<circ> snd \<circ> snd) (q # qs))) =
      (mset (open_files n) + mset (opened k r)) + mset (concat (map (opened k \<circ> snd \<circ> snd) qs))"
    using q by (simp add: add.assoc)
  also have "\<dots> = mset (fputs e1) + (mset (open_files n1) + mset (concat (map (opened k \<circ> snd \<circ> snd) qs)))"
    unfolding h1 by (simp only: add.assoc add.commute add.left_commute)
  also have "\<dots> = mset (open_files n') + mset (fputs effs)"
    unfolding h2 e by (simp add: add.left_commute)
  finally show ?case .
qed simp

definition demo_kernel :: kernel where
  "demo_kernel = \<lparr>k_getattr = (\<lambda>_. (0, zero_stat)), k_opendir = (\<lambda>_. Inr 9), k_dir = (\<lambda>_ _. []),
     k_open = (\<lambda>p _ _. if p = ''/etc/hosts'' then Inr 40 else Inl (- 2)),
     k_read = (\<lambda>_ len pos. if pos < 3 \<and> 0 < len then (1, [7]) else (0, [])),
     k_write = (\<lambda>_ d _. int (length d)), k_llseek = (\<lambda>_ off _. off), k_fsync = (\<lambda>_ _ _ _. 0),
     k_path = (\<lambda>_. 0), k_want_write = (\<lambda>_. 0), k_positive = (\<lambda>_. True), k_unlink = (\<lambda>_. 0)\<rparr>"

definition demo_node :: "int \<Rightarrow> vfs_node" where
  "demo_node me = \<lparr>v_my_node = me, v_links = (\<lambda>n. n = 1 \<or> n = 2), v_rpc = empty_rpc,
     mfs_open_files = (\<lambda>_. None), config_hpc_local_libs = True\<rparr>"

theorem open_files_conserved_witness:
  "mset (open_files (demo_node 2)) + {#40, 40#} =
     mset (open_files (fst (serve_all demo_kernel [((True, True), 1, Q_open 1 0 0 0 0 ''/etc/hosts''),
       ((True, True), 1, Q_open 2 0 0 0 0 ''/etc/hosts''), ((True, True), 1, Q_close 0)] (demo_node 2)))) +
     mset (fputs (snd (serve_all demo_kernel [((True, True), 1, Q_open 1 0 0 0 0 ''/etc/hosts''),
       ((True, True), 1, Q_open 2 0 0 0 0 ''/etc/hosts''), ((True, True), 1, Q_close 0)] (demo_node 2))))"
proof -
  let ?qs = "[((True, True), 1, Q_open 1 0 0 0 0 ''/etc/hosts''),
       ((True, True), 1, Q_open 2 0 0 0 0 ''/etc/hosts''), ((True, True), 1, Q_close 0)]"
  have "\<forall>q\<in>set ?qs. fd_ok (snd (snd q))" by simp
  moreover have "concat (map (opened demo_kernel \<circ> snd \<circ> snd) ?qs) = [40, 40]" by (simp add: demo_kernel_def)
  ultimately show ?thesis
    using open_files_conserved [of ?qs demo_kernel "demo_node 2" "fst (serve_all demo_kernel ?qs (demo_node 2))"
        "snd (serve_all demo_kernel ?qs (demo_node 2))"] by simp
qed

section \<open>Remote calls end to end\<close>

text \<open>
  From the sleep to the return of a client: the reply with the id of the request fills the
  slot, and the release gives back the occupancy from before the call.
\<close>

lemma remote_call_Inr:
  assumes "remote_call site node mk a = (Inr i, a1, m)"
  shows "m = [(node, mk (next_req_id (v_rpc a)))]" "rpc_alloc site (v_rpc a) = Some (i, v_rpc a1)" "v_links a node"
    "a1 = a\<lparr>v_rpc := v_rpc a1\<rparr>"
  using assms by (auto simp: remote_call_def split: if_splits option.splits)

lemma remote_call_reply:
  assumes "rpc_ok (v_rpc a)" "unat (next_req_id (v_rpc a)) + 1 < 2 ^ 64"
    "remote_call site node mk a = (Inr i, a1, m)" "reply_id r = next_req_id (v_rpc a)"
    "a2 = a1\<lparr>v_rpc := handle_reply r (v_rpc a1)\<rparr>"
  shows "slot_of i a2 = reply_upd r (fresh_ctx site (next_req_id (v_rpc a)) (slot_of i a))"
    "rpc_lookup (reply_id r) (v_rpc a1) = Some i"
    "x_in_use (vfs_rpc_registry (v_rpc (free_slot i a2)) j) = x_in_use (vfs_rpc_registry (v_rpc a) j)"
proof -
  note al = remote_call_Inr(2) [OF assms(3)]
  note d = rpc_alloc_SomeD [OF al]
  have ok1: "rpc_ok (v_rpc a1)" using rpc_ok_alloc [OF assms(1) al assms(2)] by simp
  have reg: "vfs_rpc_registry (v_rpc a1) =
      (vfs_rpc_registry (v_rpc a))(i := fresh_ctx site (next_req_id (v_rpc a)) (vfs_rpc_registry (v_rpc a) i))"
    using d(4) by simp
  have l: "rpc_lookup (next_req_id (v_rpc a)) (v_rpc a1) = Some i"
    using rpc_lookup_slot [OF ok1 d(1)] reg by simp
  then show "rpc_lookup (reply_id r) (v_rpc a1) = Some i" using assms(4) by simp
  show "slot_of i a2 = reply_upd r (fresh_ctx site (next_req_id (v_rpc a)) (slot_of i a))"
    using l assms(4,5) reg by (simp add: slot_of_def handle_reply_registry)
  show "x_in_use (vfs_rpc_registry (v_rpc (free_slot i a2)) j) = x_in_use (vfs_rpc_registry (v_rpc a) j)"
    using l assms(4,5) reg d(2) by (simp add: free_slot_def rpc_release_def handle_reply_registry)
qed

lemma remote_call_free:
  assumes "v_links a node" "\<exists>j<MAX_VFS_RPC. \<not> x_in_use (vfs_rpc_registry (v_rpc a) j)"
  shows "\<exists>i a1. remote_call site node mk a = (Inr i, a1, [(node, mk (next_req_id (v_rpc a)))])"
proof -
  obtain i r where "rpc_alloc site (v_rpc a) = Some (i, r)" using rpct.alloc_ok assms(2) by blast
  with assms(1) show ?thesis by (simp add: remote_call_def)
qed

text \<open>
  C31. Remote read, end to end: a client with a free slot and a link to another node asks for
  bytes of a descriptor that is open there. The serving node answers with what its kernel
  reads, the answer finds the sleeping caller, and the call returns the count, moves the file
  position by it and has the bytes in the caller's buffer; nothing else of the buffer changes,
  and every request slot is free or taken as before the call.
\<close>

theorem remote_read_roundtrip:
  assumes "rpc_ok (v_rpc a)" and "unat (next_req_id (v_rpc a)) + 1 < 2 ^ 64"
    and "srv \<noteq> v_my_node a" and "v_links a srv" and "v_links b cli"
    and "\<exists>j<MAX_VFS_RPC. \<not> x_in_use (vfs_rpc_registry (v_rpc a) j)"
    and "mfs_get fd b = Some f" and "k_read kb f len pos = (int (length d), d)"
  shows "\<exists>i a1 q. mattx_rpc_vfs_read ka srv fd buf len pos a = (Inr i, a1, [(srv, q)]) \<and>
    (\<exists>r. serve kb (True, True) cli q b = (b, [(cli, r)], []) \<and>
      (let (res, a3) = rw_finish i pos (a1\<lparr>v_rpc := handle_reply r (v_rpc a1)\<rparr>) in
       res = (int (length d), pos + int (length d)) \<and>
       bufs (v_rpc a3) = (bufs (v_rpc a))(buf := d @ drop (length d) (bufs (v_rpc a) buf)) \<and>
       (\<forall>j. x_in_use (vfs_rpc_registry (v_rpc a3) j) = x_in_use (vfs_rpc_registry (v_rpc a) j))))"
proof -
  let ?rid = "next_req_id (v_rpc a)" and ?mk = "\<lambda>r. Q_read r fd len pos"
  let ?r = "R_read ?rid (int (length d)) d"
  obtain i a1 where rc: "remote_call (Site_data buf) srv ?mk a = (Inr i, a1, [(srv, ?mk ?rid)])"
    using remote_call_free [OF assms(4,6)] by blast
  have rd: "mattx_rpc_vfs_read ka srv fd buf len pos a = (Inr i, a1, [(srv, ?mk ?rid)])"
    using rc assms(3) by (simp add: mattx_rpc_vfs_read_def)
  have sv: "serve kb (True, True) cli (?mk ?rid) b = (b, [(cli, ?r)], [])"
    using assms(5,7,8) by (simp add: handle_vfs_read_req_def answer_def)
  note rr = remote_call_reply [OF assms(1,2) rc, of ?r, OF _ refl, simplified]
  have s1: "x_data_buf (vfs_rpc_registry (v_rpc a1) i) = Some buf" "bufs (v_rpc a1) = bufs (v_rpc a)"
    using rpc_alloc_SomeD(4) [OF remote_call_Inr(2) [OF rc]] by (simp_all add: fresh_ctx_def)
  have b: "bufs (handle_reply ?r (v_rpc a1)) = (bufs (v_rpc a))(buf := d @ drop (length d) (bufs (v_rpc a) buf))"
    using rr(2) s1 by (auto simp: handle_vfs_read_reply_def rpc_complete_def fill_data_def memcpy_to_def
        rpc_lookup_fill fun_upd_idem split: option.split)
  have "x_bytes_rw (slot_of i (a1\<lparr>v_rpc := handle_reply ?r (v_rpc a1)\<rparr>)) = int (length d)"
    using rr(1) by (simp add: reply_upd_def)
  then have fin: "rw_finish i pos (a1\<lparr>v_rpc := handle_reply ?r (v_rpc a1)\<rparr>) =
      ((int (length d), pos + int (length d)), free_slot i (a1\<lparr>v_rpc := handle_reply ?r (v_rpc a1)\<rparr>))"
    by (simp add: rw_finish_def Let_def)
  have b3: "bufs (v_rpc (free_slot i (a1\<lparr>v_rpc := handle_reply ?r (v_rpc a1)\<rparr>))) = bufs (handle_reply ?r (v_rpc a1))"
    by (simp add: free_slot_def rpc_release_def)
  show ?thesis
    by (rule exI [of _ i], rule exI [of _ a1], rule exI [of _ "?mk ?rid"], rule conjI [OF rd],
        rule exI [of _ ?r], rule conjI [OF sv]) (simp only: fin b3 b Let_def prod.case, simp add: rr(3))
qed

theorem remote_read_roundtrip_witness:
  "\<exists>i a1 q. mattx_rpc_vfs_read demo_kernel 2 0 5 4 0 (demo_node 1) = (Inr i, a1, [(2, q)])"
proof -
  let ?b = "(demo_node 2)\<lparr>mfs_open_files := [0 \<mapsto> 40]\<rparr>"
  have ok: "rpc_ok (v_rpc (demo_node 1))" by (simp add: demo_node_def rpc_ok_empty)
  have h: "unat (next_req_id (v_rpc (demo_node 1))) + 1 < 2 ^ 64" "(2::int) \<noteq> v_my_node (demo_node 1)" "v_links (demo_node 1) 2" "v_links ?b 1"
    by (simp_all add: demo_node_def empty_rpc_def)
  have free: "\<exists>j<MAX_VFS_RPC. \<not> x_in_use (vfs_rpc_registry (v_rpc (demo_node 1)) j)"
    by (intro exI [of _ 0]) (simp add: demo_node_def empty_rpc_def empty_ctx_def)
  have f: "mfs_get 0 ?b = Some 40" "k_read demo_kernel 40 4 0 = (int (length [7]), [7])"
    by (simp_all add: mfs_get_def demo_kernel_def)
  from remote_read_roundtrip [OF ok h free f, of demo_kernel 5]
  obtain i a1 q where "mattx_rpc_vfs_read demo_kernel 2 0 5 4 0 (demo_node 1) = (Inr i, a1, [(2, q)])"
    by (elim exE conjE)
  then show ?thesis by (intro exI)
qed

text \<open>
  Who gets an answer. A serving node with a link back sends exactly one reply, carrying
  the request's id, to every request that carries one, except a listing whose reply cannot be
  allocated and a read whose descriptor is not open (or whose buffers cannot be allocated):
  these are dropped silently, and their client is not woken by this node.
\<close>

theorem serve_reply_iff:
  assumes "v_links n sndr" and "req_id q = Some rid"
  shows "if (case q of
       Q_readdir _ _ _ \<Rightarrow> fst mem
     | Q_read _ fd _ _ \<Rightarrow> mfs_get fd n \<noteq> None \<and> fst mem \<and> snd mem
     | _ \<Rightarrow> True)
    then \<exists>n' r effs. serve k mem sndr q n = (n', [(sndr, r)], effs) \<and> reply_id r = rid
    else fst (snd (serve k mem sndr q n)) = []"
  using assms
  by (cases q; simp add: handle_vfs_getattr_req_def handle_vfs_readdir_req_def handle_vfs_open_req_def
      handle_vfs_read_req_def handle_vfs_write_req_def handle_vfs_lseek_req_def handle_vfs_fsync_req_def
      handle_sys_unlink_req_def answer_def Let_def split: option.splits prod.splits sum.splits)

theorem serve_reply_iff_witness:
  "fst (snd (serve demo_kernel (True, True) 1 (Q_read 5 3 10 0) (demo_node 2))) = [] \<and>
   (\<exists>n' r effs. serve demo_kernel (True, True) 1 (Q_write 6 3 1 0 [9]) (demo_node 2) = (n', [(1, r)], effs) \<and> reply_id r = 6)"
proof -
  have l: "v_links (demo_node 2) 1" and g: "mfs_get 3 (demo_node 2) = None"
    by (simp_all add: demo_node_def mfs_get_def)
  have "fst (snd (serve demo_kernel (True, True) 1 (Q_read 5 3 10 0) (demo_node 2))) = []"
    using serve_reply_iff [OF l, of "Q_read 5 3 10 0" 5 "(True, True)" demo_kernel] g by simp
  moreover have "\<exists>n' r effs. serve demo_kernel (True, True) 1 (Q_write 6 3 1 0 [9]) (demo_node 2) = (n', [(1, r)], effs) \<and> reply_id r = 6"
    using serve_reply_iff [OF l, of "Q_write 6 3 1 0 [9]" 6 "(True, True)" demo_kernel] by simp
  ultimately show ?thesis by blast
qed

section \<open>Directory listings\<close>

lemma iterate_dir_eq:
  assumes "length acc \<le> 20"
  shows "iterate_dir es pos acc =
    (if length es \<le> 20 - length acc then (if es = [] then pos else snd (last es)) else
       (if length acc = 20 then pos else snd (es ! (19 - length acc))),
     acc @ map (\<lambda>e. (fst e)\<lparr>d_name := take 63 (d_name (fst e))\<rparr>) (take (20 - length acc) es))"
  using assms
proof (induction es arbitrary: pos acc)
  case (Cons en es)
  obtain e nxt where en: "en = (e, nxt)" by fastforce
  show ?case
  proof (cases "length acc = 20")
    case True
    then show ?thesis using en by (simp add: mattx_filldir_def)
  next
    case False
    then obtain m where m: "20 - length acc = Suc m" "m \<le> 19" "length acc = 19 - m"
      using Cons.prems by (intro that [of "19 - length acc"]) auto
    have len: "length (acc @ [e\<lparr>d_name := take 63 (d_name e)\<rparr>]) \<le> 20" using Cons.prems False by simp
    have m': "20 - Suc (length acc) = m" using m by simp
    have "(en # es) ! (19 - length acc) = (if m = 0 then en else es ! (m - 1))"
      using m by (cases m) auto
    then show ?thesis using en False Cons.prems m m' Cons.IH [OF len, of nxt]
      by (cases m) (auto simp: mattx_filldir_def)
  qed
qed simp

lemma iterate_dir_Nil:
  "iterate_dir es pos [] =
    (if length es \<le> 20 then (if es = [] then pos else snd (last es)) else snd (es ! 19),
     map (\<lambda>e. (fst e)\<lparr>d_name := take 63 (d_name (fst e))\<rparr>) (take 20 es))"
  using iterate_dir_eq [of "[]" es pos] by simp

text \<open>
  Listings are complete. For a directory whose kernel position is an index into its list
  of entries, one batch from position \<open>p\<close> returns the next 20 entries in order (all that are
  left if fewer), each with its own offset and its name cut to 63 characters, and the position
  at which the next batch has to start: consecutive batches skip and repeat nothing.
\<close>

theorem readdir_batch:
  assumes "\<forall>p\<le>length L. k_dir k f (int p) = map (\<lambda>i. (L ! i, int i + 1)) [p..<length L]"
    and "k_opendir k path = Inr f" and "v_links n sndr" and "p \<le> length L"
  shows "handle_vfs_readdir_req k True sndr rid (int p) path n =
    [(sndr, R_readdir rid 0 (int (min (p + 20) (length L)))
       (map (\<lambda>e. e\<lparr>d_name := take 63 (d_name e)\<rparr>) (take 20 (drop p L))))]"
proof -
  let ?es = "map (\<lambda>i. (L ! i, int i + 1)) [p..<length L]"
  have pos: "(if length ?es \<le> 20 then (if ?es = [] then int p else snd (last ?es)) else snd (?es ! 19)) =
      int (min (p + 20) (length L))"
    using assms(4) by (auto simp: last_map)
  have "map (\<lambda>i. L ! i) [p..<length L] = drop p L"
    by (metis map_nth drop_map drop_upt add_0)
  then have "take 20 (drop p L) = map (\<lambda>i. L ! i) (take 20 [p..<length L])"
    by (simp only: take_map [symmetric])
  then have "map (\<lambda>e. (fst e)\<lparr>d_name := take 63 (d_name (fst e))\<rparr>) (take 20 ?es) =
      map (\<lambda>e. e\<lparr>d_name := take 63 (d_name e)\<rparr>) (take 20 (drop p L))"
    by (simp add: take_map comp_def)
  then have "iterate_dir ?es (int p) [] = (int (min (p + 20) (length L)),
      map (\<lambda>e. e\<lparr>d_name := take 63 (d_name e)\<rparr>) (take 20 (drop p L)))"
    by (simp only: iterate_dir_Nil pos)
  then show ?thesis using assms by (simp add: handle_vfs_readdir_req_def answer_def)
qed

definition demo_dir :: "mattx_dirent list" where
  "demo_dir = map (\<lambda>i. \<lparr>d_ino = i, d_offset = int i, d_type = 8, d_name = ''f''\<rparr>) [0..<25]"

theorem readdir_batch_witness:
  "handle_vfs_readdir_req (demo_kernel\<lparr>k_dir := (\<lambda>_ p. map (\<lambda>i. (demo_dir ! i, int i + 1)) [nat p..<25])\<rparr>)
     True 1 3 (int 20) ''/x'' (demo_node 2) = [(1, R_readdir 3 0 25 (drop 20 demo_dir))]"
proof -
  let ?k = "demo_kernel\<lparr>k_dir := (\<lambda>_ p. map (\<lambda>i. (demo_dir ! i, int i + 1)) [nat p..<25])\<rparr>"
  have len: "length demo_dir = 25" by (simp add: demo_dir_def)
  have "\<forall>p\<le>length demo_dir. k_dir ?k 9 (int p) = map (\<lambda>i. (demo_dir ! i, int i + 1)) [p..<length demo_dir]"
    by (simp add: len)
  moreover have "k_opendir ?k ''/x'' = Inr 9" "v_links (demo_node 2) 1" "20 \<le> length demo_dir"
    by (simp_all add: len demo_kernel_def demo_node_def)
  moreover have "map (\<lambda>e. e\<lparr>d_name := take 63 (d_name e)\<rparr>) (take 20 (drop 20 demo_dir)) = drop 20 demo_dir"
    by (simp add: demo_dir_def drop_map comp_def)
  ultimately show ?thesis
    using readdir_batch [of demo_dir ?k 9 "''/x''" "demo_node 2" 1 20 3] by (simp add: len)
qed

section \<open>The library fast path\<close>

text \<open>
  A file of another node that the library fast path opens locally cannot be closed or
  read again. The open takes an entry of the local table and returns its index, but the close
  and the read of that index go to the other node, as a request for whatever that node has
  under the same number; the local entry stays.
\<close>

theorem hpc_open_misrouted:
  assumes "hpc_local path n" and "node \<noteq> v_my_node n" and "v_links n node"
    and "mattx_rpc_vfs_open k ids node path flags mode n = (Inl (0, Some fd), n', m, effs)"
  shows "m = [] \<and> (\<exists>f. mfs_get fd n' = Some f \<and> k_open k path flags mode = Inr f) \<and>
    mattx_rpc_vfs_close node fd n' = (n', [(node, Q_close fd)], []) \<and>
    (\<forall>i n2 qs. mattx_rpc_vfs_read k node fd buf len pos n' = (Inr i, n2, qs) \<longrightarrow>
       (\<exists>r. qs = [(node, Q_read r fd len pos)]) \<and> mfs_open_files n2 = mfs_open_files n')"
proof -
  obtain f i where f: "k_open k path flags mode = Inr f" "mfs_alloc f n = Some (i, n')" "fd = int i" "m = []"
    using assms(1,4) by (auto simp: mattx_rpc_vfs_open_def split: sum.splits option.splits)
  have n': "v_my_node n' = v_my_node n" "v_links n' = v_links n"
    using f(2) by (auto simp: mfs_alloc_def split: option.splits)
  have "mattx_rpc_vfs_close node fd n' = (n', [(node, Q_close fd)], [])"
    using assms(2,3) n' by (simp add: mattx_rpc_vfs_close_def)
  moreover have "(\<exists>r. qs = [(node, Q_read r fd len pos)]) \<and> mfs_open_files n2 = mfs_open_files n'"
    if rd: "mattx_rpc_vfs_read k node fd buf len pos n' = (Inr j, n2, qs)" for j n2 qs
  proof -
    have "remote_call (Site_data buf) node (\<lambda>r. Q_read r fd len pos) n' = (Inr j, n2, qs)"
      using rd assms(2) n' by (auto simp: mattx_rpc_vfs_read_def split: sum.splits prod.splits)
    from remote_call_Inr(1,4) [OF this] show ?thesis by (metis vfs_node.select_convs(4) vfs_node.surjective
      vfs_node.update_convs(3))
  qed
  ultimately show ?thesis using f mfs_alloc_files(2) [OF f(2)] by blast
qed

theorem hpc_open_misrouted_witness:
  "\<exists>n'. mattx_rpc_vfs_open (demo_kernel\<lparr>k_open := (\<lambda>_ _ _. Inr 40)\<rparr>) (0, 0) 2 ''/lib/libc.so'' 0 0 (demo_node 1) =
       (Inl (0, Some 0), n', [], []) \<and> mattx_rpc_vfs_close 2 0 n' = (n', [(2, Q_close 0)], [])"
proof -
  let ?k = "demo_kernel\<lparr>k_open := (\<lambda>_ _ _. Inr 40)\<rparr>" and ?n' = "(demo_node 1)\<lparr>mfs_open_files := [0 \<mapsto> 40]\<rparr>"
  have h: "hpc_local ''/lib/libc.so'' (demo_node 1)" "(2::int) \<noteq> v_my_node (demo_node 1)" "v_links (demo_node 1) 2"
    by (simp_all add: hpc_local_def is_hpc_local_lib_def hpc_prefixes_def demo_node_def)
  have "scan (\<lambda>i. mfs_open_files (demo_node 1) (int i) = None) MAX_FDS = Some 0"
    by (auto simp: scan_Some demo_node_def)
  then have al: "mfs_alloc 40 (demo_node 1) = Some (0, ?n')"
    by (simp add: mfs_alloc_def demo_node_def)
  then have o: "mattx_rpc_vfs_open ?k (0, 0) 2 ''/lib/libc.so'' 0 0 (demo_node 1) = (Inl (0, Some 0), ?n', [], [])"
    using h(1) by (simp add: mattx_rpc_vfs_open_def)
  from hpc_open_misrouted [OF h o] o show ?thesis by blast
qed

end
