(* ===== verification/Mx_Fs.thy ===== *)
theory Mx_Fs
  imports Mx_Vfs Mx_Links
begin

text \<open>
  The file system of \<^verbatim>\<open>mattxfs/mattxfs.c\<close>: the mapping of a path below the mount point to
  a node and a path there, the file operations over the remote calls, the directory listings
  with their resume positions, and look-ups.

  A directory entry is the list of its names below the root, the node's name first. The result
  of a remote call is an argument of the operation that makes it. Directory output goes to a
  reader that accepts a number of entries and then refuses (\<^verbatim>\<open>dir_emit\<close>).
\<close>

section \<open>Names and paths\<close>

definition is_digit :: "char \<Rightarrow> bool" where
  "is_digit c \<longleftrightarrow> (48::nat) \<le> of_char c \<and> of_char c \<le> (57::nat)"

definition digit_val :: "char \<Rightarrow> int" where
  "digit_val c = of_char c - 48"

fun digits_val :: "string \<Rightarrow> int \<Rightarrow> int option" where
  "digits_val [] acc = Some acc"
| "digits_val (c # cs) acc =
     (if is_digit c then digits_val cs (10 * acc + digit_val c)
      else if c = CHR 0x0A \<and> cs = [] then Some acc else None)"

text \<open>\<^verbatim>\<open>kstrtoint(s, 10, ...)\<close>: optional sign, at least one digit, an optional newline, in range.\<close>

definition kstrtoint :: "string \<Rightarrow> int option" where
  "kstrtoint s =
     (let (neg, t) = (case s of c # cs \<Rightarrow> if c = CHR ''-'' then (True, cs) else if c = CHR ''+'' then (False, cs) else (False, s)
                      | [] \<Rightarrow> (False, s))
      in if t = [] \<or> \<not> is_digit (hd t) then None
         else (case digits_val t 0 of None \<Rightarrow> None
               | Some v \<Rightarrow> (let w = (if neg then - v else v)
                            in if - (2 ^ 31) \<le> w \<and> w < 2 ^ 31 then Some w else None)))"

definition get_node_id_from_dentry :: "string list \<Rightarrow> int" where
  "get_node_id_from_dentry names = (case kstrtoint (hd names) of Some n \<Rightarrow> n | None \<Rightarrow> - 1)"

text \<open>
  The path is written from the end of the buffer backwards, one name per step, from the leaf
  up to the entry below the node. \<open>p\<close> is the write position; running below the start of the
  buffer is out of bounds, \<open>None\<close>.
\<close>

fun path_loop :: "string list \<Rightarrow> nat \<Rightarrow> string \<Rightarrow> (nat \<times> string) option" where
  "path_loop [] p acc = Some (p, acc)"
| "path_loop (nm # up) p acc =
     (if p < length nm + 1 then None else path_loop up (p - length nm - 1) (CHR ''/'' # nm @ acc))"

definition get_remote_path_from_dentry :: "string list \<Rightarrow> nat \<Rightarrow> string option" where
  "get_remote_path_from_dentry names buflen =
     (case path_loop (rev (tl names)) (buflen - 1) [] of
        None \<Rightarrow> None
      | Some (p, acc) \<Rightarrow> if acc = [] then (if p = 0 then None else Some ''/'') else Some acc)"

text \<open>The operations on entries build the remote path in a 256-byte buffer first.\<close>

definition at_remote :: "string list \<Rightarrow> (int \<Rightarrow> string \<Rightarrow> 'a) \<Rightarrow> 'a option" where
  "at_remote names f =
     (case get_remote_path_from_dentry names 256 of
        None \<Rightarrow> None
      | Some path \<Rightarrow> Some (f (get_node_id_from_dentry names) path))"

section \<open>Files\<close>

record fs_file =
  private_data :: "(int \<times> int) option"
  f_pos :: int

text \<open>\<open>call\<close>: the remote open of a node and path, error and descriptor; \<open>mem\<close>: the file info can
  be allocated. The second component lists the remote closes.\<close>

definition mattxfs_remote_file_open ::
    "(int \<Rightarrow> string \<Rightarrow> int \<times> int) \<Rightarrow> bool \<Rightarrow> string list \<Rightarrow> fs_file \<Rightarrow> (int \<times> (int \<times> int) list \<times> fs_file) option" where
  "mattxfs_remote_file_open call mem names f = at_remote names (\<lambda>node path.
     (case call node path of (err, fd) \<Rightarrow>
        if err = 0 then
          (if mem then (0, [], f\<lparr>private_data := Some (node, fd)\<rparr>) else (- ENOMEM, [(node, fd)], f))
        else (err, [], f)))"

text \<open>\<open>call\<close> is the remote read on the node and descriptor of the file; \<open>ok\<close>: the copy to the
  user succeeds.\<close>

definition mattxfs_remote_file_read ::
    "bool \<Rightarrow> bool \<Rightarrow> (int \<Rightarrow> int \<Rightarrow> nat \<Rightarrow> int \<Rightarrow> int \<times> int \<times> byte list) \<Rightarrow> nat \<Rightarrow> int \<Rightarrow> fs_file \<Rightarrow> int \<times> int \<times> byte list" where
  "mattxfs_remote_file_read mem ok call len pos f =
     (case private_data f of None \<Rightarrow> (- EIO, pos, [])
      | Some (node, fd) \<Rightarrow>
         if \<not> mem then (- ENOMEM, pos, [])
         else (case call node fd len pos of (n, pos', d) \<Rightarrow>
           if 0 < n then (if ok then (n, pos', take (nat n) d) else (- EFAULT, pos', [])) else (n, pos', [])))"

definition mattxfs_remote_file_write ::
    "bool \<Rightarrow> byte list option \<Rightarrow> (int \<Rightarrow> int \<Rightarrow> byte list \<Rightarrow> int \<Rightarrow> int \<times> int) \<Rightarrow> int \<Rightarrow> fs_file \<Rightarrow> int \<times> int" where
  "mattxfs_remote_file_write mem user call pos f =
     (case private_data f of None \<Rightarrow> (- EIO, pos)
      | Some (node, fd) \<Rightarrow>
         if \<not> mem then (- ENOMEM, pos)
         else (case user of None \<Rightarrow> (- EFAULT, pos) | Some d \<Rightarrow> call node fd d pos))"

definition mattxfs_remote_file_llseek :: "(int \<Rightarrow> int \<Rightarrow> int \<Rightarrow> int \<Rightarrow> int) \<Rightarrow> int \<Rightarrow> int \<Rightarrow> fs_file \<Rightarrow> int \<times> fs_file" where
  "mattxfs_remote_file_llseek call off whence f =
     (case private_data f of None \<Rightarrow> (- EIO, f)
      | Some (node, fd) \<Rightarrow>
         (let r = call node fd off whence in (r, if 0 \<le> r then f\<lparr>f_pos := r\<rparr> else f)))"

definition mattxfs_remote_file_fsync :: "(int \<Rightarrow> int \<Rightarrow> int \<Rightarrow> int \<Rightarrow> int \<Rightarrow> int) \<Rightarrow> int \<Rightarrow> int \<Rightarrow> int \<Rightarrow> fs_file \<Rightarrow> int" where
  "mattxfs_remote_file_fsync call a b ds f =
     (case private_data f of None \<Rightarrow> - EIO | Some (node, fd) \<Rightarrow> call node fd a b ds)"

definition mattxfs_remote_file_release :: "fs_file \<Rightarrow> (int \<times> int) list" where
  "mattxfs_remote_file_release f = (case private_data f of None \<Rightarrow> [] | Some nf \<Rightarrow> [nf])"

section \<open>Listings\<close>

text \<open>Emit until the reader refuses; \<open>k\<close> is how many entries it still takes.\<close>

fun emit_loop :: "mattx_dirent list \<Rightarrow> int \<Rightarrow> nat \<Rightarrow> int \<Rightarrow> int \<times> mattx_dirent list" where
  "emit_loop [] off k pos = (off, [])"
| "emit_loop (e # es) off k pos =
     (if k = 0 then (d_offset e, [])
      else (case emit_loop es off (k - 1) (d_offset e) of (p, out) \<Rightarrow> (p, e # out)))"

text \<open>\<open>readdir\<close>: the remote listing of a node and path from an offset: error, next offset, entries.\<close>

definition mattxfs_remote_iterate ::
    "bool \<Rightarrow> (int \<Rightarrow> string \<Rightarrow> int \<Rightarrow> int \<times> int \<times> mattx_dirent list) \<Rightarrow> string list \<Rightarrow> nat \<Rightarrow> int \<Rightarrow>
     (int \<times> int \<times> mattx_dirent list) option" where
  "mattxfs_remote_iterate mem readdir names k pos = at_remote names (\<lambda>node path.
     if \<not> mem then (- ENOMEM, pos, [])
     else (case readdir node path pos of (err, off, es) \<Rightarrow>
        if err \<noteq> 0 then (err, pos, [])
        else (case emit_loop es off k pos of (p, out) \<Rightarrow> (0, p, out))))"

datatype root_entry = Dot | Dotdot | Node_dir u32

fun root_loop :: "u32 list \<Rightarrow> nat \<Rightarrow> nat \<Rightarrow> nat \<Rightarrow> nat \<times> root_entry list" where
  "root_loop [] i k pos = (pos, [])"
| "root_loop (n # ns) i k pos =
     (if pos \<le> i + 2 then
        (if k = 0 then (pos, [])
         else (case root_loop ns (i + 1) (k - 1) (pos + 1) of (p, out) \<Rightarrow> (p, Node_dir n # out)))
      else root_loop ns (i + 1) k pos)"

definition emit_dots :: "nat \<Rightarrow> nat \<Rightarrow> bool \<times> nat \<times> nat \<times> root_entry list" where
  "emit_dots k pos =
     (let (k1, p1, o1, ok1) = (if pos = 0 then (if k = 0 then (k, pos, [], False) else (k - 1, 1, [Dot], True)) else (k, pos, [], True))
      in if \<not> ok1 then (False, k1, p1, o1)
         else if p1 = 1 then (if k1 = 0 then (False, k1, p1, o1) else (True, k1 - 1, 2, o1 @ [Dotdot]))
         else (True, k1, p1, o1))"

definition mattxfs_root_iterate :: "membership \<Rightarrow> nat \<Rightarrow> nat \<Rightarrow> nat \<times> root_entry list" where
  "mattxfs_root_iterate m k pos =
     (case emit_dots k pos of
        (False, k1, p1, o1) \<Rightarrow> (p1, o1)
      | (True, k1, p1, o1) \<Rightarrow> (case root_loop (mattx_get_active_nodes m 64) 0 k1 p1 of (p2, o2) \<Rightarrow> (p2, o1 @ o2)))"

section \<open>Look-ups\<close>

record fs_inode =
  i_ino :: nat
  i_mode :: nat
  i_size :: nat
  i_blocks :: nat
  i_uid :: nat
  i_gid :: nat
  i_dir :: bool
  i_nlink :: nat

definition S_ISDIR :: "nat \<Rightarrow> bool" where
  "S_ISDIR mode \<longleftrightarrow> (mode div 4096) mod 16 = 4"

datatype lookup_result = Negative | Positive fs_inode | Lookup_error int | Unhashed

text \<open>\<open>ino\<close>: the inode number left in the caller's structure (the reply does not carry one).\<close>

definition mattxfs_remote_lookup ::
    "(int \<Rightarrow> string \<Rightarrow> int \<times> kstat) \<Rightarrow> bool \<Rightarrow> nat \<Rightarrow> string list \<Rightarrow> lookup_result option" where
  "mattxfs_remote_lookup getattr mem ino names = at_remote names (\<lambda>node path.
     (case getattr node path of (err, st) \<Rightarrow>
        if err \<noteq> 0 then Negative
        else if \<not> mem then Lookup_error (- ENOMEM)
        else Positive \<lparr>i_ino = ino, i_mode = st_mode st, i_size = st_size st, i_blocks = st_blocks st,
              i_uid = st_uid st, i_gid = st_gid st, i_dir = S_ISDIR (st_mode st),
              i_nlink = (if S_ISDIR (st_mode st) then 2 else 1)\<rparr>))"

definition mattxfs_remote_unlink :: "(int \<Rightarrow> string \<Rightarrow> int) \<Rightarrow> string list \<Rightarrow> int option" where
  "mattxfs_remote_unlink unlink names = at_remote names unlink"

definition mattxfs_remote_create :: "bool \<Rightarrow> nat \<Rightarrow> nat \<Rightarrow> nat \<times> nat \<Rightarrow> int \<times> fs_inode option" where
  "mattxfs_remote_create mem ino mode ids =
     (if \<not> mem then (- ENOMEM, None)
      else (0, Some \<lparr>i_ino = ino, i_mode = mode + 32768, i_size = 0, i_blocks = 0, i_uid = fst ids, i_gid = snd ids,
        i_dir = False, i_nlink = 1\<rparr>))"

definition mattxfs_root_lookup :: "bool \<Rightarrow> membership \<Rightarrow> string \<Rightarrow> lookup_result" where
  "mattxfs_root_lookup mem m name =
     (case kstrtoint name of None \<Rightarrow> Unhashed
      | Some t \<Rightarrow>
         if \<not> (\<exists>n\<in>set (mattx_get_active_nodes m 64). sint n = t) then Negative
         else if \<not> mem then Lookup_error (- ENOMEM)
         else Positive \<lparr>i_ino = nat (t + 1000), i_mode = 16877, i_size = 0, i_blocks = 0, i_uid = 0, i_gid = 0,
           i_dir = True, i_nlink = 2\<rparr>)"

section \<open>Paths name what they should\<close>

definition render :: "string list \<Rightarrow> string" where
  "render names = concat (map (\<lambda>nm. CHR ''/'' # nm) names)"

lemma length_render: "length (render ns) = (\<Sum>nm\<leftarrow>ns. length nm + 1)"
  by (induction ns) (simp_all add: render_def)

lemma path_loop_eq:
  "path_loop up p acc = (if length (render up) \<le> p then Some (p - length (render up), render (rev up) @ acc) else None)"
proof (induction up p acc rule: path_loop.induct)
  case (2 nm up p acc)
  have r: "render (nm # up) = CHR ''/'' # nm @ render up" "render (rev up @ [nm]) = render (rev up) @ CHR ''/'' # nm"
    by (simp_all add: render_def)
  show ?case
  proof (cases "p < length nm + 1")
    case True
    then show ?thesis by (simp add: r)
  next
    case False
    with 2 show ?thesis using r by auto
  qed
qed (simp add: render_def)

lemma length_render_rev [simp]: "length (render (rev ns)) = length (render ns)"
  by (simp add: length_render sum_list_rev flip: rev_map)

text \<open>Reading a path back, name by name.\<close>

fun unrender :: "string \<Rightarrow> string list" where
  "unrender [] = []"
| "unrender (c # cs) = (if c = CHR ''/'' then takeWhile (\<lambda>d. d \<noteq> CHR ''/'') cs # unrender cs else unrender cs)"

lemma unrender_skip: "CHR ''/'' \<notin> set nm \<Longrightarrow> unrender (nm @ cs) = unrender cs"
  by (induction nm) auto

lemma unrender_render: "\<forall>nm\<in>set ns. CHR ''/'' \<notin> set nm \<Longrightarrow> unrender (render ns) = ns"
proof (induction ns)
  case (Cons nm ns)
  have "takeWhile (\<lambda>d. d \<noteq> CHR ''/'') (nm @ render ns) = nm"
    using Cons.prems by (cases ns) (auto simp: takeWhile_append render_def takeWhile_eq_all_conv)
  then show ?case using Cons by (simp add: render_def unrender_skip)
qed (simp add: render_def)

text \<open>
  C33. Path translation. For an entry below the mount point the remote path is built without
  leaving the buffer exactly when its names with their separators fit in \<open>buflen - 1\<close>
  characters. It is then the names below the node, each after a slash (a lone slash for the
  node itself), and reading it back gives these names: no two entries of a node share a path.
\<close>

theorem remote_path_roundtrip:
  assumes "2 \<le> buflen" and "\<forall>nm\<in>set (tl names). CHR ''/'' \<notin> set nm"
  shows "(get_remote_path_from_dentry names buflen \<noteq> None \<longleftrightarrow> (\<Sum>nm\<leftarrow>tl names. length nm + 1) \<le> buflen - 1) \<and>
    (\<forall>p. get_remote_path_from_dentry names buflen = Some p \<longrightarrow>
      (if tl names = [] then p = ''/'' else unrender p = tl names))"
proof (cases "tl names = []")
  case True
  then show ?thesis using assms(1) by (simp add: get_remote_path_from_dentry_def)
next
  case False
  then have ne: "render (tl names) \<noteq> []" by (cases "tl names") (simp_all add: render_def)
  then have "get_remote_path_from_dentry names buflen =
      (if (\<Sum>nm\<leftarrow>tl names. length nm + 1) \<le> buflen - 1 then Some (render (tl names)) else None)"
    by (simp add: get_remote_path_from_dentry_def path_loop_eq) (simp add: length_render)
  then show ?thesis using False unrender_render [OF assms(2)] by simp
qed

theorem remote_path_roundtrip_witness:
  "get_remote_path_from_dentry [''5'', ''etc'', ''hosts''] 256 = Some ''/etc/hosts'' \<and>
   unrender ''/etc/hosts'' = [''etc'', ''hosts'']"
proof -
  have e: "get_remote_path_from_dentry [''5'', ''etc'', ''hosts''] 256 = Some ''/etc/hosts''"
    by (simp add: get_remote_path_from_dentry_def)
  have "(2::nat) \<le> 256" "\<forall>nm\<in>set (tl [''5'', ''etc'', ''hosts'']). CHR ''/'' \<notin> set nm" by simp_all
  from remote_path_roundtrip [OF this] e show ?thesis by simp
qed

section \<open>Listings resume where they stopped\<close>

lemma root_loop_eq:
  "root_loop ns i k pos = (if pos \<le> i + 2 then (pos + min k (length ns), map Node_dir (take k ns))
     else (if pos - (i + 2) < length ns then pos + min k (length ns - (pos - (i + 2))) else pos,
           map Node_dir (take k (drop (pos - (i + 2)) ns))))"
proof (induction ns i k pos rule: root_loop.induct)
  case (2 n ns i k pos)
  show ?case
  proof (cases "pos \<le> i + 2")
    case True
    then show ?thesis using 2(1) by (cases k) auto
  next
    case False
    then obtain d where d: "pos - (i + 2) = Suc d" by (cases "pos - (i + 2)") auto
    then have d': "pos - (i + 1 + 2) = d" by simp
    show ?thesis
    proof (cases "pos \<le> i + 1 + 2")
      case True
      with d have "d = 0" by simp
      with True False d 2(2) show ?thesis by simp
    next
      case F: False
      with False d d' 2(2) show ?thesis by simp
    qed
  qed
qed auto

definition root_all :: "u32 list \<Rightarrow> root_entry list" where
  "root_all nodes = Dot # Dotdot # map Node_dir nodes"

text \<open>
  Listing the root is complete and repeats nothing: a call at position \<open>pos\<close> with a reader
  that takes \<open>k\<close> more entries emits exactly the next \<open>k\<close> entries of the listing (the dots, then
  the active nodes in order), and leaves the position right behind them. Hence consecutive
  calls, whatever the sizes of the reader's buffers, produce the listing exactly once.
\<close>

theorem root_iterate_resumes:
  assumes "nodes = mattx_get_active_nodes m 64" and "pos \<le> length (root_all nodes)"
  shows "mattxfs_root_iterate m k pos =
    (pos + min k (length (root_all nodes) - pos), take k (drop pos (root_all nodes)))"
proof -
  note nodes = assms(1) [symmetric]
  consider "pos = 0" | "pos = 1" | d where "pos = d + 2" "d \<le> length nodes"
    using assms(2) by (cases pos; cases "pos - 1") (auto simp: root_all_def)
  then show ?thesis
  proof cases
    case 1
    then show ?thesis
      by (cases k; cases "k - 1") (auto simp: mattxfs_root_iterate_def nodes emit_dots_def root_loop_eq root_all_def take_map)
  next
    case 2
    then show ?thesis
      by (cases k) (auto simp: mattxfs_root_iterate_def nodes emit_dots_def root_loop_eq root_all_def take_map)
  next
    case 3
    then have e: "emit_dots k pos = (True, k, pos, [])" by (simp add: emit_dots_def)
    have dr: "drop pos (root_all nodes) = map Node_dir (drop d nodes)" using 3 by (simp add: root_all_def drop_map)
    show ?thesis
    proof (cases "d = 0")
      case True
      then show ?thesis using 3 e dr by (simp add: mattxfs_root_iterate_def nodes root_loop_eq take_map) (simp add: root_all_def)
    next
      case False
      then show ?thesis using 3 e dr
        by (auto simp: mattxfs_root_iterate_def nodes root_loop_eq take_map root_all_def)
    qed
  qed
qed

lemma active_from_none: "active_from Map.empty mx i acc = acc"
proof (induction "MAX_NODES - i" arbitrary: i)
  case 0
  then show ?case by (subst active_from.simps) simp
next
  case (Suc k)
  then have "active_from Map.empty mx (Suc i) acc = acc" by simp
  then show ?case by (subst active_from.simps) simp
qed

definition lone_node :: membership where
  "lone_node = \<lparr>cluster_map = Map.empty, cluster_load_table = (\<lambda>_. \<lparr>cpu_load = 0, mem_free_mb = 0, affinity = 0, accept_guests = 0\<rparr>),
     my_node_id = 4\<rparr>"

theorem root_iterate_resumes_witness:
  "mattxfs_root_iterate lone_node 1 2 = (3, [Node_dir 4])"
proof -
  have n: "[4] = mattx_get_active_nodes lone_node 64"
    by (simp add: mattx_get_active_nodes_def lone_node_def active_from_none)
  have "2 \<le> length (root_all [4])" by (simp add: root_all_def)
  from root_iterate_resumes [OF n this] show ?thesis by (simp add: root_all_def)
qed

lemma emit_loop_eq:
  assumes "\<And>i. i < length es \<Longrightarrow> d_offset (es ! i) = p + int i" "off = p + int (length es)"
  shows "emit_loop es off k pos = (p + int (min k (length es)), take k es)"
  using assms
proof (induction es arbitrary: p k pos)
  case (Cons e es)
  have e: "d_offset e = p" using Cons.prems(1) [of 0] by simp
  have "emit_loop es off (k - 1) (d_offset e) = (p + 1 + int (min (k - 1) (length es)), take (k - 1) es)" if "k \<noteq> 0"
    using Cons.prems(1) [of "Suc _"] Cons.prems(2) by (intro Cons.IH) auto
  then show ?case using e by (cases k) auto
qed simp

text \<open>
  Listing a remote directory resumes correctly too. Take an entry below node \<open>n\<close> whose
  remote path fits the buffer. When the node's positions in that directory are indices into its
  entry list (as in the batch property) and each entry carries its own position, a call at
  position \<open>p\<close> with a reader that takes \<open>k\<close> entries emits the next \<open>min k 20\<close> entries in order and
  leaves the position right behind the last one it emitted, also when the reader refuses in the
  middle of a batch.
\<close>

theorem remote_iterate_resumes:
  assumes "get_remote_path_from_dentry names 256 = Some path" and "get_node_id_from_dentry names = n"
    and "\<forall>i<length L. d_offset (L ! i) = int i" and "p \<le> length L"
    and "readdir n path (int p) = (0, int (min (p + 20) (length L)), take 20 (drop p L))"
  shows "mattxfs_remote_iterate True readdir names k (int p) =
    Some (0, int p + int (length (take (min k 20) (drop p L))), take (min k 20) (drop p L))"
proof -
  let ?es = "take 20 (drop p L)"
  have "emit_loop ?es (int (min (p + 20) (length L))) k (int p) = (int p + int (min k (length ?es)), take k ?es)"
    using assms(3,4) by (intro emit_loop_eq) auto
  then show ?thesis using assms(1,2,5)
    by (simp add: mattxfs_remote_iterate_def at_remote_def min.commute min.left_commute)
qed

theorem remote_iterate_resumes_witness:
  "mattxfs_remote_iterate True (\<lambda>n path pos. (0, int (min (20 + 20) (length demo_dir)), take 20 (drop 20 demo_dir)))
     [''5'', ''etc''] 3 (int 20) =
     Some (0, int 20 + int (length (take (min 3 20) (drop 20 demo_dir))), take (min 3 20) (drop 20 demo_dir))"
proof (rule remote_iterate_resumes)
  show "get_remote_path_from_dentry [''5'', ''etc''] 256 = Some ''/etc''" by (simp add: get_remote_path_from_dentry_def)
qed (rule refl, simp_all add: demo_dir_def)

end
