(* ===== verification/Mx_Mount.thy ===== *)
theory Mx_Mount
  imports Mx_Fs
begin

text \<open>
  Mounting the file system (\<^verbatim>\<open>mattxfs/mattxfs.c\<close>): the tables of operations, the super block and its
  root, registration with the kernel, and how the kernel finds its way from the root to an entry by
  calling what the tables name. Inode numbers that the kernel supplies are arguments.
\<close>

section \<open>Tables of operations\<close>

type_synonym ops = "(string \<times> string) list"

definition mattxfs_remote_file_fops :: ops where
  "mattxfs_remote_file_fops =
    [(''open'', ''mattxfs_remote_file_open''), (''read'', ''mattxfs_remote_file_read''), (''write'', ''mattxfs_remote_file_write''),
     (''release'', ''mattxfs_remote_file_release''), (''llseek'', ''mattxfs_remote_file_llseek''), (''fsync'', ''mattxfs_remote_file_fsync'')]"

definition mattxfs_remote_dir_fops :: ops where
  "mattxfs_remote_dir_fops =
    [(''read'', ''generic_read_dir''), (''iterate_shared'', ''mattxfs_remote_iterate''), (''llseek'', ''generic_file_llseek'')]"

definition mattxfs_remote_iops :: ops where
  "mattxfs_remote_iops =
    [(''lookup'', ''mattxfs_remote_lookup''), (''create'', ''mattxfs_remote_create''), (''unlink'', ''mattxfs_remote_unlink'')]"

definition mattxfs_root_fops :: ops where
  "mattxfs_root_fops =
    [(''read'', ''generic_read_dir''), (''iterate_shared'', ''mattxfs_root_iterate''), (''llseek'', ''generic_file_llseek'')]"

definition mattxfs_root_iops :: ops where
  "mattxfs_root_iops = [(''lookup'', ''mattxfs_root_lookup'')]"

definition mattxfs_s_ops :: ops where
  "mattxfs_s_ops = [(''statfs'', ''simple_statfs''), (''drop_inode'', ''mattxfs_drop_inode'')]"

section \<open>The super block\<close>

record super_block =
  s_maxbytes :: nat
  s_blocksize :: nat
  s_blocksize_bits :: nat
  s_magic :: nat
  s_op :: ops
  s_time_gran :: nat
  s_root :: "(fs_inode \<times> ops \<times> ops) option"   \<comment> \<open>inode and its tables\<close>

definition mattxfs_drop_inode :: int where
  "mattxfs_drop_inode = 1"

definition root_inode :: fs_inode where
  "root_inode = \<lparr>i_ino = 1, i_mode = 16877, i_size = 0, i_blocks = 0, i_uid = 0, i_gid = 0, i_dir = True, i_nlink = 2\<rparr>"

text \<open>\<open>mem\<close>: an inode can be had; \<open>root_ok\<close>: \<^verbatim>\<open>d_make_root\<close> succeeds (it releases the inode when it does not).\<close>

definition mattxfs_fill_super :: "bool \<Rightarrow> bool \<Rightarrow> super_block \<Rightarrow> int \<times> super_block" where
  "mattxfs_fill_super mem root_ok sb =
     (let sb = sb\<lparr>s_maxbytes := 2 ^ 63 - 1, s_blocksize := 4096, s_blocksize_bits := 12, s_magic := 0x4D415454, s_op := mattxfs_s_ops, s_time_gran := 1\<rparr> in
      if \<not> mem then (- ENOMEM, sb)
      else let sb = sb\<lparr>s_root := (if root_ok then Some (root_inode, mattxfs_root_iops, mattxfs_root_fops) else None)\<rparr> in
        if \<not> root_ok then (- ENOMEM, sb) else (0, sb))"

definition empty_super :: super_block where
  "empty_super = \<lparr>s_maxbytes = 0, s_blocksize = 0, s_blocksize_bits = 0, s_magic = 0, s_op = [], s_time_gran = 0, s_root = None\<rparr>"

text \<open>
  The file system type: how it is mounted in newer and older kernels, and how a mount ends. Loading
  registers it; \<open>types\<close> are the registered ones.
\<close>

definition mattxfs_type :: "bool \<Rightarrow> ops" where
  "mattxfs_type modern =
     (''name'', ''mattxfs'') # (if modern then (''init_fs_context'', ''mattxfs_init_fs_context'') else (''mount'', ''mattxfs_mount'')) #
     [(''kill_sb'', ''kill_anon_super'')]"

definition mattxfs_init :: "int \<Rightarrow> string set \<Rightarrow> int \<times> string set" where
  "mattxfs_init ret types = (ret, if ret = 0 then insert ''mattxfs'' types else types)"

definition mattxfs_exit :: "string set \<Rightarrow> string set" where
  "mattxfs_exit types = types - {''mattxfs''}"

section \<open>Walking a path\<close>

text \<open>
  One step of the kernel's walk: it calls the look-up that the directory's table names. An inode
  gets its tables when it is looked up, from its mode.
\<close>

record fs_env =
  ev_members :: membership
  ev_getattr :: "int \<Rightarrow> string \<Rightarrow> int \<times> kstat"
  ev_mem :: bool
  ev_ino :: nat

definition tables_of :: "fs_inode \<Rightarrow> ops \<times> ops" where
  "tables_of i = (if i_dir i then (mattxfs_remote_iops, mattxfs_remote_dir_fops) else ([], mattxfs_remote_file_fops))"

definition call_lookup :: "fs_env \<Rightarrow> ops \<Rightarrow> string list \<Rightarrow> string \<Rightarrow> lookup_result option" where
  "call_lookup v io up nm =
     (case map_of io ''lookup'' of
        Some f \<Rightarrow>
          if f = ''mattxfs_root_lookup'' then Some (mattxfs_root_lookup (ev_mem v) (ev_members v) nm)
          else if f = ''mattxfs_remote_lookup'' then mattxfs_remote_lookup (ev_getattr v) (ev_mem v) (ev_ino v) (up @ [nm])
          else None
      | None \<Rightarrow> None)"

fun resolve :: "fs_env \<Rightarrow> ops \<times> ops \<Rightarrow> string list \<Rightarrow> string list \<Rightarrow> (ops \<times> ops) option" where
  "resolve v t up [] = Some t"
| "resolve v t up (nm # rest) =
     (case call_lookup v (fst t) up nm of
        Some (Positive i) \<Rightarrow> resolve v (tables_of i) (up @ [nm]) rest
      | _ \<Rightarrow> None)"

text \<open>Opening an entry of a mounted file system; only files have an operation for it.\<close>

definition open_path ::
    "fs_env \<Rightarrow> (int \<Rightarrow> string \<Rightarrow> int \<times> int) \<Rightarrow> super_block \<Rightarrow> string list \<Rightarrow> fs_file \<Rightarrow> (int \<times> (int \<times> int) list \<times> fs_file) option" where
  "open_path v call sb names f =
     (case s_root sb of None \<Rightarrow> None
      | Some (_, t) \<Rightarrow>
         (case resolve v t [] names of
            Some (_, fo) \<Rightarrow> (if map_of fo ''open'' = Some ''mattxfs_remote_file_open''
              then mattxfs_remote_file_open call (ev_mem v) names f else None)
          | None \<Rightarrow> None))"

text \<open>The names below a node lead to a file there: directories on the way, and a file at the end.\<close>

fun leads_to_file :: "(string \<Rightarrow> int \<times> kstat) \<Rightarrow> string list \<Rightarrow> string list \<Rightarrow> bool" where
  "leads_to_file attr up [] = False"
| "leads_to_file attr up (nm # rest) =
     (case attr (render (up @ [nm])) of (err, st) \<Rightarrow>
        err = 0 \<and> (if rest = [] then \<not> S_ISDIR (st_mode st) else S_ISDIR (st_mode st) \<and> leads_to_file attr (up @ [nm]) rest))"

lemma remote_path_render:
  assumes "names \<noteq> []" "length (render names) \<le> 255"
  shows "get_remote_path_from_dentry (root # names) 256 = Some (render names)"
proof -
  have "render names \<noteq> []" using assms(1) by (cases names) (simp_all add: render_def)
  then show ?thesis using assms(2) by (simp add: get_remote_path_from_dentry_def path_loop_eq)
qed

lemma render_append [simp]: "render (a @ b) = render a @ render b"
  by (simp add: render_def)

lemma resolve_remote:
  assumes "leads_to_file (ev_getattr v n) up rest" "kstrtoint root = Some n" "length (render (up @ rest)) \<le> 255" "ev_mem v"
  shows "resolve v (mattxfs_remote_iops, mattxfs_remote_dir_fops) (root # up) rest = Some ([], mattxfs_remote_file_fops)"
  using assms(1,3)
proof (induction rest arbitrary: up)
  case (Cons nm rest)
  obtain err st where a: "ev_getattr v n (render (up @ [nm])) = (err, st)" by fastforce
  have p: "get_remote_path_from_dentry (root # up @ [nm]) 256 = Some (render (up @ [nm]))"
    using Cons.prems(2) by (intro remote_path_render) (simp_all add: render_def)
  have nd: "get_node_id_from_dentry (root # up @ [nm]) = n" using assms(2) by (simp add: get_node_id_from_dentry_def)
  have e: "err = 0" using Cons.prems(1) a by simp
  have l: "call_lookup v mattxfs_remote_iops (root # up) nm =
      Some (Positive \<lparr>i_ino = ev_ino v, i_mode = st_mode st, i_size = st_size st, i_blocks = st_blocks st,
        i_uid = st_uid st, i_gid = st_gid st, i_dir = S_ISDIR (st_mode st), i_nlink = (if S_ISDIR (st_mode st) then 2 else 1)\<rparr>)"
    using p nd a e assms(4) by (simp add: call_lookup_def mattxfs_remote_iops_def mattxfs_remote_lookup_def at_remote_def)
  show ?case
  proof (cases "rest = []")
    case True
    then show ?thesis using l Cons.prems(1) a by (simp add: tables_of_def)
  next
    case False
    then have "S_ISDIR (st_mode st)" "leads_to_file (ev_getattr v n) (up @ [nm]) rest" using Cons.prems(1) a by simp_all
    moreover have "length (render ((up @ [nm]) @ rest)) \<le> 255" using Cons.prems(2) by simp
    ultimately show ?thesis using l Cons.IH [of "up @ [nm]"] by (simp add: tables_of_def)
  qed
qed simp

text \<open>
  C23. Opening a path below the mount point. After a mount that succeeded, let the first name be the
  number of an active node and the names below it lead there, over directories, to a file, with a
  path of at most 255 characters. Then opening the path is one remote open on that node of exactly
  these names, each after a slash.
\<close>

theorem mounted_path_opens:
  assumes "mattxfs_fill_super mem root_ok empty_super = (0, sb)"
    and "kstrtoint root = Some (sint n)" "n \<in> set (mattx_get_active_nodes (ev_members v) 64)" and "ev_mem v"
    and "leads_to_file (ev_getattr v (sint n)) [] names" "length (render names) \<le> 255"
  shows "open_path v call sb (root # names) f =
    (case call (sint n) (render names) of (err, fd) \<Rightarrow>
       if err = 0 then Some (0, [], f\<lparr>private_data := Some (sint n, fd)\<rparr>) else Some (err, [], f))"
proof -
  have sb: "s_root sb = Some (root_inode, mattxfs_root_iops, mattxfs_root_fops)"
    using assms(1) by (auto simp: mattxfs_fill_super_def Let_def split: if_splits)
  have "\<exists>n'\<in>set (mattx_get_active_nodes (ev_members v) 64). sint n' = sint n" using assms(3) by blast
  then have "\<exists>i. mattxfs_root_lookup (ev_mem v) (ev_members v) root = Positive i \<and> i_dir i"
    using assms(2,4) by (simp add: mattxfs_root_lookup_def)
  then obtain i where i: "mattxfs_root_lookup (ev_mem v) (ev_members v) root = Positive i" "i_dir i" by blast
  have ne: "names \<noteq> []" using assms(5) by auto
  have "resolve v (mattxfs_root_iops, mattxfs_root_fops) [] (root # names) = Some ([], mattxfs_remote_file_fops)"
    using resolve_remote [OF assms(5,2) _ assms(4)] assms(6) i
    by (simp add: call_lookup_def mattxfs_root_iops_def tables_of_def)
  then show ?thesis
    using sb assms(2,4) remote_path_render [OF ne assms(6)]
    by (simp add: open_path_def mattxfs_remote_file_fops_def mattxfs_remote_file_open_def at_remote_def get_node_id_from_dentry_def
        split: prod.split)
qed

definition demo_attr :: "int \<Rightarrow> string \<Rightarrow> int \<times> kstat" where
  "demo_attr n p = (0, \<lparr>st_mode = (if p = ''/etc'' then 16877 else 33188), st_size = 0, st_blocks = 0, st_blksize = 0, st_uid = 0, st_gid = 0, st_nlink = 1\<rparr>)"

definition demo_env :: fs_env where
  "demo_env = \<lparr>ev_members = lone_node, ev_getattr = demo_attr, ev_mem = True, ev_ino = 7\<rparr>"

theorem mounted_path_opens_witness:
  "open_path demo_env (\<lambda>n p. (0, 100)) (snd (mattxfs_fill_super True True empty_super)) [''4'', ''etc'', ''hosts'']
     \<lparr>private_data = None, f_pos = 0\<rparr> = Some (0, [], \<lparr>private_data = Some (4, 100), f_pos = 0\<rparr>)"
proof -
  have fs: "mattxfs_fill_super True True empty_super = (0, snd (mattxfs_fill_super True True empty_super))"
    by (simp add: mattxfs_fill_super_def Let_def)
  have n: "(4::u32) \<in> set (mattx_get_active_nodes (ev_members demo_env) 64)"
    by (simp add: mattx_get_active_nodes_def lone_node_def active_from_none demo_env_def)
  have k: "kstrtoint ''4'' = Some (sint (4::u32))" by (simp add: kstrtoint_def is_digit_def digit_val_def)
  have l: "leads_to_file (ev_getattr demo_env (sint (4::u32))) [] [''etc'', ''hosts'']"
    by (simp add: demo_env_def demo_attr_def render_def S_ISDIR_def)
  have "ev_mem demo_env" "length (render [''etc'', ''hosts'']) \<le> 255" by (simp_all add: demo_env_def render_def)
  from mounted_path_opens [OF fs k n this(1) l this(2)] show ?thesis by simp
qed

end
