(* ===== verification/Mx_Call.thy ===== *)
theory Mx_Call
  imports Mx_Msg Mx_Guest
begin

text \<open>
  The messages of system-call forwarding (\<^verbatim>\<open>mattx.h\<close>, the \<^verbatim>\<open>mattx_sys_*\<close>
  structures): what a guest's node asks of the home node, and what it gets back. Several reply
  structures have the same layout and several message types share one reply handler, so replies
  of one layout are one constructor that carries its message type. Fields stand in the order of
  the C structure; \<open>op\<close> is \<^verbatim>\<open>orig_pid\<close>.
\<close>

type_synonym filep = nat
type_synonym sockaddr = "byte list"

abbreviation (input) EINTR :: int where "EINTR \<equiv> 4"
abbreviation (input) EAGAIN :: int where "EAGAIN \<equiv> 11"
abbreviation (input) EMFILE :: int where "EMFILE \<equiv> 24"
abbreviation (input) ENOSYS :: int where "ENOSYS \<equiv> 38"
abbreviation (input) ENOTSOCK :: int where "ENOTSOCK \<equiv> 88"
abbreviation (input) EINPROGRESS :: int where "EINPROGRESS \<equiv> 115"

abbreviation (input) SOCKADDR_SIZE :: nat where "SOCKADDR_SIZE \<equiv> 128"

record mattx_pollfd =
  p_fd :: u32
  p_events :: "16 word"
  p_revents :: "16 word"

datatype (plugins only: size code) sys_req =
  C_write u32 u32 nat "byte list"           \<comment> \<open>\<open>op\<close>, fd, len, data: \<^verbatim>\<open>SYSCALL_FWD\<close>\<close>
| C_open u32 int int string                 \<comment> \<open>flags, mode, filename\<close>
| C_close u32 u32                           \<comment> \<open>remote fd\<close>
| C_read u32 u32 nat                        \<comment> \<open>fd, count\<close>
| C_lseek u32 u32 int int                   \<comment> \<open>fd, offset, whence\<close>
| C_statx u32 u32 u32 u32                   \<comment> \<open>fd, mask, flags\<close>
| C_dup u32 u32 u32                         \<comment> \<open>old remote fd, new local fd or -1\<close>
| C_fsync u32 u32 int int int               \<comment> \<open>fd, start, end, datasync\<close>
| C_socket u32 int int int                  \<comment> \<open>domain, type, protocol\<close>
| C_connect u32 u32 sockaddr int            \<comment> \<open>fd, addr, addrlen\<close>
| C_bind u32 u32 sockaddr int
| C_listen u32 u32 int                      \<comment> \<open>fd, backlog\<close>
| C_send u32 u32 int nat "byte list"        \<comment> \<open>fd, flags, len, data\<close>
| C_recv u32 u32 nat int                    \<comment> \<open>fd, size, flags\<close>
| C_accept u32 u32 int                      \<comment> \<open>fd, flags\<close>
| C_poll u32 int int "mattx_pollfd list"    \<comment> \<open>nfds, timeout, fds\<close>
| C_epoll_create u32 int                    \<comment> \<open>flags\<close>
| C_epoll_ctl u32 int int int "byte list"   \<comment> \<open>epfd, op, fd, event\<close>
| C_epoll_wait u32 int int int              \<comment> \<open>epfd, maxevents, timeout\<close>
| C_sockname bool u32 int                   \<comment> \<open>peer?, fd: \<^verbatim>\<open>GETPEERNAME\<close>, \<^verbatim>\<open>GETSOCKNAME\<close>\<close>
| C_setsockopt u32 int int int int "byte list"  \<comment> \<open>fd, level, optname, optlen, optval\<close>
| C_getsockopt u32 int int int int          \<comment> \<open>fd, level, optname, optlen\<close>
| C_sendmsg u32 int int int nat sockaddr "byte list"  \<comment> \<open>fd, flags, addrlen, datalen, addr, data\<close>
| C_recvmsg u32 int int int nat             \<comment> \<open>fd, flags, addrlen, datalen\<close>
| C_uname u32
| C_prlimit64 u32 u32 int bool bool "byte list"  \<comment> \<open>pid, resource, has new, has old, new limit\<close>
| C_prctl u32 int u64 u64 u64 u64           \<comment> \<open>option, arg2 to arg5\<close>
| C_fio bool u32 int int u64 bool "byte list"  \<comment> \<open>ioctl?, fd, cmd, arg, has ptr, data\<close>
| C_pread64 u32 int nat int                 \<comment> \<open>fd, count, pos\<close>
| C_statfs u32 string
| C_fstatfs u32 int
| C_newfstatat u32 int int string           \<comment> \<open>dfd, flags, path\<close>
| C_faccessat2 u32 int int int string       \<comment> \<open>dfd, mode, flags, path\<close>
| C_readlink u32 nat string                 \<comment> \<open>bufsiz, path\<close>
| C_readlinkat u32 int nat string           \<comment> \<open>dfd, bufsiz, path\<close>
| C_getdents64 u32 int nat                  \<comment> \<open>fd, count\<close>
| C_pipe2 u32 int                           \<comment> \<open>flags\<close>
| C_shmget u32 int nat int                  \<comment> \<open>key, size, flags\<close>
| C_shmat u32 int u64 int                   \<comment> \<open>shmid, address, flags\<close>
| C_shmdt u32 u64                           \<comment> \<open>address\<close>
| C_shmctl u32 int int                      \<comment> \<open>shmid, cmd\<close>

text \<open>
  Replies. \<open>A_send\<close> shows the four bytes of padding that the compiler puts in front of
  the 64-bit count: they are sent as they were on the stack of the worker.
\<close>

datatype (plugins only: size code) sys_reply =
  A_int u32 u32 int                         \<comment> \<open>type, \<open>op\<close>, error\<close>
| A_fd u32 u32 int int                      \<comment> \<open>type, \<open>op\<close>, descriptor (or shmid), error\<close>
| A_data u32 u32 int int "byte list"        \<comment> \<open>type, \<open>op\<close>, byte count, error, data\<close>
| A_blob u32 u32 int "byte list"            \<comment> \<open>type, \<open>op\<close>, error, a structure\<close>
| A_bytes u32 u32 int "byte list"           \<comment> \<open>type, \<open>op\<close>, length or error, data\<close>
| A_lseek u32 int int                       \<comment> \<open>\<open>op\<close>, offset, error\<close>
| A_send u32 u32 u32 int int                \<comment> \<open>type, \<open>op\<close>, padding, bytes sent, error\<close>
| A_accept u32 int int sockaddr int         \<comment> \<open>\<open>op\<close>, descriptor, error, addr, addrlen\<close>
| A_poll u32 int int int "mattx_pollfd list" \<comment> \<open>\<open>op\<close>, nfds, error, retval, fds\<close>
| A_events u32 int "byte list"              \<comment> \<open>\<open>op\<close>, retval, events\<close>
| A_name bool u32 int sockaddr int          \<comment> \<open>peer?, \<open>op\<close>, error, addr, addrlen\<close>
| A_sockopt u32 int int "byte list"         \<comment> \<open>\<open>op\<close>, error, optlen, optval\<close>
| A_recvmsg u32 int int int sockaddr "byte list"  \<comment> \<open>\<open>op\<close>, count, error, addrlen, addr, data\<close>
| A_pipe2 u32 int int int                   \<comment> \<open>\<open>op\<close>, error, fd0, fd1\<close>
| A_shmat u32 u64 nat int                   \<comment> \<open>\<open>op\<close>, address, size, error\<close>

section \<open>Message types and the process a message is about\<close>

primrec req_type :: "sys_req \<Rightarrow> u32" where
  "req_type (C_write _ _ _ _) = MATTX_MSG_SYSCALL_FWD"
| "req_type (C_open _ _ _ _) = MATTX_MSG_SYS_OPEN_REQ"
| "req_type (C_close _ _) = MATTX_MSG_SYS_CLOSE_REQ"
| "req_type (C_read _ _ _) = MATTX_MSG_SYS_READ_REQ"
| "req_type (C_lseek _ _ _ _) = MATTX_MSG_SYS_LSEEK_REQ"
| "req_type (C_statx _ _ _ _) = MATTX_MSG_SYS_STATX_REQ"
| "req_type (C_dup _ _ _) = MATTX_MSG_SYS_DUP_REQ"
| "req_type (C_fsync _ _ _ _ _) = MATTX_MSG_SYS_FSYNC_REQ"
| "req_type (C_socket _ _ _ _) = MATTX_MSG_SYS_SOCKET_REQ"
| "req_type (C_connect _ _ _ _) = MATTX_MSG_SYS_CONNECT_REQ"
| "req_type (C_bind _ _ _ _) = MATTX_MSG_SYS_BIND_REQ"
| "req_type (C_listen _ _ _) = MATTX_MSG_SYS_LISTEN_REQ"
| "req_type (C_send _ _ _ _ _) = MATTX_MSG_SYS_SEND_REQ"
| "req_type (C_recv _ _ _ _) = MATTX_MSG_SYS_RECV_REQ"
| "req_type (C_accept _ _ _) = MATTX_MSG_SYS_ACCEPT_REQ"
| "req_type (C_poll _ _ _ _) = MATTX_MSG_SYS_POLL_REQ"
| "req_type (C_epoll_create _ _) = MATTX_MSG_SYS_EPOLL_CREATE_REQ"
| "req_type (C_epoll_ctl _ _ _ _ _) = MATTX_MSG_SYS_EPOLL_CTL_REQ"
| "req_type (C_epoll_wait _ _ _ _) = MATTX_MSG_SYS_EPOLL_WAIT_REQ"
| "req_type (C_sockname peer _ _) = (if peer then MATTX_MSG_SYS_GETPEERNAME_REQ else MATTX_MSG_SYS_GETSOCKNAME_REQ)"
| "req_type (C_setsockopt _ _ _ _ _ _) = MATTX_MSG_SYS_SETSOCKOPT_REQ"
| "req_type (C_getsockopt _ _ _ _ _) = MATTX_MSG_SYS_GETSOCKOPT_REQ"
| "req_type (C_sendmsg _ _ _ _ _ _ _) = MATTX_MSG_SYS_SENDMSG_REQ"
| "req_type (C_recvmsg _ _ _ _ _) = MATTX_MSG_SYS_RECVMSG_REQ"
| "req_type (C_uname _) = MATTX_MSG_SYS_UNAME_REQ"
| "req_type (C_prlimit64 _ _ _ _ _ _) = MATTX_MSG_SYS_PRLIMIT64_REQ"
| "req_type (C_prctl _ _ _ _ _ _) = MATTX_MSG_SYS_PRCTL_REQ"
| "req_type (C_fio ioctl _ _ _ _ _ _) = (if ioctl then MATTX_MSG_SYS_IOCTL_REQ else MATTX_MSG_SYS_FCNTL_REQ)"
| "req_type (C_pread64 _ _ _ _) = MATTX_MSG_SYS_PREAD64_REQ"
| "req_type (C_statfs _ _) = MATTX_MSG_SYS_STATFS_REQ"
| "req_type (C_fstatfs _ _) = MATTX_MSG_SYS_FSTATFS_REQ"
| "req_type (C_newfstatat _ _ _ _) = MATTX_MSG_SYS_NEWFSTATAT_REQ"
| "req_type (C_faccessat2 _ _ _ _ _) = MATTX_MSG_SYS_FACCESSAT2_REQ"
| "req_type (C_readlink _ _ _) = MATTX_MSG_SYS_READLINK_REQ"
| "req_type (C_readlinkat _ _ _ _) = MATTX_MSG_SYS_READLINKAT_REQ"
| "req_type (C_getdents64 _ _ _) = MATTX_MSG_SYS_GETDENTS64_REQ"
| "req_type (C_pipe2 _ _) = MATTX_MSG_SYS_PIPE2_REQ"
| "req_type (C_shmget _ _ _ _) = MATTX_MSG_SYS_SHMGET_REQ"
| "req_type (C_shmat _ _ _ _) = MATTX_MSG_SYS_SHMAT_REQ"
| "req_type (C_shmdt _ _) = MATTX_MSG_SYS_SHMDT_REQ"
| "req_type (C_shmctl _ _ _) = MATTX_MSG_SYS_SHMCTL_REQ"

primrec reply_type :: "sys_reply \<Rightarrow> u32" where
  "reply_type (A_int t _ _) = t"
| "reply_type (A_fd t _ _ _) = t"
| "reply_type (A_data t _ _ _ _) = t"
| "reply_type (A_blob t _ _ _) = t"
| "reply_type (A_bytes t _ _ _) = t"
| "reply_type (A_lseek _ _ _) = MATTX_MSG_SYS_LSEEK_REPLY"
| "reply_type (A_send t _ _ _ _) = t"
| "reply_type (A_accept _ _ _ _ _) = MATTX_MSG_SYS_ACCEPT_REPLY"
| "reply_type (A_poll _ _ _ _ _) = MATTX_MSG_SYS_POLL_REPLY"
| "reply_type (A_events _ _ _) = MATTX_MSG_SYS_EPOLL_WAIT_REPLY"
| "reply_type (A_name peer _ _ _ _) = (if peer then MATTX_MSG_SYS_GETPEERNAME_REPLY else MATTX_MSG_SYS_GETSOCKNAME_REPLY)"
| "reply_type (A_sockopt _ _ _ _) = MATTX_MSG_SYS_GETSOCKOPT_REPLY"
| "reply_type (A_recvmsg _ _ _ _ _ _) = MATTX_MSG_SYS_RECVMSG_REPLY"
| "reply_type (A_pipe2 _ _ _ _) = MATTX_MSG_SYS_PIPE2_REPLY"
| "reply_type (A_shmat _ _ _ _) = MATTX_MSG_SYS_SHMAT_REPLY"

primrec reply_pid :: "sys_reply \<Rightarrow> u32" where
  "reply_pid (A_int _ op _) = op"
| "reply_pid (A_fd _ op _ _) = op"
| "reply_pid (A_data _ op _ _ _) = op"
| "reply_pid (A_blob _ op _ _) = op"
| "reply_pid (A_bytes _ op _ _) = op"
| "reply_pid (A_lseek op _ _) = op"
| "reply_pid (A_send _ op _ _ _) = op"
| "reply_pid (A_accept op _ _ _ _) = op"
| "reply_pid (A_poll op _ _ _ _) = op"
| "reply_pid (A_events op _ _) = op"
| "reply_pid (A_name _ op _ _ _) = op"
| "reply_pid (A_sockopt op _ _ _) = op"
| "reply_pid (A_recvmsg op _ _ _ _ _) = op"
| "reply_pid (A_pipe2 op _ _ _) = op"
| "reply_pid (A_shmat op _ _ _) = op"

end
