(* ===== verification/Mx_Deputy.thy ===== *)
theory Mx_Deputy
  imports Mx_Call
begin

text \<open>
  The home side of system-call forwarding, first part (\<^verbatim>\<open>mattx_fileio.c\<close>): the workers
  that act on the files of a deputy. A request names a process and one of its descriptors; the
  worker fetches the file out of the frozen deputy's descriptor table, or out of the export
  registry for descriptors from 1000 on, calls the kernel on it, and answers. New files (opened,
  created or accepted) are put straight into the deputy's table.

  What the kernel below answers is the record \<open>host\<close>, an argument. What a worker does to
  reference counts and to the network is a list of deeds in program order.
\<close>

section \<open>State\<close>

record fdtable =
  fd_max :: nat
  fd_file :: "nat \<Rightarrow> filep option"
  fd_open :: "nat \<Rightarrow> bool"

text \<open>\<open>t_files\<close> is a pointer: tasks may share a descriptor table.\<close>

record task =
  t_files :: "nat option"
  t_fs :: nat
  t_cred :: nat
  t_mm :: "nat option"
  t_nsproxy :: nat
  t_sp :: u64

record home =
  tasks :: "pid \<Rightarrow> task option"
  ftabs :: "fdtable list"
  f_pos :: "filep \<Rightarrow> int"
  h_exports :: exports
  h_links :: "u32 \<Rightarrow> bool"

text \<open>
  Deeds. \<open>Add_work p s q\<close> queues the callback that serves request \<open>q\<close> of node \<open>s\<close> on
  task \<open>p\<close>; \<open>Wake\<close> and \<open>Freeze\<close> are \<^verbatim>\<open>SIGCONT\<close> and \<^verbatim>\<open>SIGSTOP\<close>. \<open>Crash\<close> is the
  use of a null pointer, \<open>Null_link\<close> that of a link, \<open>Wild\<close> an access before an array.
\<close>

datatype deed =
  Fget filep | Fdrop filep | Fnew filep
| Tget pid | Tput pid
| Send u32 sys_reply
| Add_work pid u32 sys_req | Wake pid | Freeze pid
| Wild int | Null_link | Crash | Release_sock

text \<open>
  Kernel answers. A result that is an \<open>int\<close> is a count, an offset or a negative error;
  calls that move the position of a file also give the new position. \<open>nat option\<close> is the
  identity the call runs under, \<open>None\<close> for the worker's own.
\<close>

record host =
  h_mem :: "nat \<Rightarrow> bool"
  h_filp_open :: "nat \<Rightarrow> string \<Rightarrow> int \<Rightarrow> int \<Rightarrow> int + filep"
  h_read :: "nat option \<Rightarrow> filep \<Rightarrow> nat \<Rightarrow> int \<Rightarrow> int \<times> byte list \<times> int"
  h_write :: "nat option \<Rightarrow> filep \<Rightarrow> byte list \<Rightarrow> int \<Rightarrow> int \<times> int"
  h_llseek :: "filep \<Rightarrow> int \<Rightarrow> int \<Rightarrow> int \<Rightarrow> int \<times> int"
  h_fsync :: "filep \<Rightarrow> int \<Rightarrow> int \<Rightarrow> int \<Rightarrow> int"
  h_getattr :: "filep \<Rightarrow> u32 \<Rightarrow> u32 \<Rightarrow> int \<times> byte list"
  h_sock_create :: "int \<Rightarrow> int \<Rightarrow> int \<Rightarrow> int"
  h_sock_file :: "int \<Rightarrow> int + filep"
  h_is_sock :: "filep \<Rightarrow> bool"
  h_nonblock :: "filep \<Rightarrow> bool"
  h_bind :: "filep \<Rightarrow> sockaddr \<Rightarrow> int \<Rightarrow> int"
  h_connect :: "filep \<Rightarrow> sockaddr \<Rightarrow> int \<Rightarrow> int"
  h_sock_error :: "filep \<Rightarrow> int option"
  h_listen :: "filep \<Rightarrow> int \<Rightarrow> int"
  h_sendmsg :: "filep \<Rightarrow> sockaddr option \<Rightarrow> byte list \<Rightarrow> int"
  h_recvmsg :: "filep \<Rightarrow> nat \<Rightarrow> int \<Rightarrow> bool \<Rightarrow> int \<times> byte list \<times> sockaddr \<times> int"
  h_accept :: "filep \<Rightarrow> bool \<Rightarrow> int \<times> bool"
  h_peername :: "filep \<Rightarrow> int \<times> sockaddr"
  h_stack :: u32
  h_sock_ready :: "bool list"
  h_poll :: "((filep \<Rightarrow> 16 word) \<times> nat) list"
  h_busy :: bool

section \<open>Descriptor tables\<close>

definition install :: "nat \<Rightarrow> filep \<Rightarrow> fdtable \<Rightarrow> fdtable" where
  "install j f t = t\<lparr>fd_file := (fd_file t)(j := Some f), fd_open := (fd_open t)(j := True)\<rparr>"

definition uninstall :: "nat \<Rightarrow> fdtable \<Rightarrow> fdtable" where
  "uninstall j t = t\<lparr>fd_file := (fd_file t)(j := None), fd_open := (fd_open t)(j := False)\<rparr>"

definition free_fd :: "fdtable \<Rightarrow> nat option" where
  "free_fd t = scan_from (\<lambda>j. fd_file t j = None) 3 (fd_max t)"

definition files_of :: "pid \<Rightarrow> home \<Rightarrow> nat option" where
  "files_of p h = (case tasks h p of None \<Rightarrow> None | Some t \<Rightarrow> t_files t)"

definition set_tab :: "nat \<Rightarrow> fdtable \<Rightarrow> home \<Rightarrow> home" where
  "set_tab a t h = h\<lparr>ftabs := (ftabs h)[a := t]\<rparr>"

text \<open>The injector: the first free descriptor from 3 on of the deputy's table.\<close>

definition inject :: "pid \<Rightarrow> filep \<Rightarrow> home \<Rightarrow> (nat \<times> home) option" where
  "inject p f h =
     (case files_of p h of None \<Rightarrow> None
      | Some a \<Rightarrow> (case free_fd (ftabs h ! a) of None \<Rightarrow> None
          | Some j \<Rightarrow> Some (j, set_tab a (install j f (ftabs h ! a)) h)))"

section \<open>Fetching a file\<close>

text \<open>
  A slot of the export registry. Only the upper bound of the slot is checked; an access before
  the array is the deed \<open>Wild\<close> and finds nothing.
\<close>

definition export_slot :: "pid \<Rightarrow> int \<Rightarrow> exports \<Rightarrow> filep option \<times> deed list" where
  "export_slot p slot r =
     (case scan (\<lambda>i. e_orig_pid (slots r i) = p) (cnt r) of
        None \<Rightarrow> (None, [])
      | Some i \<Rightarrow>
          if int MAX_FDS \<le> slot then (None, [])
          else if slot < 0 then (None, [Wild slot])
          else (e_remote_files (slots r i) (nat slot), []))"

definition native_file :: "pid \<Rightarrow> nat \<Rightarrow> home \<Rightarrow> filep option" where
  "native_file p fd h =
     (case files_of p h of None \<Rightarrow> None
      | Some a \<Rightarrow> if fd < fd_max (ftabs h ! a) then fd_file (ftabs h ! a) fd else None)"

definition got :: "filep option \<Rightarrow> deed list" where
  "got f = (case f of None \<Rightarrow> [] | Some f \<Rightarrow> [Fget f])"

definition dropped :: "filep option \<Rightarrow> deed list" where
  "dropped f = (case f of None \<Rightarrow> [] | Some f \<Rightarrow> [Fdrop f])"

text \<open>Look the deputy up, do something, drop the reference to it.\<close>

definition with_task :: "pid \<Rightarrow> home \<Rightarrow> deed list \<Rightarrow> deed list" where
  "with_task p h ds = (if tasks h p = None then ds else [Tget p] @ ds @ [Tput p])"

definition mattx_get_remote_file :: "u32 \<Rightarrow> int \<Rightarrow> home \<Rightarrow> filep option \<times> deed list" where
  "mattx_get_remote_file op fd h =
     (if 1000 \<le> fd then (case export_slot op (fd - 1000) (h_exports h) of (f, w) \<Rightarrow> (f, w @ got f))
      else if 0 \<le> fd then (native_file op (nat fd) h, with_task op h (got (native_file op (nat fd) h)))
      else (None, []))"

definition respond :: "u32 \<Rightarrow> sys_reply \<Rightarrow> home \<Rightarrow> deed list" where
  "respond sender rep h = (if h_links h sender then [Send sender rep] else [])"

definition err_of :: "int \<Rightarrow> int" where
  "err_of ret = (if ret < 0 then ret else 0)"

section \<open>Queueing a request\<close>

text \<open>
  Most request handlers copy the request into a fresh context and schedule a worker. Some test
  for a missing payload (a message of length 0), the others read through the null pointer.
\<close>

datatype queued = Not_queued | Queued u32 sys_req | Oops

definition queue_checked :: "bool \<Rightarrow> u32 \<Rightarrow> sys_req option \<Rightarrow> queued" where
  "queue_checked mem sender payload =
     (case payload of None \<Rightarrow> Not_queued | Some q \<Rightarrow> if mem then Queued sender q else Not_queued)"

definition queue_unchecked :: "bool \<Rightarrow> u32 \<Rightarrow> sys_req option \<Rightarrow> queued" where
  "queue_unchecked mem sender payload =
     (if mem then (case payload of None \<Rightarrow> Oops | Some q \<Rightarrow> Queued sender q) else Not_queued)"

definition handle_sys_open_req where "handle_sys_open_req = queue_checked"
definition handle_sys_socket_req where "handle_sys_socket_req = queue_checked"
definition handle_sys_bind_req where "handle_sys_bind_req = queue_checked"
definition handle_sys_connect_req where "handle_sys_connect_req = queue_checked"
definition handle_sys_listen_req where "handle_sys_listen_req = queue_checked"
definition handle_sys_recv_req where "handle_sys_recv_req = queue_checked"
definition handle_sys_accept_req where "handle_sys_accept_req = queue_checked"
definition handle_sys_poll_req where "handle_sys_poll_req = queue_checked"
definition handle_sys_epoll_wait_req where "handle_sys_epoll_wait_req = queue_checked"
definition handle_sys_recvmsg_req where "handle_sys_recvmsg_req = queue_checked"
definition handle_sys_lseek_req where "handle_sys_lseek_req = queue_unchecked"
definition handle_sys_fsync_req where "handle_sys_fsync_req = queue_unchecked"
definition handle_sys_statx_req where "handle_sys_statx_req = queue_unchecked"
definition handle_sys_dup_req where "handle_sys_dup_req = queue_unchecked"
definition handle_sys_pread64_req where "handle_sys_pread64_req = queue_unchecked"

text \<open>The two sends copy as many bytes as the length field says, which their senders keep true.\<close>

definition clip :: "sys_req \<Rightarrow> sys_req" where
  "clip q = (case q of C_send op fd flags len d \<Rightarrow> C_send op fd flags len (take len d)
     | C_sendmsg op fd flags alen dlen a d \<Rightarrow> C_sendmsg op fd flags alen dlen a (take dlen d)
     | _ \<Rightarrow> q)"

definition handle_sys_send_req where
  "handle_sys_send_req mem sender payload = queue_checked mem sender (map_option clip payload)"

definition handle_sys_sendmsg_req where
  "handle_sys_sendmsg_req mem sender payload = queue_checked mem sender (map_option clip payload)"

section \<open>Reading, writing and closing\<close>

text \<open>
  These three handlers run in the receiver itself and compare the descriptor unsigned; from
  1000 on the slot is then computed as a signed number.
\<close>

definition fetch_unsigned :: "u32 \<Rightarrow> u32 \<Rightarrow> home \<Rightarrow> filep option \<times> deed list" where
  "fetch_unsigned op fd h =
     (if 1000 \<le> fd then export_slot op (sint (fd - 1000)) (h_exports h) else (native_file op (unat fd) h, []))"

definition identity :: "u32 \<Rightarrow> u32 \<Rightarrow> home \<Rightarrow> nat option" where
  "identity op fd h = (if 1000 \<le> fd then None else map_option t_cred (tasks h op))"

definition handle_syscall_fwd :: "host \<Rightarrow> (u32 \<times> u32 \<times> nat \<times> byte list) option \<Rightarrow> home \<Rightarrow> home \<times> deed list" where
  "handle_syscall_fwd env payload h =
     (case payload of None \<Rightarrow> (h, [])
      | Some (op, fd, len, data) \<Rightarrow>
         (let hold = (if 1000 \<le> fd then id else with_task op h) in
          case fetch_unsigned op fd h of
            (None, w) \<Rightarrow> (h, w @ hold [])
          | (Some f, w) \<Rightarrow>
             (case h_write env (identity op fd h) f (take len data) (f_pos h f) of (ret, pos) \<Rightarrow>
               (if 0 \<le> ret then h\<lparr>f_pos := (f_pos h)(f := pos)\<rparr> else h, w @ hold [Fget f, Fdrop f]))))"

text \<open>
  The read drops the deputy before it borrows its identity, does not test the link, and sends
  no answer when a buffer is missing. \<open>h_mem 0\<close> is the buffer, \<open>h_mem 1\<close> the reply.
\<close>

definition handle_sys_read_req :: "host \<Rightarrow> u32 \<Rightarrow> (u32 \<times> u32 \<times> nat) option \<Rightarrow> home \<Rightarrow> home \<times> deed list" where
  "handle_sys_read_req env sender payload h =
     (case payload of None \<Rightarrow> (h, [])
      | Some (op, fd, n) \<Rightarrow>
         (let hold = (if 1000 \<le> fd then id else with_task op h);
              out = (\<lambda>m. if h_links h sender then [Send sender m] else [Null_link]) in
          case fetch_unsigned op fd h of
            (None, w) \<Rightarrow> (h, w @ hold [] @ out (A_data MATTX_MSG_SYS_READ_REPLY op (- EBADF) (- EBADF) []))
          | (Some f, w) \<Rightarrow>
             if \<not> h_mem env 0 then (h, w @ hold [Fget f] @ [Fdrop f])
             else (case h_read env (identity op fd h) f n (f_pos h f) of (ret, d, pos) \<Rightarrow>
               (if 0 \<le> ret then h\<lparr>f_pos := (f_pos h)(f := pos)\<rparr> else h,
                w @ hold [Fget f] @
                (if h_mem env 1 then out (A_data MATTX_MSG_SYS_READ_REPLY op ret (err_of ret) (take (nat ret) d)) else []) @
                [Fdrop f]))))"

definition clear_export_slot :: "u32 \<Rightarrow> int \<Rightarrow> exports \<Rightarrow> exports" where
  "clear_export_slot op slot r =
     (case scan (\<lambda>i. e_orig_pid (slots r i) = op) (cnt r) of None \<Rightarrow> r
      | Some i \<Rightarrow> upd_slot i (\<lambda>e. e\<lparr>e_remote_files := (e_remote_files e)(nat slot := None)\<rparr>) r)"

text \<open>A deputy without descriptor table is never put back.\<close>

definition handle_sys_close_req :: "(u32 \<times> u32) option \<Rightarrow> home \<Rightarrow> home \<times> deed list" where
  "handle_sys_close_req payload h =
     (case payload of None \<Rightarrow> (h, [])
      | Some (op, fd) \<Rightarrow>
         (if 1000 \<le> fd then
            (case export_slot op (sint (fd - 1000)) (h_exports h) of
               (None, w) \<Rightarrow> (h, w)
             | (Some f, w) \<Rightarrow> (h\<lparr>h_exports := clear_export_slot op (sint (fd - 1000)) (h_exports h)\<rparr>, w @ [Fdrop f]))
          else
            (case files_of op h of
               None \<Rightarrow> (h, if tasks h op = None then [] else [Tget op])
             | Some a \<Rightarrow>
                (case native_file op (unat fd) h of
                   None \<Rightarrow> (h, with_task op h [])
                 | Some f \<Rightarrow> (set_tab a (uninstall (unat fd) (ftabs h ! a)) h, with_task op h [] @ [Fdrop f])))))"

section \<open>Workers on one file\<close>

definition mattx_lseek_kworker :: "host \<Rightarrow> u32 \<Rightarrow> u32 \<Rightarrow> u32 \<Rightarrow> int \<Rightarrow> int \<Rightarrow> home \<Rightarrow> home \<times> deed list" where
  "mattx_lseek_kworker env sender op fd off whence h =
     (case mattx_get_remote_file op (sint fd) h of
        (None, e) \<Rightarrow> (h, e @ respond sender (A_lseek op (- EBADF) (- EBADF)) h)
      | (Some f, e) \<Rightarrow>
         (case h_llseek env f off whence (f_pos h f) of (ret, pos) \<Rightarrow>
           (h\<lparr>f_pos := (f_pos h)(f := pos)\<rparr>, e @ [Fdrop f] @ respond sender (A_lseek op ret (err_of ret)) h)))"

definition mattx_fsync_kworker :: "host \<Rightarrow> u32 \<Rightarrow> u32 \<Rightarrow> u32 \<Rightarrow> int \<Rightarrow> int \<Rightarrow> int \<Rightarrow> home \<Rightarrow> home \<times> deed list" where
  "mattx_fsync_kworker env sender op fd start en datasync h =
     (case mattx_get_remote_file op (sint fd) h of
        (None, e) \<Rightarrow> (h, e @ respond sender (A_int MATTX_MSG_SYS_FSYNC_REPLY op (- EBADF)) h)
      | (Some f, e) \<Rightarrow>
         (h, e @ [Fdrop f] @ respond sender (A_int MATTX_MSG_SYS_FSYNC_REPLY op (h_fsync env f start en datasync)) h))"

text \<open>The flags are reduced to \<^verbatim>\<open>AT_STATX_SYNC_TYPE\<close>. A structure of zeros on failure.\<close>

definition mattx_statx_kworker :: "host \<Rightarrow> u32 \<Rightarrow> u32 \<Rightarrow> u32 \<Rightarrow> u32 \<Rightarrow> u32 \<Rightarrow> home \<Rightarrow> home \<times> deed list" where
  "mattx_statx_kworker env sender op fd req_mask flags h =
     (case mattx_get_remote_file op (sint fd) h of
        (None, e) \<Rightarrow> (h, e @ respond sender (A_blob MATTX_MSG_SYS_STATX_REPLY op (- EBADF) []) h)
      | (Some f, e) \<Rightarrow>
         (case h_getattr env f req_mask (flags AND 0x6000) of (ret, st) \<Rightarrow>
           (h, e @ [Fdrop f] @ respond sender (A_blob MATTX_MSG_SYS_STATX_REPLY op ret (if ret = 0 then st else [])) h)))"

definition mattx_pread64_kworker :: "host \<Rightarrow> u32 \<Rightarrow> u32 \<Rightarrow> int \<Rightarrow> nat \<Rightarrow> int \<Rightarrow> home \<Rightarrow> home \<times> deed list" where
  "mattx_pread64_kworker env sender op fd n pos h =
     (let out = (\<lambda>ret d. if h_mem env 1 then respond sender (A_data MATTX_MSG_SYS_PREAD64_REPLY op ret (err_of ret) d) h else []) in
      case mattx_get_remote_file op fd h of
        (None, e) \<Rightarrow> (h, e @ out (- EBADF) [])
      | (Some f, e) \<Rightarrow>
         if \<not> h_mem env 0 then (h, e @ [Fdrop f] @ out (- ENOMEM) [])
         else (case h_read env None f n pos of (ret, d, pos') \<Rightarrow> (h, e @ [Fdrop f] @ out ret (take (nat ret) d))))"

section \<open>Workers that make descriptors\<close>

definition mattx_open_kworker :: "host \<Rightarrow> u32 \<Rightarrow> u32 \<Rightarrow> int \<Rightarrow> int \<Rightarrow> string \<Rightarrow> home \<Rightarrow> home \<times> deed list" where
  "mattx_open_kworker env sender op flags mode name h =
     (let out = (\<lambda>fd err. respond sender (A_fd MATTX_MSG_SYS_OPEN_REPLY op fd err) h) in
      case tasks h op of
        None \<Rightarrow> (h, out (- 1) (- ESRCH))
      | Some t \<Rightarrow>
         (case h_filp_open env (t_cred t) name flags mode of
            Inl err \<Rightarrow> (h, [Tget op, Tput op] @ out (- 1) err)
          | Inr f \<Rightarrow>
             (case inject op f h of
                None \<Rightarrow> (h, [Tget op, Fnew f, Fdrop f, Tput op] @ out (- 1) (- ENFILE))
              | Some (j, h') \<Rightarrow> (h', [Tget op, Fnew f, Tput op] @ out (int j) 0))))"

definition mattx_socket_kworker :: "host \<Rightarrow> u32 \<Rightarrow> u32 \<Rightarrow> int \<Rightarrow> int \<Rightarrow> int \<Rightarrow> home \<Rightarrow> home \<times> deed list" where
  "mattx_socket_kworker env sender op domain ty protocol h =
     (let out = (\<lambda>fd err. respond sender (A_fd MATTX_MSG_SYS_SOCKET_REPLY op fd err) h);
          err = h_sock_create env domain (ty AND 15) protocol in
      if err \<noteq> 0 then (h, out (- 1) err)
      else (case h_sock_file env (ty AND 0x80800) of
              Inl err \<Rightarrow> (h, out (- 1) err)
            | Inr f \<Rightarrow>
               (case inject op f h of
                  None \<Rightarrow> (h, [Fnew f] @ with_task op h [Fdrop f] @ out (- 1) (- ENFILE))
                | Some (j, h') \<Rightarrow> (h', [Fnew f] @ with_task op h [] @ out (int j) 0))))"

text \<open>The target of a \<^verbatim>\<open>dup2\<close> is taken over; whatever was open there is dropped.\<close>

definition mattx_dup_kworker :: "host \<Rightarrow> u32 \<Rightarrow> u32 \<Rightarrow> u32 \<Rightarrow> u32 \<Rightarrow> home \<Rightarrow> home \<times> deed list" where
  "mattx_dup_kworker env sender op old new h =
     (let out = (\<lambda>fd. respond sender (A_fd MATTX_MSG_SYS_DUP_REPLY op fd (err_of fd)) h) in
      case mattx_get_remote_file op (sint old) h of
        (None, e) \<Rightarrow> (h, e @ out (- EBADF))
      | (Some f, e) \<Rightarrow>
         (case files_of op h of
            None \<Rightarrow> (h, e @ with_task op h [] @ [Fdrop f] @ out (- EBADF))
          | Some a \<Rightarrow>
             (let t = ftabs h ! a;
                  target = (if sint new < 0 then (case free_fd t of Some j \<Rightarrow> int j | None \<Rightarrow> sint new) else sint new) in
              if 0 \<le> target \<and> target < int (fd_max t) then
                (set_tab a (install (nat target) f t) h,
                 e @ with_task op h ([Fget f] @ dropped (fd_file t (nat target))) @ [Fdrop f] @ out target)
              else (h, e @ with_task op h [] @ [Fdrop f] @ out (- EBADF)))))"

text \<open>
  \<open>h_accept\<close> is the result of \<^verbatim>\<open>kernel_accept\<close> and whether it delivered a socket;
  \<^verbatim>\<open>sock_alloc_file\<close> makes a file of it.
\<close>

definition mattx_accept_kworker :: "host \<Rightarrow> u32 \<Rightarrow> u32 \<Rightarrow> u32 \<Rightarrow> int \<Rightarrow> home \<Rightarrow> home \<times> deed list" where
  "mattx_accept_kworker env sender op fd flags h =
     (let out = (\<lambda>fd err addr len. respond sender (A_accept op fd err addr len) h) in
      case mattx_get_remote_file op (sint fd) h of
        (None, e) \<Rightarrow> (h, e @ out (- 1) (- EBADF) [] 0)
      | (Some f, e) \<Rightarrow>
         if \<not> h_is_sock env f then (h, e @ [Fdrop f] @ out (- 1) (- ENOTSOCK) [] 0)
         else (case h_accept env f (h_nonblock env f) of (err, new) \<Rightarrow>
           if err \<noteq> 0 \<or> \<not> new then (h, e @ [Fdrop f] @ out (- 1) err [] 0)
           else (case h_sock_file env (flags AND 0x80800) of
                   Inl err \<Rightarrow> (h, e @ [Release_sock, Fdrop f] @ out (- 1) err [] 0)
                 | Inr g \<Rightarrow>
                    (case inject op g h of
                       None \<Rightarrow> (h, e @ [Fnew g] @ with_task op h [Fdrop g] @ [Fdrop f] @ out (- 1) (- ENFILE) [] 0)
                     | Some (j, h') \<Rightarrow>
                        (case h_peername env g of (len, addr) \<Rightarrow>
                          (h', e @ [Fnew g] @ with_task op h [] @ [Fdrop f] @
                            out (int j) 0 addr (if 0 < len then len else 0)))))))"

section \<open>Socket workers\<close>

text \<open>Fetch the file, require a socket, call, drop the file, answer.\<close>

definition on_socket :: "host \<Rightarrow> u32 \<Rightarrow> int \<Rightarrow> home \<Rightarrow> (filep \<Rightarrow> int) \<Rightarrow> int \<times> deed list" where
  "on_socket env op fd h call =
     (case mattx_get_remote_file op fd h of
        (None, e) \<Rightarrow> (- EBADF, e)
      | (Some f, e) \<Rightarrow> (if h_is_sock env f then call f else - ENOTSOCK, e @ [Fdrop f]))"

definition mattx_bind_kworker :: "host \<Rightarrow> u32 \<Rightarrow> u32 \<Rightarrow> u32 \<Rightarrow> sockaddr \<Rightarrow> int \<Rightarrow> home \<Rightarrow> home \<times> deed list" where
  "mattx_bind_kworker env sender op fd addr addrlen h =
     (case on_socket env op (sint fd) h (\<lambda>f. h_bind env f addr addrlen) of (err, e) \<Rightarrow>
       (h, e @ respond sender (A_int MATTX_MSG_SYS_BIND_REPLY op err) h))"

definition mattx_listen_kworker :: "host \<Rightarrow> u32 \<Rightarrow> u32 \<Rightarrow> u32 \<Rightarrow> int \<Rightarrow> home \<Rightarrow> home \<times> deed list" where
  "mattx_listen_kworker env sender op fd backlog h =
     (case on_socket env op (sint fd) h (\<lambda>f. h_listen env f backlog) of (err, e) \<Rightarrow>
       (h, e @ respond sender (A_int MATTX_MSG_SYS_LISTEN_REPLY op err) h))"

text \<open>
  A blocking connect whose handshake is in progress polls the socket until it reacts;
  \<open>h_sock_ready\<close> lists the outcomes of the polls so far. No result means still polling. The
  pending error of the socket (\<open>h_sock_error\<close>, as \<^verbatim>\<open>sock_error\<close> returns it) is negated;
  \<open>None\<close> is a socket without \<^verbatim>\<open>sk\<close>.
\<close>

definition connect_result :: "host \<Rightarrow> filep \<Rightarrow> sockaddr \<Rightarrow> int \<Rightarrow> int option" where
  "connect_result env f addr addrlen =
     (let err = h_connect env f addr addrlen in
      if err = - EINPROGRESS \<and> \<not> h_nonblock env f then
        (if True \<in> set (h_sock_ready env) then
           Some (case h_sock_error env f of None \<Rightarrow> - ENOTSOCK | Some e \<Rightarrow> if e \<noteq> 0 then - e else 0)
         else None)
      else Some err)"

definition mattx_connect_kworker ::
    "host \<Rightarrow> u32 \<Rightarrow> u32 \<Rightarrow> u32 \<Rightarrow> sockaddr \<Rightarrow> int \<Rightarrow> home \<Rightarrow> (home \<times> deed list) option" where
  "mattx_connect_kworker env sender op fd addr addrlen h =
     (let out = (\<lambda>err. respond sender (A_int MATTX_MSG_SYS_CONNECT_REPLY op err) h) in
      case mattx_get_remote_file op (sint fd) h of
        (None, e) \<Rightarrow> Some (h, e @ out (- EBADF))
      | (Some f, e) \<Rightarrow>
         if \<not> h_is_sock env f then Some (h, e @ [Fdrop f] @ out (- ENOTSOCK))
         else map_option (\<lambda>err. (h, e @ [Fdrop f] @ out err)) (connect_result env f addr addrlen))"

text \<open>The reply structures of the sends live on the worker's stack and are not cleared.\<close>

definition mattx_sendto_kworker :: "host \<Rightarrow> u32 \<Rightarrow> u32 \<Rightarrow> u32 \<Rightarrow> byte list \<Rightarrow> home \<Rightarrow> home \<times> deed list" where
  "mattx_sendto_kworker env sender op fd data h =
     (case on_socket env op (sint fd) h (\<lambda>f. h_sendmsg env f None data) of (ret, e) \<Rightarrow>
       (h, e @ respond sender (A_send MATTX_MSG_SYS_SEND_REPLY op (h_stack env) ret (err_of ret)) h))"

definition mattx_sendmsg_kworker ::
    "host \<Rightarrow> u32 \<Rightarrow> u32 \<Rightarrow> int \<Rightarrow> int \<Rightarrow> sockaddr \<Rightarrow> byte list \<Rightarrow> home \<Rightarrow> home \<times> deed list" where
  "mattx_sendmsg_kworker env sender op fd addrlen addr data h =
     (case on_socket env op fd h (\<lambda>f. h_sendmsg env f (if 0 < addrlen then Some (take (nat addrlen) addr) else None) data) of
        (ret, e) \<Rightarrow>
       (h, e @ respond sender (A_send MATTX_MSG_SYS_SENDMSG_REPLY op (h_stack env) ret (err_of ret)) h))"

definition mattx_recvfrom_kworker :: "host \<Rightarrow> u32 \<Rightarrow> u32 \<Rightarrow> u32 \<Rightarrow> nat \<Rightarrow> int \<Rightarrow> home \<Rightarrow> home \<times> deed list" where
  "mattx_recvfrom_kworker env sender op fd n flags h =
     (let out = (\<lambda>ret d. if h_mem env 1 then
                   respond sender (A_data MATTX_MSG_SYS_RECV_REPLY op ret (err_of ret)
                     (if 0 < ret then take (nat ret) d else [])) h else []) in
      case mattx_get_remote_file op (sint fd) h of
        (None, e) \<Rightarrow> (h, e @ out (- EBADF) [])
      | (Some f, e) \<Rightarrow>
         if \<not> h_is_sock env f then (h, e @ [Fdrop f] @ out (- ENOTSOCK) [])
         else if \<not> h_mem env 0 then (h, e @ [Fdrop f] @ out (- ENOMEM) [])
         else (case h_recvmsg env f n flags False of (ret, d, a, l) \<Rightarrow> (h, e @ [Fdrop f] @ out ret d)))"

text \<open>The address is asked for only if the guest gave room for one.\<close>

definition mattx_recvmsg_kworker :: "host \<Rightarrow> u32 \<Rightarrow> u32 \<Rightarrow> int \<Rightarrow> int \<Rightarrow> int \<Rightarrow> nat \<Rightarrow> home \<Rightarrow> home \<times> deed list" where
  "mattx_recvmsg_kworker env sender op fd flags addrlen datalen h =
     (let out = (\<lambda>ret d a l. if h_mem env 1 then
                   respond sender (A_recvmsg op ret (err_of ret) l (if 0 < l then take (nat l) a else [])
                     (if 0 < ret then take (nat ret) d else [])) h else []) in
      case mattx_get_remote_file op fd h of
        (None, e) \<Rightarrow> (h, e @ out (- EBADF) [] [] 0)
      | (Some f, e) \<Rightarrow>
         if \<not> h_is_sock env f then (h, e @ [Fdrop f] @ out (- ENOTSOCK) [] [] 0)
         else if \<not> h_mem env 0 then (h, e @ [Fdrop f] @ out (- ENOMEM) [] [] 0)
         else (case h_recvmsg env f datalen flags (0 < addrlen) of (ret, d, a, l) \<Rightarrow>
                (h, e @ [Fdrop f] @ out ret d a (if 0 < addrlen then l else 0))))"

section \<open>Waiting workers\<close>

text \<open>
  Timeouts are in ticks of the counter. One round of the poll loop over the descriptors: \<open>mask f\<close> is what \<^verbatim>\<open>vfs_poll\<close> reports
  now. A descriptor without a file keeps its entry and counts as not ready.
\<close>

definition poll_file :: "u32 \<Rightarrow> u32 \<Rightarrow> home \<Rightarrow> filep option \<times> deed list" where
  "poll_file op fd h =
     (if 1000 \<le> sint fd then (case export_slot op (sint fd - 1000) (h_exports h) of (f, w) \<Rightarrow> (f, w @ got f))
      else if 0 \<le> sint fd then (native_file op (unat fd) h, with_task op h (got (native_file op (unat fd) h)))
      else (None, []))"

fun poll_round :: "(filep \<Rightarrow> 16 word) \<Rightarrow> u32 \<Rightarrow> mattx_pollfd list \<Rightarrow> home \<Rightarrow> mattx_pollfd list \<times> nat \<times> deed list" where
  "poll_round _ op [] h = ([], 0, [])"
| "poll_round wake_mask op (p # ps) h =
     (case poll_round wake_mask op ps h of (ps', n, e') \<Rightarrow>
       (case poll_file op (p_fd p) h of
          (None, e) \<Rightarrow> (p # ps', n, e @ e')
        | (Some f, e) \<Rightarrow>
           (let r = wake_mask f AND p_events p in
            (p\<lparr>p_revents := r\<rparr> # ps', if r \<noteq> 0 then n + 1 else n, e @ [Fdrop f] @ e'))))"

definition deputy_exported :: "u32 \<Rightarrow> exports \<Rightarrow> bool" where
  "deputy_exported op r = (scan (\<lambda>i. e_orig_pid (slots r i) = op) (cnt r) \<noteq> None)"

text \<open>
  The loop. Each element of the list is what one round sees: the masks and the tick counter.
  \<open>None\<close> means still polling after these rounds. The result is error, retval and entries.
\<close>

fun poll_loop :: "((filep \<Rightarrow> 16 word) \<times> nat) list \<Rightarrow> nat option \<Rightarrow> u32 \<Rightarrow> mattx_pollfd list \<Rightarrow> home \<Rightarrow>
    (int \<times> int \<times> mattx_pollfd list \<times> deed list) option" where
  "poll_loop [] expire op ps h = None"
| "poll_loop ((wake_mask, now) # rounds) expire op ps h =
     (if \<not> deputy_exported op (h_exports h) then Some (- ESRCH, 0, ps, [])
      else (case poll_round wake_mask op ps h of (ps', ready, e) \<Rightarrow>
        if 0 < ready then Some (0, int ready, ps', e)
        else if (case expire of Some t \<Rightarrow> t < now | None \<Rightarrow> False) then Some (0, 0, ps', e)
        else map_option (\<lambda>(err, ret, qs, e'). (err, ret, qs, e @ e')) (poll_loop rounds expire op ps' h)))"

text \<open>
  \<open>now\<close> is the tick counter when the worker starts; a timeout counts from there. The answer
  goes through \<^verbatim>\<open>mattx_comm_send_ctrl\<close>, which gives up when the socket mutex is taken.
\<close>

definition mattx_poll_worker ::
    "host \<Rightarrow> nat \<Rightarrow> u32 \<Rightarrow> u32 \<Rightarrow> int \<Rightarrow> int \<Rightarrow> mattx_pollfd list \<Rightarrow> home \<Rightarrow> (home \<times> deed list) option" where
  "mattx_poll_worker env now sender op nfds timeout fds h =
     (if \<not> h_mem env 0 \<or> \<not> h_mem env 1 then Some (h, [])
      else map_option
        (\<lambda>(err, ret, ps, e). (h, e @ (if h_busy env then [] else respond sender (A_poll op nfds err ret ps) h)))
        (poll_loop (h_poll env) (if 0 \<le> timeout then Some (now + nat timeout) else None) op (take (nat nfds) fds) h))"

text \<open>
  The epoll worker watches the epoll file until it has events, the time is over or the kill
  switch of the export is set, and then makes the deputy fetch the events itself. Each round
  sees the export registry as it is then, the mask and the tick counter.
\<close>

definition abort_set :: "u32 \<Rightarrow> exports \<Rightarrow> bool" where
  "abort_set op r = (case scan (\<lambda>i. e_orig_pid (slots r i) = op) (cnt r) of
     Some i \<Rightarrow> e_abort_rpc (slots r i) | None \<Rightarrow> False)"

datatype epoll_outcome = Aborted | Go_on

fun epoll_wait_loop :: "(exports \<times> 16 word \<times> nat) list \<Rightarrow> nat option \<Rightarrow> u32 \<Rightarrow> epoll_outcome option" where
  "epoll_wait_loop [] expire op = None"
| "epoll_wait_loop ((r, m, now) # rounds) expire op =
     (if abort_set op r then Some Aborted
      else if m AND 0x19 \<noteq> 0 then Some Go_on
      else if (case expire of Some t \<Rightarrow> t < now | None \<Rightarrow> False) then Some Go_on
      else epoll_wait_loop rounds expire op)"

text \<open>
  \<open>late\<close> is the state when the loop is left. An abort inside the loop returns without
  dropping the epoll file.
\<close>

definition mattx_epoll_wait_kworker ::
    "host \<Rightarrow> (exports \<times> 16 word \<times> nat) list \<Rightarrow> nat \<Rightarrow> u32 \<Rightarrow> u32 \<Rightarrow> int \<Rightarrow> int \<Rightarrow> int \<Rightarrow> home \<Rightarrow> home \<Rightarrow> (home \<times> deed list) option" where
  "mattx_epoll_wait_kworker env rounds now sender op epfd maxevents timeout h late =
     (let expire = (if 0 \<le> timeout then Some (now + nat timeout) else None);
          finish = (\<lambda>e. if abort_set op (h_exports late) then (late, e)
             else if tasks late op \<noteq> None then
               (late, e @ with_task op late (if h_mem env 0 then [Add_work op sender (C_epoll_wait op epfd maxevents 0), Wake op] else []))
             else (late, e @ (if h_mem env 0 then respond sender (A_events op (- ESRCH) []) late else [])))
      in case mattx_get_remote_file op epfd h of
           (None, e) \<Rightarrow> Some (finish e)
         | (Some f, e) \<Rightarrow>
            (case epoll_wait_loop rounds expire op of
               None \<Rightarrow> None
             | Some Aborted \<Rightarrow> Some (late, e)
             | Some Go_on \<Rightarrow> Some (finish (e @ [Fdrop f]))))"

section \<open>Serving requests\<close>

text \<open>
  The handler or worker of each request of this theory; the epoll wait, which needs the state
  at two times, and the calls made in the deputy's name are not among them. \<open>None\<close>: the
  worker is still waiting, or the request is served elsewhere.
\<close>

fun file_worker :: "host \<Rightarrow> nat \<Rightarrow> u32 \<Rightarrow> sys_req \<Rightarrow> home \<Rightarrow> (home \<times> deed list) option" where
  "file_worker env now s (C_write op fd n d) h = Some (handle_syscall_fwd env (Some (op, fd, n, d)) h)"
| "file_worker env now s (C_open op flags mode name) h = Some (mattx_open_kworker env s op flags mode name h)"
| "file_worker env now s (C_close op fd) h = Some (handle_sys_close_req (Some (op, fd)) h)"
| "file_worker env now s (C_read op fd n) h = Some (handle_sys_read_req env s (Some (op, fd, n)) h)"
| "file_worker env now s (C_lseek op fd off whence) h = Some (mattx_lseek_kworker env s op fd off whence h)"
| "file_worker env now s (C_statx op fd m flags) h = Some (mattx_statx_kworker env s op fd m flags h)"
| "file_worker env now s (C_dup op old new) h = Some (mattx_dup_kworker env s op old new h)"
| "file_worker env now s (C_fsync op fd a b d) h = Some (mattx_fsync_kworker env s op fd a b d h)"
| "file_worker env now s (C_socket op d ty pr) h = Some (mattx_socket_kworker env s op d ty pr h)"
| "file_worker env now s (C_connect op fd a l) h = mattx_connect_kworker env s op fd a l h"
| "file_worker env now s (C_bind op fd a l) h = Some (mattx_bind_kworker env s op fd a l h)"
| "file_worker env now s (C_listen op fd b) h = Some (mattx_listen_kworker env s op fd b h)"
| "file_worker env now s (C_send op fd flags n d) h = Some (mattx_sendto_kworker env s op fd d h)"
| "file_worker env now s (C_recv op fd n flags) h = Some (mattx_recvfrom_kworker env s op fd n flags h)"
| "file_worker env now s (C_accept op fd flags) h = Some (mattx_accept_kworker env s op fd flags h)"
| "file_worker env now s (C_poll op n t ps) h = mattx_poll_worker env now s op n t ps h"
| "file_worker env now s (C_sendmsg op fd flags al dl a d) h = Some (mattx_sendmsg_kworker env s op fd al a d h)"
| "file_worker env now s (C_recvmsg op fd flags al dl) h = Some (mattx_recvmsg_kworker env s op fd flags al dl h)"
| "file_worker env now s (C_pread64 op fd n pos) h = Some (mattx_pread64_kworker env s op fd n pos h)"
| "file_worker env now s q h = None"

text \<open>A session: workers run one after the other; one that has not finished leaves no trace yet.\<close>

fun serve_calls :: "(host \<times> nat \<times> u32 \<times> sys_req) list \<Rightarrow> home \<Rightarrow> home \<times> deed list" where
  "serve_calls [] h = (h, [])"
| "serve_calls ((env, now, s, q) # qs) h =
     (case file_worker env now s q h of None \<Rightarrow> serve_calls qs h
      | Some (h', ds) \<Rightarrow> (case serve_calls qs h' of (h'', ds') \<Rightarrow> (h'', ds @ ds')))"

section \<open>File references\<close>

definition tab_files :: "fdtable \<Rightarrow> filep multiset" where
  "tab_files t = mset (List.map_filter (fd_file t) [0..<fd_max t])"

definition exp_files :: "mattx_export_info \<Rightarrow> filep multiset" where
  "exp_files e = mset (List.map_filter (e_remote_files e) [0..<MAX_FDS])"

definition held :: "home \<Rightarrow> filep multiset" where
  "held h = (\<Sum>t\<leftarrow>ftabs h. tab_files t) + (\<Sum>e\<leftarrow>entries (h_exports h). exp_files e)"

primrec gain :: "deed \<Rightarrow> filep multiset" where
  "gain (Fget f) = {#f#}" | "gain (Fnew f) = {#f#}" | "gain (Fdrop f) = {#}" | "gain (Tget p) = {#}"
| "gain (Tput p) = {#}" | "gain (Send s r) = {#}" | "gain (Add_work p s q) = {#}" | "gain (Wake p) = {#}"
| "gain (Freeze p) = {#}" | "gain (Wild i) = {#}" | "gain Null_link = {#}" | "gain Crash = {#}" | "gain Release_sock = {#}"

primrec loss :: "deed \<Rightarrow> filep multiset" where
  "loss (Fget f) = {#}" | "loss (Fnew f) = {#}" | "loss (Fdrop f) = {#f#}" | "loss (Tget p) = {#}"
| "loss (Tput p) = {#}" | "loss (Send s r) = {#}" | "loss (Add_work p s q) = {#}" | "loss (Wake p) = {#}"
| "loss (Freeze p) = {#}" | "loss (Wild i) = {#}" | "loss Null_link = {#}" | "loss Crash = {#}" | "loss Release_sock = {#}"

definition gained :: "deed list \<Rightarrow> filep multiset" where "gained ds = (\<Sum>d\<leftarrow>ds. gain d)"
definition lost :: "deed list \<Rightarrow> filep multiset" where "lost ds = (\<Sum>d\<leftarrow>ds. loss d)"

definition home_ok :: "home \<Rightarrow> bool" where
  "home_ok h \<longleftrightarrow> (\<forall>p a. files_of p h = Some a \<longrightarrow> a < length (ftabs h))"

lemma flow_simps [simp]:
  "gained [] = {#}" "lost [] = {#}"
  "gained (d # ds) = gain d + gained ds" "lost (d # ds) = loss d + lost ds"
  "gained (xs @ ys) = gained xs + gained ys" "lost (xs @ ys) = lost xs + lost ys"
  "gained (with_task p h ds) = gained ds" "lost (with_task p h ds) = lost ds"
  "gained (respond s r h) = {#}" "lost (respond s r h) = {#}"
  by (simp_all add: gained_def lost_def with_task_def respond_def)

lemma got_flow [simp]:
  "gained (got f) = (case f of None \<Rightarrow> {#} | Some x \<Rightarrow> {#x#})" "lost (got f) = {#}"
  "lost (dropped f) = (case f of None \<Rightarrow> {#} | Some x \<Rightarrow> {#x#})" "gained (dropped f) = {#}"
  by (simp_all add: got_def dropped_def split: option.split)

lemma export_slot_flow: "export_slot p s r = (f, w) \<Longrightarrow> gained w = {#} \<and> lost w = {#}"
  by (auto simp: export_slot_def split: option.splits if_splits)

text \<open>Fetching a file takes one reference to it, and nothing else.\<close>

lemma fetch_flow:
  assumes "mattx_get_remote_file op fd h = (f, e)"
  shows "gained e = (case f of None \<Rightarrow> {#} | Some x \<Rightarrow> {#x#})" "lost e = {#}"
  using assms export_slot_flow by (auto simp: mattx_get_remote_file_def split: if_splits prod.splits option.split)

lemma fetch_unsigned_flow: "fetch_unsigned op fd h = (f, w) \<Longrightarrow> gained w = {#} \<and> lost w = {#}"
  using export_slot_flow by (auto simp: fetch_unsigned_def split: if_splits)

lemma poll_file_flow:
  assumes "poll_file op fd h = (f, e)"
  shows "gained e = (case f of None \<Rightarrow> {#} | Some x \<Rightarrow> {#x#})" "lost e = {#}"
  using assms export_slot_flow by (auto simp: poll_file_def split: if_splits prod.splits option.split)

lemma poll_round_flow: "poll_round m op ps h = (qs, n, e) \<Longrightarrow> gained e = lost e"
proof (induction ps arbitrary: qs n e)
  case (Cons p ps)
  obtain qs' n' e' where r: "poll_round m op ps h = (qs', n', e')" by (metis prod_cases3)
  obtain f w where f: "poll_file op (p_fd p) h = (f, w)" by fastforce
  show ?case using Cons.prems Cons.IH [OF r] r f poll_file_flow [OF f] by (auto simp: Let_def split: option.splits)
qed simp

lemma poll_loop_flow: "poll_loop rs expire op ps h = Some (err, ret, qs, e) \<Longrightarrow> gained e = lost e"
proof (induction rs expire op ps h arbitrary: err ret qs e rule: poll_loop.induct)
  case (2 m now rounds expire op ps h)
  obtain ps' n w where r: "poll_round m op ps h = (ps', n, w)" by (metis prod_cases3)
  note w = poll_round_flow [OF r]
  have IH: "gained e' = lost e'" if "poll_loop rounds expire op ps' h = Some (err', ret', qs', e')"
      "deputy_exported op (h_exports h)" "\<not> 0 < n" "\<not> (case expire of Some t \<Rightarrow> t < now | None \<Rightarrow> False)" for err' ret' qs' e'
    using "2.IH" that r by (metis (no_types, lifting))
  show ?case using "2.prems" w IH by (auto simp: r split: if_splits option.splits)
qed simp

subsection \<open>What a worker does to the tables\<close>

lemma sum_list_update:
  "a < length xs \<Longrightarrow> (\<Sum>x\<leftarrow>xs[a := y]. f x) + f (xs ! a) = (\<Sum>x\<leftarrow>xs. f x) + (f y :: 'b :: comm_monoid_add)"
proof (induction xs arbitrary: a)
  case (Cons x xs)
  show ?case
  proof (cases a)
    case (Suc b)
    then have "(\<Sum>x\<leftarrow>xs[b := y]. f x) + f (xs ! b) = (\<Sum>x\<leftarrow>xs. f x) + f y" using Cons by simp
    then show ?thesis using Suc by (simp add: add.assoc)
  qed (simp add: ac_simps)
qed simp

lemma exchange:
  fixes A :: "'a multiset"
  assumes "A + t = H + t'" "t' + old = t + new"
  shows "A + old = H + new"
proof -
  have "(A + old) + t = (A + t) + old" by (simp only: ac_simps)
  also have "\<dots> = H + (t' + old)" by (simp only: assms(1) add.assoc)
  also have "\<dots> = H + (t + new)" by (simp only: assms(2))
  also have "\<dots> = (H + new) + t" by (simp only: ac_simps)
  finally show ?thesis by simp
qed

lemma mset_map_filter_add:
  assumes "distinct xs" "i \<in> set xs"
  shows "mset (List.map_filter (t(i := v)) xs) + (case t i of None \<Rightarrow> {#} | Some x \<Rightarrow> {#x#}) =
    mset (List.map_filter t xs) + (case v of None \<Rightarrow> {#} | Some x \<Rightarrow> {#x#})"
proof -
  obtain ys zs where xs: "xs = ys @ i # zs" using assms(2) by (meson split_list)
  then have "i \<notin> set ys" "i \<notin> set zs" using assms(1) by auto
  then show ?thesis
    by (simp add: xs map_filter_append map_filter_simps map_filter_upd_out split: option.split)
qed

lemma tab_files_install:
  assumes "j < fd_max t"
  shows "tab_files (install j f t) + (case fd_file t j of None \<Rightarrow> {#} | Some x \<Rightarrow> {#x#}) = tab_files t + {#f#}"
  using mset_map_filter_add [of "[0..<fd_max t]" j "fd_file t" "Some f"] assms
  by (simp add: tab_files_def install_def)

lemma tab_files_uninstall:
  assumes "j < fd_max t"
  shows "tab_files (uninstall j t) + (case fd_file t j of None \<Rightarrow> {#} | Some x \<Rightarrow> {#x#}) = tab_files t"
  using mset_map_filter_add [of "[0..<fd_max t]" j "fd_file t" None] assms
  by (simp add: tab_files_def uninstall_def)

lemma held_set_tab:
  "a < length (ftabs h) \<Longrightarrow> held (set_tab a t h) + tab_files (ftabs h ! a) = held h + tab_files t"
  using sum_list_update [of a "ftabs h" tab_files t] by (simp add: held_def set_tab_def)

lemma held_install:
  assumes "a < length (ftabs h)" "j < fd_max (ftabs h ! a)"
  shows "held (set_tab a (install j f (ftabs h ! a)) h) +
      (case fd_file (ftabs h ! a) j of None \<Rightarrow> {#} | Some x \<Rightarrow> {#x#}) = held h + {#f#}"
  by (rule exchange [OF held_set_tab [OF assms(1)] tab_files_install [OF assms(2)]])

lemma held_uninstall:
  assumes "a < length (ftabs h)" "j < fd_max (ftabs h ! a)" "fd_file (ftabs h ! a) j = Some f"
  shows "held (set_tab a (uninstall j (ftabs h ! a)) h) + {#f#} = held h"
  using exchange [OF held_set_tab [OF assms(1), of "uninstall j (ftabs h ! a)"], of "{#f#}" "{#}"]
    tab_files_uninstall [OF assms(2)] assms(3) by simp

lemma free_fd_spec: "free_fd t = Some j \<longleftrightarrow> 3 \<le> j \<and> j < fd_max t \<and> fd_file t j = None \<and> (\<forall>i. 3 \<le> i \<and> i < j \<longrightarrow> fd_file t i \<noteq> None)"
  by (simp add: free_fd_def scan_from_Some)

lemma inject_held:
  assumes "inject p f h = Some (j, h')" "home_ok h"
  shows "held h' = held h + {#f#}"
proof -
  obtain a where a: "files_of p h = Some a" "free_fd (ftabs h ! a) = Some j"
      "h' = set_tab a (install j f (ftabs h ! a)) h"
    using assms(1) by (auto simp: inject_def split: option.splits)
  moreover have "a < length (ftabs h)" using assms(2) a(1) by (auto simp: home_ok_def)
  ultimately show ?thesis using held_install [of a h j f] by (simp add: free_fd_spec)
qed

lemma held_clear_export:
  assumes "export_slot op s (h_exports h) = (Some f, w)"
  shows "held (h\<lparr>h_exports := clear_export_slot op s (h_exports h)\<rparr>) + {#f#} = held h"
proof -
  obtain i where i: "scan (\<lambda>i. e_orig_pid (slots (h_exports h) i) = op) (cnt (h_exports h)) = Some i"
      "nat s < MAX_FDS" "e_remote_files (slots (h_exports h) i) (nat s) = Some f"
    using assms by (auto simp: export_slot_def split: option.splits if_splits)
  let ?e = "slots (h_exports h) i" and ?g = "\<lambda>e. e\<lparr>e_remote_files := (e_remote_files e)(nat s := None)\<rparr>"
  have lt: "i < cnt (h_exports h)" using scan_SomeD(1) [OF i(1)] .
  have "exp_files (?g ?e) + {#f#} = exp_files ?e"
    using mset_map_filter_add [of "[0..<MAX_FDS]" "nat s" "e_remote_files ?e" None] i(2,3) by (simp add: exp_files_def)
  moreover have "(\<Sum>e\<leftarrow>(entries (h_exports h))[i := ?g ?e]. exp_files e) + exp_files ?e =
      (\<Sum>e\<leftarrow>entries (h_exports h). exp_files e) + exp_files (?g ?e)"
    using sum_list_update [of i "entries (h_exports h)" exp_files "?g ?e"] lt by simp
  ultimately have "(\<Sum>e\<leftarrow>(entries (h_exports h))[i := ?g ?e]. exp_files e) + {#f#} = (\<Sum>e\<leftarrow>entries (h_exports h). exp_files e)"
    using exchange [of _ "exp_files ?e" _ "exp_files (?g ?e)" "{#f#}" "{#}"] by simp
  then show ?thesis using i(1) by (simp add: held_def clear_export_slot_def entries_upd_slot add.assoc)
qed

lemma held_same [simp]: "held (h\<lparr>f_pos := x\<rparr>) = held h"
  by (simp add: held_def)

lemma out_flow [simp]:
  "gained (if c then [Send s r] else [Null_link]) = {#}" "lost (if c then [Send s r] else [Null_link]) = {#}"
  by simp_all

text \<open>Every worker balances: what it takes and makes, it drops or leaves in a table.\<close>

definition balanced :: "home \<Rightarrow> home \<times> deed list \<Rightarrow> bool" where
  "balanced h out \<longleftrightarrow> held h + gained (snd out) = held (fst out) + lost (snd out)"

lemma balanced_pair: "balanced h (h', ds) \<longleftrightarrow> held h + gained ds = held h' + lost ds"
  by (simp add: balanced_def)

lemma on_socket_flow: "on_socket env op fd h call = (r, e) \<Longrightarrow> gained e = lost e"
  using fetch_flow [of op fd h] by (auto simp: on_socket_def split: prod.splits option.splits)

lemma native_in_table:
  "native_file op fd h = Some f \<Longrightarrow> \<exists>a. files_of op h = Some a \<and> fd < fd_max (ftabs h ! a) \<and> fd_file (ftabs h ! a) fd = Some f"
  by (auto simp: native_file_def split: option.splits if_splits)

lemma balanced_direct:
  "balanced h (handle_syscall_fwd env payload h)" "balanced h (handle_sys_read_req env s payload' h)"
  using fetch_unsigned_flow
  by (auto simp: handle_syscall_fwd_def handle_sys_read_req_def balanced_pair Let_def
      split: option.split prod.split)

lemma balanced_close: "home_ok h \<Longrightarrow> balanced h (handle_sys_close_req payload h)"
  using held_clear_export export_slot_flow native_in_table held_uninstall
  by (fastforce simp: handle_sys_close_req_def balanced_pair home_ok_def native_file_def split: option.split prod.split if_splits)

lemma balanced_simple:
  "balanced h (mattx_lseek_kworker env s op fd off w h)" "balanced h (mattx_fsync_kworker env s op fd a b d h)"
  "balanced h (mattx_statx_kworker env s op fd m fl h)" "balanced h (mattx_pread64_kworker env s op fd' n pos h)"
  using fetch_flow [of op _ h]
  by (auto simp: mattx_lseek_kworker_def mattx_fsync_kworker_def mattx_statx_kworker_def mattx_pread64_kworker_def
      balanced_pair Let_def split: option.split prod.split)

lemma balanced_inject:
  assumes "home_ok h"
  shows "balanced h (mattx_open_kworker env s op flags mode name h)"
    and "balanced h (mattx_socket_kworker env s op d ty pr h)"
    and "balanced h (mattx_accept_kworker env s op fd flags h)"
  using inject_held [OF _ assms] fetch_flow [of op "sint fd" h]
  by (auto simp: mattx_open_kworker_def mattx_socket_kworker_def mattx_accept_kworker_def balanced_pair Let_def
      split: option.split prod.split sum.split)

lemma balanced_dup:
  assumes "home_ok h"
  shows "balanced h (mattx_dup_kworker env s op old new h)"
proof -
  obtain f e where f: "mattx_get_remote_file op (sint old) h = (f, e)" by fastforce
  note flow = fetch_flow [OF f]
  show ?thesis
  proof (cases "f = None \<or> files_of op h = None")
    case True
    then show ?thesis using f flow by (auto simp: mattx_dup_kworker_def balanced_pair Let_def split: option.split)
  next
    case False
    then obtain x a where x: "f = Some x" "files_of op h = Some a" by auto
    then have a: "a < length (ftabs h)" using assms by (auto simp: home_ok_def)
    have held: "held (set_tab a (install (nat k) x (ftabs h ! a)) h) +
        (case fd_file (ftabs h ! a) (nat k) of None \<Rightarrow> {#} | Some x \<Rightarrow> {#x#}) = held h + {#x#}"
      if "0 \<le> k" "k < int (fd_max (ftabs h ! a))" for k
      using held_install [OF a, of "nat k" x] that by simp
    show ?thesis using f flow x held by (auto simp: mattx_dup_kworker_def balanced_pair Let_def)
  qed
qed

lemma balanced_sockets:
  "balanced h (mattx_bind_kworker env s op fd a l h)" "balanced h (mattx_listen_kworker env s op fd b h)"
  "balanced h (mattx_sendto_kworker env s op fd d h)" "balanced h (mattx_sendmsg_kworker env s op fd' al a d h)"
  "balanced h (mattx_recvfrom_kworker env s op fd n flags h)" "balanced h (mattx_recvmsg_kworker env s op fd' flags al dl h)"
  using on_socket_flow fetch_flow [of op _ h]
  by (auto simp: mattx_bind_kworker_def mattx_listen_kworker_def mattx_sendto_kworker_def mattx_sendmsg_kworker_def
      mattx_recvfrom_kworker_def mattx_recvmsg_kworker_def balanced_pair Let_def split: option.split prod.split)

lemma balanced_waiting:
  "mattx_connect_kworker env s op fd a l h = Some out \<Longrightarrow> balanced h out"
  "mattx_poll_worker env now s op n t ps h = Some out \<Longrightarrow> balanced h out"
  using fetch_flow [of op _ h] poll_loop_flow
  by (auto simp: mattx_connect_kworker_def mattx_poll_worker_def balanced_def Let_def split: option.splits prod.splits if_splits)

lemma file_worker_balanced:
  assumes "file_worker env now s q h = Some out" "home_ok h"
  shows "balanced h out"
  using assms balanced_direct balanced_close balanced_simple balanced_inject balanced_dup balanced_sockets balanced_waiting
  by (cases q) auto

subsection \<open>The shape of the tables\<close>

definition same_shape :: "home \<Rightarrow> home \<Rightarrow> bool" where
  "same_shape h h' \<longleftrightarrow> tasks h' = tasks h \<and> h_links h' = h_links h \<and> map fd_max (ftabs h') = map fd_max (ftabs h)"

text \<open>The bitmap of open descriptors agrees with the file pointers.\<close>

definition tab_ok :: "fdtable \<Rightarrow> bool" where
  "tab_ok t \<longleftrightarrow> (\<forall>j<fd_max t. fd_open t j = (fd_file t j \<noteq> None))"

definition tabs_ok :: "home \<Rightarrow> bool" where
  "tabs_ok h \<longleftrightarrow> (\<forall>t\<in>set (ftabs h). tab_ok t)"

definition keeps_shape :: "home \<Rightarrow> home \<times> deed list \<Rightarrow> bool" where
  "keeps_shape h out \<longleftrightarrow> same_shape h (fst out) \<and> (tabs_ok h \<longrightarrow> tabs_ok (fst out))"

lemma keeps_refl [simp]:
  "keeps_shape h (h, ds)" "keeps_shape h (h\<lparr>f_pos := x\<rparr>, ds)" "keeps_shape h (h\<lparr>h_exports := r\<rparr>, ds)"
  by (simp_all add: keeps_shape_def same_shape_def tabs_ok_def)

lemma keeps_set_tab:
  assumes "home_ok h" "files_of op h = Some a"
  shows "keeps_shape h (set_tab a (install j f (ftabs h ! a)) h, ds)" "keeps_shape h (set_tab a (uninstall j (ftabs h ! a)) h, ds)"
proof -
  have a: "a < length (ftabs h)" using assms by (auto simp: home_ok_def)
  have m: "map fd_max ((ftabs h)[a := t]) = map fd_max (ftabs h)" if "fd_max t = fd_max (ftabs h ! a)" for t
    using a that by (simp add: map_update list_update_same_conv)
  have t: "tab_ok (ftabs h ! a)" if "tabs_ok h" using that a by (simp add: tabs_ok_def)
  have "tab_ok t \<Longrightarrow> tab_ok (install j f t)" "tab_ok t \<Longrightarrow> tab_ok (uninstall j t)" for t
    by (simp_all add: tab_ok_def install_def uninstall_def)
  then show "keeps_shape h (set_tab a (install j f (ftabs h ! a)) h, ds)" "keeps_shape h (set_tab a (uninstall j (ftabs h ! a)) h, ds)"
    using t m by (auto simp: keeps_shape_def same_shape_def set_tab_def tabs_ok_def install_def uninstall_def
        dest!: subsetD [OF set_update_subset_insert])
qed

lemma keeps_inject: "inject p f h = Some (j, h') \<Longrightarrow> home_ok h \<Longrightarrow> keeps_shape h (h', ds)"
  by (auto simp: inject_def keeps_set_tab split: option.splits)

lemma file_worker_shape:
  assumes "file_worker env now s q h = Some out" "home_ok h"
  shows "keeps_shape h out"
proof -
  have "keeps_shape h (handle_syscall_fwd env p h)" "keeps_shape h (handle_sys_read_req env s p' h)" for p p'
    by (auto simp: handle_syscall_fwd_def handle_sys_read_req_def Let_def split: option.split prod.split)
  moreover have "keeps_shape h (handle_sys_close_req p h)" for p
    using keeps_set_tab [OF assms(2)] by (auto simp: handle_sys_close_req_def split: option.split prod.split)
  moreover have "keeps_shape h (mattx_lseek_kworker env s op fd off w h)" "keeps_shape h (mattx_fsync_kworker env s op fd a b d h)"
    "keeps_shape h (mattx_statx_kworker env s op fd m fl h)" "keeps_shape h (mattx_pread64_kworker env s op fd' n pos h)" for op fd fd' off w a b d m fl n pos
    by (auto simp: mattx_lseek_kworker_def mattx_fsync_kworker_def mattx_statx_kworker_def mattx_pread64_kworker_def Let_def
        split: option.split prod.split)
  moreover have "keeps_shape h (mattx_open_kworker env s op flags mode name h)" "keeps_shape h (mattx_socket_kworker env s op d ty pr h)"
    "keeps_shape h (mattx_accept_kworker env s op fd flags h)" "keeps_shape h (mattx_dup_kworker env s op old new h)" for op flags mode name d ty pr fd old new
    using keeps_inject [OF _ assms(2)] keeps_set_tab [OF assms(2)]
    by (auto simp: mattx_open_kworker_def mattx_socket_kworker_def mattx_accept_kworker_def mattx_dup_kworker_def Let_def
        split: option.split prod.split sum.split)
  moreover have "keeps_shape h (mattx_bind_kworker env s op fd a l h)" "keeps_shape h (mattx_listen_kworker env s op fd b h)"
    "keeps_shape h (mattx_sendto_kworker env s op fd d h)" "keeps_shape h (mattx_sendmsg_kworker env s op fd' al a d h)"
    "keeps_shape h (mattx_recvfrom_kworker env s op fd n flags h)" "keeps_shape h (mattx_recvmsg_kworker env s op fd' flags al dl h)" for op fd a l b d fd' al n flags dl
    by (auto simp: mattx_bind_kworker_def mattx_listen_kworker_def mattx_sendto_kworker_def mattx_sendmsg_kworker_def
        mattx_recvfrom_kworker_def mattx_recvmsg_kworker_def Let_def split: option.split prod.split)
  moreover have "mattx_connect_kworker env s op fd a l h = Some out \<Longrightarrow> keeps_shape h out"
    "mattx_poll_worker env now s op n t ps h = Some out \<Longrightarrow> keeps_shape h out" for op fd a l n t ps
    by (auto simp: mattx_connect_kworker_def mattx_poll_worker_def Let_def split: option.splits prod.splits if_splits)
  ultimately show ?thesis using assms(1) by (cases q) auto
qed

section \<open>Files are conserved\<close>

lemma keeps_home_ok: "keeps_shape h (h', ds) \<Longrightarrow> home_ok h \<Longrightarrow> home_ok h'"
  by (auto simp: keeps_shape_def same_shape_def home_ok_def files_of_def dest!: map_eq_imp_length_eq split: option.splits)

lemma serve_calls_shape:
  "home_ok h \<Longrightarrow> serve_calls qs h = (h', ds) \<Longrightarrow> keeps_shape h (h', ds)"
proof (induction qs h arbitrary: h' ds rule: serve_calls.induct)
  case (2 env now s q qs h)
  show ?case
  proof (cases "file_worker env now s q h")
    case None
    then show ?thesis using 2 by simp
  next
    case (Some out)
    obtain h1 d1 where o: "out = (h1, d1)" by fastforce
    obtain h2 d2 where r: "serve_calls qs h1 = (h2, d2)" by fastforce
    have k: "keeps_shape h (h1, d1)" using file_worker_shape [OF Some "2.prems"(1)] o by simp
    have "keeps_shape h1 (h2, d2)" using "2.IH"(2) [OF Some o [symmetric] keeps_home_ok [OF k "2.prems"(1)] r] .
    with k "2.prems"(2) Some o r show ?thesis by (auto simp: keeps_shape_def same_shape_def)
  qed
qed simp

lemma serve_calls_balanced:
  "home_ok h \<Longrightarrow> serve_calls qs h = (h', ds) \<Longrightarrow> balanced h (h', ds)"
proof (induction qs h arbitrary: h' ds rule: serve_calls.induct)
  case (2 env now s q qs h)
  show ?case
  proof (cases "file_worker env now s q h")
    case None
    then show ?thesis using 2 by simp
  next
    case (Some out)
    obtain h1 d1 where o: "out = (h1, d1)" by fastforce
    obtain h2 d2 where r: "serve_calls qs h1 = (h2, d2)" by fastforce
    have ok: "home_ok h1" using keeps_home_ok file_worker_shape [OF Some "2.prems"(1)] "2.prems"(1) o by blast
    have "balanced h (h1, d1)" using file_worker_balanced [OF Some "2.prems"(1)] o by simp
    moreover have "balanced h1 (h2, d2)" using "2.IH"(2) [OF Some o [symmetric] ok r] .
    ultimately have "held h + gained d1 = held h1 + lost d1" "held h1 + gained d2 = held h2 + lost d2"
      by (simp_all add: balanced_pair)
    then have "held h + (gained d1 + gained d2) = held h2 + (lost d1 + lost d2)"
      by (metis add.assoc add.commute)
    then show ?thesis using "2.prems"(2) Some o r by (auto simp: balanced_pair)
  qed
qed (simp add: balanced_pair)

text \<open>
  C10. No forwarded call leaks or over-releases a file of a deputy. Over any sequence of
  forwarded calls (writes, opens, closes, reads, seeks, status, duplications, syncs, socket
  calls and polls), by any guests and whatever the kernel answers, the references held by
  descriptor tables and export slots before, plus those taken and the files made, are exactly
  those held after plus those dropped, for each file and with multiplicities.
\<close>

theorem deputy_files_conserved:
  assumes "home_ok h" and "serve_calls qs h = (h', ds)"
  shows "held h + gained ds = held h' + lost ds"
  using serve_calls_balanced [OF assms] by (simp add: balanced_pair)

definition demo_host :: host where
  "demo_host = \<lparr>h_mem = (\<lambda>_. True), h_filp_open = (\<lambda>_ _ _ _. Inr 30), h_read = (\<lambda>_ f n pos. (2, [1, 2], pos + 2)),
     h_write = (\<lambda>_ f d pos. (int (length d), pos + int (length d))), h_llseek = (\<lambda>f off w pos. (off, off)),
     h_fsync = (\<lambda>_ _ _ _. 0), h_getattr = (\<lambda>_ _ _. (0, [7])), h_sock_create = (\<lambda>_ _ _. 0), h_sock_file = (\<lambda>_. Inr 31),
     h_is_sock = (\<lambda>f. f = 13), h_nonblock = (\<lambda>_. False), h_bind = (\<lambda>_ _ _. 0), h_connect = (\<lambda>_ _ _. - EINPROGRESS),
     h_sock_error = (\<lambda>_. Some (- ECONNREFUSED)), h_listen = (\<lambda>_ _. 0), h_sendmsg = (\<lambda>_ _ d. int (length d)),
     h_recvmsg = (\<lambda>_ _ _ _. (1, [5], [], 0)), h_accept = (\<lambda>_ _. (- EAGAIN, False)), h_peername = (\<lambda>_. (0, [])),
     h_stack = 0xDEAD, h_sock_ready = [False, True], h_poll = [((\<lambda>_. 1), 0)], h_busy = False\<rparr>"

definition demo_tab :: fdtable where
  "demo_tab = \<lparr>fd_max = 6, fd_file = [0 \<mapsto> 10, 1 \<mapsto> 11, 2 \<mapsto> 12, 3 \<mapsto> 13], fd_open = (\<lambda>j. j < 4)\<rparr>"

definition demo_home :: home where
  "demo_home = \<lparr>tasks = [100 \<mapsto> \<lparr>t_files = Some 0, t_fs = 1, t_cred = 2, t_mm = Some 3, t_nsproxy = 4, t_sp = 0x8000\<rparr>],
     ftabs = [demo_tab], f_pos = (\<lambda>_. 0), h_exports = demo_exports, h_links = (\<lambda>n. n = 3)\<rparr>"

lemma demo_home_ok: "home_ok demo_home"
  by (auto simp: home_ok_def files_of_def demo_home_def split: if_splits)

lemma demo_exports_empty: "exp_files (slots demo_exports i) = {#}"
  by (simp add: exp_files_def demo_exports_def map_filter_def)

lemma demo_held: "held demo_home = {#10, 11, 12, 13#}"
proof -
  have "(\<Sum>e\<leftarrow>entries (h_exports demo_home). exp_files e) = {#}"
    by (simp add: demo_home_def entries_def demo_exports_empty comp_def)
  moreover have "tab_files demo_tab = {#10, 11, 12, 13#}"
    by (simp add: tab_files_def demo_tab_def upt_rec map_filter_simps)
  ultimately show ?thesis by (simp add: held_def) (simp add: demo_home_def)
qed

text \<open>An open, a close of the socket that was open as 3, and a read of a descriptor nobody has.\<close>

definition demo_calls :: "(host \<times> nat \<times> u32 \<times> sys_req) list" where
  "demo_calls = map (\<lambda>q. (demo_host, 0, 3, q)) [C_open 100 0 0 ''f'', C_close 100 3, C_read 100 5 9]"

lemma demo_files_of: "files_of 100 demo_home = Some 0" "files_of 100 (set_tab 0 t demo_home) = Some 0"
  "ftabs (set_tab 0 t demo_home) ! 0 = t" "set_tab 0 t' (set_tab 0 t demo_home) = set_tab 0 t' demo_home"
  by (simp_all add: files_of_def set_tab_def demo_home_def)

lemma demo_free: "free_fd demo_tab = Some 4"
proof -
  have "fd_file demo_tab i \<noteq> None" if "3 \<le> i" "i < 4" for i
    using that by (simp add: demo_tab_def)
  then show ?thesis by (simp add: free_fd_spec demo_tab_def)
qed

lemma demo_session:
  "serve_calls demo_calls demo_home = (set_tab 0 (uninstall 3 (install 4 30 demo_tab)) demo_home,
     [Tget 100, Fnew 30, Tput 100, Send 3 (A_fd MATTX_MSG_SYS_OPEN_REPLY 100 4 0), Tget 100, Tput 100, Fdrop 13,
      Tget 100, Tput 100, Send 3 (A_data MATTX_MSG_SYS_READ_REPLY 100 (- 9) (- 9) [])])"
proof -
  let ?t1 = "install 4 30 demo_tab" and ?t2 = "uninstall 3 (install 4 30 demo_tab)"
  let ?h1 = "set_tab 0 ?t1 demo_home" and ?h2 = "set_tab 0 ?t2 demo_home"
  have k: "tasks (set_tab 0 t demo_home) = tasks demo_home" "h_links (set_tab 0 t demo_home) 3" "h_links demo_home 3"
    "tasks demo_home 100 \<noteq> None" for t by (simp_all add: set_tab_def demo_home_def)
  have "inject 100 30 demo_home = Some (4, ?h1)"
    using demo_free by (simp add: inject_def demo_files_of) (simp add: demo_home_def)
  then have o: "mattx_open_kworker demo_host 3 100 0 0 ''f'' demo_home =
      (?h1, [Tget 100, Fnew 30, Tput 100, Send 3 (A_fd MATTX_MSG_SYS_OPEN_REPLY 100 4 0)])"
    using k by (auto simp: mattx_open_kworker_def demo_host_def respond_def)
  have "native_file 100 3 ?h1 = Some 13"
    by (simp add: native_file_def demo_files_of) (simp add: install_def demo_tab_def)
  then have c: "handle_sys_close_req (Some (100, 3)) ?h1 = (?h2, [Tget 100, Tput 100, Fdrop 13])"
    using k by (simp add: handle_sys_close_req_def demo_files_of with_task_def)
  have "native_file 100 5 ?h2 = None"
    by (simp add: native_file_def demo_files_of) (simp add: install_def uninstall_def demo_tab_def)
  then have r: "handle_sys_read_req demo_host 3 (Some (100, 5, 9)) ?h2 =
      (?h2, [Tget 100, Tput 100, Send 3 (A_data MATTX_MSG_SYS_READ_REPLY 100 (- 9) (- 9) [])])"
    using k by (simp add: handle_sys_read_req_def fetch_unsigned_def with_task_def)
  show ?thesis by (simp add: demo_calls_def o c r)
qed

theorem deputy_files_conserved_witness:
  "held (fst (serve_calls demo_calls demo_home)) = {#10, 11, 12, 30#}"
proof -
  have "held demo_home + gained (snd (serve_calls demo_calls demo_home)) =
      held (fst (serve_calls demo_calls demo_home)) + lost (snd (serve_calls demo_calls demo_home))"
    by (rule deputy_files_conserved [OF demo_home_ok prod.collapse [symmetric]])
  then have "{#10, 11, 12, 30#} + {#13#} = held (fst (serve_calls demo_calls demo_home)) + {#13#}"
    by (simp add: demo_held demo_session add_mset_commute)
  then show ?thesis by (simp only: add_right_cancel)
qed

text \<open>
  C35. The descriptor tables stay well formed. Over any sequence of forwarded calls a bit of
  the bitmap of open descriptors is set exactly where a file is installed, the tables keep
  their number and sizes, and deputies keep their tables.
\<close>

theorem deputy_tables_typed:
  assumes "home_ok h" and "tabs_ok h" and "serve_calls qs h = (h', ds)"
  shows "home_ok h' \<and> tabs_ok h' \<and> tasks h' = tasks h \<and> map fd_max (ftabs h') = map fd_max (ftabs h)"
  using serve_calls_shape [OF assms(1,3)] keeps_home_ok [OF serve_calls_shape [OF assms(1,3)] assms(1)] assms(2)
  by (simp add: keeps_shape_def same_shape_def)

lemma demo_tabs_ok: "tabs_ok demo_home"
  by (auto simp: tabs_ok_def tab_ok_def demo_home_def demo_tab_def less_Suc_eq numeral_eq_Suc)

theorem deputy_tables_typed_witness:
  "tab_ok (ftabs (fst (serve_calls demo_calls demo_home)) ! 0) \<and> fd_max (ftabs (fst (serve_calls demo_calls demo_home)) ! 0) = 6"
proof -
  let ?h = "fst (serve_calls demo_calls demo_home)"
  have t: "tabs_ok ?h" "map fd_max (ftabs ?h) = map fd_max (ftabs demo_home)"
    using deputy_tables_typed [OF demo_home_ok demo_tabs_ok prod.collapse [symmetric], of demo_calls] by simp_all
  have len: "length (ftabs ?h) = 1" using map_eq_imp_length_eq [OF t(2)] by (simp add: demo_home_def)
  then have "fd_max (ftabs ?h ! 0) = fd_max (ftabs demo_home ! 0)" using arg_cong [OF t(2), of "\<lambda>xs. xs ! 0"]
    by (simp add: demo_home_def)
  then show ?thesis using t(1) len by (simp add: tabs_ok_def demo_home_def demo_tab_def)
qed

section \<open>Every call is answered\<close>

definition sends :: "deed list \<Rightarrow> (u32 \<times> sys_reply) list" where
  "sends ds = List.map_filter (\<lambda>d. case d of Send s r \<Rightarrow> Some (s, r) | _ \<Rightarrow> None) ds"

lemma sends_simps [simp]:
  "sends [] = []" "sends (xs @ ys) = sends xs @ sends ys"
  "sends (d # ds) = (case d of Send s r \<Rightarrow> [(s, r)] | _ \<Rightarrow> []) @ sends ds"
  "sends (with_task p h ds) = sends ds" "sends (got f) = []" "sends (dropped f) = []"
  "sends (respond s r h) = (if h_links h s then [(s, r)] else [])"
  by (auto simp: sends_def map_filter_append map_filter_simps with_task_def got_def dropped_def respond_def
      split: deed.split option.split)

lemma fetch_sends:
  "export_slot p sl r = (f, w) \<Longrightarrow> sends w = []" "mattx_get_remote_file op fd h = (f, e) \<Longrightarrow> sends e = []"
  "fetch_unsigned op fd' h = (f, w) \<Longrightarrow> sends w = []" "poll_file op fd' h = (f, w) \<Longrightarrow> sends w = []"
  "on_socket env op fd h call = (ret, e) \<Longrightarrow> sends e = []"
proof -
  have x: "sends w = []" if "export_slot p sl r = (f, w)" for p sl r f w
    using that by (auto simp: export_slot_def split: option.splits if_splits)
  then show "export_slot p sl r = (f, w) \<Longrightarrow> sends w = []" .
  have g: "sends e = []" if "mattx_get_remote_file op fd h = (f, e)" for f e
    using that x by (auto simp: mattx_get_remote_file_def split: prod.splits if_splits)
  then show "mattx_get_remote_file op fd h = (f, e) \<Longrightarrow> sends e = []" .
  show "fetch_unsigned op fd' h = (f, w) \<Longrightarrow> sends w = []" "poll_file op fd' h = (f, w) \<Longrightarrow> sends w = []"
    using x by (auto simp: fetch_unsigned_def poll_file_def split: prod.splits if_splits)
  show "on_socket env op fd h call = (ret, e) \<Longrightarrow> sends e = []"
    using g by (auto simp: on_socket_def split: prod.splits option.splits)
qed

lemma poll_round_sends: "poll_round m op ps h = (qs, n, e) \<Longrightarrow> sends e = []"
proof (induction ps arbitrary: qs n e)
  case (Cons p ps)
  obtain qs' n' e' where r: "poll_round m op ps h = (qs', n', e')" by (metis prod_cases3)
  obtain f w where f: "poll_file op (p_fd p) h = (f, w)" by fastforce
  show ?case using Cons.prems Cons.IH [OF r] r f fetch_sends(4) [OF f] by (auto simp: Let_def split: option.splits)
qed simp

lemma poll_loop_sends: "poll_loop rs expire op ps h = Some (err, ret, qs, e) \<Longrightarrow> sends e = []"
proof (induction rs expire op ps h arbitrary: err ret qs e rule: poll_loop.induct)
  case (2 m now rounds expire op ps h)
  obtain ps' n w where r: "poll_round m op ps h = (ps', n, w)" by (metis prod_cases3)
  have IH: "sends e' = []" if "poll_loop rounds expire op ps' h = Some (err', ret', qs', e')"
      "deputy_exported op (h_exports h)" "\<not> 0 < n" "\<not> (case expire of Some t \<Rightarrow> t < now | None \<Rightarrow> False)" for err' ret' qs' e'
    using "2.IH" that r by (metis (no_types, lifting))
  show ?case using "2.prems" poll_round_sends [OF r] IH by (auto simp: r split: if_splits option.splits)
qed simp

primrec req_pid :: "sys_req \<Rightarrow> u32" where
  "req_pid (C_write op _ _ _) = op" | "req_pid (C_open op _ _ _) = op" | "req_pid (C_close op _) = op"
| "req_pid (C_read op _ _) = op" | "req_pid (C_lseek op _ _ _) = op" | "req_pid (C_statx op _ _ _) = op"
| "req_pid (C_dup op _ _) = op" | "req_pid (C_fsync op _ _ _ _) = op" | "req_pid (C_socket op _ _ _) = op"
| "req_pid (C_connect op _ _ _) = op" | "req_pid (C_bind op _ _ _) = op" | "req_pid (C_listen op _ _) = op"
| "req_pid (C_send op _ _ _ _) = op" | "req_pid (C_recv op _ _ _) = op" | "req_pid (C_accept op _ _) = op"
| "req_pid (C_poll op _ _ _) = op" | "req_pid (C_epoll_create op _) = op" | "req_pid (C_epoll_ctl op _ _ _ _) = op"
| "req_pid (C_epoll_wait op _ _ _) = op" | "req_pid (C_sockname _ op _) = op" | "req_pid (C_setsockopt op _ _ _ _ _) = op"
| "req_pid (C_getsockopt op _ _ _ _) = op" | "req_pid (C_sendmsg op _ _ _ _ _ _) = op" | "req_pid (C_recvmsg op _ _ _ _) = op"
| "req_pid (C_uname op) = op" | "req_pid (C_prlimit64 op _ _ _ _ _) = op" | "req_pid (C_prctl op _ _ _ _ _) = op"
| "req_pid (C_fio _ op _ _ _ _ _) = op" | "req_pid (C_pread64 op _ _ _) = op" | "req_pid (C_statfs op _) = op"
| "req_pid (C_fstatfs op _) = op" | "req_pid (C_newfstatat op _ _ _) = op" | "req_pid (C_faccessat2 op _ _ _ _) = op"
| "req_pid (C_readlink op _ _) = op" | "req_pid (C_readlinkat op _ _ _) = op" | "req_pid (C_getdents64 op _ _) = op"
| "req_pid (C_pipe2 op _) = op" | "req_pid (C_shmget op _ _ _) = op" | "req_pid (C_shmat op _ _ _) = op"
| "req_pid (C_shmdt op _) = op" | "req_pid (C_shmctl op _ _) = op"

definition wants_answer :: "sys_req \<Rightarrow> bool" where
  "wants_answer q = (case q of C_write _ _ _ _ \<Rightarrow> False | C_close _ _ \<Rightarrow> False | _ \<Rightarrow> True)"

text \<open>The answer to a request: one message, back to the sender, of the matching type, for the same process.\<close>

definition answers :: "u32 \<Rightarrow> sys_req \<Rightarrow> deed list \<Rightarrow> bool" where
  "answers s q ds \<longleftrightarrow> (if wants_answer q
     then \<exists>r. sends ds = [(s, r)] \<and> reply_type r = req_type q + 1 \<and> reply_pid r = req_pid q
     else sends ds = [])"

lemma poll_answers:
  assumes "mattx_poll_worker env now s op n t ps h = Some (h', ds)" "h_links h s" "\<And>i. h_mem env i" "\<not> h_busy env"
  shows "\<exists>r. sends ds = [(s, r)] \<and> reply_type r = MATTX_MSG_SYS_POLL_REPLY \<and> reply_pid r = op"
proof -
  obtain err ret qs e where l: "poll_loop (h_poll env) (if 0 \<le> t then Some (now + nat t) else None) op (take (nat n) ps) h =
      Some (err, ret, qs, e)" and ds: "ds = e @ respond s (A_poll op n err ret qs) h"
    using assms by (auto simp: mattx_poll_worker_def split: if_splits)
  from poll_loop_sends [OF l] have "sends e = []" .
  then show ?thesis using assms(2) ds by simp
qed


lemma demo_fetch: "mattx_get_remote_file 100 3 demo_home = (Some 13, [Tget 100, Fget 13, Tput 100])"
proof -
  have "native_file 100 3 demo_home = Some 13"
    by (simp add: native_file_def demo_files_of) (simp add: demo_home_def demo_tab_def)
  moreover have "tasks demo_home 100 \<noteq> None" by (simp add: demo_home_def)
  ultimately show ?thesis by (simp add: mattx_get_remote_file_def with_task_def got_def)
qed

text \<open>A blocking connect that is refused: the worker polls twice, then reports the error, sign flipped.\<close>

lemma demo_connect:
  "mattx_connect_kworker demo_host 3 100 3 [] 0 demo_home =
     Some (demo_home, [Tget 100, Fget 13, Tput 100, Fdrop 13, Send 3 (A_int MATTX_MSG_SYS_CONNECT_REPLY 100 111)])"
proof -
  have "h_links demo_home 3" by (simp add: demo_home_def)
  moreover have "connect_result demo_host 13 [] 0 = Some 111" by (simp add: connect_result_def demo_host_def)
  moreover have "h_is_sock demo_host 13" by (simp add: demo_host_def)
  ultimately show ?thesis by (simp add: mattx_connect_kworker_def demo_fetch respond_def)
qed


section \<open>What goes wrong\<close>

text \<open>
  The error of a blocking connect is reported with the wrong sign: \<^verbatim>\<open>sock_error\<close> already
  returns it negative, and the worker negates it, so the caller sees a positive number.
\<close>

lemma connect_error_positive:
  assumes "h_connect env f a l = - EINPROGRESS" "\<not> h_nonblock env f" "True \<in> set (h_sock_ready env)"
    and "h_sock_error env f = Some e" "e < 0"
  shows "\<exists>r. connect_result env f a l = Some r \<and> 0 < r"
  using assms by (simp add: connect_result_def)

text \<open>The answer to a poll is given up when another thread is sending.\<close>

lemma poll_answer_dropped:
  assumes "mattx_poll_worker env now s op n t ps h = Some (h', ds)" "h_busy env"
  shows "sends ds = []"
  using assms poll_loop_sends by (auto simp: mattx_poll_worker_def split: if_splits)

text \<open>The kill switch ends an epoll wait without dropping the epoll file.\<close>

lemma epoll_abort_leaks:
  assumes "mattx_get_remote_file op epfd h = (Some f, e)" "epoll_wait_loop rounds (if 0 \<le> t then Some (now + nat t) else None) op = Some Aborted"
  shows "\<exists>ds. mattx_epoll_wait_kworker env rounds now s op epfd m t h late = Some (late, ds) \<and> gained ds = lost ds + {#f#}"
  using assms fetch_flow [OF assms(1)] by (simp add: mattx_epoll_wait_kworker_def)

text \<open>A close with an unsigned descriptor from 2147484648 on reads before the array of exported files.\<close>

lemma close_wild:
  assumes "scan (\<lambda>i. e_orig_pid (slots (h_exports h) i) = op) (cnt (h_exports h)) = Some i"
  shows "handle_sys_close_req (Some (op, - 1)) h = (h, [Wild (- 1001)])"
proof -
  have "(1000 :: u32) \<le> - 1" by (rule word_order.extremum)
  moreover have "sint (- 1 - 1000 :: u32) = - 1001" by simp
  ultimately show ?thesis using assms by (simp add: handle_sys_close_req_def export_slot_def)
qed

text \<open>A deputy that has given up its descriptor table is looked up for a close and never released.\<close>

lemma close_task_leak:
  assumes "tasks h op = Some t" "t_files t = None" "fd < 1000"
  shows "handle_sys_close_req (Some (op, fd)) h = (h, [Tget op])"
  using assms by (simp add: handle_sys_close_req_def files_of_def flip: not_less)

end
