(* ===== verification/Mx_Shell.thy ===== *)
theory Mx_Shell
  imports Mx_Deputy
begin

text \<open>
  The home side of system-call forwarding, second part (\<^verbatim>\<open>mattx_fileio.c\<close>): calls made in
  the deputy's name. A worker can put on the deputy's identity (its address space, file system
  view, descriptor table, credentials) and run a system call on a scratch area below the
  deputy's stack; or a callback is queued on the deputy, which is woken, runs the call itself,
  answers, and freezes again.

  A system call is a function of the identity it runs under, its argument registers, the
  descriptor table and the memory: an argument of the model. User memory is a map from the
  address space to bytes.
\<close>

section \<open>Identities and system calls\<close>

type_synonym umem = "u64 \<Rightarrow> byte"

record sysregs =
  r_di :: u64
  r_si :: u64
  r_dx :: u64
  r_r10 :: u64
  r_r8 :: u64

definition no_regs :: sysregs where
  "no_regs = \<lparr>r_di = 0, r_si = 0, r_dx = 0, r_r10 = 0, r_r8 = 0\<rparr>"

record kworker =
  w_fs :: nat
  w_files :: "nat option"
  w_cred :: nat
  w_mm :: "nat option"
  w_nsproxy :: nat

type_synonym syscall = "kworker \<Rightarrow> sysregs \<Rightarrow> fdtable \<Rightarrow> umem \<Rightarrow> int \<times> fdtable \<times> umem"

record shell =
  s_home :: home
  s_mem :: "nat \<Rightarrow> umem"
  s_cur :: kworker

text \<open>
  What happens around a call: whether the copies to and from the scratch area succeed, what an
  uninitialised buffer holds, and which allocations succeed.
\<close>

record around =
  u_to :: bool
  u_from :: bool
  u_junk :: "byte list"
  u_mem :: "nat \<Rightarrow> bool"

definition poke :: "u64 \<Rightarrow> byte list \<Rightarrow> umem \<Rightarrow> umem" where
  "poke a bs m = (\<lambda>x. if unat (x - a) < length bs then bs ! unat (x - a) else m x)"

definition peek :: "u64 \<Rightarrow> nat \<Rightarrow> umem \<Rightarrow> byte list" where
  "peek a n m = map (\<lambda>i. m (a + of_nat i)) [0..<n]"

definition path_bytes :: "string \<Rightarrow> byte list" where
  "path_bytes p = map (\<lambda>c. of_nat (of_char c)) p @ [0]"

text \<open>Which register takes the address; other numbers leave the registers alone.\<close>

definition set_arg :: "nat \<Rightarrow> u64 \<Rightarrow> sysregs \<Rightarrow> sysregs" where
  "set_arg i v r = (if i = 1 then r\<lparr>r_di := v\<rparr> else if i = 2 then r\<lparr>r_si := v\<rparr> else if i = 3 then r\<lparr>r_dx := v\<rparr> else r)"

section \<open>The deputy shell\<close>

definition wear :: "task \<Rightarrow> kworker \<Rightarrow> kworker" where
  "wear t w = w\<lparr>w_fs := t_fs t, w_files := t_files t, w_cred := t_cred t, w_mm := t_mm t\<rparr>"

text \<open>
  Run the call on the table of the current identity; the table and memory it leaves are kept.
\<close>

definition run_syscall :: "syscall \<Rightarrow> sysregs \<Rightarrow> nat \<Rightarrow> nat \<Rightarrow> shell \<Rightarrow> int \<times> shell" where
  "run_syscall fn regs a m s =
     (case fn (s_cur s) regs (ftabs (s_home s) ! a) (s_mem s m) of (ret, t, um) \<Rightarrow>
       (ret, s\<lparr>s_home := set_tab a t (s_home s), s_mem := (s_mem s)(m := um)\<rparr>))"

text \<open>The path goes to 8192 bytes below the stack pointer, the output to 4096 bytes below it.\<close>

definition put_path :: "u64 \<Rightarrow> nat \<Rightarrow> string option \<Rightarrow> shell \<Rightarrow> shell" where
  "put_path sp m path s =
     (case path of None \<Rightarrow> s
      | Some q \<Rightarrow> s\<lparr>s_mem := (s_mem s)(m := poke (sp - 8192) (path_bytes q) (s_mem s m))\<rparr>)"

definition has_out :: "nat option \<Rightarrow> bool" where
  "has_out buf = (case buf of Some n \<Rightarrow> 0 < n | None \<Rightarrow> False)"

definition shell_args :: "u64 \<Rightarrow> string option \<Rightarrow> nat \<Rightarrow> nat option \<Rightarrow> nat \<Rightarrow> sysregs \<Rightarrow> sysregs" where
  "shell_args sp path path_reg buf buf_reg regs =
     (let r = (if path \<noteq> None \<and> path_reg \<in> {1, 2} then set_arg path_reg (sp - 8192) regs else regs)
      in if has_out buf then set_arg buf_reg (sp - 4096) r else r)"

definition fetch_out :: "around \<Rightarrow> u64 \<Rightarrow> nat \<Rightarrow> nat option \<Rightarrow> int \<Rightarrow> shell \<Rightarrow> byte list option" where
  "fetch_out u sp m buf ret s =
     (if 0 \<le> ret \<and> has_out buf \<and> u_from u then Some (peek (sp - 4096) (the buf) (s_mem s m)) else None)"

text \<open>
  The steps between putting on the identity and taking it off, for a deputy \<open>p\<close> with
  descriptor table \<open>a\<close> and address space \<open>m\<close>. A descriptor from 1000 on is planted into the
  table for the time of the call. The result is the return value, the contents of the output
  buffer if they were copied, the state and the deeds.
\<close>

definition shell_body ::
    "around \<Rightarrow> pid \<Rightarrow> u64 \<Rightarrow> nat \<Rightarrow> nat \<Rightarrow> syscall \<Rightarrow> sysregs \<Rightarrow> string option \<Rightarrow> nat \<Rightarrow> nat option \<Rightarrow> nat \<Rightarrow> int \<Rightarrow> nat \<Rightarrow>
     shell \<Rightarrow> int \<times> byte list option \<times> shell \<times> deed list" where
  "shell_body u p sp a m fn regs path path_reg buf buf_reg fd fd_reg s =
     (if path \<noteq> None \<and> \<not> u_to u then (- EFAULT, None, s, [])
      else
        let s1 = put_path sp m path s; r = shell_args sp path path_reg buf buf_reg regs in
        if 1000 \<le> fd then
          (case mattx_get_remote_file p fd (s_home s1) of
             (None, e) \<Rightarrow> (- EBADF, None, s1, e)
           | (Some f, e) \<Rightarrow>
              (case free_fd (ftabs (s_home s1) ! a) of
                 None \<Rightarrow> (- EMFILE, None, s1, e @ [Fdrop f])
               | Some j \<Rightarrow>
                  (case run_syscall fn (if fd_reg \<in> {1, 2} then set_arg fd_reg (of_nat j) r else r) a m
                       (s1\<lparr>s_home := set_tab a (install j f (ftabs (s_home s1) ! a)) (s_home s1)\<rparr>) of
                     (ret, s3) \<Rightarrow>
                       (let s4 = s3\<lparr>s_home := set_tab a (uninstall j (ftabs (s_home s3) ! a)) (s_home s3)\<rparr>
                        in (ret, fetch_out u sp m buf ret s4, s4, e @ [Fdrop f, Fdrop f])))))
        else (case run_syscall fn r a m s1 of (ret, s3) \<Rightarrow> (ret, fetch_out u sp m buf ret s3, s3, [])))"

text \<open>
  A deputy without address space or descriptor table crashes the worker. On every other path
  the borrowed identity is taken off again.
\<close>

definition mattx_execute_as_deputy ::
    "around \<Rightarrow> pid \<Rightarrow> syscall \<Rightarrow> sysregs \<Rightarrow> string option \<Rightarrow> nat \<Rightarrow> nat option \<Rightarrow> nat \<Rightarrow> int \<Rightarrow> nat \<Rightarrow>
     shell \<Rightarrow> int \<times> byte list option \<times> shell \<times> deed list" where
  "mattx_execute_as_deputy u p fn regs path path_reg buf buf_reg fd fd_reg s =
     (case tasks (s_home s) p of None \<Rightarrow> (- ESRCH, None, s, [])
      | Some t \<Rightarrow>
         (case (t_mm t, t_files t) of
            (Some m, Some a) \<Rightarrow>
              (let old = s_cur s in
               case shell_body u p (t_sp t) a m fn regs path path_reg buf buf_reg fd fd_reg (s\<lparr>s_cur := wear t old\<rparr>) of
                 (ret, out, s', e) \<Rightarrow> (ret, out, s'\<lparr>s_cur := old\<rparr>, e))
          | _ \<Rightarrow> (- ESRCH, None, s, [Crash])))"

text \<open>Look the deputy up and run the call if its address is known; \<open>buf\<close> is given if it was allocated.\<close>

definition as_deputy ::
    "around \<Rightarrow> syscall option \<Rightarrow> pid \<Rightarrow> sysregs \<Rightarrow> string option \<Rightarrow> nat \<Rightarrow> nat option \<Rightarrow> nat \<Rightarrow> int \<Rightarrow> nat \<Rightarrow>
     shell \<Rightarrow> int \<times> byte list option \<times> shell \<times> deed list" where
  "as_deputy u sc p regs path path_reg buf buf_reg fd fd_reg s =
     (case sc of None \<Rightarrow> (- ENOSYS, None, s, with_task p (s_home s) [])
      | Some fn \<Rightarrow>
         (case mattx_execute_as_deputy u p fn regs path path_reg buf buf_reg fd fd_reg s of (ret, out, s', e) \<Rightarrow>
           (ret, out, s', with_task p (s_home s) e)))"

section \<open>Workers that use the shell\<close>

abbreviation (input) STATFS_SIZE :: nat where "STATFS_SIZE \<equiv> 120"
abbreviation (input) STAT_SIZE :: nat where "STAT_SIZE \<equiv> 144"

definition out_buffer :: "around \<Rightarrow> nat \<Rightarrow> nat option" where
  "out_buffer u n = (if u_mem u 0 then Some n else None)"

text \<open>What a reply copies out of the output buffer: what the call left there, or what was there before.\<close>

definition buffer_bytes :: "around \<Rightarrow> nat option \<Rightarrow> byte list option \<Rightarrow> byte list" where
  "buffer_bytes u buf out = (case buf of None \<Rightarrow> [] | Some n \<Rightarrow> (case out of Some d \<Rightarrow> d | None \<Rightarrow> u_junk u))"

definition reply_blob :: "u32 \<Rightarrow> u32 \<Rightarrow> u32 \<Rightarrow> around \<Rightarrow> nat option \<Rightarrow> int \<times> byte list option \<times> shell \<times> deed list \<Rightarrow> shell \<times> deed list" where
  "reply_blob ty sender op u buf r =
     (case r of (ret, out, s, e) \<Rightarrow>
       (s, e @ respond sender (A_blob ty op ret (if ret = 0 then buffer_bytes u buf out else [])) (s_home s)))"

definition mattx_statfs_kworker :: "around \<Rightarrow> syscall option \<Rightarrow> u32 \<Rightarrow> u32 \<Rightarrow> string \<Rightarrow> shell \<Rightarrow> shell \<times> deed list" where
  "mattx_statfs_kworker u sc sender op path s =
     reply_blob MATTX_MSG_SYS_STATFS_REPLY sender op u (out_buffer u STATFS_SIZE)
       (as_deputy u sc op no_regs (Some path) 1 (out_buffer u STATFS_SIZE) 2 (- 1) 0 s)"

definition mattx_fstatfs_kworker :: "around \<Rightarrow> syscall option \<Rightarrow> u32 \<Rightarrow> u32 \<Rightarrow> int \<Rightarrow> shell \<Rightarrow> shell \<times> deed list" where
  "mattx_fstatfs_kworker u sc sender op fd s =
     reply_blob MATTX_MSG_SYS_FSTATFS_REPLY sender op u (out_buffer u STATFS_SIZE)
       (as_deputy u sc op (no_regs\<lparr>r_di := of_int fd\<rparr>) None 0 (out_buffer u STATFS_SIZE) 2 fd 1 s)"

definition mattx_newfstatat_kworker :: "around \<Rightarrow> syscall option \<Rightarrow> u32 \<Rightarrow> u32 \<Rightarrow> int \<Rightarrow> int \<Rightarrow> string \<Rightarrow> shell \<Rightarrow> shell \<times> deed list" where
  "mattx_newfstatat_kworker u sc sender op dfd flags path s =
     reply_blob MATTX_MSG_SYS_NEWFSTATAT_REPLY sender op u (out_buffer u STAT_SIZE)
       (as_deputy u sc op (no_regs\<lparr>r_di := of_int dfd, r_r10 := of_int flags\<rparr>) (Some path) 2 (out_buffer u STAT_SIZE) 3 dfd 1 s)"

definition mattx_faccessat2_kworker :: "around \<Rightarrow> syscall option \<Rightarrow> u32 \<Rightarrow> u32 \<Rightarrow> int \<Rightarrow> int \<Rightarrow> int \<Rightarrow> string \<Rightarrow> shell \<Rightarrow> shell \<times> deed list" where
  "mattx_faccessat2_kworker u sc sender op dfd mode flags path s =
     (case as_deputy u sc op (no_regs\<lparr>r_di := of_int dfd, r_dx := of_int mode, r_r10 := of_int flags\<rparr>)
             (Some path) 2 None 0 dfd 1 s of
        (ret, out, s', e) \<Rightarrow> (s', e @ respond sender (A_int MATTX_MSG_SYS_FACCESSAT2_REPLY op ret) (s_home s')))"

text \<open>These three answer only if the reply can be allocated (\<open>u_mem 1\<close>); the length is the error field.\<close>

definition reply_bytes :: "u32 \<Rightarrow> u32 \<Rightarrow> u32 \<Rightarrow> around \<Rightarrow> nat option \<Rightarrow> int \<times> byte list option \<times> shell \<times> deed list \<Rightarrow> shell \<times> deed list" where
  "reply_bytes ty sender op u buf r =
     (case r of (ret, out, s, e) \<Rightarrow>
       (s, e @ (if u_mem u 1 then respond sender
            (A_bytes ty op ret (if 0 < ret then take (nat ret) (buffer_bytes u buf out) else [])) (s_home s) else [])))"

definition mattx_readlink_kworker :: "around \<Rightarrow> syscall option \<Rightarrow> u32 \<Rightarrow> u32 \<Rightarrow> nat \<Rightarrow> string \<Rightarrow> shell \<Rightarrow> shell \<times> deed list" where
  "mattx_readlink_kworker u sc sender op bufsiz path s =
     (let n = min bufsiz 4096 in
      reply_bytes MATTX_MSG_SYS_READLINK_REPLY sender op u (out_buffer u n)
        (as_deputy u sc op (no_regs\<lparr>r_dx := of_nat n\<rparr>) (Some path) 1 (out_buffer u n) 2 (- 1) 0 s))"

definition mattx_readlinkat_kworker :: "around \<Rightarrow> syscall option \<Rightarrow> u32 \<Rightarrow> u32 \<Rightarrow> int \<Rightarrow> nat \<Rightarrow> string \<Rightarrow> shell \<Rightarrow> shell \<times> deed list" where
  "mattx_readlinkat_kworker u sc sender op dfd bufsiz path s =
     (let n = min bufsiz 4096 in
      reply_bytes MATTX_MSG_SYS_READLINKAT_REPLY sender op u (out_buffer u n)
        (as_deputy u sc op (no_regs\<lparr>r_di := of_int dfd, r_r10 := of_nat n\<rparr>) (Some path) 2 (out_buffer u n) 3 dfd 1 s))"

definition mattx_getdents64_kworker :: "around \<Rightarrow> syscall option \<Rightarrow> u32 \<Rightarrow> u32 \<Rightarrow> int \<Rightarrow> nat \<Rightarrow> shell \<Rightarrow> shell \<times> deed list" where
  "mattx_getdents64_kworker u sc sender op fd n s =
     (let n = min n 32768 in
      reply_bytes MATTX_MSG_SYS_GETDENTS64_REPLY sender op u (out_buffer u n)
        (as_deputy u sc op (no_regs\<lparr>r_di := of_int fd, r_dx := of_nat n\<rparr>) None 0 (out_buffer u n) 2 fd 1 s))"

text \<open>Two descriptor numbers, four bytes each.\<close>

definition int_at :: "nat \<Rightarrow> byte list \<Rightarrow> int" where
  "int_at i d = sint (un32 (drop (4 * i) d))"

definition mattx_pipe2_kworker :: "around \<Rightarrow> syscall option \<Rightarrow> u32 \<Rightarrow> u32 \<Rightarrow> int \<Rightarrow> shell \<Rightarrow> shell \<times> deed list" where
  "mattx_pipe2_kworker u sc sender op flags s =
     (case as_deputy u sc op (no_regs\<lparr>r_si := of_int flags\<rparr>) None 0 (out_buffer u 8) 1 (- 1) 0 s of
        (ret, out, s', e) \<Rightarrow>
          (let d = buffer_bytes u (out_buffer u 8) out;
               ok = (ret = 0 \<and> u_mem u 0)
           in (s', e @ respond sender (A_pipe2 op ret (if ok then int_at 0 d else - 1) (if ok then int_at 1 d else - 1)) (s_home s'))))"

definition handle_sys_statfs_req where "handle_sys_statfs_req = queue_unchecked"
definition handle_sys_fstatfs_req where "handle_sys_fstatfs_req = queue_unchecked"
definition handle_sys_newfstatat_req where "handle_sys_newfstatat_req = queue_unchecked"
definition handle_sys_faccessat2_req where "handle_sys_faccessat2_req = queue_unchecked"
definition handle_sys_readlink_req where "handle_sys_readlink_req = queue_unchecked"
definition handle_sys_readlinkat_req where "handle_sys_readlinkat_req = queue_unchecked"
definition handle_sys_getdents64_req where "handle_sys_getdents64_req = queue_unchecked"
definition handle_sys_pipe2_req where "handle_sys_pipe2_req = queue_unchecked"
definition handle_sys_shmget_req where "handle_sys_shmget_req = queue_unchecked"
definition handle_sys_shmctl_req where "handle_sys_shmctl_req = queue_unchecked"
definition handle_sys_shmdt_req where "handle_sys_shmdt_req = queue_unchecked"
definition handle_sys_shmat_req where "handle_sys_shmat_req = queue_unchecked"

section \<open>Shared memory calls\<close>

text \<open>
  These wear only the namespace and the credentials of the deputy, and its address space where
  the call needs one. The reference to the deputy is dropped only when the call's address is
  known.
\<close>

definition shm_call :: "bool \<Rightarrow> syscall option \<Rightarrow> pid \<Rightarrow> sysregs \<Rightarrow> shell \<Rightarrow> (int \<times> shell \<times> task) option \<times> deed list" where
  "shm_call use_mm sc p regs s =
     (case tasks (s_home s) p of None \<Rightarrow> (None, [])
      | Some t \<Rightarrow>
         (case sc of None \<Rightarrow> (None, [Tget p])
          | Some fn \<Rightarrow>
             (if use_mm \<and> t_mm t = None then (None, [Tget p, Crash])
              else
                let old = s_cur s; m = (case t_mm t of Some m \<Rightarrow> m | None \<Rightarrow> 0);
                    me = old\<lparr>w_nsproxy := t_nsproxy t, w_cred := t_cred t, w_mm := (if use_mm then t_mm t else w_mm old)\<rparr>
                in (case fn me regs \<lparr>fd_max = 0, fd_file = (\<lambda>_. None), fd_open = (\<lambda>_. False)\<rparr> (s_mem s m) of
                      (ret, _, um) \<Rightarrow>
                        (Some (ret, (if use_mm then s\<lparr>s_mem := (s_mem s)(m := um)\<rparr> else s), t), [Tget p, Tput p])))))"

definition mattx_shmget_kworker :: "syscall option \<Rightarrow> u32 \<Rightarrow> u32 \<Rightarrow> int \<Rightarrow> nat \<Rightarrow> int \<Rightarrow> shell \<Rightarrow> shell \<times> deed list" where
  "mattx_shmget_kworker sc sender op key n flg s =
     (case shm_call False sc op (no_regs\<lparr>r_di := of_int key, r_si := of_nat n, r_dx := of_int flg\<rparr>) s of
        (None, e) \<Rightarrow> (s, e @ respond sender (A_fd MATTX_MSG_SYS_SHMGET_REPLY op (- ENOSYS) (- ENOSYS)) (s_home s))
      | (Some (ret, s', t), e) \<Rightarrow> (s', e @ respond sender (A_fd MATTX_MSG_SYS_SHMGET_REPLY op ret (err_of ret)) (s_home s')))"

text \<open>\<open>u_mem 0\<close>: the buffer of 128 bytes. A failing copy is turned into an error.\<close>

definition mattx_shmctl_kworker :: "around \<Rightarrow> syscall option \<Rightarrow> u32 \<Rightarrow> u32 \<Rightarrow> int \<Rightarrow> int \<Rightarrow> shell \<Rightarrow> shell \<times> deed list" where
  "mattx_shmctl_kworker u sc sender op shmid cmd s =
     (let out = (\<lambda>ret d s. respond sender (A_blob MATTX_MSG_SYS_SHMCTL_REPLY op ret d) (s_home s));
          sp = (case tasks (s_home s) op of Some t \<Rightarrow> t_sp t | None \<Rightarrow> 0) in
      case shm_call True sc op (no_regs\<lparr>r_di := of_int shmid, r_si := of_int cmd, r_dx := sp - 8192\<rparr>) s of
        (None, e) \<Rightarrow> (s, e @ out (- ENOSYS) [] s)
      | (Some (ret, s', t), e) \<Rightarrow>
          (if ret = 0 \<and> u_mem u 0 then
             (if u_from u then (s', e @ out 0 (peek (sp - 8192) 128 (s_mem s' (the (t_mm t)))) s')
              else (s', e @ out (- EFAULT) [] s'))
           else (s', e @ out ret [] s')))"

definition mattx_shmdt_kworker :: "syscall option \<Rightarrow> u32 \<Rightarrow> u32 \<Rightarrow> u64 \<Rightarrow> shell \<Rightarrow> shell \<times> deed list" where
  "mattx_shmdt_kworker sc sender op addr s =
     (case shm_call True sc op (no_regs\<lparr>r_di := addr\<rparr>) s of
        (None, e) \<Rightarrow> (s, e @ respond sender (A_int MATTX_MSG_SYS_SHMDT_REPLY op (- ENOSYS)) (s_home s))
      | (Some (ret, s', t), e) \<Rightarrow> (s', e @ respond sender (A_int MATTX_MSG_SYS_SHMDT_REPLY op ret) (s_home s')))"

text \<open>\<open>seg m a\<close> is the size of the area of address space \<open>m\<close> that starts at \<open>a\<close>.\<close>

definition mattx_shmat_kworker ::
    "(nat \<Rightarrow> u64 \<Rightarrow> nat option) \<Rightarrow> syscall option \<Rightarrow> u32 \<Rightarrow> u32 \<Rightarrow> int \<Rightarrow> u64 \<Rightarrow> int \<Rightarrow> shell \<Rightarrow> shell \<times> deed list" where
  "mattx_shmat_kworker seg sc sender op shmid addr flg s =
     (case shm_call True sc op (no_regs\<lparr>r_di := of_int shmid, r_si := addr, r_dx := of_int flg\<rparr>) s of
        (None, e) \<Rightarrow> (s, e @ respond sender (A_shmat op 0 0 (- ENOSYS)) (s_home s))
      | (Some (ret, s', t), e) \<Rightarrow>
          (s', e @ respond sender
             (A_shmat op (if 0 \<le> ret then of_int ret else 0)
                (if 0 \<le> ret then (case seg (the (t_mm t)) (of_int ret) of Some n \<Rightarrow> n | None \<Rightarrow> 0) else 0) (err_of ret)) (s_home s')))"

section \<open>Callbacks that the deputy runs\<close>

text \<open>
  The request handlers: find the deputy, allocate the callback (\<open>mem\<close>), queue it if the
  kernel's function for that is known, wake the deputy. Most read through a missing payload.
\<close>

definition hijack :: "bool \<Rightarrow> bool \<Rightarrow> u32 \<Rightarrow> sys_req \<Rightarrow> home \<Rightarrow> deed list" where
  "hijack mem known sender q h =
     (let p = req_pid q in
      if tasks h p = None then []
      else [Tget p] @ (if mem \<and> known then [Add_work p sender q, Wake p] else []) @ [Tput p])"

definition hijack_checked :: "bool \<Rightarrow> bool \<Rightarrow> u32 \<Rightarrow> sys_req option \<Rightarrow> home \<Rightarrow> deed list" where
  "hijack_checked mem known sender payload h = (case payload of None \<Rightarrow> [] | Some q \<Rightarrow> hijack mem known sender q h)"

definition hijack_unchecked :: "bool \<Rightarrow> bool \<Rightarrow> u32 \<Rightarrow> sys_req option \<Rightarrow> home \<Rightarrow> deed list" where
  "hijack_unchecked mem known sender payload h = (case payload of None \<Rightarrow> [Crash] | Some q \<Rightarrow> hijack mem known sender q h)"

definition handle_sys_epoll_create_req where "handle_sys_epoll_create_req = hijack_checked"
definition handle_sys_epoll_ctl_req where "handle_sys_epoll_ctl_req = hijack_checked"
definition handle_sys_getsockname_req where "handle_sys_getsockname_req = hijack_unchecked"
definition handle_sys_getpeername_req where "handle_sys_getpeername_req = hijack_unchecked"
definition handle_sys_setsockopt_req where "handle_sys_setsockopt_req = hijack_unchecked"
definition handle_sys_getsockopt_req where "handle_sys_getsockopt_req = hijack_unchecked"
definition handle_sys_prlimit64_req where "handle_sys_prlimit64_req = hijack_unchecked"
definition handle_sys_prctl_req where "handle_sys_prctl_req = hijack_unchecked"
definition handle_sys_fcntl_req where "handle_sys_fcntl_req = hijack_unchecked"
definition handle_sys_ioctl_req where "handle_sys_ioctl_req = hijack_unchecked"

text \<open>
  The deputy itself: a system call on its own memory, with the argument block \<open>args\<close> copied
  to \<open>at\<close> first; no result when the copy fails. The result is the value and the memory after.
\<close>

type_synonym own_call = "sysregs \<Rightarrow> umem \<Rightarrow> int \<times> umem"

definition own_syscall :: "around \<Rightarrow> own_call option \<Rightarrow> (u64 \<times> byte list) option \<Rightarrow> int \<Rightarrow> sysregs \<Rightarrow> umem \<Rightarrow> int \<times> umem" where
  "own_syscall u sc args none regs um =
     (if args \<noteq> None \<and> \<not> u_to u then (- EFAULT, um)
      else let um' = (case args of None \<Rightarrow> um | Some (a, bs) \<Rightarrow> poke a bs um) in
        (case sc of None \<Rightarrow> (none, um') | Some fn \<Rightarrow> fn regs um'))"

text \<open>Answer, then freeze again.\<close>

definition refreeze :: "u32 \<Rightarrow> sys_reply option \<Rightarrow> u32 \<Rightarrow> home \<Rightarrow> deed list" where
  "refreeze sender rep op h = (case rep of None \<Rightarrow> [] | Some r \<Rightarrow> respond sender r h) @ [Freeze op]"

definition mattx_epoll_hijack_cb :: "around \<Rightarrow> own_call option \<Rightarrow> u32 \<Rightarrow> u32 \<Rightarrow> int \<Rightarrow> umem \<Rightarrow> home \<Rightarrow> umem \<times> deed list" where
  "mattx_epoll_hijack_cb u sc sender op flags um h =
     (case own_syscall u sc None (- ENOSYS) (no_regs\<lparr>r_di := of_int flags\<rparr>) um of (fd, um') \<Rightarrow>
       (um', refreeze sender (Some (A_fd MATTX_MSG_SYS_EPOLL_CREATE_REPLY op fd (err_of fd))) op h))"

abbreviation (input) EPOLL_EVENT_SIZE :: nat where "EPOLL_EVENT_SIZE \<equiv> 12"

definition mattx_epoll_ctl_cb ::
    "around \<Rightarrow> own_call option \<Rightarrow> u32 \<Rightarrow> u32 \<Rightarrow> u64 \<Rightarrow> int \<Rightarrow> int \<Rightarrow> int \<Rightarrow> byte list \<Rightarrow> umem \<Rightarrow> home \<Rightarrow> umem \<times> deed list" where
  "mattx_epoll_ctl_cb u sc sender op sp epfd cmd fd event um h =
     (let ptr = sp - 128 - of_nat EPOLL_EVENT_SIZE in
      case own_syscall u sc (Some (ptr, event)) (- EFAULT)
          (no_regs\<lparr>r_di := of_int epfd, r_si := of_int cmd, r_dx := of_int fd, r_r10 := ptr\<rparr>) um of (ret, um') \<Rightarrow>
       (um', refreeze sender (Some (A_int MATTX_MSG_SYS_EPOLL_CTL_REPLY op ret)) op h))"

text \<open>\<open>u_mem 1\<close> is the reply, \<open>u_mem 2\<close> the buffer for the events; without them zeros or no answer.\<close>

definition mattx_epoll_wait_cb ::
    "around \<Rightarrow> own_call option \<Rightarrow> u32 \<Rightarrow> u32 \<Rightarrow> u64 \<Rightarrow> int \<Rightarrow> int \<Rightarrow> int \<Rightarrow> umem \<Rightarrow> home \<Rightarrow> umem \<times> deed list" where
  "mattx_epoll_wait_cb u sc sender op sp epfd maxevents timeout um h =
     (let ptr = sp - 128 - of_int maxevents * of_nat EPOLL_EVENT_SIZE in
      case own_syscall u sc None (- EFAULT)
          (no_regs\<lparr>r_di := of_int epfd, r_si := ptr, r_dx := of_int maxevents, r_r10 := of_int timeout\<rparr>) um of (ret, um') \<Rightarrow>
       (let n = nat ret * EPOLL_EVENT_SIZE;
            evs = (if 0 < ret then (if u_mem u 2 \<and> u_from u then peek ptr n um' else replicate n 0) else []) in
        (um', refreeze sender (if u_mem u 1 then Some (A_events op ret evs) else None) op h)))"

text \<open>The length word lies behind room for the largest address.\<close>

definition mattx_sockname_cb ::
    "around \<Rightarrow> own_call option \<Rightarrow> u32 \<Rightarrow> bool \<Rightarrow> u32 \<Rightarrow> u64 \<Rightarrow> int \<Rightarrow> umem \<Rightarrow> home \<Rightarrow> umem \<times> deed list" where
  "mattx_sockname_cb u sc sender peer op sp fd um h =
     (let addr_ptr = sp - 128 - of_nat SOCKADDR_SIZE - 4; len_ptr = addr_ptr + of_nat SOCKADDR_SIZE in
      case own_syscall u sc (Some (len_ptr, le32 (of_nat SOCKADDR_SIZE))) (- EFAULT)
          (no_regs\<lparr>r_di := of_int fd, r_si := addr_ptr, r_dx := len_ptr\<rparr>) um of (ret, um') \<Rightarrow>
       (let n = sint (un32 (peek len_ptr 4 um'));
            ok = (ret = 0 \<and> u_from u \<and> 0 < n \<and> n \<le> int SOCKADDR_SIZE) in
        (um', refreeze sender (Some (A_name peer op ret (if ok then peek addr_ptr (nat n) um' else []) (if ok then n else 0))) op h)))"

definition mattx_setsockopt_cb ::
    "around \<Rightarrow> own_call option \<Rightarrow> u32 \<Rightarrow> u32 \<Rightarrow> u64 \<Rightarrow> int \<Rightarrow> int \<Rightarrow> int \<Rightarrow> int \<Rightarrow> byte list \<Rightarrow> umem \<Rightarrow> home \<Rightarrow> umem \<times> deed list" where
  "mattx_setsockopt_cb u sc sender op sp fd level optname optlen optval um h =
     (let ptr = sp - 128 - of_int optlen in
      case own_syscall u sc (Some (ptr, take (nat optlen) optval)) (- EFAULT)
          (no_regs\<lparr>r_di := of_int fd, r_si := of_int level, r_dx := of_int optname, r_r10 := ptr, r_r8 := of_int optlen\<rparr>) um of (ret, um') \<Rightarrow>
       (um', refreeze sender (Some (A_int MATTX_MSG_SYS_SETSOCKOPT_REPLY op ret)) op h))"

definition mattx_getsockopt_cb ::
    "around \<Rightarrow> own_call option \<Rightarrow> u32 \<Rightarrow> u32 \<Rightarrow> u64 \<Rightarrow> int \<Rightarrow> int \<Rightarrow> int \<Rightarrow> int \<Rightarrow> umem \<Rightarrow> home \<Rightarrow> umem \<times> deed list" where
  "mattx_getsockopt_cb u sc sender op sp fd level optname optlen um h =
     (let val_ptr = sp - 128 - of_int optlen - 4; len_ptr = val_ptr + of_int optlen in
      case own_syscall u sc (Some (len_ptr, le32 (of_int optlen))) (- EFAULT)
          (no_regs\<lparr>r_di := of_int fd, r_si := of_int level, r_dx := of_int optname, r_r10 := val_ptr, r_r8 := len_ptr\<rparr>) um of (ret, um') \<Rightarrow>
       (let n = (if ret = 0 \<and> u_from u then sint (un32 (peek len_ptr 4 um')) else 0);
            d = (if 0 < n \<and> n \<le> optlen then peek val_ptr (nat n) um' else []) in
        (um', refreeze sender (if u_mem u 1 then Some (A_sockopt op ret n d) else None) op h)))"

abbreviation (input) RLIMIT_SIZE :: nat where "RLIMIT_SIZE \<equiv> 16"

definition mattx_prlimit_cb ::
    "around \<Rightarrow> own_call option \<Rightarrow> u32 \<Rightarrow> u32 \<Rightarrow> u64 \<Rightarrow> u32 \<Rightarrow> int \<Rightarrow> bool \<Rightarrow> bool \<Rightarrow> byte list \<Rightarrow> umem \<Rightarrow> home \<Rightarrow> umem \<times> deed list" where
  "mattx_prlimit_cb u sc sender op sp target resource has_new has_old lim um h =
     (let new_ptr = sp - 128 - of_nat RLIMIT_SIZE * 2; old_ptr = new_ptr + of_nat RLIMIT_SIZE in
      case own_syscall u sc (if has_new then Some (new_ptr, lim) else None) (- EFAULT)
          (no_regs\<lparr>r_di := scast target, r_si := of_int resource, r_dx := (if has_new then new_ptr else 0),
             r_r10 := (if has_old then old_ptr else 0)\<rparr>) um of (ret, um') \<Rightarrow>
       (um', refreeze sender (Some (A_blob MATTX_MSG_SYS_PRLIMIT64_REPLY op ret
          (if ret = 0 \<and> has_old \<and> u_from u then peek old_ptr RLIMIT_SIZE um' else u_junk u))) op h))"

definition mattx_prctl_cb ::
    "around \<Rightarrow> own_call option \<Rightarrow> u32 \<Rightarrow> u32 \<Rightarrow> int \<Rightarrow> u64 \<Rightarrow> u64 \<Rightarrow> u64 \<Rightarrow> u64 \<Rightarrow> umem \<Rightarrow> home \<Rightarrow> umem \<times> deed list" where
  "mattx_prctl_cb u sc sender op option a2 a3 a4 a5 um h =
     (case own_syscall u sc None (- ENOSYS) \<lparr>r_di = of_int option, r_si = a2, r_dx = a3, r_r10 = a4, r_r8 = a5\<rparr> um of (ret, um') \<Rightarrow>
       (um', refreeze sender (Some (A_int MATTX_MSG_SYS_PRCTL_REPLY op ret)) op h))"

definition mattx_fio_cb ::
    "around \<Rightarrow> own_call option \<Rightarrow> u32 \<Rightarrow> bool \<Rightarrow> u32 \<Rightarrow> u64 \<Rightarrow> int \<Rightarrow> int \<Rightarrow> u64 \<Rightarrow> bool \<Rightarrow> byte list \<Rightarrow> umem \<Rightarrow> home \<Rightarrow> umem \<times> deed list" where
  "mattx_fio_cb u sc sender ioctl op sp fd cmd arg has_ptr data um h =
     (let ptr = sp - 256 - 128 in
      case own_syscall u sc (if has_ptr then Some (ptr, data) else None) (- EFAULT)
          (no_regs\<lparr>r_di := of_int fd, r_si := of_int cmd, r_dx := (if has_ptr then ptr else arg)\<rparr>) um of (ret, um') \<Rightarrow>
       (um', refreeze sender (Some (A_blob (if ioctl then MATTX_MSG_SYS_IOCTL_REPLY else MATTX_MSG_SYS_FCNTL_REPLY) op ret
          (if has_ptr \<and> u_from u then peek ptr 256 um' else u_junk u))) op h))"

text \<open>The system identification is answered by the receiver itself.\<close>

definition handle_sys_uname_req :: "byte list \<Rightarrow> u32 \<Rightarrow> u32 option \<Rightarrow> home \<Rightarrow> deed list" where
  "handle_sys_uname_req uts sender payload h =
     (case payload of None \<Rightarrow> [Crash]
      | Some op \<Rightarrow> respond sender (A_blob MATTX_MSG_SYS_UNAME_REPLY op 0 uts) h)"

section \<open>The shell leaves no trace\<close>

lemma uninstall_install:
  "tab_ok t \<Longrightarrow> j < fd_max t \<Longrightarrow> fd_file t j = None \<Longrightarrow> uninstall j (install j f t) = t"
  by (simp add: tab_ok_def install_def uninstall_def fun_upd_idem)

lemma set_tab_twice: "set_tab a t (set_tab a t' h) = set_tab a t h"
  by (simp add: set_tab_def)

lemma set_tab_same: "set_tab a (ftabs h ! a) h = h"
  by (simp add: set_tab_def)

lemma ftabs_set_tab: "a < length (ftabs h) \<Longrightarrow> ftabs (set_tab a t h) ! a = t"
  by (simp add: set_tab_def)

text \<open>The file that a call on an exported descriptor gets planted into the deputy's table.\<close>

definition planted :: "pid \<Rightarrow> int \<Rightarrow> home \<Rightarrow> filep multiset" where
  "planted p fd h = (if 1000 \<le> fd then (case fst (mattx_get_remote_file p fd h) of None \<Rightarrow> {#} | Some f \<Rightarrow> {#f#}) else {#})"

lemma run_syscall_same_table:
  assumes "\<And>w r tb um. fst (snd (fn w r tb um)) = tb" "run_syscall fn regs a m s = (ret, s')"
  shows "s_home s' = s_home s" "s_cur s' = s_cur s" "\<And>m'. m' \<noteq> m \<Longrightarrow> s_mem s' m' = s_mem s m'"
    "\<exists>r tb um. ret = fst (fn (s_cur s) r tb um)"
proof -
  obtain r tb um where o: "fn (s_cur s) regs (ftabs (s_home s) ! a) (s_mem s m) = (r, tb, um)" by (metis prod_cases3)
  then have "tb = ftabs (s_home s) ! a" using assms(1) [of "s_cur s" regs "ftabs (s_home s) ! a" "s_mem s m"] by simp
  moreover have "ret = r" "s' = s\<lparr>s_home := set_tab a tb (s_home s), s_mem := (s_mem s)(m := um)\<rparr>"
    using assms(2) o by (simp_all add: run_syscall_def)
  ultimately show "s_home s' = s_home s" "s_cur s' = s_cur s" "\<And>m'. m' \<noteq> m \<Longrightarrow> s_mem s' m' = s_mem s m'"
    "\<exists>r tb um. ret = fst (fn (s_cur s) r tb um)"
    using o by (simp_all add: set_tab_same) (metis fst_conv)
qed

lemma shell_body_restores:
  assumes tab: "\<And>w r tb um. fst (snd (fn w r tb um)) = tb"
    and a: "a < length (ftabs (s_home s))" "tab_ok (ftabs (s_home s) ! a)"
    and run: "shell_body u p sp a m fn regs path path_reg buf buf_reg fd fd_reg s = (ret, out, s', ds)"
  shows "s_home s' = s_home s \<and> s_cur s' = s_cur s \<and> (\<forall>m'. m' \<noteq> m \<longrightarrow> s_mem s' m' = s_mem s m') \<and>
    ((ret \<in> {- EFAULT, - EBADF, - EMFILE} \<and> lost ds = gained ds) \<or>
     ((\<exists>r tb um. ret = fst (fn (s_cur s) r tb um)) \<and> lost ds = gained ds + planted p fd (s_home s)))"
proof (cases "path \<noteq> None \<and> \<not> u_to u")
  case True
  then show ?thesis using run by (auto simp: shell_body_def)
next
  case False
  define s1 where "s1 = put_path sp m path s"
  have s1: "s_home s1 = s_home s" "s_cur s1 = s_cur s" "\<And>m'. m' \<noteq> m \<Longrightarrow> s_mem s1 m' = s_mem s m'"
    by (simp_all add: s1_def put_path_def split: option.split)
  obtain f e where f: "mattx_get_remote_file p fd (s_home s) = (f, e)" by fastforce
  note flow = fetch_flow [OF f]
  consider (plain) "fd < 1000" | (bad) "1000 \<le> fd" "f = None" | (full) x where "1000 \<le> fd" "f = Some x" "free_fd (ftabs (s_home s) ! a) = None"
    | (plant) x j where "1000 \<le> fd" "f = Some x" "free_fd (ftabs (s_home s) ! a) = Some j"
    by (metis not_less option.exhaust)
  then show ?thesis
  proof cases
    case plain
    then obtain regs' s3 where r: "run_syscall fn regs' a m s1 = (ret, s3)" "s' = s3" "ds = []"
      using run False unfolding shell_body_def s1_def [symmetric] by (auto simp: Let_def split: prod.splits if_splits)
    show ?thesis using run_syscall_same_table [OF tab r(1)] s1 r(2,3) plain by (auto simp: planted_def)
  next
    case bad
    then show ?thesis using run False f s1 flow unfolding shell_body_def s1_def [symmetric] by (auto simp: Let_def)
  next
    case full
    then show ?thesis using run False f s1 flow unfolding shell_body_def s1_def [symmetric] by (auto simp: Let_def)
  next
    case plant
    define s2 where "s2 = s1\<lparr>s_home := set_tab a (install j x (ftabs (s_home s) ! a)) (s_home s)\<rparr>"
    obtain regs' s3 where r: "run_syscall fn regs' a m s2 = (ret, s3)"
        "s' = s3\<lparr>s_home := set_tab a (uninstall j (ftabs (s_home s3) ! a)) (s_home s3)\<rparr>" "ds = e @ [Fdrop x, Fdrop x]"
      using run False plant f s1(1) unfolding shell_body_def s1_def [symmetric] s2_def
      by (auto simp: Let_def split: prod.splits if_splits)
    note same = run_syscall_same_table [OF tab r(1)]
    have "s_home s' = s_home s"
      using r(2) same(1) plant(3) a by (simp add: s2_def set_tab_twice ftabs_set_tab uninstall_install free_fd_spec set_tab_same)
    then show ?thesis using same(2-4) s1 r(2,3) flow plant f by (auto simp: s2_def planted_def)
  qed
qed

text \<open>
  C17. A call in the deputy's name leaves no trace. For a deputy with an address space and a
  well-formed descriptor table, and a system call that does not change the table, whatever the
  path and buffers: afterwards the worker has its own identity back, the home node's tables are
  as before and no other address space was touched; and either the worker failed before the
  call with one of three errors, all references balanced, or the value is that of the call,
  made under the deputy's identity. In the second case, when the call was on an exported
  descriptor, the file was dropped once more than it was taken.
\<close>

theorem deputy_shell_restores:
  assumes "tasks (s_home s) p = Some t" and "t_mm t = Some m" and "t_files t = Some a"
    and "home_ok (s_home s)" and "tabs_ok (s_home s)"
    and "\<And>w r tb um. fst (snd (fn w r tb um)) = tb"
    and "mattx_execute_as_deputy u p fn regs path path_reg buf buf_reg fd fd_reg s = (ret, out, s', ds)"
  shows "s_cur s' = s_cur s \<and> s_home s' = s_home s \<and> (\<forall>m'. m' \<noteq> m \<longrightarrow> s_mem s' m' = s_mem s m') \<and>
    ((ret \<in> {- EFAULT, - EBADF, - EMFILE} \<and> lost ds = gained ds) \<or>
     ((\<exists>r tb um. ret = fst (fn (wear t (s_cur s)) r tb um)) \<and> lost ds = gained ds + planted p fd (s_home s)))"
proof -
  have a: "a < length (ftabs (s_home s))" using assms(1,3,4) by (force simp: home_ok_def files_of_def split: option.splits)
  then have ok: "tab_ok (ftabs (s_home s) ! a)" using assms(5) by (simp add: tabs_ok_def)
  obtain s2 where b: "shell_body u p (t_sp t) a m fn regs path path_reg buf buf_reg fd fd_reg (s\<lparr>s_cur := wear t (s_cur s)\<rparr>) = (ret, out, s2, ds)"
      and s': "s' = s2\<lparr>s_cur := s_cur s\<rparr>"
    using assms(1-3,7) by (auto simp: mattx_execute_as_deputy_def Let_def split: prod.splits)
  show ?thesis using shell_body_restores [OF assms(6) _ _ b] a ok s' by simp
qed

text \<open>The status of an exported file: the call returns 7, and the file is dropped once too often.\<close>

definition demo_task :: task where
  "demo_task = \<lparr>t_files = Some 0, t_fs = 1, t_cred = 2, t_mm = Some 3, t_nsproxy = 4, t_sp = 0x8000\<rparr>"

definition demo_shared :: exports where
  "demo_shared = \<lparr>slots = (\<lambda>i. \<lparr>e_orig_pid = 100, e_target_node = 3, e_remote_files = [0 \<mapsto> 20],
     e_abort_rpc = False, e_is_growing_gang = False\<rparr>), cnt = 1\<rparr>"

definition demo_shell :: shell where
  "demo_shell = \<lparr>s_home = demo_home\<lparr>h_exports := demo_shared\<rparr>, s_mem = (\<lambda>_ _. 0),
     s_cur = \<lparr>w_fs = 0, w_files = None, w_cred = 0, w_mm = None, w_nsproxy = 0\<rparr>\<rparr>"

definition demo_around :: around where
  "demo_around = \<lparr>u_to = True, u_from = True, u_junk = [], u_mem = (\<lambda>_. True)\<rparr>"

definition demo_call :: syscall where
  "demo_call w r tb um = (7, tb, um)"

lemma demo_shell_ok: "tasks (s_home demo_shell) 100 = Some demo_task" "t_mm demo_task = Some 3" "t_files demo_task = Some 0"
  "home_ok (s_home demo_shell)" "tabs_ok (s_home demo_shell)" "fst (snd (demo_call w r tb um)) = tb"
  using demo_home_ok demo_tabs_ok
  by (auto simp: demo_shell_def demo_home_def demo_task_def home_ok_def tabs_ok_def files_of_def demo_call_def)

lemma demo_planted: "mattx_get_remote_file 100 1000 (s_home demo_shell) = (Some 20, [Fget 20])"
proof -
  have "scan (\<lambda>i. e_orig_pid (slots demo_shared i) = 100) (cnt demo_shared) = Some 0"
    by (simp add: scan_Some demo_shared_def)
  then have "export_slot 100 0 demo_shared = (Some 20, [])"
    by (simp add: export_slot_def) (simp add: demo_shared_def)
  then show ?thesis by (simp add: mattx_get_remote_file_def got_def demo_shell_def)
qed

theorem deputy_shell_restores_witness:
  "\<exists>out s' ds. mattx_execute_as_deputy demo_around 100 demo_call no_regs None 0 (Some 120) 2 1000 1 demo_shell = (7, out, s', ds) \<and>
     s_home s' = s_home demo_shell \<and> s_cur s' = s_cur demo_shell \<and> lost ds = gained ds + {#20#}"
proof -
  let ?run = "mattx_execute_as_deputy demo_around 100 demo_call no_regs None 0 (Some 120) 2 1000 1 demo_shell"
  obtain ret out s' ds where r: "?run = (ret, out, s', ds)" by (metis prod_cases4)
  have "fst ?run = 7"
    using demo_planted demo_shell_ok(1-3) demo_free
    by (simp add: mattx_execute_as_deputy_def shell_body_def put_path_def Let_def run_syscall_def demo_call_def
        demo_shell_def demo_home_def split: prod.split)
  then have "ret = 7" using r by simp
  moreover have "planted 100 1000 (s_home demo_shell) = {#20#}" by (simp add: planted_def demo_planted)
  ultimately show ?thesis
    using deputy_shell_restores [OF demo_shell_ok(1-5) demo_shell_ok(6) r] r by auto
qed

section \<open>The deputy freezes again\<close>

text \<open>The callback that serves a request, on a deputy with stack pointer \<open>sp\<close>.\<close>

fun callback :: "around \<Rightarrow> own_call option \<Rightarrow> u32 \<Rightarrow> u64 \<Rightarrow> sys_req \<Rightarrow> umem \<Rightarrow> home \<Rightarrow> (umem \<times> deed list) option" where
  "callback u sc s sp (C_epoll_create op flags) um h = Some (mattx_epoll_hijack_cb u sc s op flags um h)"
| "callback u sc s sp (C_epoll_ctl op epfd cmd fd ev) um h = Some (mattx_epoll_ctl_cb u sc s op sp epfd cmd fd ev um h)"
| "callback u sc s sp (C_epoll_wait op epfd n t) um h = Some (mattx_epoll_wait_cb u sc s op sp epfd n t um h)"
| "callback u sc s sp (C_sockname peer op fd) um h = Some (mattx_sockname_cb u sc s peer op sp fd um h)"
| "callback u sc s sp (C_setsockopt op fd l n len v) um h = Some (mattx_setsockopt_cb u sc s op sp fd l n len v um h)"
| "callback u sc s sp (C_getsockopt op fd l n len) um h = Some (mattx_getsockopt_cb u sc s op sp fd l n len um h)"
| "callback u sc s sp (C_prlimit64 op p r new old lim) um h = Some (mattx_prlimit_cb u sc s op sp p r new old lim um h)"
| "callback u sc s sp (C_prctl op x a b c d) um h = Some (mattx_prctl_cb u sc s op x a b c d um h)"
| "callback u sc s sp (C_fio ioctl op fd cmd arg ptr d) um h = Some (mattx_fio_cb u sc s ioctl op sp fd cmd arg ptr d um h)"
| "callback u sc s sp q um h = None"

text \<open>Whether a task is stopped after some deeds.\<close>

primrec stopped :: "pid \<Rightarrow> deed list \<Rightarrow> bool \<Rightarrow> bool" where
  "stopped p [] b = b"
| "stopped p (d # ds) b = stopped p ds
     (case d of Wake q \<Rightarrow> if q = p then False else b | Freeze q \<Rightarrow> if q = p then True else b | _ \<Rightarrow> b)"

lemma stopped_append [simp]: "stopped p (xs @ ys) b = stopped p ys (stopped p xs b)"
  by (induction xs arbitrary: b) simp_all

text \<open>A request served: the handler, then the queued callback in the woken deputy.\<close>

definition serve_hijack :: "around \<Rightarrow> own_call option \<Rightarrow> bool \<Rightarrow> bool \<Rightarrow> u32 \<Rightarrow> u64 \<Rightarrow> sys_req \<Rightarrow> umem \<Rightarrow> home \<Rightarrow> deed list" where
  "serve_hijack u sc mem known s sp q um h =
     (let ds = hijack mem known s q h in
      ds @ (if Add_work (req_pid q) s q \<in> set ds then (case callback u sc s sp q um h of Some (_, e) \<Rightarrow> e | None \<Rightarrow> []) else []))"

lemma callback_refreezes:
  assumes "callback u sc s sp q um h = Some (um', ds)"
  shows "\<exists>rep. ds = refreeze s rep (req_pid q) h \<and>
    (case rep of None \<Rightarrow> \<not> u_mem u 1 | Some r \<Rightarrow> reply_type r = req_type q + 1 \<and> reply_pid r = req_pid q)"
  using assms
  by (cases q) (auto simp: mattx_epoll_hijack_cb_def mattx_epoll_ctl_cb_def mattx_epoll_wait_cb_def mattx_sockname_cb_def
      mattx_setsockopt_cb_def mattx_getsockopt_cb_def mattx_prlimit_cb_def mattx_prctl_cb_def mattx_fio_cb_def Let_def
      split: prod.splits if_splits)

text \<open>
  A deputy that was woken to run a call answers and freezes again. For every request that
  is served inside the deputy: after the handler and the callback it queued the deputy is
  stopped if it was stopped before, whatever the call did and whatever failed; it is woken only
  together with work to do; and if the deputy exists and the link, the allocations and the
  kernel's queueing function are there, exactly one answer of the matching type has gone to the
  node that asked.
\<close>

theorem deputy_refreezes:
  assumes "callback u sc s sp q um h = Some out"
  shows "stopped (req_pid q) (serve_hijack u sc mem known s sp q um h) True \<and>
    (Wake (req_pid q) \<in> set (hijack mem known s q h) \<longrightarrow> Add_work (req_pid q) s q \<in> set (hijack mem known s q h)) \<and>
    (tasks h (req_pid q) \<noteq> None \<and> mem \<and> known \<and> h_links h s \<and> u_mem u 1 \<longrightarrow>
      (\<exists>r. sends (serve_hijack u sc mem known s sp q um h) = [(s, r)] \<and> reply_type r = req_type q + 1 \<and> reply_pid r = req_pid q))"
proof -
  obtain um' ds where o: "out = (um', ds)" by fastforce
  obtain rep where rep: "ds = refreeze s rep (req_pid q) h"
    "case rep of None \<Rightarrow> \<not> u_mem u 1 | Some r \<Rightarrow> reply_type r = req_type q + 1 \<and> reply_pid r = req_pid q"
    using callback_refreezes assms o by blast
  show ?thesis using assms o rep
    by (auto simp: serve_hijack_def hijack_def refreeze_def respond_def Let_def split: option.splits)
qed

definition demo_own :: own_call where
  "demo_own r um = (5, um)"

theorem deputy_refreezes_witness:
  "stopped 100 (serve_hijack demo_around (Some demo_own) True True 3 0x8000 (C_epoll_create 100 0) (\<lambda>_. 0) demo_home) True \<and>
   (\<exists>r. sends (serve_hijack demo_around (Some demo_own) True True 3 0x8000 (C_epoll_create 100 0) (\<lambda>_. 0) demo_home) = [(3, r)])"
proof -
  have c: "callback demo_around (Some demo_own) 3 0x8000 (C_epoll_create 100 0) (\<lambda>_. 0) demo_home =
      Some (mattx_epoll_hijack_cb demo_around (Some demo_own) 3 100 0 (\<lambda>_. 0) demo_home)" by simp
  have "tasks demo_home (req_pid (C_epoll_create 100 0)) \<noteq> None" "h_links demo_home 3" "u_mem demo_around 1"
    by (simp_all add: demo_home_def demo_around_def)
  with deputy_refreezes [OF c, of True True] show ?thesis by auto
qed

section \<open>What goes wrong\<close>

text \<open>
  The output of a directory listing may be up to 32768 bytes long, but starts only 4096 bytes
  below the deputy's stack pointer: a call that fills its buffer overwrites the stack.
\<close>

lemma getdents_over_stack:
  assumes "fn = (\<lambda>w r tb um. (int (unat (r_dx r)), tb, poke (r_si r) (replicate (unat (r_dx r)) 1) um))"
    and "tasks (s_home s) p = Some t" "t_mm t = Some m" "t_files t = Some a" "fd < 1000"
    and "mattx_execute_as_deputy u p fn (no_regs\<lparr>r_di := of_int fd, r_dx := 32768\<rparr>) None 0 (Some 32768) 2 fd 1 s = (ret, out, s', ds)"
  shows "s_mem s' m (t_sp t) = 1"
proof -
  have "unat (t_sp t - (t_sp t - 4096)) = 4096" by simp
  then show ?thesis using assms
    by (auto simp: mattx_execute_as_deputy_def shell_body_def shell_args_def put_path_def has_out_def run_syscall_def set_arg_def
        no_regs_def poke_def Let_def)
qed

text \<open>A shared memory call whose kernel function is not known keeps a reference to the deputy.\<close>

lemma shm_task_leak:
  "tasks (s_home s) op = Some t \<Longrightarrow> \<exists>e. snd (mattx_shmget_kworker None sender op key n flg s) = Tget op # e \<and> Tput op \<notin> set e"
  by (simp add: mattx_shmget_kworker_def shm_call_def respond_def)

end
