(* ===== verification/Mx_Fake.thy ===== *)
theory Mx_Fake
  imports Mx_Deputy
begin

text \<open>
  The guest side of system-call forwarding (\<^verbatim>\<open>mattx_fileio.c\<close>): the reply handlers, which
  put a result into the registry entry of the guest that waits for it, and the operations of the
  fake files that stand for descriptors of the home node. An operation that sleeps is split into
  a start and a finish; between them anything may happen to the registry.
\<close>

section \<open>State\<close>

text \<open>\<open>g_heap\<close> is what the buffers that replies are copied to contain, by address.\<close>

record wormhole =
  g_reg :: guests
  g_heap :: "nat \<Rightarrow> byte list"
  g_links :: "u32 \<Rightarrow> bool"

datatype fake_effect = Wake_wq nat | Free_buf nat | Request u32 sys_req | Free_info

record mattx_fake_fd_info =
  i_home_node :: u32
  i_orig_pid :: u32
  i_remote_fd :: u32

section \<open>Reply handlers\<close>

text \<open>The guest a reply is for: the first with that original pid whose home is the sender.\<close>

definition guest_for :: "u32 \<Rightarrow> u32 \<Rightarrow> guests \<Rightarrow> nat option" where
  "guest_for sender op r = scan (\<lambda>i. orig_pid (slots r i) = op \<and> home_node (slots r i) = sender) (cnt r)"

text \<open>Store a result, mark the call as done, wake whoever waits on the entry.\<close>

definition complete :: "bool \<Rightarrow> u32 \<Rightarrow> u32 \<Rightarrow> (mattx_guest_info \<Rightarrow> mattx_guest_info) \<Rightarrow> wormhole \<Rightarrow> wormhole \<times> fake_effect list" where
  "complete wakes sender op f w =
     (case guest_for sender op (g_reg w) of None \<Rightarrow> (w, [])
      | Some i \<Rightarrow>
         (w\<lparr>g_reg := upd_slot i (\<lambda>g. (f g)\<lparr>rpc_done := True\<rparr>) (g_reg w)\<rparr>,
          case rpc_wq (slots (g_reg w) i) of Some q \<Rightarrow> if wakes then [Wake_wq q] else [] | None \<Rightarrow> []))"

text \<open>
  Copy data into a fresh buffer at \<open>a\<close>, \<open>None\<close> when the allocation fails; \<open>c\<close> is the
  condition under which the handler asks for one, once it has found the guest.
\<close>

definition with_buf :: "nat option \<Rightarrow> byte list \<Rightarrow> wormhole \<Rightarrow> wormhole" where
  "with_buf a d w = (case a of Some p \<Rightarrow> w\<lparr>g_heap := (g_heap w)(p := d)\<rparr> | None \<Rightarrow> w)"

definition complete_buf ::
    "bool \<Rightarrow> u32 \<Rightarrow> u32 \<Rightarrow> (mattx_guest_info \<Rightarrow> mattx_guest_info) \<Rightarrow> bool \<Rightarrow> nat option \<Rightarrow> byte list \<Rightarrow>
     wormhole \<Rightarrow> wormhole \<times> fake_effect list" where
  "complete_buf wakes sender op f c a d w =
     complete wakes sender op f (if c \<and> guest_for sender op (g_reg w) \<noteq> None then with_buf a d w else w)"

definition handle_sys_open_reply :: "u32 \<Rightarrow> u32 \<Rightarrow> int \<Rightarrow> wormhole \<Rightarrow> wormhole \<times> fake_effect list" where
  "handle_sys_open_reply sender op fd = complete True sender op (\<lambda>g. g\<lparr>rpc_remote_fd := fd\<rparr>)"

definition handle_sys_dup_reply :: "u32 \<Rightarrow> u32 \<Rightarrow> int \<Rightarrow> wormhole \<Rightarrow> wormhole \<times> fake_effect list" where
  "handle_sys_dup_reply sender op fd = complete True sender op (\<lambda>g. g\<lparr>rpc_remote_fd := fd\<rparr>)"

definition handle_sys_socket_reply :: "u32 \<Rightarrow> u32 \<Rightarrow> int \<Rightarrow> wormhole \<Rightarrow> wormhole \<times> fake_effect list" where
  "handle_sys_socket_reply sender op fd = complete True sender op (\<lambda>g. g\<lparr>rpc_remote_fd := fd\<rparr>)"

definition handle_sys_epoll_create_reply :: "u32 \<Rightarrow> u32 \<Rightarrow> int \<Rightarrow> int \<Rightarrow> wormhole \<Rightarrow> wormhole \<times> fake_effect list" where
  "handle_sys_epoll_create_reply sender op fd err =
     complete True sender op (\<lambda>g. g\<lparr>rpc_remote_fd := fd, rpc_fsync_res := err\<rparr>)"

definition handle_sys_lseek_reply :: "u32 \<Rightarrow> u32 \<Rightarrow> int \<Rightarrow> wormhole \<Rightarrow> wormhole \<times> fake_effect list" where
  "handle_sys_lseek_reply sender op off = complete True sender op (\<lambda>g. g\<lparr>rpc_lseek_res := off\<rparr>)"

definition handle_sys_fsync_reply :: "u32 \<Rightarrow> u32 \<Rightarrow> int \<Rightarrow> wormhole \<Rightarrow> wormhole \<times> fake_effect list" where
  "handle_sys_fsync_reply sender op err = complete True sender op (\<lambda>g. g\<lparr>rpc_fsync_res := err\<rparr>)"

definition handle_sys_connect_reply :: "u32 \<Rightarrow> u32 \<Rightarrow> int \<Rightarrow> wormhole \<Rightarrow> wormhole \<times> fake_effect list" where
  "handle_sys_connect_reply sender op err = complete True sender op (\<lambda>g. g\<lparr>rpc_fsync_res := err\<rparr>)"

text \<open>Used for every reply that starts with a pid and a 32-bit word; \<open>err\<close> is that word.\<close>

definition handle_sys_generic_int_reply :: "u32 \<Rightarrow> u32 \<Rightarrow> int \<Rightarrow> wormhole \<Rightarrow> wormhole \<times> fake_effect list" where
  "handle_sys_generic_int_reply sender op err = complete True sender op (\<lambda>g. g\<lparr>rpc_fsync_res := err\<rparr>)"

definition handle_sys_shmdt_reply :: "u32 \<Rightarrow> u32 \<Rightarrow> int \<Rightarrow> wormhole \<Rightarrow> wormhole \<times> fake_effect list" where
  "handle_sys_shmdt_reply sender op err = complete True sender op (\<lambda>g. g\<lparr>rpc_fsync_res := err\<rparr>)"

definition handle_sys_shmget_reply :: "u32 \<Rightarrow> u32 \<Rightarrow> int \<Rightarrow> int \<Rightarrow> wormhole \<Rightarrow> wormhole \<times> fake_effect list" where
  "handle_sys_shmget_reply sender op shmid err =
     complete True sender op (\<lambda>g. g\<lparr>rpc_fsync_res := (if err < 0 then err else shmid)\<rparr>)"

definition handle_sys_sendmsg_reply :: "u32 \<Rightarrow> u32 \<Rightarrow> int \<Rightarrow> int \<Rightarrow> wormhole \<Rightarrow> wormhole \<times> fake_effect list" where
  "handle_sys_sendmsg_reply sender op sent err =
     complete True sender op (\<lambda>g. g\<lparr>rpc_fsync_res := (if 0 \<le> sent then sent else err)\<rparr>)"

text \<open>Counts with data: the buffer address \<open>a\<close> is stored, or the count becomes an error.\<close>

definition store_read :: "nat option \<Rightarrow> int \<Rightarrow> mattx_guest_info \<Rightarrow> mattx_guest_info" where
  "store_read a n g =
     (if 0 < n then g\<lparr>rpc_read_bytes := (if a = None then - ENOMEM else n), rpc_read_buf := a\<rparr>
      else g\<lparr>rpc_read_bytes := n, rpc_read_buf := None\<rparr>)"

definition handle_sys_read_reply :: "nat option \<Rightarrow> u32 \<Rightarrow> u32 \<Rightarrow> int \<Rightarrow> byte list \<Rightarrow> wormhole \<Rightarrow> wormhole \<times> fake_effect list" where
  "handle_sys_read_reply a sender op n d w =
     complete_buf True sender op (store_read a n) (0 < n) a (take (nat n) d) w"

definition handle_sys_recv_reply :: "nat option \<Rightarrow> u32 \<Rightarrow> u32 \<Rightarrow> int \<Rightarrow> byte list \<Rightarrow> wormhole \<Rightarrow> wormhole \<times> fake_effect list" where
  "handle_sys_recv_reply a sender op n d w =
     complete_buf True sender op (store_read a n) (0 < n) a (take (nat n) d) w"

definition handle_sys_statx_reply :: "nat option \<Rightarrow> u32 \<Rightarrow> u32 \<Rightarrow> int \<Rightarrow> byte list \<Rightarrow> wormhole \<Rightarrow> wormhole \<times> fake_effect list" where
  "handle_sys_statx_reply a sender op err st w =
     complete_buf True sender op (\<lambda>g. g\<lparr>rpc_statx_buf := (if err = 0 then a else None)\<rparr>) (err = 0) a st w"

text \<open>
  The number of the new descriptor is stored only when the accept succeeded; otherwise whatever
  an earlier call left in the entry stays there.
\<close>

definition handle_sys_accept_reply :: "nat option \<Rightarrow> u32 \<Rightarrow> u32 \<Rightarrow> int \<Rightarrow> int \<Rightarrow> sockaddr \<Rightarrow> int \<Rightarrow> wormhole \<Rightarrow> wormhole \<times> fake_effect list" where
  "handle_sys_accept_reply a sender op fd err addr len w =
     (let sane = (0 < len \<and> len \<le> int SOCKADDR_SIZE) in
      complete_buf True sender op
        (\<lambda>g. if err = 0 then
               (if sane then g\<lparr>rpc_remote_fd := fd, rpc_read_buf := a, rpc_fsync_res := (if a = None then 0 else len)\<rparr>
                else g\<lparr>rpc_remote_fd := fd, rpc_fsync_res := 0\<rparr>)
             else g)
        (err = 0 \<and> sane) a (take (nat len) addr) w)"

text \<open>The whole reply structure of a poll is kept: the bytes are its entries here.\<close>

definition poll_bytes :: "mattx_pollfd list \<Rightarrow> byte list" where
  "poll_bytes ps = concat (map (\<lambda>p. le32 (p_fd p) @ take 2 (le32 (ucast (p_events p))) @ take 2 (le32 (ucast (p_revents p)))) ps)"

definition handle_sys_poll_reply :: "nat option \<Rightarrow> u32 \<Rightarrow> u32 \<Rightarrow> int \<Rightarrow> mattx_pollfd list \<Rightarrow> wormhole \<Rightarrow> wormhole \<times> fake_effect list" where
  "handle_sys_poll_reply a sender op ret ps w =
     complete_buf True sender op (\<lambda>g. g\<lparr>rpc_fsync_res := ret, rpc_read_buf := a\<rparr>) True a (poll_bytes ps) w"

definition handle_sys_epoll_wait_reply :: "nat option \<Rightarrow> u32 \<Rightarrow> u32 \<Rightarrow> int \<Rightarrow> byte list \<Rightarrow> wormhole \<Rightarrow> wormhole \<times> fake_effect list" where
  "handle_sys_epoll_wait_reply a sender op ret evs w =
     complete_buf True sender op (\<lambda>g. if 0 < ret then g\<lparr>rpc_fsync_res := ret, rpc_read_buf := a\<rparr> else g\<lparr>rpc_fsync_res := ret\<rparr>)
       (0 < ret) a evs w"

text \<open>These two do not wake anybody; the caller looks at the entry from time to time.\<close>

definition handle_sys_sockname_reply :: "nat option \<Rightarrow> u32 \<Rightarrow> u32 \<Rightarrow> int \<Rightarrow> sockaddr \<Rightarrow> int \<Rightarrow> wormhole \<Rightarrow> wormhole \<times> fake_effect list" where
  "handle_sys_sockname_reply a sender op err addr len w =
     complete_buf False sender op (\<lambda>g. if err = 0 then g\<lparr>rpc_fsync_res := err, rpc_read_buf := a\<rparr> else g\<lparr>rpc_fsync_res := err\<rparr>)
       (err = 0) a (take SOCKADDR_SIZE (addr @ replicate SOCKADDR_SIZE 0) @ le32 (of_int len)) w"

definition handle_sys_getsockopt_reply :: "nat option \<Rightarrow> u32 \<Rightarrow> u32 \<Rightarrow> int \<Rightarrow> int \<Rightarrow> byte list \<Rightarrow> wormhole \<Rightarrow> wormhole \<times> fake_effect list" where
  "handle_sys_getsockopt_reply a sender op err len v w =
     (let keep = (err = 0 \<and> 0 < len) in
      complete_buf False sender op
        (\<lambda>g. if keep then g\<lparr>rpc_fsync_res := err, rpc_lseek_res := len, rpc_read_buf := a\<rparr>
             else g\<lparr>rpc_fsync_res := err, rpc_lseek_res := len\<rparr>)
        (keep) a (take (nat len) v) w)"

text \<open>Data, address and address length in one block.\<close>

definition handle_sys_recvmsg_reply ::
    "nat option \<Rightarrow> u32 \<Rightarrow> u32 \<Rightarrow> int \<Rightarrow> int \<Rightarrow> int \<Rightarrow> sockaddr \<Rightarrow> byte list \<Rightarrow> wormhole \<Rightarrow> wormhole \<times> fake_effect list" where
  "handle_sys_recvmsg_reply a sender op n err len addr d w =
     (let ret = (if 0 \<le> n then n else err) in
      complete_buf True sender op (\<lambda>g. g\<lparr>rpc_fsync_res := ret, rpc_read_buf := (if 0 < ret then a else None)\<rparr>)
        (0 < ret) a (take (nat ret) d @ take SOCKADDR_SIZE (addr @ replicate SOCKADDR_SIZE 0) @ le32 (of_int len)) w)"

text \<open>A structure that is kept when the call succeeded.\<close>

definition store_blob :: "nat option \<Rightarrow> u32 \<Rightarrow> u32 \<Rightarrow> int \<Rightarrow> int option \<Rightarrow> byte list \<Rightarrow> wormhole \<Rightarrow> wormhole \<times> fake_effect list" where
  "store_blob a sender op err len d w =
     complete_buf True sender op
       (\<lambda>g. let g' = g\<lparr>rpc_fsync_res := err, rpc_lseek_res := (case len of Some n \<Rightarrow> n | None \<Rightarrow> rpc_lseek_res g)\<rparr>
            in if err = 0 then g'\<lparr>rpc_read_buf := a\<rparr> else g')
       (err = 0) a d w"

definition handle_sys_uname_reply where "handle_sys_uname_reply a sender op err d = store_blob a sender op err None d"
definition handle_sys_prlimit64_reply where "handle_sys_prlimit64_reply a sender op err d = store_blob a sender op err None d"
definition handle_sys_shmctl_reply where "handle_sys_shmctl_reply a sender op err d = store_blob a sender op err None d"
definition handle_sys_statfs_reply where "handle_sys_statfs_reply a sender op err d = store_blob a sender op err (Some 120) d"
definition handle_sys_fstatfs_reply where "handle_sys_fstatfs_reply a sender op err d = store_blob a sender op err (Some 120) d"
definition handle_sys_newfstatat_reply where "handle_sys_newfstatat_reply a sender op err d = store_blob a sender op err (Some 144) d"

definition handle_sys_fio_reply :: "nat option \<Rightarrow> u32 \<Rightarrow> u32 \<Rightarrow> int \<Rightarrow> byte list \<Rightarrow> wormhole \<Rightarrow> wormhole \<times> fake_effect list" where
  "handle_sys_fio_reply a sender op err d w =
     complete_buf True sender op (\<lambda>g. g\<lparr>rpc_fsync_res := err, rpc_read_buf := a\<rparr>) True a (take 256 d) w"

text \<open>The error field carries the length when it is positive.\<close>

definition store_bytes :: "nat option \<Rightarrow> u32 \<Rightarrow> u32 \<Rightarrow> int \<Rightarrow> byte list \<Rightarrow> wormhole \<Rightarrow> wormhole \<times> fake_effect list" where
  "store_bytes a sender op err d w =
     complete_buf True sender op
       (\<lambda>g. if 0 < err then g\<lparr>rpc_fsync_res := err, rpc_lseek_res := err, rpc_read_buf := a\<rparr>
            else g\<lparr>rpc_fsync_res := err, rpc_lseek_res := 0\<rparr>)
       (0 < err) a (take (nat err) d) w"

definition handle_sys_readlink_reply where "handle_sys_readlink_reply = store_bytes"
definition handle_sys_readlinkat_reply where "handle_sys_readlinkat_reply = store_bytes"
definition handle_sys_getdents64_reply where "handle_sys_getdents64_reply = store_bytes"

definition handle_sys_pipe2_reply :: "nat option \<Rightarrow> u32 \<Rightarrow> u32 \<Rightarrow> int \<Rightarrow> int \<Rightarrow> int \<Rightarrow> wormhole \<Rightarrow> wormhole \<times> fake_effect list" where
  "handle_sys_pipe2_reply a sender op err fd0 fd1 w =
     complete_buf True sender op (\<lambda>g. if err = 0 then g\<lparr>rpc_fsync_res := err, rpc_read_buf := a\<rparr> else g\<lparr>rpc_fsync_res := err\<rparr>)
       (err = 0) a (le32 (of_int fd0) @ le32 (of_int fd1)) w"

definition le64 :: "u64 \<Rightarrow> byte list" where
  "le64 x = le32 (ucast x) @ le32 (ucast (drop_bit 32 x))"

definition handle_sys_shmat_reply :: "nat option \<Rightarrow> u32 \<Rightarrow> u32 \<Rightarrow> u64 \<Rightarrow> nat \<Rightarrow> int \<Rightarrow> wormhole \<Rightarrow> wormhole \<times> fake_effect list" where
  "handle_sys_shmat_reply a sender op addr n err w =
     complete_buf True sender op (\<lambda>g. g\<lparr>rpc_fsync_res := err, rpc_lseek_res := int n, rpc_read_buf := a\<rparr>) True a (le64 addr) w"

text \<open>
  The dispatch of replies as \<^verbatim>\<open>mattx_fileio_init_handlers\<close> registers it. A send reply is
  read with the layout of a connect reply: its second word is the padding.
\<close>

fun deliver :: "nat option \<Rightarrow> u32 \<Rightarrow> sys_reply \<Rightarrow> wormhole \<Rightarrow> wormhole \<times> fake_effect list" where
  "deliver a s (A_int t op e) =
     (if t = MATTX_MSG_SYS_CONNECT_REPLY then handle_sys_connect_reply s op e
      else if t = MATTX_MSG_SYS_FSYNC_REPLY then handle_sys_fsync_reply s op e
      else if t = MATTX_MSG_SYS_SHMDT_REPLY then handle_sys_shmdt_reply s op e
      else handle_sys_generic_int_reply s op e)"
| "deliver a s (A_fd t op fd e) =
     (if t = MATTX_MSG_SYS_OPEN_REPLY then handle_sys_open_reply s op fd
      else if t = MATTX_MSG_SYS_DUP_REPLY then handle_sys_dup_reply s op fd
      else if t = MATTX_MSG_SYS_SOCKET_REPLY then handle_sys_socket_reply s op fd
      else if t = MATTX_MSG_SYS_EPOLL_CREATE_REPLY then handle_sys_epoll_create_reply s op fd e
      else handle_sys_shmget_reply s op fd e)"
| "deliver a s (A_data t op n e d) =
     (if t = MATTX_MSG_SYS_RECV_REPLY then handle_sys_recv_reply a s op n d else handle_sys_read_reply a s op n d)"
| "deliver a s (A_blob t op e d) =
     (if t = MATTX_MSG_SYS_STATX_REPLY then handle_sys_statx_reply a s op e d
      else if t = MATTX_MSG_SYS_UNAME_REPLY then handle_sys_uname_reply a s op e d
      else if t = MATTX_MSG_SYS_PRLIMIT64_REPLY then handle_sys_prlimit64_reply a s op e d
      else if t = MATTX_MSG_SYS_SHMCTL_REPLY then handle_sys_shmctl_reply a s op e d
      else if t = MATTX_MSG_SYS_STATFS_REPLY then handle_sys_statfs_reply a s op e d
      else if t = MATTX_MSG_SYS_FSTATFS_REPLY then handle_sys_fstatfs_reply a s op e d
      else if t = MATTX_MSG_SYS_NEWFSTATAT_REPLY then handle_sys_newfstatat_reply a s op e d
      else handle_sys_fio_reply a s op e d)"
| "deliver a s (A_bytes t op e d) =
     (if t = MATTX_MSG_SYS_READLINK_REPLY then handle_sys_readlink_reply a s op e d
      else if t = MATTX_MSG_SYS_READLINKAT_REPLY then handle_sys_readlinkat_reply a s op e d
      else handle_sys_getdents64_reply a s op e d)"
| "deliver a s (A_lseek op off e) = handle_sys_lseek_reply s op off"
| "deliver a s (A_send t op pad n e) =
     (if t = MATTX_MSG_SYS_SENDMSG_REPLY then handle_sys_sendmsg_reply s op n e
      else handle_sys_generic_int_reply s op (sint pad))"
| "deliver a s (A_accept op fd e addr len) = handle_sys_accept_reply a s op fd e addr len"
| "deliver a s (A_poll op n e ret ps) = handle_sys_poll_reply a s op ret ps"
| "deliver a s (A_events op ret evs) = handle_sys_epoll_wait_reply a s op ret evs"
| "deliver a s (A_name peer op e addr len) = handle_sys_sockname_reply a s op e addr len"
| "deliver a s (A_sockopt op e len v) = handle_sys_getsockopt_reply a s op e len v"
| "deliver a s (A_recvmsg op n e len addr d) = handle_sys_recvmsg_reply a s op n e len addr d"
| "deliver a s (A_pipe2 op e fd0 fd1) = handle_sys_pipe2_reply a s op e fd0 fd1"
| "deliver a s (A_shmat op addr n e) = handle_sys_shmat_reply a s op addr n e"

section \<open>Fake files\<close>

text \<open>
  \<open>tg\<close> gives the thread group of a live task; a thread of a guest counts as the guest.
\<close>

definition mattx_pid_shares_tgid_with_guest :: "(pid \<Rightarrow> pid option) \<Rightarrow> pid \<Rightarrow> pid \<Rightarrow> bool" where
  "mattx_pid_shares_tgid_with_guest tg lp gp \<longleftrightarrow> lp = gp \<or> tg lp = Some gp"

definition guest_of :: "(pid \<Rightarrow> pid option) \<Rightarrow> pid \<Rightarrow> guests \<Rightarrow> nat option" where
  "guest_of tg my r = scan (\<lambda>i. mattx_pid_shares_tgid_with_guest tg my (local_pid (slots r i))) (cnt r)"

definition check_rpc_done :: "(pid \<Rightarrow> pid option) \<Rightarrow> pid \<Rightarrow> guests \<Rightarrow> bool" where
  "check_rpc_done tg my r = (case guest_of tg my r of Some i \<Rightarrow> rpc_done (slots r i) | None \<Rightarrow> False)"

text \<open>Attach to the entry: the wait queue \<open>q\<close>, no answer yet, the result field cleared by \<open>f\<close>.\<close>

definition attach :: "(pid \<Rightarrow> pid option) \<Rightarrow> pid \<Rightarrow> nat \<Rightarrow> (mattx_guest_info \<Rightarrow> mattx_guest_info) \<Rightarrow> wormhole \<Rightarrow> wormhole" where
  "attach tg my q f w =
     (case guest_of tg my (g_reg w) of None \<Rightarrow> w
      | Some i \<Rightarrow> w\<lparr>g_reg := upd_slot i (\<lambda>g. f (g\<lparr>rpc_wq := Some q, rpc_done := False\<rparr>)) (g_reg w)\<rparr>)"

text \<open>\<open>Inl\<close> is an immediate result, \<open>Inr\<close> means the caller now sleeps.\<close>

definition fake_call ::
    "(pid \<Rightarrow> pid option) \<Rightarrow> pid \<Rightarrow> nat \<Rightarrow> mattx_fake_fd_info option \<Rightarrow> (mattx_guest_info \<Rightarrow> mattx_guest_info) \<Rightarrow>
     (mattx_fake_fd_info \<Rightarrow> sys_req) \<Rightarrow> wormhole \<Rightarrow> (int + unit) \<times> wormhole \<times> fake_effect list" where
  "fake_call tg my q fi f mk w =
     (case fi of None \<Rightarrow> (Inl (- EIO), w, [])
      | Some i \<Rightarrow> if \<not> g_links w (i_home_node i) then (Inl (- EIO), w, [])
         else (Inr (), attach tg my q f w, [Request (i_home_node i) (mk i)]))"

definition mattx_fake_llseek_start where
  "mattx_fake_llseek_start tg my q fi off whence =
     fake_call tg my q fi (\<lambda>g. g\<lparr>rpc_lseek_res := - 1\<rparr>) (\<lambda>i. C_lseek (i_orig_pid i) (i_remote_fd i) off whence)"

definition mattx_fake_fsync_start where
  "mattx_fake_fsync_start tg my q fi start en datasync =
     fake_call tg my q fi (\<lambda>g. g\<lparr>rpc_fsync_res := - 1\<rparr>) (\<lambda>i. C_fsync (i_orig_pid i) (i_remote_fd i) start en datasync)"

definition mattx_fake_read_start where
  "mattx_fake_read_start tg my q fi n =
     fake_call tg my q fi (\<lambda>g. g\<lparr>rpc_read_buf := None, rpc_read_bytes := 0\<rparr>)
       (\<lambda>i. C_read (i_orig_pid i) (i_remote_fd i) (min n 4096))"

text \<open>
  The status call is given a path, and looks for a fake file with its directory entry in the
  descriptor table: \<open>fds j\<close> is the entry of descriptor \<open>j\<close> and, for a fake file, its info.
\<close>

definition mattx_fake_getattr_start where
  "mattx_fake_getattr_start tg my q fds max_fds dentry req_mask flags =
     fake_call tg my q
       (case scan (\<lambda>j. case fds j of Some (d, Some info) \<Rightarrow> d = (dentry :: nat) | _ \<Rightarrow> False) max_fds of
          Some j \<Rightarrow> (case fds j of Some (d, info) \<Rightarrow> info | None \<Rightarrow> None) | None \<Rightarrow> None)
       (\<lambda>g. g\<lparr>rpc_statx_buf := None\<rparr>) (\<lambda>i. C_statx (i_orig_pid i) (i_remote_fd i) req_mask flags)"

text \<open>After the wake-up: collect from the entry and detach. The caller may be gone from the registry.\<close>

definition detach :: "(pid \<Rightarrow> pid option) \<Rightarrow> pid \<Rightarrow> (mattx_guest_info \<Rightarrow> mattx_guest_info) \<Rightarrow> wormhole \<Rightarrow> wormhole" where
  "detach tg my f w =
     (case guest_of tg my (g_reg w) of None \<Rightarrow> w
      | Some i \<Rightarrow> w\<lparr>g_reg := upd_slot i (\<lambda>g. f (g\<lparr>rpc_wq := None\<rparr>)) (g_reg w)\<rparr>)"

definition collect :: "(pid \<Rightarrow> pid option) \<Rightarrow> pid \<Rightarrow> (mattx_guest_info \<Rightarrow> 'a) \<Rightarrow> 'a \<Rightarrow> wormhole \<Rightarrow> 'a" where
  "collect tg my f dflt w = (case guest_of tg my (g_reg w) of None \<Rightarrow> dflt | Some i \<Rightarrow> f (slots (g_reg w) i))"

definition mattx_fake_llseek_finish :: "(pid \<Rightarrow> pid option) \<Rightarrow> pid \<Rightarrow> int \<Rightarrow> wormhole \<Rightarrow> (int \<times> int) \<times> wormhole" where
  "mattx_fake_llseek_finish tg my pos w =
     (let ret = collect tg my rpc_lseek_res (- EINVAL) w in ((ret, if 0 \<le> ret then ret else pos), detach tg my id w))"

definition mattx_fake_fsync_finish :: "(pid \<Rightarrow> pid option) \<Rightarrow> pid \<Rightarrow> wormhole \<Rightarrow> int \<times> wormhole" where
  "mattx_fake_fsync_finish tg my w = (collect tg my rpc_fsync_res (- EIO) w, detach tg my id w)"

text \<open>\<open>ok\<close>: the copy to the user succeeds. The bytes it gets are the second component.\<close>

definition mattx_fake_read_finish ::
    "(pid \<Rightarrow> pid option) \<Rightarrow> pid \<Rightarrow> bool \<Rightarrow> int \<Rightarrow> wormhole \<Rightarrow> (int \<times> byte list \<times> int) \<times> wormhole \<times> fake_effect list" where
  "mattx_fake_read_finish tg my ok pos w =
     (let n = collect tg my rpc_read_bytes 0 w; b = collect tg my rpc_read_buf None w;
          w' = detach tg my (\<lambda>g. g\<lparr>rpc_read_buf := None\<rparr>) w;
          free = (case b of Some p \<Rightarrow> [Free_buf p] | None \<Rightarrow> [])
      in case b of
           Some p \<Rightarrow> if 0 < n then (if ok then ((n, take (nat n) (g_heap w p), pos + n), w', free)
                                    else ((- EFAULT, [], pos), w', free))
                     else ((n, [], pos), w', free)
         | None \<Rightarrow> ((n, [], pos), w', free))"

definition mattx_fake_getattr_finish ::
    "(pid \<Rightarrow> pid option) \<Rightarrow> pid \<Rightarrow> byte list \<Rightarrow> wormhole \<Rightarrow> (int \<times> byte list) \<times> wormhole \<times> fake_effect list" where
  "mattx_fake_getattr_finish tg my old w =
     (case guest_of tg my (g_reg w) of None \<Rightarrow> ((- EIO, old), w, [])
      | Some i \<Rightarrow>
         (let w' = detach tg my (\<lambda>g. g\<lparr>rpc_statx_buf := None\<rparr>) w in
          case rpc_statx_buf (slots (g_reg w) i) of
            Some p \<Rightarrow> ((0, g_heap w p), w', [Free_buf p])
          | None \<Rightarrow> ((- EBADF, old), w', [])))"

text \<open>
  A write does not wait. Without a link it claims to have written everything. \<open>mem\<close>, \<open>ok\<close>: the
  packet can be allocated and filled. The result is the count and the new position.
\<close>

definition mattx_fake_write :: "bool \<Rightarrow> bool \<Rightarrow> mattx_fake_fd_info option \<Rightarrow> byte list \<Rightarrow> int \<Rightarrow> wormhole \<Rightarrow> (int \<times> int) \<times> fake_effect list" where
  "mattx_fake_write mem ok fi data pos w =
     (case fi of None \<Rightarrow> ((int (length data), pos), [])
      | Some i \<Rightarrow>
         if \<not> g_links w (i_home_node i) then ((int (length data), pos), [])
         else let n = min (length data) 4096 in
           if \<not> mem then ((- ENOMEM, pos), [])
           else if \<not> ok then ((- EFAULT, pos), [])
           else ((int n, pos + int n), [Request (i_home_node i) (C_write (i_orig_pid i) (i_remote_fd i) n (take n data))]))"

text \<open>
  The last close. While the guest is being recalled its descriptors stay open at home. Only the
  leader's pid is looked for.
\<close>

definition migrating_now :: "pid \<Rightarrow> guests \<Rightarrow> bool" where
  "migrating_now tgid r = (case scan (\<lambda>i. local_pid (slots r i) = tgid) (cnt r) of
     Some i \<Rightarrow> is_migrating (slots r i) | None \<Rightarrow> False)"

definition mattx_fake_release :: "pid \<Rightarrow> mattx_fake_fd_info option \<Rightarrow> wormhole \<Rightarrow> fake_effect list" where
  "mattx_fake_release tgid fi w =
     (case fi of None \<Rightarrow> []
      | Some i \<Rightarrow>
         (if g_links w (i_home_node i) \<and> \<not> migrating_now tgid (g_reg w)
          then [Request (i_home_node i) (C_close (i_orig_pid i) (i_remote_fd i))] else []) @ [Free_info])"

text \<open>Always ready: \<^verbatim>\<open>EPOLLIN | EPOLLOUT | EPOLLERR | EPOLLHUP\<close>.\<close>

definition mattx_fake_poll :: "16 word" where
  "mattx_fake_poll = 0x1D"

section \<open>A reply touches one entry\<close>

text \<open>What no reply changes: who a guest is, and its shared memory.\<close>

definition same_guest :: "mattx_guest_info \<Rightarrow> mattx_guest_info \<Rightarrow> bool" where
  "same_guest g g' \<longleftrightarrow> local_pid g' = local_pid g \<and> orig_pid g' = orig_pid g \<and> home_node g' = home_node g \<and>
     is_migrating g' = is_migrating g \<and> rpc_wq g' = rpc_wq g"

definition completion :: "nat option \<Rightarrow> u32 \<Rightarrow> u32 \<Rightarrow> wormhole \<Rightarrow> wormhole \<times> fake_effect list \<Rightarrow> bool" where
  "completion a s op w x \<longleftrightarrow> (\<exists>wakes f c d. x = complete_buf wakes s op f c a d w \<and> (\<forall>g. same_guest g (f g)))"

lemma completion_plain: "(\<And>g. same_guest g (f g)) \<Longrightarrow> completion a s op w (complete wakes s op f w)"
  unfolding completion_def
  by (intro exI [of _ wakes] exI [of _ f] exI [of _ False]) (simp add: complete_buf_def)

lemma completion_buf: "(\<And>g. same_guest g (f g)) \<Longrightarrow> completion a s op w (complete_buf wakes s op f c a d w)"
  unfolding completion_def by blast

lemma completion_store_blob: "completion a s op w (store_blob a s op e n d w)"
  unfolding store_blob_def by (rule completion_buf) (simp add: same_guest_def Let_def)

lemma completion_store_bytes: "completion a s op w (store_bytes a s op e d w)"
  unfolding store_bytes_def by (rule completion_buf) (simp add: same_guest_def)

lemma completion_store_read: "completion a s op w (complete_buf wakes s op (store_read a n) c a d w)"
  by (rule completion_buf) (simp add: same_guest_def store_read_def)

lemmas plain_handlers =
  handle_sys_connect_reply_def handle_sys_fsync_reply_def handle_sys_shmdt_reply_def
  handle_sys_generic_int_reply_def handle_sys_open_reply_def handle_sys_dup_reply_def handle_sys_socket_reply_def
  handle_sys_epoll_create_reply_def handle_sys_shmget_reply_def handle_sys_lseek_reply_def handle_sys_sendmsg_reply_def

lemmas buffer_handlers =
  handle_sys_recv_reply_def handle_sys_read_reply_def handle_sys_statx_reply_def handle_sys_uname_reply_def
  handle_sys_prlimit64_reply_def handle_sys_shmctl_reply_def handle_sys_statfs_reply_def handle_sys_fstatfs_reply_def
  handle_sys_newfstatat_reply_def handle_sys_fio_reply_def handle_sys_readlink_reply_def handle_sys_readlinkat_reply_def
  handle_sys_getdents64_reply_def handle_sys_accept_reply_def handle_sys_poll_reply_def handle_sys_epoll_wait_reply_def
  handle_sys_sockname_reply_def handle_sys_getsockopt_reply_def handle_sys_recvmsg_reply_def handle_sys_pipe2_reply_def
  handle_sys_shmat_reply_def

text \<open>Every reply is one completion.\<close>

lemma completion_if: "completion a s op w x \<Longrightarrow> completion a s op w y \<Longrightarrow> completion a s op w (if b then x else y)"
    "completion a s op w (F w) \<Longrightarrow> completion a s op w (G w) \<Longrightarrow> completion a s op w ((if b then F else G) w)"
  by simp_all

lemma deliver_completion: "completion a s (reply_pid r) w (deliver a s r w)"
  by (cases r; (simp only: deliver.simps reply_pid.simps plain_handlers buffer_handlers Let_def if_distribR);
      (intro completion_if completion_store_blob completion_store_bytes completion_store_read completion_plain completion_buf);
      simp add: same_guest_def)

lemma g_reg_with_buf [simp]: "g_reg (with_buf a d w) = g_reg w" "g_links (with_buf a d w) = g_links w"
  by (simp_all add: with_buf_def split: option.split)

lemma heap_with_buf: "a \<noteq> Some p \<Longrightarrow> g_heap (with_buf a d w) p = g_heap w p"
  by (auto simp: with_buf_def split: option.split)

text \<open>The frame of a reply: links, identities and the other entries stay as they are.\<close>

lemma deliver_frame:
  assumes "deliver a s r w = (w', e)"
  shows "g_links w' = g_links w" "cnt (g_reg w') = cnt (g_reg w)" "same_guest (slots (g_reg w) j) (slots (g_reg w') j)"
    and "guest_for s (reply_pid r) (g_reg w) \<noteq> Some j \<Longrightarrow> slots (g_reg w') j = slots (g_reg w) j"
    and "a \<noteq> Some p \<Longrightarrow> g_heap w' p = g_heap w p"
proof -
  obtain wakes f c d where d: "deliver a s r w = complete_buf wakes s (reply_pid r) f c a d w" "\<And>g. same_guest g (f g)"
    using deliver_completion [of a s r w] unfolding completion_def by blast
  define v where "v = (if c \<and> guest_for s (reply_pid r) (g_reg w) \<noteq> None then with_buf a d w else w)"
  have v: "g_reg v = g_reg w" "g_links v = g_links w" "a \<noteq> Some p \<Longrightarrow> g_heap v p = g_heap w p"
    by (simp_all add: v_def heap_with_buf)
  have w': "w' = (case guest_for s (reply_pid r) (g_reg w) of None \<Rightarrow> v
      | Some i \<Rightarrow> v\<lparr>g_reg := upd_slot i (\<lambda>g. (f g)\<lparr>rpc_done := True\<rparr>) (g_reg w)\<rparr>)"
  proof -
    have "w' = fst (complete wakes s (reply_pid r) f v)" using assms d(1) unfolding complete_buf_def v_def by simp
    then show ?thesis by (simp add: complete_def v(1) split: option.split)
  qed
  show "g_links w' = g_links w" "cnt (g_reg w') = cnt (g_reg w)" by (simp_all add: w' v split: option.split)
  show "same_guest (slots (g_reg w) j) (slots (g_reg w') j)"
    using d(2) [of "slots (g_reg w) j"] by (simp add: w' v same_guest_def upd_slot_def split: option.split)
  show "guest_for s (reply_pid r) (g_reg w) \<noteq> Some j \<Longrightarrow> slots (g_reg w') j = slots (g_reg w) j"
    by (simp add: w' v upd_slot_def split: option.split)
  show "a \<noteq> Some p \<Longrightarrow> g_heap w' p = g_heap w p" by (simp add: w' v split: option.split)
qed

lemma deliver_for:
  assumes "deliver a s r w = (w', e)"
  shows "guest_for s' op (g_reg w') = guest_for s' op (g_reg w)" "guest_of tg my (g_reg w') = guest_of tg my (g_reg w)"
  using deliver_frame(2) [OF assms] deliver_frame(3) [OF assms]
  by (auto simp: guest_for_def guest_of_def same_guest_def intro!: scan_cong)

lemma attach_for:
  assumes "\<And>g. same_guest g (f g)"
  shows "guest_for s' op (g_reg (attach tg my q f w)) = guest_for s' op (g_reg w)"
    and "guest_of tg my' (g_reg (attach tg my q f w)) = guest_of tg my' (g_reg w)"
  using assms [unfolded same_guest_def]
  by (auto simp: attach_def guest_for_def guest_of_def upd_slot_def split: option.split intro!: scan_cong)

section \<open>A remote read is a local read\<close>

text \<open>Replies arrive one after the other, each with the buffer the allocator gives it.\<close>

fun deliver_all :: "(nat option \<times> u32 \<times> sys_reply) list \<Rightarrow> wormhole \<Rightarrow> wormhole" where
  "deliver_all [] w = w"
| "deliver_all ((a, s, r) # rs) w = deliver_all rs (fst (deliver a s r w))"

lemma deliver_all_append [simp]: "deliver_all (xs @ ys) w = deliver_all ys (deliver_all xs w)"
  by (induction xs arbitrary: w) auto

text \<open>Replies for other guests, into other buffers than \<open>p\<close>.\<close>

definition foreign :: "u32 \<Rightarrow> u32 \<Rightarrow> nat \<Rightarrow> (nat option \<times> u32 \<times> sys_reply) list \<Rightarrow> bool" where
  "foreign home op p rs \<longleftrightarrow> (\<forall>(a, s, r)\<in>set rs. (s, reply_pid r) \<noteq> (home, op) \<and> a \<noteq> Some p)"

lemma foreign_frame:
  assumes "foreign home op p rs" and "guest_for home op (g_reg w) = Some i"
  shows "slots (g_reg (deliver_all rs w)) i = slots (g_reg w) i \<and> g_heap (deliver_all rs w) p = g_heap w p \<and>
    guest_for home op (g_reg (deliver_all rs w)) = Some i \<and> guest_of tg my (g_reg (deliver_all rs w)) = guest_of tg my (g_reg w)"
  using assms
proof (induction rs arbitrary: w)
  case (Cons x rs)
  obtain a s r where x: "x = (a, s, r)" by (cases x)
  obtain w' e where d: "deliver a s r w = (w', e)" by (meson surj_pair)
  have o: "(s, reply_pid r) \<noteq> (home, op)" "a \<noteq> Some p" "foreign home op p rs"
    using Cons.prems(1) by (auto simp: foreign_def x)
  have "orig_pid (slots (g_reg w) i) = op" "home_node (slots (g_reg w) i) = home"
    using scan_SomeD(2) [OF Cons.prems(2) [unfolded guest_for_def]] by simp_all
  then have "guest_for s (reply_pid r) (g_reg w) \<noteq> Some i"
    using o(1) by (auto simp: guest_for_def dest: scan_SomeD(2))
  note fr = deliver_frame(4) [OF d this] deliver_frame(5) [OF d o(2)] deliver_for [OF d]
  from Cons.IH [OF o(3), of w'] Cons.prems(2) fr show ?case by (simp add: x d)
qed simp

text \<open>What the reading process finds after its own reply.\<close>

lemma deliver_read:
  assumes "guest_for home op (g_reg w) = Some i"
    and "deliver (Some p) home (A_data MATTX_MSG_SYS_READ_REPLY op n e d) w = (w', eff)"
  shows "slots (g_reg w') i = (store_read (Some p) n (slots (g_reg w) i))\<lparr>rpc_done := True\<rparr>"
    and "0 < n \<Longrightarrow> g_heap w' p = take (nat n) d"
  using assms by (auto simp: handle_sys_read_reply_def complete_buf_def complete_def with_buf_def upd_slot_def split: if_splits)

text \<open>The answer of the home node to a read of a native descriptor.\<close>

lemma read_req_answer:
  assumes "fd < 1000" "native_file op (unat fd) h = Some f" "h_links h s" "h_mem env 0" "h_mem env 1"
    and "h_read env (map_option t_cred (tasks h op)) f n (f_pos h f) = (ret, d, pos)"
    and "handle_sys_read_req env s (Some (op, fd, n)) h = (h', ds)"
  shows "Send t r \<in> set ds \<longleftrightarrow> t = s \<and> r = A_data MATTX_MSG_SYS_READ_REPLY op ret (err_of ret) (take (nat ret) d)"
    and "h' = (if 0 \<le> ret then h\<lparr>f_pos := (f_pos h)(f := pos)\<rparr> else h)"
proof -
  have nl: "\<not> 1000 \<le> fd" using assms(1) by simp
  show "Send t r \<in> set ds \<longleftrightarrow> t = s \<and> r = A_data MATTX_MSG_SYS_READ_REPLY op ret (err_of ret) (take (nat ret) d)"
    "h' = (if 0 \<le> ret then h\<lparr>f_pos := (f_pos h)(f := pos)\<rparr> else h)"
    using assms nl by (auto simp: handle_sys_read_req_def fetch_unsigned_def identity_def with_task_def split: if_splits)
qed

text \<open>
  C18. Reading through the wormhole is reading at home. A process on another node reads from a
  descriptor of its home node; its request is served, and its reply arrives, with any replies for
  other guests before and after it. Then the process gets the count and the bytes, and the file
  at home gets the position, that the same read (of at most 4096 bytes, with the identity of the
  deputy) gives at home; the process's own position moves by the bytes read, its registry entry
  is detached, and exactly the reply's buffer is freed.
\<close>

theorem forwarded_read_equiv:
  assumes "guest_of tg my (g_reg w) = Some i" and "guest_for home op (g_reg w) = Some i"
    and "mattx_fake_read_start tg my q (Some \<lparr>i_home_node = home, i_orig_pid = op, i_remote_fd = fd\<rparr>) n w =
           (Inr (), w1, [Request home (C_read op fd m)])"
    and "fd < 1000" and "native_file op (unat fd) h = Some f" and "h_links h s" and "h_mem env 0" and "h_mem env 1"
    and "h_read env (map_option t_cred (tasks h op)) f (min n 4096) (f_pos h f) = (ret, d, fpos)"
    and "handle_sys_read_req env s (Some (op, fd, m)) h = (h', ds)" and "Send s r \<in> set ds"
    and "foreign home op p before" and "foreign home op p after"
    and "mattx_fake_read_finish tg my True pos (deliver_all (before @ [(Some p, home, r)] @ after) w1) = (out, w2, effs)"
  shows "out = (ret, if 0 < ret then take (nat ret) d else [], if 0 < ret then pos + ret else pos) \<and>
    f_pos h' f = (if 0 \<le> ret then fpos else f_pos h f) \<and>
    rpc_wq (slots (g_reg w2) i) = None \<and> rpc_read_buf (slots (g_reg w2) i) = None \<and>
    effs = (if 0 < ret then [Free_buf p] else [])"
proof -
  define clr where "clr = (\<lambda>g::mattx_guest_info. g\<lparr>rpc_read_buf := None, rpc_read_bytes := 0\<rparr>)"
  have same: "same_guest g (clr g)" for g by (simp add: same_guest_def clr_def)
  have w1: "w1 = attach tg my q clr w" and m: "m = min n 4096"
    using assms(3) by (auto simp: mattx_fake_read_start_def fake_call_def clr_def split: if_splits)
  note ans = read_req_answer [OF assms(4-8) assms(9) [folded m] assms(10)]
  have r: "r = A_data MATTX_MSG_SYS_READ_REPLY op ret (err_of ret) (take (nat ret) d)"
    using assms(11) ans(1) by blast
  let ?w2 = "deliver_all before w1"
  have for1: "guest_for home op (g_reg w1) = Some i" and of1: "guest_of tg my (g_reg w1) = Some i"
    using assms(1,2) by (simp_all add: w1 attach_for [OF same])
  note fr1 = foreign_frame [OF assms(12) for1, of tg my]
  obtain w3 e3 where d3: "deliver (Some p) home r ?w2 = (w3, e3)" by (meson surj_pair)
  have for2: "guest_for home op (g_reg ?w2) = Some i" using fr1 by blast
  note own = deliver_read [OF for2 d3 [unfolded r]]
  have for3: "guest_for home op (g_reg w3) = Some i" and of3: "guest_of tg my (g_reg w3) = Some i"
    using fr1 of1 deliver_for [OF d3] by simp_all
  note fr2 = foreign_frame [OF assms(13) for3, of tg my]
  define w4 where "w4 = deliver_all after w3"
  have run: "deliver_all (before @ [(Some p, home, r)] @ after) w1 = w4" by (simp add: d3 w4_def)
  have entry: "slots (g_reg w4) i = (store_read (Some p) ret (slots (g_reg ?w2) i))\<lparr>rpc_done := True\<rparr>"
    using fr2 own(1) by (simp add: w4_def)
  have heap: "0 < ret \<Longrightarrow> take (nat ret) (g_heap w4 p) = take (nat ret) d" using fr2 own(2) by (simp add: w4_def)
  have of4: "guest_of tg my (g_reg w4) = Some i" using fr2 of3 by (simp add: w4_def)
  have b: "rpc_read_bytes (slots (g_reg w4) i) = ret" "rpc_read_buf (slots (g_reg w4) i) = (if 0 < ret then Some p else None)"
    by (simp_all add: entry store_read_def)
  have "out = (ret, if 0 < ret then take (nat ret) d else [], if 0 < ret then pos + ret else pos) \<and>
    rpc_wq (slots (g_reg w2) i) = None \<and> rpc_read_buf (slots (g_reg w2) i) = None \<and>
    effs = (if 0 < ret then [Free_buf p] else [])"
    using assms(14) heap unfolding run
    by (auto simp: mattx_fake_read_finish_def collect_def detach_def of4 b upd_slot_def Let_def split: if_splits)
  then show ?thesis using ans(2) by simp
qed

text \<open>Node 3 runs a process of node 7, and another one of node 1, whose reply comes in between.\<close>

definition demo_worm :: wormhole where
  "demo_worm = \<lparr>g_reg = \<lparr>slots = (\<lambda>i. if i = 0 then demo_guest 500 42 1 77 else demo_guest 501 100 7 78), cnt = 2\<rparr>,
     g_heap = (\<lambda>_. []), g_links = (\<lambda>n. n = 7)\<rparr>"

lemma demo_worm_finds:
  "guest_of (\<lambda>_. None) 501 (g_reg demo_worm) = Some 1" "guest_for 7 100 (g_reg demo_worm) = Some 1"
  unfolding guest_of_def guest_for_def mattx_pid_shares_tgid_with_guest_def
  by (rule scan_unique; auto simp: demo_worm_def demo_guest_def split: if_splits)+

theorem forwarded_read_equiv_witness:
  "\<exists>w2. mattx_fake_read_finish (\<lambda>_. None) 501 True 40
     (deliver_all [(Some 5, 1, A_lseek 42 9 0), (Some 6, 7, A_data MATTX_MSG_SYS_READ_REPLY 100 2 0 [1, 2])]
       (attach (\<lambda>_. None) 501 9 (\<lambda>g. g\<lparr>rpc_read_buf := None, rpc_read_bytes := 0\<rparr>) demo_worm)) =
     ((2, [1, 2], 42), w2, [Free_buf 6])"
proof -
  let ?w1 = "attach (\<lambda>_. None) 501 9 (\<lambda>g. g\<lparr>rpc_read_buf := None, rpc_read_bytes := 0\<rparr>) demo_worm"
  have start: "mattx_fake_read_start (\<lambda>_. None) 501 9 (Some \<lparr>i_home_node = 7, i_orig_pid = 100, i_remote_fd = 3\<rparr>) 10 demo_worm =
      (Inr (), ?w1, [Request 7 (C_read 100 3 10)])"
    by (simp add: mattx_fake_read_start_def fake_call_def) (simp add: demo_worm_def)
  have f: "native_file 100 (unat (3 :: u32)) demo_home = Some 13"
    by (simp add: native_file_def demo_files_of) (simp add: demo_home_def demo_tab_def)
  have env: "h_links demo_home 3" "h_mem demo_host 0" "h_mem demo_host 1" by (simp_all add: demo_home_def demo_host_def)
  have rd: "h_read demo_host (map_option t_cred (tasks demo_home 100)) 13 (min 10 4096) (f_pos demo_home 13) = (2, [1, 2], 2)"
    by (simp add: demo_home_def demo_host_def)
  obtain h' ds where req: "handle_sys_read_req demo_host 3 (Some (100, 3, 10)) demo_home = (h', ds)" by (meson surj_pair)
  have sent: "Send 3 (A_data MATTX_MSG_SYS_READ_REPLY 100 2 0 [1, 2]) \<in> set ds"
    using read_req_answer(1) [OF _ f env, of 10 2 "[1, 2]" 2 h' ds] rd req by (simp add: err_of_def)
  have fo: "foreign 7 100 6 [(Some 5, 1, A_lseek 42 9 0)]" "foreign 7 100 6 []" by (simp_all add: foreign_def)
  obtain out w2 effs where fin: "mattx_fake_read_finish (\<lambda>_. None) 501 True 40
     (deliver_all ([(Some 5, 1, A_lseek 42 9 0)] @ [(Some 6, 7, A_data MATTX_MSG_SYS_READ_REPLY 100 2 0 [1, 2])] @ []) ?w1) =
     (out, w2, effs)" using prod_cases3 by blast
  from forwarded_read_equiv [OF demo_worm_finds start _ f env rd req sent fo fin]
  have "out = (2, [1, 2], 42) \<and> effs = [Free_buf 6]" by simp
  with fin show ?thesis by simp
qed

section \<open>What goes wrong\<close>

text \<open>
  A failed accept leaves the descriptor number of an earlier call in the entry, so the caller
  that looks at that number takes the failure for a success.
\<close>

lemma accept_failure_stale:
  assumes "guest_for s op (g_reg w) = Some i" "e \<noteq> 0"
    and "deliver a s (A_accept op fd e addr len) w = (w', effs)"
  shows "rpc_remote_fd (slots (g_reg w') i) = rpc_remote_fd (slots (g_reg w) i)"
    and "rpc_fsync_res (slots (g_reg w') i) = rpc_fsync_res (slots (g_reg w) i)"
  using assms by (auto simp: handle_sys_accept_reply_def complete_buf_def complete_def upd_slot_def Let_def)

text \<open>
  The reply to a send carries its count behind four bytes of padding, but is read as an error
  right behind the pid: the caller gets the padding.
\<close>

lemma send_result_is_padding:
  assumes "guest_for s op (g_reg w) = Some i"
    and "deliver a s (A_send MATTX_MSG_SYS_SEND_REPLY op pad n e) w = (w', effs)"
  shows "rpc_fsync_res (slots (g_reg w') i) = sint pad"
  using assms by (auto simp: handle_sys_generic_int_reply_def complete_def upd_slot_def)

text \<open>
  A call that is interrupted detaches; its late reply still stores its buffer in the entry. When the
  next read of the guest starts, the field is cleared without freeing the buffer.
\<close>

lemma late_reply_leaks:
  assumes "guest_for s op (g_reg w) = Some i" "rpc_wq (slots (g_reg w) i) = None" "0 < n"
    and "deliver (Some p) s (A_data MATTX_MSG_SYS_READ_REPLY op n 0 d) w = (w', effs)"
    and "guest_of tg my (g_reg w) = Some i" and "g_links w home"
    and "mattx_fake_read_start tg my q (Some \<lparr>i_home_node = home, i_orig_pid = op, i_remote_fd = fd\<rparr>) k w' = (res, w'', e)"
  shows "rpc_read_buf (slots (g_reg w') i) = Some p" and "rpc_read_buf (slots (g_reg w'') i) = None"
    and "Free_buf p \<notin> set e"
proof -
  have "g_links w' home" "guest_of tg my (g_reg w') = Some i"
    using deliver_frame(1) [OF assms(4)] deliver_for(2) [OF assms(4)] assms(5,6) by simp_all
  then show "rpc_read_buf (slots (g_reg w'') i) = None" "Free_buf p \<notin> set e"
    using assms(7) by (auto simp: mattx_fake_read_start_def fake_call_def attach_def upd_slot_def)
  show "rpc_read_buf (slots (g_reg w') i) = Some p"
    using deliver_read(1) [OF assms(1), of p n 0 d w' effs] assms(3,4) by (simp add: store_read_def)
qed

text \<open>Without a link a write loses its data and reports that all was written.\<close>

lemma write_without_link:
  assumes "\<not> g_links w (i_home_node i)"
  shows "mattx_fake_write mem ok (Some i) data pos w = ((int (length data), pos), [])"
  using assms by (simp add: mattx_fake_write_def)

end
