(* ===== verification/Mx_Admin.thy ===== *)
theory Mx_Admin
  imports Mx_Fs Mx_Comm
begin

text \<open>
  Settings, status files and the life of the module: the netlink settings and the start and end of
  the module (\<^verbatim>\<open>mattx_main.c\<close>), the files under \<^verbatim>\<open>/proc/mattx\<close> (\<^verbatim>\<open>mattx_proc.c\<close>), and the
  registration of the probes (\<^verbatim>\<open>mattx_hooks.c\<close>).

  Text is a list of characters. The scanning functions of the kernel that the source calls are
  modelled as far as it uses them: words of at most a number of characters and decimal numbers,
  which wrap at 32 bits.
\<close>

section \<open>Numbers in text\<close>

definition is_space :: "char \<Rightarrow> bool" where
  "is_space c \<longleftrightarrow> c \<in> {CHR '' '', CHR 0x09, CHR 0x0A, CHR 0x0B, CHR 0x0C, CHR 0x0D, CHR 0xA0}"

definition digit :: "nat \<Rightarrow> char" where
  "digit d = ''0123456789'' ! d"

definition digit_value :: "char \<Rightarrow> nat" where
  "digit_value c = of_char c - of_char (CHR ''0'')"

fun dec :: "nat \<Rightarrow> string" where
  "dec n = (if n < 10 then [digit n] else dec (n div 10) @ [digit (n mod 10)])"

declare dec.simps [simp del]

definition undec :: "string \<Rightarrow> nat" where
  "undec s = foldl (\<lambda>n c. 10 * n + digit_value c) 0 s"

text \<open>Printing with \<open>%d\<close>.\<close>

definition print_int :: "int \<Rightarrow> string" where
  "print_int x = (if x < 0 then CHR ''-'' # dec (nat (- x)) else dec (nat x))"

text \<open>Scanning with \<open>%u\<close>, \<open>%d\<close> and \<open>%<n>s\<close>: the value and the rest; None is no match.\<close>

definition scan_u :: "string \<Rightarrow> (u32 \<times> string) option" where
  "scan_u s = (let t = dropWhile is_space s; ds = takeWhile is_digit t in
     if ds = [] then None else Some (of_nat (undec ds), dropWhile is_digit t))"

definition scan_d :: "string \<Rightarrow> (int \<times> string) option" where
  "scan_d s = (let t = dropWhile is_space s; neg = (t \<noteq> [] \<and> hd t = CHR ''-''); u = (if neg then tl t else t); ds = takeWhile is_digit u in
     if ds = [] then None
     else Some (sint (word_of_int (if neg then - int (undec ds) else int (undec ds)) :: u32), dropWhile is_digit u))"

definition scan_word :: "nat \<Rightarrow> string \<Rightarrow> string \<times> string" where
  "scan_word n s = (let t = dropWhile is_space s; w = take n (takeWhile (\<lambda>c. \<not> is_space c) t) in (w, drop (length w) t))"

text \<open>The scan \<open>%31s %d %31s\<close> with at least the first two: command, number and second argument.\<close>

definition scan_command :: "string \<Rightarrow> (string \<times> int \<times> string) option" where
  "scan_command s =
     (if s = [] then None
      else (case scan_word 31 s of (cmd, t) \<Rightarrow>
        (case scan_d t of None \<Rightarrow> None | Some (n, u) \<Rightarrow>
           Some (cmd, n, if dropWhile is_space u = [] then [] else fst (scan_word 31 u)))))"

section \<open>Settings\<close>

record settings =
  set_file_io :: bool
  set_network_io :: bool
  set_mattxfs :: bool
  set_mpi :: bool
  set_accept :: bool
  set_local_libs :: bool
  set_debug :: bool
  set_balancer :: bool
  set_dsm_mode :: int
  set_affinity :: u32
  set_excludes :: string
  set_includes :: string
  set_dfsa_dir :: string
  set_node_id :: u32
  set_ip_addr :: u32

text \<open>The attributes of a netlink message, each of which may be missing.\<close>

record nl_config =
  a_file_io :: "u8 option"
  a_net_io :: "u8 option"
  a_mattxfs :: "u8 option"
  a_dfsa_dir :: "string option"
  a_mpi :: "u8 option"
  a_accept :: "u8 option"
  a_local_libs :: "u8 option"
  a_dsm_mode :: "u8 option"

definition when_given :: "'a option \<Rightarrow> ('a \<Rightarrow> settings \<Rightarrow> settings) \<Rightarrow> settings \<Rightarrow> settings" where
  "when_given x f s = (case x of Some v \<Rightarrow> f v s | None \<Rightarrow> s)"

definition mattx_nl_cmd_set_config :: "nl_config \<Rightarrow> settings \<Rightarrow> settings" where
  "mattx_nl_cmd_set_config a s =
     when_given (a_dsm_mode a) (\<lambda>v s. s\<lparr>set_dsm_mode := uint v\<rparr>)
      (when_given (a_local_libs a) (\<lambda>v s. s\<lparr>set_local_libs := v \<noteq> 0\<rparr>)
        (when_given (a_accept a) (\<lambda>v s. s\<lparr>set_accept := v \<noteq> 0\<rparr>)
          (when_given (a_mpi a) (\<lambda>v s. s\<lparr>set_mpi := v \<noteq> 0\<rparr>)
            (when_given (a_dfsa_dir a) (\<lambda>v s. s\<lparr>set_dfsa_dir := take 255 v\<rparr>)
              (when_given (a_mattxfs a) (\<lambda>v s. s\<lparr>set_mattxfs := v \<noteq> 0\<rparr>)
                (when_given (a_net_io a) (\<lambda>v s. s\<lparr>set_network_io := v \<noteq> 0\<rparr>)
                  (when_given (a_file_io a) (\<lambda>v s. s\<lparr>set_file_io := v \<noteq> 0\<rparr>) s)))))))"

definition mattx_nl_cmd_set_local_ip :: "u32 option \<Rightarrow> u32 option \<Rightarrow> settings \<Rightarrow> settings" where
  "mattx_nl_cmd_set_local_ip ip node s =
     when_given node (\<lambda>v s. s\<lparr>set_node_id := v\<rparr>) (when_given ip (\<lambda>v s. s\<lparr>set_ip_addr := v\<rparr>) s)"

section \<open>The admin file\<close>

datatype (plugins only: size code) admin_action = Expels int | Recalls int | Migrates pid nat

text \<open>
  A write to the admin file; \<open>data\<close> is what was written (None: it cannot be read). \<open>connected\<close>: a
  node has a link; \<open>leader\<close>: the first thread of the process of a thread. The buffer takes 255
  characters, and ends at a line break.
\<close>

abbreviation (input) NEWLINE :: char where "NEWLINE \<equiv> CHR 0x0A"

definition admin_line :: "string \<Rightarrow> string" where
  "admin_line d = takeWhile (\<lambda>c. c \<noteq> NEWLINE) (takeWhile (\<lambda>c. c \<noteq> CHR 0x00) (take 255 d))"

definition starts_with :: "string \<Rightarrow> string \<Rightarrow> bool" where
  "starts_with p s \<longleftrightarrow> take (length p) s = p"

definition admin_migrate :: "(nat \<Rightarrow> bool) \<Rightarrow> (int \<Rightarrow> pid option) \<Rightarrow> int \<Rightarrow> string \<Rightarrow> admin_action list" where
  "admin_migrate connected leader pid arg =
     (if arg = ''home'' then [Recalls pid]
      else (case kstrtoint arg of
          None \<Rightarrow> []
        | Some n \<Rightarrow>
           if n < 0 \<or> int MAX_NODES \<le> n \<or> \<not> connected (nat n) then []
           else (case leader pid of Some p \<Rightarrow> [Migrates p (nat n)] | None \<Rightarrow> [])))"

definition admin_number ::
    "(nat \<Rightarrow> bool) \<Rightarrow> (int \<Rightarrow> pid option) \<Rightarrow> string \<Rightarrow> string \<times> int \<times> string \<Rightarrow> settings \<Rightarrow> settings \<times> admin_action list" where
  "admin_number connected leader line c s =
     (case c of (cmd, n, arg) \<Rightarrow>
        if cmd = ''balancer'' \<and> n \<noteq> - 1 then (s\<lparr>set_balancer := n \<noteq> 0\<rparr>, [])
        else if cmd = ''debug'' \<and> n \<noteq> - 1 then (s\<lparr>set_debug := n \<noteq> 0\<rparr>, [])
        else if cmd = ''mattxfs'' \<and> n \<noteq> - 1 then (s\<lparr>set_mattxfs := n \<noteq> 0\<rparr>, [])
        else if cmd = ''mpi'' \<and> n \<noteq> - 1 then (s\<lparr>set_mpi := n \<noteq> 0\<rparr>, [])
        else if cmd = ''accept'' \<and> n \<noteq> - 1 then (s\<lparr>set_accept := n \<noteq> 0\<rparr>, [])
        else if cmd = ''locallibs'' \<and> n \<noteq> - 1 then (s\<lparr>set_local_libs := n \<noteq> 0\<rparr>, [])
        else if starts_with ''dsm_mode '' line then
          (case scan_d (drop 9 line) of Some (v, _) \<Rightarrow> (s\<lparr>set_dsm_mode := v\<rparr>, []) | None \<Rightarrow> (s, []))
        else if cmd = ''migrate'' \<and> n \<noteq> - 1 \<and> arg \<noteq> [] then (s, admin_migrate connected leader n arg)
        else (s, []))"

definition admin_write ::
    "(nat \<Rightarrow> bool) \<Rightarrow> (int \<Rightarrow> pid option) \<Rightarrow> string option \<Rightarrow> settings \<Rightarrow> int \<times> settings \<times> admin_action list" where
  "admin_write connected leader data s =
     (case data of None \<Rightarrow> (- EFAULT, s, [])
      | Some d \<Rightarrow>
         (int (length d),
          (let line = admin_line d in
           if starts_with ''exclude '' line then (s\<lparr>set_excludes := take 511 (drop 8 line)\<rparr>, [])
           else if starts_with ''include '' line then (s\<lparr>set_includes := take 511 (drop 8 line)\<rparr>, [])
           else if starts_with ''affinity '' line then
             (case scan_u (drop 9 line) of Some (v, _) \<Rightarrow> (s\<lparr>set_affinity := v\<rparr>, []) | None \<Rightarrow> (s, []))
           else if starts_with ''expel '' line then
             (case scan_d (drop 6 line) of Some (p, _) \<Rightarrow> (s, [Expels p]) | None \<Rightarrow> (s, []))
           else (case scan_command line of Some c \<Rightarrow> admin_number connected leader line c s | None \<Rightarrow> (s, [])))))"

section \<open>Status files\<close>

definition pair_line :: "u32 \<times> u32 \<Rightarrow> string" where
  "pair_line p = print_int (sint (fst p)) @ '':'' @ print_int (sint (snd p)) @ [NEWLINE]"

definition remote_show :: "exports \<Rightarrow> string" where
  "remote_show x = concat (map (\<lambda>e. pair_line (e_orig_pid e, e_target_node e)) (entries x))"

definition guests_show :: "guests \<Rightarrow> string" where
  "guests_show r = concat (map (\<lambda>g. pair_line (local_pid g, home_node g)) (entries r))"

text \<open>
  The node table: the own row first, with a load and free memory that the caller measured, then a row
  per link, and the settings. An address is shown byte by byte, as it lies in memory.
\<close>

abbreviation (input) TAB :: char where "TAB \<equiv> CHR 0x09"

definition print_u :: "u32 \<Rightarrow> string" where
  "print_u x = dec (unat x)"

definition print_ip :: "u32 \<Rightarrow> string" where
  "print_ip a = (case map (\<lambda>b. dec (unat b)) (le32 a) of
      [p, q, r, t] \<Rightarrow> p @ ''.'' @ q @ ''.'' @ r @ ''.'' @ t | _ \<Rightarrow> [])"

definition node_row :: "string \<Rightarrow> string \<Rightarrow> u32 \<Rightarrow> u32 \<Rightarrow> u32 \<Rightarrow> u32 \<Rightarrow> string" where
  "node_row name sep ip load aff mem =
     name @ sep @ print_ip ip @ [TAB] @ print_u load @ [TAB, TAB] @ print_u aff @ [TAB, TAB] @ print_u mem @ [NEWLINE]"

definition yes_no :: "bool \<Rightarrow> string" where "yes_no b = (if b then ''YES'' else ''NO'')"
definition on_off :: "bool \<Rightarrow> string" where "on_off b = (if b then ''ON'' else ''OFF'')"

definition settings_show :: "settings \<Rightarrow> string" where
  "settings_show s = concat (map (\<lambda>(k, v). k @ '': '' @ v @ [NEWLINE])
     [(NEWLINE # ''Balancer Enabled'', yes_no (set_balancer s)), (''MattXFS Enabled'', yes_no (set_mattxfs s)),
      (''MPI Support'', yes_no (set_mpi s)), (''Accept Guests'', yes_no (set_accept s)), (''HPC Local Libs'', on_off (set_local_libs s)),
      (''DSM Mode'', print_int (set_dsm_mode s)), (''Debug Mode'', on_off (set_debug s)),
      (''Node Affinity'', print_u (set_affinity s) @ '' (0 = Auto)''), (''Migration Excludes'', set_excludes s),
      (''Migration Includes'', set_includes s)])"

definition remote_row :: "mattx_link \<Rightarrow> mattx_load_info \<Rightarrow> string" where
  "remote_row l i = node_row (print_int (sint (node_id l))) [TAB, TAB] (ip_addr l) (cpu_load i)
     (if affinity i = 0 then 1000 else affinity i) (mem_free_mb i)"

definition nodes_show :: "u32 \<Rightarrow> u32 \<Rightarrow> nat \<Rightarrow> settings \<Rightarrow> cluster_map \<Rightarrow> (nat \<Rightarrow> mattx_load_info) \<Rightarrow> string" where
  "nodes_show load mem cpus s cm tab =
     (let rule = replicate 72 CHR ''-'' @ [NEWLINE] in
      ''MattX Cluster Nodes:'' @ [NEWLINE] @ rule @
      ''Node ID'' @ [TAB, TAB] @ ''IP Address'' @ [TAB] @ ''CPU Load'' @ [TAB] @ ''Affinity'' @ [TAB] @ ''Mem Free (MB)'' @ [NEWLINE] @ rule @
      node_row (print_int (sint (set_node_id s)) @ '' (Local)'') [TAB] (set_ip_addr s) load
        (if set_affinity s \<noteq> 0 then set_affinity s else of_nat (cpus * 1000)) mem @
      concat (map (\<lambda>i. case cm i of Some l \<Rightarrow> if node_id l \<noteq> - 1 then remote_row l (tab i) else [] | None \<Rightarrow> []) [0..<MAX_NODES]) @
      settings_show s)"

definition version_show :: string where
  "version_show = ''MattX Version: 1.9'' @ [NEWLINE] @ ''MattX License: GPLv2'' @ [NEWLINE] @
     ''Copyright (c) 2026 by Matthias Rechenburg'' @ [NEWLINE]"

section \<open>Probes\<close>

text \<open>
  The functions whose entry and return are watched, each with the two handlers, in the order of
  registration.
\<close>

type_synonym hook = "string \<times> string \<times> string"

definition path_hooks :: "hook list" where
  "path_hooks =
    [(''do_sys_openat2'', ''entry_handler_openat'', ''ret_handler_openat''),
     (''__x64_sys_dup'', ''entry_handler_dup'', ''ret_handler_dup''),
     (''__x64_sys_dup2'', ''entry_handler_dup'', ''ret_handler_dup''),
     (''__x64_sys_unlinkat'', ''entry_handler_unlinkat'', ''ret_handler_unlinkat''),
     (''__sys_socket'', ''entry_handler_socket'', ''ret_handler_socket''),
     (''__sys_connect'', ''entry_handler_connect'', ''ret_handler_connect''),
     (''__sys_bind'', ''entry_handler_bind'', ''ret_handler_bind''),
     (''__sys_listen'', ''entry_handler_listen'', ''ret_handler_listen''),
     (''__sys_sendto'', ''entry_handler_sendto'', ''ret_handler_sendto''),
     (''__sys_recvfrom'', ''entry_handler_recvfrom'', ''ret_handler_recvfrom''),
     (''__sys_accept4'', ''entry_handler_accept'', ''ret_handler_accept''),
     (''__x64_sys_poll'', ''entry_handler_poll'', ''ret_handler_poll''),
     (''__x64_sys_select'', ''entry_handler_select'', ''ret_handler_select'')]"

definition descriptor_hooks :: "hook list" where
  "descriptor_hooks =
    [(''__x64_sys_pselect6'', ''entry_handler_pselect6'', ''ret_handler_pselect6''),
     (''__x64_sys_read'', ''entry_handler_read'', ''ret_handler_read''),
     (''__x64_sys_write'', ''entry_handler_write'', ''ret_handler_write''),
     (''__x64_sys_lseek'', ''entry_handler_fileio'', ''ret_handler_fileio''),
     (''__x64_sys_fsync'', ''entry_handler_fileio'', ''ret_handler_fileio''),
     (''__x64_sys_statx'', ''entry_handler_fileio'', ''ret_handler_fileio''),
     (''__x64_sys_epoll_ctl'', ''entry_handler_epoll_ctl'', ''ret_handler_epoll_ctl''),
     (''__x64_sys_epoll_wait'', ''entry_handler_epoll_wait'', ''ret_handler_epoll_wait''),
     (''__x64_sys_epoll_create'', ''entry_handler_epoll_create'', ''ret_handler_epoll_create''),
     (''__x64_sys_epoll_create1'', ''entry_handler_epoll_create'', ''ret_handler_epoll_create''),
     (''__x64_sys_getsockname'', ''entry_handler_sockname'', ''ret_handler_sockname''),
     (''__x64_sys_getpeername'', ''entry_handler_sockname'', ''ret_handler_sockname''),
     (''__x64_sys_setsockopt'', ''entry_handler_sockopt'', ''ret_handler_sockopt''),
     (''__x64_sys_getsockopt'', ''entry_handler_sockopt'', ''ret_handler_sockopt''),
     (''__x64_sys_sendmsg'', ''entry_handler_msg'', ''ret_handler_msg''),
     (''__x64_sys_recvmsg'', ''entry_handler_msg'', ''ret_handler_msg'')]"

definition identity_hooks :: "hook list" where
  "identity_hooks =
    [(''__x64_sys_getpid'', ''entry_handler_getpid'', ''ret_handler_getpid''),
     (''__x64_sys_gettid'', ''entry_handler_getpid'', ''ret_handler_gettid''),
     (''__x64_sys_newuname'', ''entry_handler_uname'', ''ret_handler_uname''),
     (''__x64_sys_prlimit64'', ''entry_handler_prlimit64'', ''ret_handler_prlimit64''),
     (''__x64_sys_prctl'', ''entry_handler_prctl'', ''ret_handler_prctl''),
     (''__x64_sys_fcntl'', ''entry_handler_fcntl'', ''ret_handler_fcntl''),
     (''__x64_sys_ioctl'', ''entry_handler_fcntl'', ''ret_handler_fcntl''),
     (''__x64_sys_pread64'', ''entry_handler_pread64'', ''ret_handler_pread64''),
     (''__x64_sys_statfs'', ''entry_handler_statfs'', ''ret_handler_statfs''),
     (''__x64_sys_fstatfs'', ''entry_handler_fstatfs'', ''ret_handler_fstatfs''),
     (''__x64_sys_newfstatat'', ''entry_handler_newfstatat'', ''ret_handler_newfstatat''),
     (''__x64_sys_faccessat2'', ''entry_handler_faccessat2'', ''ret_handler_faccessat2''),
     (''__x64_sys_readlink'', ''entry_handler_readlink'', ''ret_handler_readlink''),
     (''__x64_sys_readlinkat'', ''entry_handler_readlinkat'', ''ret_handler_readlinkat''),
     (''__x64_sys_getdents64'', ''entry_handler_getdents64'', ''ret_handler_getdents64''),
     (''__x64_sys_pipe2'', ''entry_handler_pipe2'', ''ret_handler_pipe2'')]"

definition memory_hooks :: "hook list" where
  "memory_hooks =
    [(''__x64_sys_brk'', ''entry_handler_brk'', ''ret_handler_brk''),
     (''__x64_sys_munmap'', ''entry_handler_munmap'', ''ret_handler_munmap''),
     (''__x64_sys_mremap'', ''entry_handler_mremap'', ''ret_handler_mremap''),
     (''__x64_sys_mmap'', ''entry_handler_mmap'', ''ret_handler_mmap''),
     (''__x64_sys_mprotect'', ''entry_handler_mprotect'', ''ret_handler_mprotect''),
     (''__x64_sys_madvise'', ''entry_handler_madvise'', ''ret_handler_madvise''),
     (''__x64_sys_mbind'', ''entry_handler_mbind'', ''ret_handler_mbind''),
     (''__x64_sys_sched_getaffinity'', ''entry_handler_sched_getaffinity'', ''ret_handler_sched_getaffinity''),
     (''__x64_sys_sched_setaffinity'', ''entry_handler_sched_setaffinity'', ''ret_handler_sched_setaffinity''),
     (''__x64_sys_sched_yield'', ''entry_handler_sched_yield'', ''ret_handler_sched_yield''),
     (''__x64_sys_tgkill'', ''entry_handler_tgkill'', ''ret_handler_tgkill'')]"

definition segment_hooks :: "hook list" where
  "segment_hooks =
    [(''__x64_sys_shmget'', ''entry_handler_shmget'', ''ret_handler_shmget''),
     (''__x64_sys_shmctl'', ''entry_handler_shmctl'', ''ret_handler_shmctl''),
     (''__x64_sys_shmdt'', ''entry_handler_shmdt'', ''ret_handler_shmdt''),
     (''__x64_sys_shmat'', ''entry_handler_shmat'', ''ret_handler_shmat''),
     (''shmem_fault'', ''entry_handler_shmem_fault'', ''ret_handler_shmem_fault''),
     (''shmem_page_mkwrite'', ''entry_handler_shmem_fault'', ''ret_handler_shmem_fault''),
     (''common_nsleep_timens'', ''entry_handler_clock_nanosleep'', ''ret_handler_clock_nanosleep''),
     (''common_nsleep'', ''entry_handler_clock_nanosleep'', ''ret_handler_clock_nanosleep'')]"

definition hook_symbols :: "string list" where
  "hook_symbols = map fst (path_hooks @ descriptor_hooks @ identity_hooks @ memory_hooks @ segment_hooks)"

datatype (plugins only: size code) resource =
  Family | Proc_dir | Proc_file string | Kretprobe string | Kprobe string | Die_notifier | Thread string |
  Migration_buffer | Stub_task

text \<open>
  \<open>ok\<close> is what the kernel grants. Only probes that were registered are noted, 128 at most; the
  others are left out, except that nothing is registered any more when the first one fails.
\<close>

abbreviation (input) MAX_KRP :: nat where "MAX_KRP \<equiv> 128"

definition mattx_register_kretprobe :: "(resource \<Rightarrow> bool) \<Rightarrow> string \<Rightarrow> string list \<Rightarrow> bool \<times> string list" where
  "mattx_register_kretprobe ok p regd =
     (if MAX_KRP \<le> length regd then (False, regd)
      else if ok (Kretprobe p) then (True, regd @ [p]) else (False, regd))"

definition mattx_hooks_init :: "(resource \<Rightarrow> bool) \<Rightarrow> string list \<Rightarrow> bool \<times> string list \<times> resource list" where
  "mattx_hooks_init ok regd =
     (case mattx_register_kretprobe ok (hd hook_symbols) regd of
        (False, regd) \<Rightarrow> (False, regd, [])
      | (True, regd) \<Rightarrow>
         (True, fold (\<lambda>p regd. snd (mattx_register_kretprobe ok p regd)) (tl hook_symbols) regd,
          filter ok [Kprobe ''wake_up_new_task'', Kprobe ''__send_signal_locked'', Die_notifier]))"

text \<open>What is unregistered, in this order; the last three whether they were registered or not.\<close>

definition mattx_hooks_exit :: "string list \<Rightarrow> resource list" where
  "mattx_hooks_exit regd =
     map Kretprobe (rev regd) @ [Kprobe ''wake_up_new_task'', Kprobe ''__send_signal_locked'', Die_notifier]"

section \<open>Hidden symbols\<close>

text \<open>
  Kernel functions that are not exported are found by registering a probe on them, reading its address and
  removing it again. Each entry is a function and the pointer that takes its address.
\<close>

definition network_symbols :: "(string \<times> string) list" where
  "network_symbols =
    [(''task_work_add'', ''real_task_work_add''),
     (''__x64_sys_epoll_create1'', ''real_sys_epoll_create1''),
     (''__x64_sys_epoll_ctl'', ''real_sys_epoll_ctl''),
     (''__x64_sys_epoll_wait'', ''real_sys_epoll_wait''),
     (''__x64_sys_bind'', ''real_sys_bind''),
     (''__x64_sys_connect'', ''real_sys_connect''),
     (''__x64_sys_listen'', ''real_sys_listen''),
     (''__x64_sys_sendto'', ''real_sys_sendto''),
     (''__x64_sys_recvfrom'', ''real_sys_recvfrom''),
     (''__x64_sys_socket'', ''real_sys_socket''),
     (''__x64_sys_accept4'', ''real_sys_accept4''),
     (''__x64_sys_getsockname'', ''real_sys_getsockname''),
     (''__x64_sys_getpeername'', ''real_sys_getpeername''),
     (''__x64_sys_setsockopt'', ''real_sys_setsockopt''),
     (''__x64_sys_getsockopt'', ''real_sys_getsockopt''),
     (''__x64_sys_sendmsg'', ''real_sys_sendmsg''),
     (''__x64_sys_recvmsg'', ''real_sys_recvmsg''),
     (''__x64_sys_dup'', ''real_sys_dup''),
     (''__x64_sys_dup2'', ''real_sys_dup2'')]"

definition file_symbols :: "(string \<times> string) list" where
  "file_symbols =
    [(''__x64_sys_close'', ''real_sys_close''),
     (''__x64_sys_prlimit64'', ''real_sys_prlimit64''),
     (''__x64_sys_prctl'', ''real_sys_prctl''),
     (''__x64_sys_fcntl'', ''real_sys_fcntl''),
     (''__x64_sys_ioctl'', ''real_sys_ioctl''),
     (''__x64_sys_statfs'', ''real_sys_statfs''),
     (''__x64_sys_fstatfs'', ''real_sys_fstatfs''),
     (''__x64_sys_newfstatat'', ''real_sys_newfstatat''),
     (''__x64_sys_faccessat2'', ''real_sys_faccessat2''),
     (''__x64_sys_readlink'', ''real_sys_readlink''),
     (''__x64_sys_readlinkat'', ''real_sys_readlinkat''),
     (''__x64_sys_getdents64'', ''real_sys_getdents64''),
     (''__x64_sys_pipe2'', ''real_sys_pipe2''),
     (''__x64_sys_exit'', ''real_sys_exit''),
     (''__x64_sys_clone'', ''real_sys_clone''),
     (''__x64_sys_mremap'', ''real_sys_mremap''),
     (''x86_fsbase_write_task'', ''real_x86_fsbase_write_task'')]"

definition thread_symbols :: "(string \<times> string) list" where
  "thread_symbols =
    [(''x86_gsbase_write_task'', ''real_x86_gsbase_write_task''),
     (''__x64_sys_shmget'', ''real_sys_shmget''),
     (''__x64_sys_shmctl'', ''real_sys_shmctl''),
     (''__x64_sys_shmdt'', ''real_sys_shmdt''),
     (''__x64_sys_shmat'', ''real_sys_shmat''),
     (''x86_task_fpu'', ''real_x86_task_fpu''),
     (''zap_vma_ptes'', ''real_zap_vma_ptes''),
     (''vmf_insert_pfn_prot'', ''real_vmf_insert_pfn_prot''),
     (''unmap_mapping_range'', ''real_unmap_mapping_range'')]"

definition hidden_symbols :: "(string \<times> string) list" where
  "hidden_symbols = network_symbols @ file_symbols @ thread_symbols"

text \<open>\<open>addr\<close> is the address at which a probe can be registered, if it can; a pointer that is not set is NULL.\<close>

definition mattx_resolve_hidden_symbols :: "(string \<Rightarrow> nat option) \<Rightarrow> (string \<Rightarrow> nat option) \<Rightarrow> string \<Rightarrow> nat option" where
  "mattx_resolve_hidden_symbols addr real =
     fold (\<lambda>(nm, v) r. case addr nm of Some a \<Rightarrow> r(v \<mapsto> a) | None \<Rightarrow> r) hidden_symbols real"

section \<open>Start and end of the module\<close>

definition proc_files :: "string list" where
  "proc_files = [''version'', ''nodes'', ''remote'', ''guests'', ''admin'', ''dsm'']"

definition mattx_proc_init :: "(resource \<Rightarrow> bool) \<Rightarrow> resource list" where
  "mattx_proc_init ok = (if ok Proc_dir then Proc_dir # filter ok (map Proc_file proc_files) else [])"

definition mattx_proc_exit :: "bool \<Rightarrow> resource list" where
  "mattx_proc_exit dir = (if dir then map Proc_file proc_files @ [Proc_dir] else [])"

definition threads :: "resource list" where
  "threads = map Thread [''mattx_balancer'', ''mattx_listener'', ''mattx_sweeper'']"

text \<open>
  The module: the noted probes, whether its directory exists, what it holds of the kernel, and the
  tables that its end clears. \<open>m_pending\<close> is a migration that nobody fetched and \<open>m_hijacked\<close> a
  stub that was never released. A start that fails releases the probes and the netlink family.
\<close>

record module_state =
  m_regd :: "string list"
  m_dir :: bool
  m_live :: "resource list"
  m_cluster :: cluster_map
  m_vfs :: vfs_node
  m_exports :: exports
  m_pending :: bool
  m_hijacked :: bool
  m_handlers :: "string dispatch"
  m_real :: "string \<Rightarrow> nat option"

definition release :: "resource list \<Rightarrow> resource list \<Rightarrow> resource list" where
  "release xs live = filter (\<lambda>r. r \<notin> set xs) live"

text \<open>
  \<open>rc\<close> is the result of \<^verbatim>\<open>genl_register_family\<close>, \<open>addr\<close> where hidden symbols lie. The
  handlers of the five components are registered after the probes, those of the migration after
  the symbols have been resolved.
\<close>

definition init_handlers :: "(string \<Rightarrow> nat option) \<Rightarrow> module_state \<Rightarrow> module_state" where
  "init_handlers addr m =
     (let h1 = register_all (mattx_sched_init_handlers @ mattx_import_init_handlers) (m_handlers m);
          real = mattx_resolve_hidden_symbols addr (m_real m);
          h2 = register_all (mattx_migr_init_handlers @ mattx_guest_init_handlers @ mattx_fileio_init_handlers) h1
      in m\<lparr>m_handlers := h2, m_real := real\<rparr>)"

definition mattx_init :: "int \<Rightarrow> (resource \<Rightarrow> bool) \<Rightarrow> (string \<Rightarrow> nat option) \<Rightarrow> module_state \<Rightarrow> int \<times> module_state" where
  "mattx_init rc ok addr m =
     (if rc \<noteq> 0 then (rc, m)
      else (let ps = mattx_proc_init ok in
        case mattx_hooks_init ok (m_regd m) of (_, regd, hs) \<Rightarrow>
          (let live = Family # ps @ map Kretprobe regd @ hs @ filter ok threads; m = init_handlers addr (m\<lparr>m_dir := ok Proc_dir\<rparr>)
           in if list_all ok threads then (0, m\<lparr>m_regd := regd, m_live := live\<rparr>)
              else (- ENOMEM, m\<lparr>m_regd := [], m_live := release (mattx_hooks_exit regd @ [Family]) live\<rparr>))))"

definition mattx_exit :: "module_state \<Rightarrow> module_state \<times> link_effect list \<times> life_effect list" where
  "mattx_exit m =
     (case mattx_fileio_exit (m_vfs m) (m_exports m) of (n, x, fs) \<Rightarrow>
      (case disconnect_all (m_cluster m) of (cm, ls) \<Rightarrow>
        (m\<lparr>m_regd := [], m_dir := False,
           m_live := release (threads @ mattx_proc_exit (m_dir m) @ mattx_hooks_exit (m_regd m) @
             (if m_pending m then [Migration_buffer] else []) @ (if m_hijacked m then [Stub_task] else []) @ [Family]) (m_live m),
           m_cluster := cm, m_vfs := n, m_exports := x\<rparr>, ls, fs)))"

section \<open>Scanning what was printed\<close>

text \<open>Literal characters are classified by evaluation.\<close>

lemma literal_chars [simp]:
  "is_space (Char a b c d e f g h) \<longleftrightarrow>
     Char a b c d e f g h \<in> {CHR '' '', CHR 0x09, CHR 0x0A, CHR 0x0B, CHR 0x0C, CHR 0x0D, CHR 0xA0}"
  "is_digit (Char a b c d e f g h) \<longleftrightarrow> (48::nat) \<le> of_char (Char a b c d e f g h) \<and> of_char (Char a b c d e f g h) \<le> (57::nat)"
  by (simp_all only: is_space_def is_digit_def)

lemma digit_cases: "d < 10 \<Longrightarrow> d \<in> {0, 1, 2, 3, 4, 5, 6, 7, 8, 9 :: nat}"
  by auto

lemma digit_facts:
  assumes "d < 10"
  shows "is_digit (digit d)" "digit_value (digit d) = d" "\<not> is_space (digit d)" "digit d \<noteq> CHR ''-''" "digit d \<noteq> CHR ''+''"
    "digit d \<noteq> NEWLINE" "digit d \<noteq> CHR 0x00"
  using digit_cases [OF assms] by (auto simp: digit_def is_digit_def digit_value_def is_space_def)

lemma undec_snoc: "undec (s @ [c]) = 10 * undec s + digit_value c"
  by (simp add: undec_def)

lemma undec_dec [simp]: "undec (dec n) = n"
proof (induction n rule: dec.induct)
  case (1 n)
  show ?case
  proof (cases "n < 10")
    case True
    then show ?thesis by (simp add: dec.simps [of n] undec_def digit_facts)
  next
    case False
    then show ?thesis using 1 by (simp add: dec.simps [of n] undec_snoc digit_facts)
  qed
qed

lemma dec_digits: "c \<in> set (dec n) \<Longrightarrow> \<exists>d<10. c = digit d"
proof (induction n rule: dec.induct)
  case (1 n)
  then show ?case by (subst (asm) (2) dec.simps) (auto split: if_splits intro: exI [of _ "n mod 10"])
qed

lemma dec_not_Nil [simp]: "dec n \<noteq> []"
  by (subst dec.simps) simp

lemma dec_length: "n < 10 ^ Suc k \<Longrightarrow> length (dec n) \<le> Suc k"
proof (induction k arbitrary: n)
  case 0
  then show ?case by (simp add: dec.simps [of n])
next
  case (Suc k)
  then have "length (dec (n div 10)) \<le> Suc k" by simp
  then show ?case by (subst dec.simps) simp
qed

lemma dec_chars:
  "c \<in> set (dec n) \<Longrightarrow> is_digit c \<and> \<not> is_space c \<and> c \<noteq> CHR ''-'' \<and> c \<noteq> CHR ''+'' \<and> c \<noteq> NEWLINE \<and> c \<noteq> CHR 0x00"
  by (drule dec_digits) (auto simp: digit_facts)

lemma takeWhile_dec:
  assumes "rest = [] \<or> \<not> is_digit (hd rest)"
  shows "takeWhile is_digit (dec n @ rest) = dec n" "dropWhile is_digit (dec n @ rest) = rest"
proof -
  have all: "\<forall>c\<in>set (dec n). is_digit c" using dec_chars by simp
  show "takeWhile is_digit (dec n @ rest) = dec n"
    using all assms by (cases rest) (auto simp: takeWhile_append)
  show "dropWhile is_digit (dec n @ rest) = rest"
    using all assms by (cases rest) (auto simp: dropWhile_append)
qed

lemma dec_hd: "\<not> is_space (hd (dec n))" "hd (dec n) \<noteq> CHR ''-''" "hd (dec n) \<noteq> CHR ''+''"
  using dec_chars [of "hd (dec n)" n] by simp_all

lemma dropWhile_dec: "dropWhile is_space (dec n @ rest) = dec n @ rest"
  using dec_hd(1) [of n] by (cases "dec n") simp_all

lemma print_int_hd: "\<not> is_space (hd (print_int n))" "print_int n \<noteq> []"
  using dec_hd by (simp_all add: print_int_def is_space_def)

lemma print_int_solid: "\<not> (\<forall>c\<in>set (print_int n). is_space c)"
  using print_int_hd [of n] hd_in_set by blast

lemma dropWhile_print: "dropWhile is_space (print_int n @ rest) = print_int n @ rest"
  using print_int_hd [of n] by (cases "print_int n") simp_all

abbreviation fits32 :: "int \<Rightarrow> bool" where "fits32 n \<equiv> - (2 ^ 31) \<le> n \<and> n < 2 ^ 31"

lemma sint_int32: "fits32 n \<Longrightarrow> sint (word_of_int n :: u32) = n"
  by (simp add: sint_sbintrunc' signed_take_bit_int_eq_self)

lemma space_skip: "dropWhile is_space (CHR '' '' # s) = dropWhile is_space s"
  by (simp add: is_space_def)

lemma scan_d_print:
  assumes "fits32 n" "rest = [] \<or> \<not> is_digit (hd rest)"
  shows "scan_d (print_int n @ rest) = Some (n, rest)"
proof (cases "n < 0")
  case True
  then have "int (nat (- n)) = - n" by simp
  then show ?thesis using True sint_int32 [OF assms(1)]
    by (simp add: scan_d_def print_int_def Let_def is_space_def takeWhile_dec [OF assms(2)])
next
  case False
  then have "int (nat n) = n" by simp
  then show ?thesis using False sint_int32 [OF assms(1)] dec_hd [of "nat n"]
    by (simp add: scan_d_def print_int_def Let_def dropWhile_dec takeWhile_dec [OF assms(2)])
qed

lemma scan_d_skip: "scan_d (CHR '' '' # s) = scan_d s"
  unfolding scan_d_def by (simp only: space_skip)

lemma scan_u_print:
  assumes "rest = [] \<or> \<not> is_digit (hd rest)"
  shows "scan_u (print_u x @ rest) = Some (x, rest)"
  by (simp add: scan_u_def print_u_def Let_def dropWhile_dec takeWhile_dec [OF assms])

lemma print_int_chars: "c \<in> set (print_int n) \<Longrightarrow> \<not> is_space c \<and> c \<noteq> NEWLINE \<and> c \<noteq> CHR 0x00"
  using dec_chars by (auto simp: print_int_def is_space_def split: if_splits)

lemma print_int_length: "fits32 n \<Longrightarrow> length (print_int n) \<le> 11"
proof -
  assume n: "fits32 n"
  then have "nat n < 10 ^ Suc 9" "nat (- n) < 10 ^ Suc 9" by (simp_all, arith+)
  then have "length (dec (nat n)) \<le> 10" "length (dec (nat (- n))) \<le> 10" using dec_length by fastforce+
  then show ?thesis by (simp add: print_int_def)
qed

lemma scan_word_skip: "scan_word k (CHR '' '' # s) = scan_word k s"
  unfolding scan_word_def by (simp only: space_skip)

lemma print_int_home: "print_int n \<noteq> ''home''"
proof
  assume h: "print_int n = ''home''"
  then have "CHR ''h'' \<in> set (dec (nat n))" by (auto simp: print_int_def split: if_splits)
  then show False using dec_chars [of "CHR ''h''" "nat n"] by (simp add: is_digit_def)
qed

lemma scan_word_print:
  assumes "fits32 n" "rest = [] \<or> is_space (hd rest)"
  shows "scan_word 31 (print_int n @ rest) = (print_int n, rest)"
proof -
  have "takeWhile (\<lambda>c. \<not> is_space c) (print_int n @ rest) = print_int n"
    using assms(2) print_int_chars [of _ n] by (cases rest) (auto simp: takeWhile_append)
  then show ?thesis using print_int_length [OF assms(1)]
    by (simp add: scan_word_def Let_def dropWhile_print)
qed

lemma digits_val_foldl: "list_all is_digit s \<Longrightarrow> digits_val s acc = Some (foldl (\<lambda>n c. 10 * n + digit_val c) acc s)"
  by (induction s arbitrary: acc) simp_all

lemma undec_foldl: "list_all is_digit s \<Longrightarrow> foldl (\<lambda>n c. 10 * n + digit_val c) 0 s = int (undec s)"
proof (induction s rule: rev_induct)
  case (snoc c s)
  then show ?case by (simp add: undec_snoc digit_val_def digit_value_def is_digit_def of_nat_diff of_nat_of_char)
qed (simp add: undec_def)

lemma kstrtoint_print:
  assumes "fits32 n"
  shows "kstrtoint (print_int n) = Some n"
proof -
  have d: "list_all is_digit (dec k)" "is_digit (hd (dec k))" for k using dec_chars [of _ k] hd_in_set [of "dec k"] by (simp_all add: list_all_iff)
  have v: "digits_val (dec k) 0 = Some (int k)" for k using digits_val_foldl [OF d(1)] undec_foldl [OF d(1)] by simp
  show ?thesis
  proof (cases "n < 0")
    case True
    then show ?thesis using assms d v by (simp add: kstrtoint_def print_int_def)
  next
    case False
    obtain c cs where c: "dec (nat n) = c # cs" by (cases "dec (nat n)") auto
    then have "c \<noteq> CHR ''-''" "c \<noteq> CHR ''+''" using dec_hd [of "nat n"] by simp_all
    then show ?thesis using False assms c d(2) [of "nat n"] v [of "nat n"] by (simp add: kstrtoint_def print_int_def)
  qed
qed

section \<open>The command language\<close>

text \<open>What an administrator means, how it is spelled and what it does.\<close>

datatype (plugins only: size code) switch = Balancer | Debug | Mattxfs | Mpi | Accept | Locallibs

fun switch_name :: "switch \<Rightarrow> string" where
  "switch_name Balancer = ''balancer''"
| "switch_name Debug = ''debug''"
| "switch_name Mattxfs = ''mattxfs''"
| "switch_name Mpi = ''mpi''"
| "switch_name Accept = ''accept''"
| "switch_name Locallibs = ''locallibs''"

fun turn :: "switch \<Rightarrow> bool \<Rightarrow> settings \<Rightarrow> settings" where
  "turn Balancer b s = s\<lparr>set_balancer := b\<rparr>"
| "turn Debug b s = s\<lparr>set_debug := b\<rparr>"
| "turn Mattxfs b s = s\<lparr>set_mattxfs := b\<rparr>"
| "turn Mpi b s = s\<lparr>set_mpi := b\<rparr>"
| "turn Accept b s = s\<lparr>set_accept := b\<rparr>"
| "turn Locallibs b s = s\<lparr>set_local_libs := b\<rparr>"

datatype (plugins only: size code) command =
  Turn switch int | Set_dsm int | Set_affinity u32 | Set_excludes string | Set_includes string |
  Expel int | Recall int | Move int int

fun spell :: "command \<Rightarrow> string" where
  "spell (Turn w n) = switch_name w @ '' '' @ print_int n"
| "spell (Set_dsm n) = ''dsm_mode '' @ print_int n"
| "spell (Set_affinity v) = ''affinity '' @ print_u v"
| "spell (Set_excludes x) = ''exclude '' @ x"
| "spell (Set_includes x) = ''include '' @ x"
| "spell (Expel p) = ''expel '' @ print_int p"
| "spell (Recall p) = ''migrate '' @ print_int p @ '' home''"
| "spell (Move p n) = ''migrate '' @ print_int p @ '' '' @ print_int n"

definition plain_text :: "string \<Rightarrow> bool" where
  "plain_text x \<longleftrightarrow> list_all (\<lambda>c. c \<noteq> NEWLINE \<and> c \<noteq> CHR 0x00) x"

fun sayable :: "command \<Rightarrow> bool" where
  "sayable (Turn w n) = (fits32 n \<and> n \<noteq> - 1)"
| "sayable (Set_dsm n) = fits32 n"
| "sayable (Set_affinity v) = True"
| "sayable (Set_excludes x) = (plain_text x \<and> length x \<le> 247)"
| "sayable (Set_includes x) = (plain_text x \<and> length x \<le> 247)"
| "sayable (Expel p) = fits32 p"
| "sayable (Recall p) = (fits32 p \<and> p \<noteq> - 1)"
| "sayable (Move p n) = (fits32 p \<and> p \<noteq> - 1 \<and> fits32 n)"

fun obey :: "(nat \<Rightarrow> bool) \<Rightarrow> (int \<Rightarrow> pid option) \<Rightarrow> command \<Rightarrow> settings \<Rightarrow> settings \<times> admin_action list" where
  "obey connected leader (Turn w n) s = (turn w (n \<noteq> 0) s, [])"
| "obey connected leader (Set_dsm n) s = (s\<lparr>set_dsm_mode := n\<rparr>, [])"
| "obey connected leader (Set_affinity v) s = (s\<lparr>set_affinity := v\<rparr>, [])"
| "obey connected leader (Set_excludes x) s = (s\<lparr>set_excludes := x\<rparr>, [])"
| "obey connected leader (Set_includes x) s = (s\<lparr>set_includes := x\<rparr>, [])"
| "obey connected leader (Expel p) s = (s, [Expels p])"
| "obey connected leader (Recall p) s = (s, [Recalls p])"
| "obey connected leader (Move p n) s =
     (s, if n \<in> {0..<int MAX_NODES} \<and> connected (nat n) then (case leader p of Some t \<Rightarrow> [Migrates t (nat n)] | None \<Rightarrow> []) else [])"

lemma plain_append [simp]: "plain_text (x @ y) \<longleftrightarrow> plain_text x \<and> plain_text y"
  by (simp add: plain_text_def)

lemma plain_Cons [simp]: "plain_text []" "plain_text (c # x) \<longleftrightarrow> c \<noteq> NEWLINE \<and> c \<noteq> CHR 0x00 \<and> plain_text x"
  by (simp_all add: plain_text_def)

lemma plain_print [simp]: "plain_text (print_int n)" "plain_text (print_u v)"
  using print_int_chars dec_chars by (auto simp: plain_text_def list_all_iff print_u_def)

lemma plain_words [simp]: "plain_text (switch_name w)"
  by (cases w) (simp_all add: plain_text_def)

lemma print_u_length: "length (print_u v) \<le> 10"
proof -
  have "unat v < 2 ^ 32" using unsigned_less [of v] by simp
  then have "length (dec (unat v)) \<le> Suc 9" by (intro dec_length) simp
  then show ?thesis by (simp add: print_u_def)
qed

lemma spell_plain: "sayable c \<Longrightarrow> plain_text (spell c)"
  by (cases c) simp_all

lemma spell_length: "sayable c \<Longrightarrow> length (spell c) \<le> 255"
proof (cases c)
  case (Turn w n)
  moreover assume "sayable c"
  ultimately show ?thesis using print_int_length [of n] by (cases w) simp_all
next
  case (Set_affinity v)
  then show ?thesis using print_u_length [of v] by simp
next
  case (Move p n)
  moreover assume "sayable c"
  ultimately show ?thesis using print_int_length [of n] print_int_length [of p] by simp
next
  case (Set_dsm p)
  moreover assume "sayable c"
  ultimately show ?thesis using print_int_length [of p] by simp
next
  case (Expel p)
  moreover assume "sayable c"
  ultimately show ?thesis using print_int_length [of p] by simp
next
  case (Recall p)
  moreover assume "sayable c"
  ultimately show ?thesis using print_int_length [of p] by simp
qed simp_all

lemma admin_line_of:
  assumes "plain_text x" "length x \<le> 255"
  shows "admin_line (x @ [NEWLINE]) = x"
proof -
  have all: "\<forall>c\<in>set x. c \<noteq> NEWLINE \<and> c \<noteq> CHR 0x00" using assms(1) by (simp add: plain_text_def list_all_iff)
  then have "takeWhile (\<lambda>c. c \<noteq> CHR 0x00) (x @ y) = x @ takeWhile (\<lambda>c. c \<noteq> CHR 0x00) y"
      "takeWhile (\<lambda>c. c \<noteq> NEWLINE) (x @ y) = x @ takeWhile (\<lambda>c. c \<noteq> NEWLINE) y" for y
    by (simp_all add: takeWhile_append)
  note tw = this
  have "take 255 (x @ [NEWLINE]) = x @ (if length x = 255 then [] else [NEWLINE])"
    using assms(2) by (cases "255 - length x") simp_all
  then show ?thesis unfolding admin_line_def by (simp add: tw)
qed

lemma starts_with_simps [simp]: "starts_with [] s" "\<not> starts_with (c # p) []" "starts_with (c # p) (d # s) \<longleftrightarrow> c = d \<and> starts_with p s"
  by (auto simp: starts_with_def)

lemma scan_command_number:
  assumes "fits32 n" "rest = [] \<or> is_space (hd rest)"
    "w \<noteq> []" "length w \<le> 31" "list_all (\<lambda>c. \<not> is_space c) w"
  shows "scan_command (w @ '' '' @ print_int n @ rest) =
    Some (w, n, if dropWhile is_space rest = [] then [] else fst (scan_word 31 rest))"
proof -
  have sp: "dropWhile is_space (w @ s) = w @ s" for s using assms(3,5) by (cases w) simp_all
  have tw: "takeWhile (\<lambda>c. \<not> is_space c) (w @ CHR '' '' # s) = w" for s
    using assms(5) by (auto simp: takeWhile_append list_all_iff is_space_def)
  have sw: "scan_word 31 (w @ CHR '' '' # s) = (w, CHR '' '' # s)" for s
    using assms(4) by (simp add: scan_word_def Let_def sp tw)
  have "rest = [] \<or> \<not> is_digit (hd rest)" using assms(2) by (auto simp: is_space_def is_digit_def)
  then show ?thesis using assms(1,3) by (simp add: scan_command_def sw scan_d_skip scan_d_print)
qed

text \<open>
  C38. An administrator who writes a command as it is spelled, followed by a line break, gets exactly
  what the command means: the one setting it names is changed to the number or the text given, or
  the one process it names is expelled, recalled or sent, and the whole write is taken.
\<close>

theorem admin_obeys:
  assumes "sayable c"
  shows "admin_write connected leader (Some (spell c @ [NEWLINE])) s = (int (Suc (length (spell c))), obey connected leader c s)"
proof -
  note line = admin_line_of [OF spell_plain [OF assms] spell_length [OF assms]]
  show ?thesis
  proof (cases c)
    case (Turn w n)
    have ns: "list_all (\<lambda>c. \<not> is_space c) (switch_name w)" "switch_name w \<noteq> []" "length (switch_name w) \<le> 31"
      by (cases w; simp)+
    show ?thesis using Turn assms scan_command_number [of n "[]" "switch_name w", OF _ _ ns(2,3,1)] line
      by (cases w) (simp_all add: admin_write_def admin_number_def)
  next
    case (Set_dsm n)
    show ?thesis using Set_dsm assms scan_command_number [of n "[]" "''dsm_mode''"] line scan_d_print [of n "[]"]
      by (simp add: admin_write_def admin_number_def)
  next
    case (Set_affinity v)
    show ?thesis using Set_affinity assms line scan_u_print [of "[]" v] by (simp add: admin_write_def)
  next
    case (Expel p)
    show ?thesis using Expel assms line scan_d_print [of p "[]"] by (simp add: admin_write_def)
  next
    case (Recall p)
    show ?thesis using Recall assms line scan_command_number [of p "'' home''" "''migrate''"]
      by (simp add: admin_write_def admin_number_def admin_migrate_def scan_word_def)
  next
    case (Move p n)
    show ?thesis using Move assms line scan_command_number [of p "'' '' @ print_int n" "''migrate''"]
        scan_word_print [of n "[]"] dropWhile_print [of n "[]"]
      by (simp add: space_skip scan_word_skip kstrtoint_print print_int_home print_int_solid print_int_hd not_less admin_write_def admin_number_def admin_migrate_def)
  qed (use assms line in \<open>simp_all add: admin_write_def\<close>)
qed

definition demo_settings :: settings where
  "demo_settings = \<lparr>set_file_io = True, set_network_io = True, set_mattxfs = True, set_mpi = False, set_accept = True,
     set_local_libs = True, set_debug = True, set_balancer = True, set_dsm_mode = 1, set_affinity = 0, set_excludes = [],
     set_includes = [], set_dfsa_dir = [], set_node_id = 1, set_ip_addr = 0\<rparr>"

theorem admin_obeys_witness:
  "admin_write (\<lambda>n. n = 3) (\<lambda>p. if p = 4711 then Some 4700 else None) (Some (''migrate 4711 3'' @ [NEWLINE])) demo_settings =
    (15, demo_settings, [Migrates 4700 3])"
  using admin_obeys [of "Move 4711 3" "\<lambda>n. n = 3" "\<lambda>p. if p = 4711 then Some 4700 else None" demo_settings]
  by (simp add: print_int_def dec.simps digit_def)

text \<open>The status files tell the registered pairs apart.\<close>

lemma pair_line_read:
  "scan_d (pair_line p @ t) = Some (sint (fst p), '':'' @ print_int (sint (snd p)) @ [NEWLINE] @ t)"
  "scan_d (print_int (sint (snd p)) @ [NEWLINE] @ t) = Some (sint (snd p), [NEWLINE] @ t)"
proof -
  have r: "fits32 (sint (w :: u32))" for w using sint_greater_eq [of w] sint_less [of w] by simp
  show "scan_d (pair_line p @ t) = Some (sint (fst p), '':'' @ print_int (sint (snd p)) @ [NEWLINE] @ t)"
    unfolding pair_line_def append_assoc by (rule scan_d_print [OF r]) simp
  show "scan_d (print_int (sint (snd p)) @ [NEWLINE] @ t) = Some (sint (snd p), [NEWLINE] @ t)"
    by (rule scan_d_print [OF r]) simp
qed

lemma pair_lines_inj: "concat (map pair_line ps) = concat (map pair_line qs) \<Longrightarrow> ps = qs"
proof (induction ps arbitrary: qs)
  case Nil
  then show ?case by (cases qs) (auto simp: pair_line_def)
next
  case (Cons p ps)
  then obtain q rs where qs: "qs = q # rs" by (cases qs) (auto simp: pair_line_def)
  have eq: "pair_line p @ concat (map pair_line ps) = pair_line q @ concat (map pair_line rs)" using Cons.prems qs by simp
  have 1: "sint (fst p) = sint (fst q)"
    "print_int (sint (snd p)) @ [NEWLINE] @ concat (map pair_line ps) = print_int (sint (snd q)) @ [NEWLINE] @ concat (map pair_line rs)"
    using arg_cong [OF eq, of scan_d] unfolding pair_line_read(1) by simp_all
  have 2: "sint (snd p) = sint (snd q)" "concat (map pair_line ps) = concat (map pair_line rs)"
    using arg_cong [OF 1(2), of scan_d] unfolding pair_line_read(2) by simp_all
  show ?case using 1(1) 2(1) Cons.IH [OF 2(2)] qs by (simp add: prod_eq_iff signed_word_eqI)
qed

lemma status_files_faithful:
  "guests_show r = guests_show r' \<longleftrightarrow> map (\<lambda>g. (local_pid g, home_node g)) (entries r) = map (\<lambda>g. (local_pid g, home_node g)) (entries r')"
  "remote_show x = remote_show x' \<longleftrightarrow> map (\<lambda>e. (e_orig_pid e, e_target_node e)) (entries x) = map (\<lambda>e. (e_orig_pid e, e_target_node e)) (entries x')"
proof -
  have g: "guests_show r = concat (map pair_line (map (\<lambda>g. (local_pid g, home_node g)) (entries r)))" for r
    by (simp add: guests_show_def comp_def)
  have x: "remote_show x = concat (map pair_line (map (\<lambda>e. (e_orig_pid e, e_target_node e)) (entries x)))" for x
    by (simp add: remote_show_def comp_def)
  show "guests_show r = guests_show r' \<longleftrightarrow> map (\<lambda>g. (local_pid g, home_node g)) (entries r) = map (\<lambda>g. (local_pid g, home_node g)) (entries r')"
    unfolding g by (rule iffI [OF pair_lines_inj]) simp_all
  show "remote_show x = remote_show x' \<longleftrightarrow> map (\<lambda>e. (e_orig_pid e, e_target_node e)) (entries x) = map (\<lambda>e. (e_orig_pid e, e_target_node e)) (entries x')"
    unfolding x by (rule iffI [OF pair_lines_inj]) simp_all
qed

section \<open>Loading and unloading\<close>

lemma register_all:
  "length regd + length ps \<le> MAX_KRP \<Longrightarrow>
   fold (\<lambda>p regd. snd (mattx_register_kretprobe ok p regd)) ps regd = regd @ filter (\<lambda>p. ok (Kretprobe p)) ps"
  by (induction ps arbitrary: regd) (simp_all add: mattx_register_kretprobe_def)

lemma hook_symbols_facts: "length hook_symbols = 64" "distinct hook_symbols" "hook_symbols \<noteq> []" "hd hook_symbols = ''do_sys_openat2''"
  by (simp_all add: hook_symbols_def path_hooks_def descriptor_hooks_def identity_hooks_def memory_hooks_def segment_hooks_def)

lemma hooks_init_eq:
  "mattx_hooks_init ok [] =
    (if ok (Kretprobe (hd hook_symbols))
     then (True, filter (\<lambda>p. ok (Kretprobe p)) hook_symbols, filter ok [Kprobe ''wake_up_new_task'', Kprobe ''__send_signal_locked'', Die_notifier])
     else (False, [], []))"
proof -
  obtain p ps where h: "hook_symbols = p # ps" using hook_symbols_facts(3) by (cases hook_symbols) auto
  have "length (p # ps) = 64" using hook_symbols_facts(1) unfolding h .
  then have "length [p] + length ps \<le> MAX_KRP" by simp
  then show ?thesis using register_all [of "[p]" ps ok] unfolding mattx_hooks_init_def h
    by (cases "ok (Kretprobe p)") (simp_all add: mattx_register_kretprobe_def [of ok p "[]"])
qed

lemma init_handlers_keeps [simp]:
  "m_regd (init_handlers addr m) = m_regd m" "m_dir (init_handlers addr m) = m_dir m" "m_live (init_handlers addr m) = m_live m"
  "m_pending (init_handlers addr m) = m_pending m" "m_hijacked (init_handlers addr m) = m_hijacked m"
  "m_cluster (init_handlers addr m) = m_cluster m" "m_vfs (init_handlers addr m) = m_vfs m" "m_exports (init_handlers addr m) = m_exports m"
  by (simp_all add: init_handlers_def Let_def)

definition link_frees :: "link_effect list \<Rightarrow> nat list" where
  "link_frees ls = concat (map (\<lambda>e. case e of Kfree_link p \<Rightarrow> [p] | _ \<Rightarrow> []) ls)"

definition slot_addrs :: "cluster_map \<Rightarrow> nat list \<Rightarrow> nat list" where
  "slot_addrs cm is = concat (map (\<lambda>i. case cm i of Some l \<Rightarrow> [l_addr l] | None \<Rightarrow> []) is)"

lemma link_frees_simps [simp]:
  "link_frees [] = []" "link_frees (e # ls) = (case e of Kfree_link p \<Rightarrow> [p] | _ \<Rightarrow> []) @ link_frees ls"
  "link_frees (ls @ ks) = link_frees ls @ link_frees ks"
  by (simp_all add: link_frees_def)

lemma slot_addrs_simps [simp]:
  "slot_addrs cm [] = []" "slot_addrs cm (i # is) = (case cm i of Some l \<Rightarrow> [l_addr l] | None \<Rightarrow> []) @ slot_addrs cm is"
  "slot_addrs cm (is @ js) = slot_addrs cm is @ slot_addrs cm js"
  by (simp_all add: slot_addrs_def)

lemma slot_addrs_set: "p \<in> set (slot_addrs cm is) \<longleftrightarrow> (\<exists>i\<in>set is. \<exists>l. cm i = Some l \<and> l_addr l = p)"
proof (induction "is")
  case (Cons i js)
  then show ?case by (cases "cm i") auto
qed simp

lemma disconnect_fold:
  assumes "set is \<subseteq> {..<MAX_NODES}" "distinct is" "map_ok cm"
  shows "\<exists>ls. fold (\<lambda>i (c, effs). case mattx_comm_disconnect (of_nat i) c of (c', e) \<Rightarrow> (c', effs @ e)) is (cm, effs) =
      (\<lambda>i. if i \<in> set is then None else cm i, effs @ ls) \<and>
    link_frees ls = slot_addrs cm is"
  using assms
proof (induction "is" arbitrary: cm effs)
  case Nil
  then show ?case by simp
next
  case (Cons i js)
  have u: "unat (of_nat i :: u32) = i" "i < MAX_NODES" using Cons.prems(1) by (simp_all add: unat_of_nat)
  let ?cm = "cm(i := None)"
  obtain e where e: "mattx_comm_disconnect (of_nat i) cm = (?cm, e)" "link_frees e = slot_addrs cm [i]"
  proof (cases "cm i")
    case None
    then show ?thesis using that [of "[]"] u by (auto simp: mattx_comm_disconnect_def fun_upd_idem)
  next
    case (Some l)
    then show ?thesis using that disconnect_eq [of "of_nat i" cm l] u by simp
  qed
  obtain ls where ls: "fold (\<lambda>i (c, effs). case mattx_comm_disconnect (of_nat i) c of (c', e) \<Rightarrow> (c', effs @ e)) js (?cm, effs @ e) =
      (\<lambda>i. if i \<in> set js then None else ?cm i, (effs @ e) @ ls)" "link_frees ls = slot_addrs ?cm js"
    using Cons.IH [of ?cm "effs @ e"] Cons.prems(1,2) map_ok_delete [OF Cons.prems(3), of i] by fastforce
  have m: "slot_addrs ?cm js = slot_addrs cm js" using Cons.prems(2) by (induction js) auto
  show ?case using e ls unfolding m by (intro exI [of _ "e @ ls"]) auto
qed

text \<open>
  Unloading unregisters every probe that loading registered, once and in the opposite order, and
  no probe whose registration the kernel refused.
\<close>

theorem probes_released_once:
  "case mattx_hooks_init ok [] of (up, regd, hs) \<Rightarrow>
     [p. Kretprobe p \<leftarrow> mattx_hooks_exit regd] = rev regd \<and> distinct regd \<and>
     set regd = {p \<in> set hook_symbols. up \<and> ok (Kretprobe p)} \<and> (up \<longleftrightarrow> ok (Kretprobe (hd hook_symbols)))"
proof -
  have "[p. Kretprobe p \<leftarrow> mattx_hooks_exit regd] = rev regd" for regd
    by (simp add: mattx_hooks_exit_def comp_def)
  then show ?thesis using hook_symbols_facts(2) by (auto simp: hooks_init_eq)
qed

text \<open>
  What may happen between the start and the end of the module, as far as it matters for the end: links come
  and go, files are opened, a blueprint waits and a stub is held; the probes and the directory stay.
\<close>

definition runs_from :: "module_state \<Rightarrow> module_state \<Rightarrow> bool" where
  "runs_from m m' \<longleftrightarrow> m_regd m' = m_regd m \<and> m_dir m' = m_dir m \<and> map_ok (m_cluster m') \<and>
     m_live m' = m_live m @ (if m_pending m' then [Migration_buffer] else []) @ (if m_hijacked m' then [Stub_task] else [])"

lemma disconnect_all_eq:
  assumes "map_ok cm"
  shows "fst (disconnect_all cm) = (\<lambda>i. None)"
    "link_frees (snd (disconnect_all cm)) = slot_addrs cm [0..<MAX_NODES]"
proof -
  obtain ls where ls: "disconnect_all cm = (\<lambda>i. if i \<in> set [0..<MAX_NODES] then None else cm i, ls)"
      "link_frees ls = slot_addrs cm [0..<MAX_NODES]"
    using disconnect_fold [of "[0..<MAX_NODES]" cm "[]", OF _ _ assms] unfolding disconnect_all_def by fastforce
  show "fst (disconnect_all cm) = (\<lambda>i. None)" unfolding ls(1)
  proof
    fix i
    show "fst (\<lambda>i. if i \<in> set [0..<MAX_NODES] then None else cm i, ls) i = None"
      using map_ok_nth [OF assms, of i] by (cases "cm i") auto
  qed
  show "link_frees (snd (disconnect_all cm)) = slot_addrs cm [0..<MAX_NODES]"
    unfolding ls(1) using ls(2) by simp
qed

lemma links_distinct:
  assumes "map_ok cm"
  shows "distinct (slot_addrs cm [0..<n])" "set (slot_addrs cm [0..<MAX_NODES]) = addrs cm"
proof -
  show "distinct (slot_addrs cm [0..<n])"
  proof (induction n)
    case (Suc n)
    have "l_addr l \<notin> set (slot_addrs cm [0..<n])" if "cm n = Some l" for l
    proof
      assume "l_addr l \<in> set (slot_addrs cm [0..<n])"
      then obtain i k where "i < n" "cm i = Some k" "l_addr k = l_addr l" by (auto simp: slot_addrs_set)
      then show False using assms that unfolding map_ok_def by blast
    qed
    then show ?case using Suc by (auto split: option.splits)
  qed simp
  show "set (slot_addrs cm [0..<MAX_NODES]) = addrs cm"
  proof (rule set_eqI)
    fix p
    show "p \<in> set (slot_addrs cm [0..<MAX_NODES]) \<longleftrightarrow> p \<in> addrs cm"
      unfolding slot_addrs_set addrs_iff using map_ok_nth [OF assms] by force
  qed
qed

lemma purge_files: "set (snd (purge k t)) = {Fput f | f i. i < k \<and> t i = Some f}"
  by (force simp: purge_def map_filter_def)

lemma exit_files:
  assumes "mattx_fileio_exit v r = (n, x, fs)"
  shows "cnt x = 0" "\<forall>fd. 0 \<le> fd \<longrightarrow> fd < int MAX_FDS \<longrightarrow> mfs_open_files n fd = None"
    "set fs = {Fput f | f. (\<exists>fd<MAX_FDS. mfs_open_files v (int fd) = Some f) \<or>
      (\<exists>e\<in>set (entries r). \<exists>fd<MAX_FDS. e_remote_files e fd = Some f)}"
proof -
  show "cnt x = 0" using assms by (auto simp: mattx_fileio_exit_def)
  show "\<forall>fd. 0 \<le> fd \<longrightarrow> fd < int MAX_FDS \<longrightarrow> mfs_open_files n fd = None" using assms by (auto simp: mattx_fileio_exit_def)
  have "set fs = set (snd (purge MAX_FDS (\<lambda>i. mfs_open_files v (int i)))) \<union> (\<Union>e\<in>set (entries r). set (snd (purge MAX_FDS (e_remote_files e))))"
    using assms by (auto simp: mattx_fileio_exit_def)
  then show "set fs = {Fput f | f. (\<exists>fd<MAX_FDS. mfs_open_files v (int fd) = Some f) \<or>
      (\<exists>e\<in>set (entries r). \<exists>fd<MAX_FDS. e_remote_files e fd = Some f)}"
    unfolding purge_files by blast
qed


definition demo_module :: module_state where
  "demo_module = \<lparr>m_regd = [], m_dir = False, m_live = [], m_cluster = (\<lambda>i. None), m_vfs = demo_node 1, m_exports = demo_exports,
     m_pending = False, m_hijacked = False, m_handlers = (\<lambda>_. None), m_real = (\<lambda>_. None)\<rparr>"

definition demo_ok :: "resource \<Rightarrow> bool" where
  "demo_ok r \<longleftrightarrow> r \<noteq> Kretprobe ''shmem_page_mkwrite''"

definition demo_running :: module_state where
  "demo_running = (let m = snd (mattx_init 0 demo_ok (\<lambda>_. None) demo_module) in
     m\<lparr>m_cluster := [3 \<mapsto> demo_link 77 3], m_vfs := (demo_node 1)\<lparr>mfs_open_files := (\<lambda>i. None)(5 := Some 40)\<rparr>,
       m_pending := True, m_live := m_live m @ [Migration_buffer]\<rparr>)"


text \<open>What goes wrong: a load that fails because a thread cannot be started leaves the others running and the files in place.\<close>

lemma failed_load_leaks:
  assumes "m_regd m = []"
  shows "mattx_init 0 (\<lambda>r. r \<noteq> Thread ''mattx_sweeper'') addr m = (- ENOMEM, m') \<Longrightarrow>
    {Thread ''mattx_balancer'', Thread ''mattx_listener'', Proc_dir, Proc_file ''admin''} \<subseteq> set (m_live m') \<and> Family \<notin> set (m_live m')"
proof -
  let ?ok = "\<lambda>r. r \<noteq> Thread ''mattx_sweeper''"
  assume "mattx_init 0 ?ok addr m = (- ENOMEM, m')"
  then have "m_live m' = release (mattx_hooks_exit hook_symbols @ [Family]) (Family # mattx_proc_init ?ok @ map Kretprobe hook_symbols @
      [Kprobe ''wake_up_new_task'', Kprobe ''__send_signal_locked'', Die_notifier] @ filter ?ok threads)"
    using assms by (simp add: mattx_init_def Let_def hooks_init_eq threads_def) auto
  then show ?thesis
    by (simp add: release_def mattx_hooks_exit_def threads_def mattx_proc_init_def proc_files_def image_iff)
qed

text \<open>What a load installs: the handler table of the protocol, and each pointer whose symbol can be probed.\<close>

lemma resolve_other: "v \<notin> snd ` set ps \<Longrightarrow> fold (\<lambda>(nm, v) r. case addr nm of Some a \<Rightarrow> r(v \<mapsto> a) | None \<Rightarrow> r) ps real v = real v"
  by (induction ps arbitrary: real) (auto split: option.splits)

lemma resolve_table:
  "distinct (map snd ps) \<Longrightarrow> (nm, v) \<in> set ps \<Longrightarrow>
   fold (\<lambda>(nm, v) r. case addr nm of Some a \<Rightarrow> r(v \<mapsto> a) | None \<Rightarrow> r) ps real v = (case addr nm of Some a \<Rightarrow> Some a | None \<Rightarrow> real v)"
proof (induction ps arbitrary: real)
  case (Cons p ps)
  obtain s w where p: "p = (s, w)" by fastforce
  show ?case
  proof (cases "(nm, v) = p")
    case True
    then have "v \<notin> snd ` set ps" using Cons.prems(1) p by auto
    then show ?thesis using True p by (auto simp: resolve_other split: option.splits)
  next
    case False
    then have m: "(nm, v) \<in> set ps" "v \<noteq> w" using Cons.prems p by (auto simp: image_iff)
    then show ?thesis using Cons.IH [OF _ m(1)] Cons.prems(1) p by (auto split: option.splits)
  qed
qed simp

lemma hidden_distinct: "distinct (map snd hidden_symbols)"
  by (simp add: hidden_symbols_def network_symbols_def file_symbols_def thread_symbols_def)

lemma load_installs:
  assumes "mattx_init 0 ok addr m = (rc, m')" "m_handlers m = (\<lambda>_. None)"
  shows "m_handlers m' = init_dispatch"
    "(nm, v) \<in> set hidden_symbols \<Longrightarrow> m_real m' v = (case addr nm of Some a \<Rightarrow> Some a | None \<Rightarrow> m_real m v)"
proof -
  have k: "m_handlers m' = m_handlers (init_handlers addr m)" "m_real m' = m_real (init_handlers addr m)"
    using assms(1) by (auto simp: mattx_init_def init_handlers_def Let_def split: prod.splits if_splits)
  show "m_handlers m' = init_dispatch" unfolding k using assms(2)
    by (simp add: init_handlers_def Let_def init_dispatch_def registered_def Mx_Comm.register_all_def)
  show "(nm, v) \<in> set hidden_symbols \<Longrightarrow> m_real m' v = (case addr nm of Some a \<Rightarrow> Some a | None \<Rightarrow> m_real m v)"
    unfolding k using resolve_table [OF hidden_distinct] by (simp add: init_handlers_def Let_def mattx_resolve_hidden_symbols_def)
qed

end
