(* ===== verification/Mx_Monitor.thy ===== *)
theory Mx_Monitor
  imports Mx_Admin Mx_Dsm
begin

text \<open>
  The page monitor among the status files (\<^verbatim>\<open>dsm_show\<close> in \<^verbatim>\<open>mattx_proc.c\<close>): one row for each segment
  that a guest has mapped here, with the state of its first page and sixteen bytes of it, and one
  row for each segment of the directory, read from the memory of its home process.
\<close>

section \<open>Columns\<close>

definition pad :: "nat \<Rightarrow> string \<Rightarrow> string" where
  "pad n s = s @ replicate (n - length s) CHR '' ''"

definition hex_digit :: "nat \<Rightarrow> char" where
  "hex_digit d = ''0123456789abcdef'' ! d"

fun hex :: "nat \<Rightarrow> string" where
  "hex n = (if n < 16 then [hex_digit n] else hex (n div 16) @ [hex_digit (n mod 16)])"

declare hex.simps [simp del]

definition hex2 :: "byte \<Rightarrow> string" where
  "hex2 b = [hex_digit (unat b div 16), hex_digit (unat b mod 16)]"

definition dump :: "byte list \<Rightarrow> string" where
  "dump bs = concat (map (\<lambda>b. hex2 b @ '' '') bs)"

definition dsm_row :: "string \<Rightarrow> u32 \<Rightarrow> string \<Rightarrow> u32 \<Rightarrow> u64 \<Rightarrow> u64 \<Rightarrow> string \<Rightarrow> string \<Rightarrow> string" where
  "dsm_row kind pid node shmid base sz state contents =
     kind @ '' '' @ pad 6 (print_int (sint pid)) @ '' '' @ pad 4 node @ ''  '' @ pad 10 (print_u shmid) @ ''  0x'' @
     pad 16 (hex (unat base)) @ ''  '' @ pad 10 (dec (unat sz)) @ ''  '' @ pad 10 state @ ''  '' @ contents @ [NEWLINE]"

section \<open>Rows\<close>

definition import_row :: "(nat \<Rightarrow> page) \<Rightarrow> mattx_guest_info \<Rightarrow> nat \<Rightarrow> string" where
  "import_row mem g d =
     (let m = dsm_map g d; st = page_states m 0 in
      dsm_row ''[IMPORT]'' (local_pid g) (print_int (sint (home_node g))) (m_shmid m) (base_addr m) (m_size m)
        (if st = MATTX_PAGE_EXCLUSIVE then ''EXCLUSIVE'' else if st = MATTX_PAGE_SHARED then ''SHARED'' else ''INVALID'')
        (case pages m 0 of Some k \<Rightarrow> dump (take 16 (mem k)) | None \<Rightarrow> ''<NOT LOADED YET>''))"

text \<open>\<open>peek p a\<close>: what can be read of sixteen bytes at \<open>a\<close> in process \<open>p\<close>.\<close>

definition export_row :: "seg_map \<Rightarrow> (u32 \<Rightarrow> u64 \<Rightarrow> byte list) \<Rightarrow> mattx_dsm_master_dir \<Rightarrow> string" where
  "export_row seg peek e =
     (let (base, sz) = (case seg (home_pid e) (dir_shmid e) of Some (a, b) \<Rightarrow> (a, b - a) | None \<Rightarrow> (0, 0));
          st = page_state e 0; bs = (if base \<noteq> 0 then take 16 (peek (home_pid e) base) else []) in
      dsm_row ''[EXPORT]'' (home_pid e) ''HOME'' (dir_shmid e) base sz
        (if st = MATTX_PAGE_EXCLUSIVE then ''EXCL(P:'' @ print_u (page_owner_pid e 0) @ '')''
         else if st = MATTX_PAGE_SHARED then ''SHARED'' else ''INVALID'')
        (if bs \<noteq> [] then dump bs else ''<FAULT/UNREADABLE>''))"

definition import_rows :: "gnode \<Rightarrow> string list" where
  "import_rows g = concat (map (\<lambda>e. map (import_row (gmem g) e) [0..<dsm_count e]) (entries (gregs g)))"

definition export_rows :: "seg_map \<Rightarrow> (u32 \<Rightarrow> u64 \<Rightarrow> byte list) \<Rightarrow> dsm_dir \<Rightarrow> string list" where
  "export_rows seg peek dir = map (\<lambda>d. export_row seg peek (dir d)) (filter (\<lambda>d. dir_in_use (dir d)) [0..<MAX_DSM_SEGMENTS])"

text \<open>\<open>mem\<close>: there is memory for a copy of the directory; without it only the guests are shown.\<close>

definition dsm_show :: "bool \<Rightarrow> seg_map \<Rightarrow> (u32 \<Rightarrow> u64 \<Rightarrow> byte list) \<Rightarrow> gnode \<Rightarrow> dsm_dir \<Rightarrow> string" where
  "dsm_show mem seg peek g dir =
     (let rule = replicate 99 CHR ''-'' @ [NEWLINE] in
      ''MattX Distributed Shared Memory (DSM) Matrix:'' @ [NEWLINE] @ rule @
      ''TYPE     PID    NODE  SHMID       ADDRESS             SIZE        STATE (P0)  HEX DUMP (16B)'' @ [NEWLINE] @ rule @
      concat (import_rows g) @ (if mem then concat (export_rows seg peek dir) else []))"

section \<open>One line per segment\<close>

definition line_count :: "string \<Rightarrow> nat" where
  "line_count s = length (filter (\<lambda>c. c = NEWLINE) s)"

lemma line_count_append [simp]: "line_count (a @ b) = line_count a + line_count b"
  by (simp add: line_count_def)

lemma line_count_Cons [simp]: "line_count (c # s) = (if c = NEWLINE then 1 else 0) + line_count s" "line_count [] = 0"
  by (simp_all add: line_count_def)

lemma line_count_none: "NEWLINE \<notin> set s \<Longrightarrow> line_count s = 0"
  by (auto simp: line_count_def filter_empty_conv)

lemma digit_no_break: "d < 10 \<Longrightarrow> digit d \<noteq> NEWLINE" "x < 16 \<Longrightarrow> hex_digit x \<noteq> NEWLINE"
proof -
  have "\<forall>d\<in>set [0..<10]. digit d \<noteq> NEWLINE" "\<forall>d\<in>set [0..<16]. hex_digit d \<noteq> NEWLINE" by code_simp+
  then show "d < 10 \<Longrightarrow> digit d \<noteq> NEWLINE" "x < 16 \<Longrightarrow> hex_digit x \<noteq> NEWLINE" by simp_all
qed

lemma dec_no_break: "NEWLINE \<notin> set (dec n)"
proof (induction n rule: dec.induct)
  case (1 n)
  have "digit (n mod 10) \<noteq> NEWLINE" "n < 10 \<Longrightarrow> digit n \<noteq> NEWLINE" using digit_no_break(1) by simp_all
  then show ?case using 1 by (subst dec.simps) auto
qed

lemma hex_no_break: "NEWLINE \<notin> set (hex n)"
proof (induction n rule: hex.induct)
  case (1 n)
  have "hex_digit (n mod 16) \<noteq> NEWLINE" "n < 16 \<Longrightarrow> hex_digit n \<noteq> NEWLINE" using digit_no_break(2) by simp_all
  then show ?case using 1 by (subst hex.simps) auto
qed

lemma print_no_break: "NEWLINE \<notin> set (print_int x)" "NEWLINE \<notin> set (print_u u)" "NEWLINE \<notin> set (dump bs)"
proof -
  show "NEWLINE \<notin> set (print_int x)" "NEWLINE \<notin> set (print_u u)"
    using dec_no_break by (simp_all add: print_int_def print_u_def)
  have b: "unat b < 2 ^ LENGTH(8)" for b :: byte by (rule unsigned_less)
  have "NEWLINE \<noteq> hex_digit (unat b div 16)" "NEWLINE \<noteq> hex_digit (unat b mod 16)" for b :: byte
    using b [of b] by (intro digit_no_break(2) [symmetric]; simp add: less_mult_imp_div_less)+
  then show "NEWLINE \<notin> set (dump bs)" by (auto simp: dump_def hex2_def)
qed

lemma dsm_row_line:
  assumes "NEWLINE \<notin> set kind \<union> set node \<union> set state \<union> set contents"
  shows "line_count (dsm_row kind pid node shm base sz state contents) = 1"
proof -
  have p: "line_count (pad n s) = line_count s" for n s by (simp add: pad_def line_count_def)
  have z: "line_count kind = 0" "line_count node = 0" "line_count state = 0" "line_count contents = 0"
    "line_count (print_int i) = 0" "line_count (print_u u) = 0" "line_count (hex h) = 0" "line_count (dec d) = 0" for i u h d
    using assms print_no_break hex_no_break dec_no_break by (auto intro: line_count_none)
  show ?thesis by (simp add: dsm_row_def p z)
qed

lemma line_count_concat: "(\<And>l. l \<in> set ls \<Longrightarrow> line_count l = 1) \<Longrightarrow> line_count (concat ls) = length ls"
  by (induction ls) simp_all

text \<open>The monitor shows every segment on a line of its own, below four lines of header.\<close>

theorem dsm_show_lines:
  "line_count (dsm_show mem seg peek g dir) =
     4 + (\<Sum>e\<leftarrow>entries (gregs g). dsm_count e) +
     (if mem then length (filter (\<lambda>d. dir_in_use (dir d)) [0..<MAX_DSM_SEGMENTS]) else 0)"
proof -
  have i: "line_count l = 1" if l: "l \<in> set (import_rows g)" for l
  proof -
    from l obtain x d where "l = import_row (gmem g) x d" by (auto simp: import_rows_def)
    then show ?thesis unfolding import_row_def Let_def
      by (simp only:) (rule dsm_row_line, simp add: print_no_break split: option.split)
  qed
  have e: "line_count l = 1" if l: "l \<in> set (export_rows seg peek dir)" for l
  proof -
    from l obtain x where "l = export_row seg peek x" by (auto simp: export_rows_def)
    then show ?thesis unfolding export_row_def Let_def
      by (simp only: split: prod.split) (intro allI impI dsm_row_line, simp add: print_no_break)
  qed
  have n: "length (import_rows g) = (\<Sum>e\<leftarrow>entries (gregs g). dsm_count e)"
    by (simp add: import_rows_def length_concat comp_def)
  have r: "line_count (replicate 99 CHR ''-'' @ [NEWLINE]) = 1" "line_count [NEWLINE] = 1" by (simp_all add: line_count_def)
  have h: "line_count ''MattX Distributed Shared Memory (DSM) Matrix:'' = 0"
      "line_count ''TYPE     PID    NODE  SHMID       ADDRESS             SIZE        STATE (P0)  HEX DUMP (16B)'' = 0"
    by simp_all
  show ?thesis
    by (simp only: dsm_show_def Let_def line_count_append r h)
      (simp add: line_count_concat [OF i] line_count_concat [OF e] n, simp add: export_rows_def line_count_def)
qed

end
