(* ===== verification/Mx_Discd.thy ===== *)
theory Mx_Discd
  imports Mx_Admin
begin

text \<open>
  The discovery daemon (\<^verbatim>\<open>sbin/mattx_discd.c\<close>): its configuration file, the settings it hands to
  the module, the beacons it sends, and the nodes it makes the module join.

  The file is text; \<open>None\<close> as the result of reading it stands for a word that is written past the end
  of its buffer, after which the program has no defined behaviour. Addresses are words in network order.
\<close>

section \<open>Scanning of the C library\<close>

text \<open>A scan matches, does not match (0), or meets the end of its input first (-1).\<close>

datatype (plugins only: size code) 'a match = Got 'a | No | Eof

definition is_cspace :: "char \<Rightarrow> bool" where
  "is_cspace c \<longleftrightarrow> c \<in> {CHR '' '', CHR 0x09, CHR 0x0A, CHR 0x0B, CHR 0x0C, CHR 0x0D}"

fun scan_key :: "string \<Rightarrow> string \<Rightarrow> string match" where
  "scan_key [] s = Got s"
| "scan_key (k # ks) [] = Eof"
| "scan_key (k # ks) (c # s) = (if k = c then scan_key ks s else No)"

text \<open>A field starts at the next character that is no space.\<close>

definition field :: "string \<Rightarrow> string \<Rightarrow> string match" where
  "field key line = (case scan_key key line of Got s \<Rightarrow> (let t = dropWhile is_cspace s in if t = [] then Eof else Got t)
     | No \<Rightarrow> No | Eof \<Rightarrow> Eof)"

definition get_word :: "string \<Rightarrow> string \<Rightarrow> string match" where
  "get_word key line = (case field key line of Got t \<Rightarrow> Got (takeWhile (\<lambda>c. \<not> is_cspace c) t) | No \<Rightarrow> No | Eof \<Rightarrow> Eof)"

definition sign_of :: "string \<Rightarrow> bool \<times> string" where
  "sign_of t = (if t \<noteq> [] \<and> hd t = CHR ''-'' then (True, tl t) else if t \<noteq> [] \<and> hd t = CHR ''+'' then (False, tl t) else (False, t))"

text \<open>Numbers are read as 64-bit ones, stopping at their limits, and cut to 32 bits.\<close>

definition get_number :: "(bool \<Rightarrow> nat \<Rightarrow> int) \<Rightarrow> string \<Rightarrow> string \<Rightarrow> int match" where
  "get_number limit key line =
     (case field key line of
        Got t \<Rightarrow> (case sign_of t of (neg, u) \<Rightarrow>
          if takeWhile is_digit u = [] then No else Got (limit neg (undec (takeWhile is_digit u))))
      | No \<Rightarrow> No | Eof \<Rightarrow> Eof)"

definition signed_limit :: "bool \<Rightarrow> nat \<Rightarrow> int" where
  "signed_limit neg n = sint (word_of_int (if neg then max (- (2 ^ 63)) (- int n) else min (2 ^ 63 - 1) (int n)) :: u32)"

definition unsigned_limit :: "bool \<Rightarrow> nat \<Rightarrow> int" where
  "unsigned_limit neg n = uint (word_of_int (if 2 ^ 64 \<le> n then - 1 else if neg then - int n else int n) :: u32)"

text \<open>Lines as \<^verbatim>\<open>fgets\<close> cuts them: up to a line break, 255 characters at most.\<close>

definition first_line :: "string \<Rightarrow> string" where
  "first_line s = take 255 (takeWhile (\<lambda>c. c \<noteq> NEWLINE) s @ (if NEWLINE \<in> set s then [NEWLINE] else []))"

lemma first_line_shrinks: "s \<noteq> [] \<Longrightarrow> 0 < length (first_line s)"
  by (cases s) (auto simp: first_line_def)

function fgets_lines :: "string \<Rightarrow> string list" where
  "fgets_lines s = (if s = [] then [] else first_line s # fgets_lines (drop (length (first_line s)) s))"
  by pat_completeness auto
termination
  by (relation "measure length") (use first_line_shrinks in auto)

declare fgets_lines.simps [simp del]

section \<open>The configuration file\<close>

record mattx_config =
  interface :: string
  group :: string
  port :: int
  conf_node_id :: u32
  migrate_file_io :: u8
  migrate_net_io :: u8
  mattxfs_enabled :: u8
  dfsa_dir :: string
  mpi_support :: u8
  conf_accept :: u8
  local_libs :: u8
  dsm_mode :: u8
  autodiscovery :: string

abbreviation (input) IFNAMSIZ :: nat where "IFNAMSIZ \<equiv> 16"
abbreviation (input) INET_ADDRSTRLEN :: nat where "INET_ADDRSTRLEN \<equiv> 16"

definition default_config :: mattx_config where
  "default_config = \<lparr>interface = ''eth0'', group = ''239.0.0.1'', port = 7225, conf_node_id = 0, migrate_file_io = 1,
     migrate_net_io = 1, mattxfs_enabled = 1, dfsa_dir = [], mpi_support = 0, conf_accept = 1, local_libs = 1, dsm_mode = 1,
     autodiscovery = ''multicast''\<rparr>"

text \<open>A line is tried against one key after the other; a scan that did not say 0 ends the search.\<close>

definition on_match :: "'a match \<Rightarrow> ('a \<Rightarrow> mattx_config option) \<Rightarrow> mattx_config \<Rightarrow> mattx_config option \<Rightarrow> mattx_config option" where
  "on_match m f c others = (case m of Got v \<Rightarrow> f v | Eof \<Rightarrow> Some c | No \<Rightarrow> others)"

definition is_false :: "string \<Rightarrow> bool" where
  "is_false w \<longleftrightarrow> w = ''false'' \<or> w = ''0''"

text \<open>A switch is read into a buffer of 32 characters and can only be switched off.\<close>

definition off_line :: "string \<Rightarrow> (mattx_config \<Rightarrow> mattx_config) \<Rightarrow> string \<Rightarrow> mattx_config \<Rightarrow> mattx_config option \<Rightarrow> mattx_config option" where
  "off_line key off line c others =
     on_match (get_word key line) (\<lambda>w. if 32 \<le> length w then None else Some (if is_false w then off c else c)) c others"

definition load_line :: "string \<Rightarrow> mattx_config \<Rightarrow> mattx_config option" where
  "load_line l c =
     (let line = takeWhile (\<lambda>c. c \<noteq> CHR 0x00) l in
      if line \<noteq> [] \<and> hd line \<in> {CHR ''#'', NEWLINE} then Some c
      else on_match (get_word ''INTERFACE='' line) (\<lambda>w. if IFNAMSIZ \<le> length w then None else Some (c\<lparr>interface := w\<rparr>)) c
       (on_match (get_word ''MULTICAST_GROUP='' line) (\<lambda>w. if INET_ADDRSTRLEN \<le> length w then None else Some (c\<lparr>group := w\<rparr>)) c
       (on_match (get_word ''AUTODISCOVERY='' line) (\<lambda>w. Some (c\<lparr>autodiscovery := take 31 w\<rparr>)) c
       (on_match (get_number signed_limit ''PORT='' line) (\<lambda>v. Some (c\<lparr>port := v\<rparr>)) c
       (on_match (get_number unsigned_limit ''NODE_ID='' line) (\<lambda>v. Some (c\<lparr>conf_node_id := word_of_int v\<rparr>)) c
       (off_line ''MIGRATE_FILE_IO='' (migrate_file_io_update (\<lambda>_. 0)) line c
       (off_line ''MIGRATE_NETWORK_IO='' (migrate_net_io_update (\<lambda>_. 0)) line c
       (off_line ''MATTXFS_ENABLED='' (mattxfs_enabled_update (\<lambda>_. 0)) line c
       (on_match (get_word ''DFSA_DIR='' line) (\<lambda>w. Some (c\<lparr>dfsa_dir := take 255 w\<rparr>)) c
       (off_line ''MPI_SUPPORT='' (mpi_support_update (\<lambda>_. 0)) line c
       (off_line ''ACCEPT_GUESTS='' (conf_accept_update (\<lambda>_. 0)) line c
       (off_line ''LOCAL_LIBS='' (local_libs_update (\<lambda>_. 0)) line c
       (case get_number signed_limit ''DSM_MODE='' line of Got v \<Rightarrow> Some (c\<lparr>dsm_mode := word_of_int v\<rparr>) | _ \<Rightarrow> Some c)))))))))))))"

fun load_lines :: "string list \<Rightarrow> mattx_config \<Rightarrow> mattx_config option" where
  "load_lines [] c = Some c"
| "load_lines (l # ls) c = (case load_line l c of None \<Rightarrow> None | Some c' \<Rightarrow> load_lines ls c')"

text \<open>
  The node number from the address of the network card; \<open>mac\<close> is that address or, when it cannot be
  read, a random number.
\<close>

definition generate_node_id :: "byte list + nat \<Rightarrow> u32" where
  "generate_node_id mac =
     (case mac of Inl bs \<Rightarrow> foldl (\<lambda>n b. push_bit 8 n OR ucast b) 0 bs mod 1000 | Inr r \<Rightarrow> of_nat (r mod 1000))"

definition load_config :: "(string \<Rightarrow> byte list + nat) \<Rightarrow> string option \<Rightarrow> mattx_config option" where
  "load_config mac text =
     (case text of None \<Rightarrow> Some default_config
      | Some s \<Rightarrow> map_option (\<lambda>c. if conf_node_id c = 0 then c\<lparr>conf_node_id := generate_node_id (mac (interface c))\<rparr> else c)
          (load_lines (fgets_lines s) default_config))"

section \<open>What the module is told\<close>

definition register_local_ip :: "u32 \<Rightarrow> mattx_config \<Rightarrow> settings \<Rightarrow> settings" where
  "register_local_ip ip c = mattx_nl_cmd_set_local_ip (Some ip) (Some (conf_node_id c))"

definition register_config_to_kernel :: "mattx_config \<Rightarrow> nl_config" where
  "register_config_to_kernel c =
     \<lparr>a_file_io = Some (migrate_file_io c), a_net_io = Some (migrate_net_io c), a_mattxfs = Some (mattxfs_enabled c),
      a_dfsa_dir = (if dfsa_dir c \<noteq> [] then Some (dfsa_dir c) else None), a_mpi = Some (mpi_support c),
      a_accept = Some (conf_accept c), a_local_libs = Some (local_libs c), a_dsm_mode = Some (dsm_mode c)\<rparr>"

section \<open>Beacons\<close>

record mattx_beacon =
  b_node_id :: u32
  b_ip_addr :: u32

definition beacon_bytes :: "mattx_beacon \<Rightarrow> byte list" where
  "beacon_bytes b = le32 (b_node_id b) @ le32 (b_ip_addr b)"

definition beacon_of :: "byte list \<Rightarrow> mattx_beacon" where
  "beacon_of bs = \<lparr>b_node_id = un32 bs, b_ip_addr = un32 (drop 4 bs)\<rparr>"

definition htonl :: "u32 \<Rightarrow> u32" where
  "htonl x = un32 (rev (le32 x))"

text \<open>One round of sending: the addresses that get a beacon. \<open>group_ip\<close> is the parsed group.\<close>

definition sweep_targets :: "u32 \<Rightarrow> u32 \<Rightarrow> u32 list" where
  "sweep_targets ip nmask =
     (let network = htonl ip AND htonl nmask in filter (\<lambda>t. t \<noteq> ip) (map (\<lambda>i. htonl (network OR of_nat i)) [1..<255]))"

definition beacon_sender :: "mattx_config \<Rightarrow> u32 \<Rightarrow> u32 \<Rightarrow> u32 \<Rightarrow> (u32 \<times> byte list) list" where
  "beacon_sender c ip nmask group_ip =
     (let b = beacon_bytes \<lparr>b_node_id = conf_node_id c, b_ip_addr = ip\<rparr> in
      if autodiscovery c = ''sweep'' then map (\<lambda>t. (t, b)) (sweep_targets ip nmask) else [(group_ip, b)])"

section \<open>Joining\<close>

text \<open>
  A join command carries the node, its address and the own number. \<open>sent\<close>: the command was sent.
  The list of known nodes takes 64.
\<close>

definition trigger_kernel_join :: "bool \<Rightarrow> u32 \<Rightarrow> u32 \<Rightarrow> u32 \<Rightarrow> u32 list \<Rightarrow> u32 list \<times> (u32 \<times> u32 \<times> u32) list" where
  "trigger_kernel_join sent own node ip known =
     (if node \<in> set known then (known, [])
      else if sent then (if length known < 64 then known @ [node] else known, [(node, ip, own)])
      else (known, []))"

text \<open>
  The main loop, one round: what was received (None: an error) goes to the front of the buffer, and
  the rest of it stays as it was.
\<close>

type_synonym daemon = "byte list \<times> u32 list"

definition main_step :: "u32 \<Rightarrow> bool \<times> byte list option \<Rightarrow> daemon \<Rightarrow> daemon \<times> (u32 \<times> u32 \<times> u32) list" where
  "main_step own ev d =
     (case (ev, d) of ((sent, got), (buf, known)) \<Rightarrow>
       (case got of None \<Rightarrow> (d, [])
        | Some bs \<Rightarrow> if bs = [] then (d, [])
            else (let buf = take 8 bs @ drop (length bs) buf; b = beacon_of buf in
                  if b_node_id b = own then ((buf, known), [])
                  else (case trigger_kernel_join sent own (b_node_id b) (b_ip_addr b) known of (known, js) \<Rightarrow> ((buf, known), js)))))"

fun main_loop :: "u32 \<Rightarrow> (bool \<times> byte list option) list \<Rightarrow> daemon \<Rightarrow> daemon \<times> (u32 \<times> u32 \<times> u32) list" where
  "main_loop own [] d = (d, [])"
| "main_loop own (e # es) d = (case main_step own e d of (d, js) \<Rightarrow> (case main_loop own es d of (d, ks) \<Rightarrow> (d, js @ ks)))"

section \<open>Discovery\<close>

lemma beacon_of_bytes [simp]: "beacon_of (beacon_bytes b @ bs) = b"
  by (simp add: beacon_of_def beacon_bytes_def)

lemma length_beacon [simp]: "length (beacon_bytes b) = 8"
  by (simp add: beacon_bytes_def)

text \<open>The different members of a list in the order of their first appearance.\<close>

fun first_seen :: "'a list \<Rightarrow> 'a list" where
  "first_seen [] = []"
| "first_seen (x # xs) = x # filter (\<lambda>y. y \<noteq> x) (first_seen xs)"

lemma set_first_seen [simp]: "set (first_seen xs) = set xs"
  by (induction xs) auto

lemma distinct_first_seen [simp]: "distinct (first_seen xs)"
  by (induction xs) auto

text \<open>A session receives whole beacons; the flag says whether a command can be sent just then.\<close>

definition heard :: "(bool \<times> mattx_beacon) list \<Rightarrow> (bool \<times> byte list option) list" where
  "heard es = map (\<lambda>(sent, b). (sent, Some (beacon_bytes b))) es"

definition usable :: "u32 \<Rightarrow> (bool \<times> mattx_beacon) list \<Rightarrow> mattx_beacon list" where
  "usable own es = map snd (filter (\<lambda>(sent, b). sent \<and> b_node_id b \<noteq> own) es)"

definition join_of :: "u32 \<Rightarrow> mattx_beacon list \<Rightarrow> u32 \<Rightarrow> u32 \<times> u32 \<times> u32" where
  "join_of own bs n = (n, b_ip_addr (the (find (\<lambda>b. b_node_id b = n) bs)), own)"

lemma main_step_heard:
  "main_step own (sent, Some (beacon_bytes b)) (buf, known) =
    (if b_node_id b = own then ((beacon_bytes b @ drop 8 buf, known), [])
     else (case trigger_kernel_join sent own (b_node_id b) (b_ip_addr b) known of
       (known, js) \<Rightarrow> ((beacon_bytes b @ drop 8 buf, known), js)))"
proof -
  have "beacon_bytes b \<noteq> []" using length_beacon [of b] by fastforce
  then show ?thesis by (simp add: main_step_def Let_def)
qed

lemma join_of_hit: "join_of own (b # bs) (b_node_id b) = (b_node_id b, b_ip_addr b, own)"
  by (simp add: join_of_def)

lemma main_loop_step:
  "main_step own e d = (d', js) \<Longrightarrow> snd (main_loop own (e # es) d) = js @ snd (main_loop own es d')"
  by (simp add: case_prod_beta)

lemma join_of_skip: "n \<noteq> b_node_id b \<Longrightarrow> join_of own (b # bs) n = join_of own bs n"
  by (simp add: join_of_def)

lemma joins_from:
  assumes "distinct known" "length known + length (filter (\<lambda>n. n \<notin> set known) (first_seen (map b_node_id (usable own es)))) \<le> 64"
  shows "snd (main_loop own (heard es) (buf, known)) =
    map (join_of own (usable own es)) (filter (\<lambda>n. n \<notin> set known) (first_seen (map b_node_id (usable own es))))"
  using assms
proof (induction es arbitrary: buf known)
  case Nil
  then show ?case by (simp add: heard_def usable_def)
next
  case (Cons e es)
  obtain sent b where e: "e = (sent, b)" by fastforce
  let ?n = "b_node_id b" and ?u = "usable own es"
  have h: "heard (e # es) = (sent, Some (beacon_bytes b)) # heard es" by (simp add: heard_def e)
  show ?case
  proof (cases "sent \<and> ?n \<noteq> own")
    case False
    then have u: "usable own (e # es) = ?u" by (auto simp: usable_def e)
    have "main_step own (sent, Some (beacon_bytes b)) (buf, known) = ((beacon_bytes b @ drop 8 buf, known), [])"
      using False by (auto simp: main_step_heard trigger_kernel_join_def)
    then show ?thesis using Cons.IH [OF Cons.prems(1), of "beacon_bytes b @ drop 8 buf"] Cons.prems(2)
      unfolding h u by (simp add: main_loop_step)
  next
    case True
    then have u: "usable own (e # es) = b # ?u" by (simp add: usable_def e)
    show ?thesis
    proof (cases "?n \<in> set known")
      case known: True
      have f: "filter (\<lambda>n. n \<notin> set known) (filter (\<lambda>y. y \<noteq> ?n) (first_seen (map b_node_id ?u))) =
          filter (\<lambda>n. n \<notin> set known) (first_seen (map b_node_id ?u))"
        using known by (auto intro: filter_cong simp: filter_filter)
      have "snd (main_loop own (heard es) (beacon_bytes b @ drop 8 buf, known)) =
          map (join_of own ?u) (filter (\<lambda>n. n \<notin> set known) (first_seen (map b_node_id ?u)))"
        using Cons.prems(2) known unfolding u by (intro Cons.IH [OF Cons.prems(1)]) (simp add: f [unfolded filter_filter] conj_commute)
      also have "\<dots> = map (join_of own (b # ?u)) (filter (\<lambda>n. n \<notin> set known) (first_seen (map b_node_id ?u)))"
        using known by (intro map_cong refl join_of_skip [symmetric]) auto
      moreover have "main_step own (sent, Some (beacon_bytes b)) (buf, known) = ((beacon_bytes b @ drop 8 buf, known), [])"
        using True known by (simp add: main_step_heard trigger_kernel_join_def)
      ultimately show ?thesis using known unfolding h u by (simp add: main_loop_step f del: filter_filter)
    next
      case new: False
      let ?k = "known @ [?n]"
      have f: "filter (\<lambda>n. n \<notin> set known) (filter (\<lambda>y. y \<noteq> ?n) (first_seen (map b_node_id ?u))) =
          filter (\<lambda>n. n \<notin> set ?k) (first_seen (map b_node_id ?u))"
        by (auto intro: filter_cong simp: filter_filter)
      have room: "length ?k + length (filter (\<lambda>n. n \<notin> set ?k) (first_seen (map b_node_id ?u))) \<le> 64"
        using Cons.prems(2) new unfolding u by (simp add: f del: filter_filter)
      then have "snd (main_loop own (heard es) (beacon_bytes b @ drop 8 buf, ?k)) =
          map (join_of own ?u) (filter (\<lambda>n. n \<notin> set ?k) (first_seen (map b_node_id ?u)))"
        using Cons.prems(1) new by (intro Cons.IH) simp_all
      also have "\<dots> = map (join_of own (b # ?u)) (filter (\<lambda>n. n \<notin> set ?k) (first_seen (map b_node_id ?u)))"
        by (intro map_cong refl) (auto simp: join_of_skip)
      moreover have "main_step own (sent, Some (beacon_bytes b)) (buf, known) =
          ((beacon_bytes b @ drop 8 buf, ?k), [(?n, b_ip_addr b, own)])"
        using True new room by (simp add: main_step_heard trigger_kernel_join_def)
      ultimately show ?thesis using new unfolding h u
        by (simp add: main_loop_step f join_of_hit del: filter_filter main_loop.simps)
    qed
  qed
qed

text \<open>How the module obeys a list of join commands.\<close>

definition module_joins ::
    "(u32 \<Rightarrow> u32 \<Rightarrow> mattx_link option \<times> link_effect list) \<Rightarrow> (u32 \<times> u32 \<times> u32) list \<Rightarrow> membership \<Rightarrow> membership" where
  "module_joins connect js m = fold (\<lambda>(n, ip, me) m. fst (snd (mattx_nl_cmd_node_join connect n ip (Some me) m))) js m"

lemma node_join_dom:
  assumes "fst (connect ip n) \<noteq> None" "unat n < MAX_NODES"
  shows "dom (cluster_map (fst (snd (mattx_nl_cmd_node_join connect n ip me m)))) = insert (unat n) (dom (cluster_map m))"
proof -
  obtain l e where "connect ip n = (Some l, e)" using assms(1) by (cases "connect ip n") auto
  then have "cluster_map (fst (snd (mattx_nl_cmd_node_join connect n ip me m))) = (fst (drop_old n (cluster_map m)))(unat n \<mapsto> l)"
    using assms(2) by (cases me) (simp_all add: mattx_nl_cmd_node_join_def Let_def split: prod.splits)
  moreover have "insert (unat n) (dom (fst (drop_old n cm))) = insert (unat n) (dom cm)" for cm
    by (auto simp: drop_old_def disconnect_map split: if_splits)
  ultimately show ?thesis by simp
qed

lemma module_joins_dom:
  assumes "\<And>n ip. fst (connect ip n) \<noteq> None" "\<forall>j\<in>set js. unat (fst j) < MAX_NODES"
  shows "dom (cluster_map (module_joins connect js m)) = unat ` fst ` set js \<union> dom (cluster_map m)"
  using assms(2)
proof (induction js arbitrary: m)
  case Nil
  then show ?case by (simp add: module_joins_def)
next
  case (Cons j js)
  obtain n ip me where j: "j = (n, ip, me)" by (cases j)
  let ?m = "fst (snd (mattx_nl_cmd_node_join connect n ip (Some me) m))"
  have "module_joins connect (j # js) m = module_joins connect js ?m" by (simp add: module_joins_def j)
  then show ?case using Cons.IH [of ?m] Cons.prems node_join_dom [of connect ip n "Some me" m] assms(1) by (auto simp: j)
qed

text \<open>
  C22. Whatever beacons the daemon hears, and however often a command cannot be sent, each other node is
  joined exactly once, in the order in which a beacon of it first coincided with a working channel and
  with the address of that beacon, as long as there are at most 64 of them; when every connection
  succeeds the module is then linked to exactly these nodes besides those it was linked to before.
\<close>

theorem discovery_joins_once:
  assumes "\<And>n ip. fst (connect ip n) \<noteq> None" "\<forall>e\<in>set es. unat (b_node_id (snd e)) < MAX_NODES"
    "card (b_node_id ` set (usable own es)) \<le> 64"
  shows "let bs = usable own es; js = snd (main_loop own (heard es) (buf, [])) in
    js = map (join_of own bs) (first_seen (map b_node_id bs)) \<and>
    dom (cluster_map (module_joins connect js m)) = unat ` b_node_id ` set bs \<union> dom (cluster_map m)"
proof -
  let ?bs = "usable own es" and ?js = "snd (main_loop own (heard es) (buf, []))"
  have "length (first_seen (map b_node_id ?bs)) = card (b_node_id ` set ?bs)"
    using distinct_card [OF distinct_first_seen, of "map b_node_id ?bs"] by simp
  then have js: "?js = map (join_of own ?bs) (first_seen (map b_node_id ?bs))"
    using joins_from [of "[]" own es buf] assms(3) by simp
  have "fst ` set ?js = b_node_id ` set ?bs" unfolding js by (force simp: join_of_def)
  moreover have "\<forall>j\<in>set ?js. unat (fst j) < MAX_NODES" unfolding js using assms(2)
    by (auto simp: join_of_def usable_def)
  ultimately show ?thesis using js module_joins_dom [OF assms(1)] by (simp add: Let_def)
qed

definition demo_beacon :: "u32 \<Rightarrow> mattx_beacon" where
  "demo_beacon n = \<lparr>b_node_id = n, b_ip_addr = 1000 + n\<rparr>"

theorem discovery_joins_once_witness:
  "snd (main_loop 1 (heard [(False, demo_beacon 7), (True, demo_beacon 1), (True, demo_beacon 7), (True, demo_beacon 9), (True, demo_beacon 7)])
     (replicate 8 0, [])) = [(7, 1007, 1), (9, 1009, 1)]"
proof -
  let ?es = "[(False, demo_beacon 7), (True, demo_beacon 1), (True, demo_beacon 7), (True, demo_beacon 9), (True, demo_beacon 7)]"
  have u: "usable 1 ?es = [demo_beacon 7, demo_beacon 9, demo_beacon 7]" by (simp add: usable_def demo_beacon_def)
  have c: "card (b_node_id ` set (usable 1 ?es)) \<le> 64" unfolding u by (simp add: demo_beacon_def card_insert_if)
  have s: "\<forall>e\<in>set ?es. unat (b_node_id (snd e)) < MAX_NODES" by (simp add: demo_beacon_def)
  show ?thesis
    using discovery_joins_once [of "\<lambda>ip n. (Some (demo_link 1 n), [])" ?es 1 "replicate 8 0" "\<lparr>cluster_map = (\<lambda>_. None), cluster_load_table = undefined, my_node_id = 0\<rparr>", OF _ s c]
    unfolding u by (simp add: Let_def join_of_def demo_beacon_def)
qed

text \<open>What goes wrong: once 64 nodes are known, a further node is joined again with each beacon.\<close>

lemma join_storm:
  assumes "length known = 64" "b_node_id b \<notin> set known" "b_node_id b \<noteq> own"
  shows "snd (main_loop own (heard (replicate k (True, b))) (buf, known)) = replicate k (b_node_id b, b_ip_addr b, own)"
proof (induction k arbitrary: buf)
  case 0
  then show ?case by (simp add: heard_def)
next
  case (Suc k)
  have h: "heard (replicate (Suc k) (True, b)) = (True, Some (beacon_bytes b)) # heard (replicate k (True, b))" by (simp add: heard_def)
  have "main_step own (True, Some (beacon_bytes b)) (buf, known) =
      ((beacon_bytes b @ drop 8 buf, known), [(b_node_id b, b_ip_addr b, own)])"
    using assms by (simp add: main_step_heard trigger_kernel_join_def)
  then show ?case using Suc [of "beacon_bytes b @ drop 8 buf"] unfolding h by (simp add: main_loop_step del: main_loop.simps)
qed

text \<open>Nodes without a configuration file all have the number 0 and never join each other.\<close>

lemma unconfigured_nodes_deaf:
  "load_config mac None = Some c \<Longrightarrow> conf_node_id c = 0"
  "snd (main_step (conf_node_id default_config) (sent, Some (beacon_bytes \<lparr>b_node_id = 0, b_ip_addr = ip\<rparr>)) (buf, known)) = []"
  by (auto simp: load_config_def default_config_def main_step_heard)

section \<open>Reading back a written configuration\<close>

definition good_word :: "nat \<Rightarrow> string \<Rightarrow> bool" where
  "good_word n w \<longleftrightarrow> w \<noteq> [] \<and> length w \<le> n \<and> list_all (\<lambda>c. \<not> is_cspace c \<and> c \<noteq> CHR 0x00) w"

definition flag_word :: "u8 \<Rightarrow> string" where
  "flag_word v = (if v = 0 then ''false'' else ''true'')"

definition conf_fields :: "mattx_config \<Rightarrow> (string \<times> string) list" where
  "conf_fields c =
     [(''INTERFACE='', interface c), (''MULTICAST_GROUP='', group c), (''AUTODISCOVERY='', autodiscovery c),
      (''PORT='', print_int (port c)), (''NODE_ID='', print_u (conf_node_id c)), (''MIGRATE_FILE_IO='', flag_word (migrate_file_io c)),
      (''MIGRATE_NETWORK_IO='', flag_word (migrate_net_io c)), (''MATTXFS_ENABLED='', flag_word (mattxfs_enabled c))] @
     (if dfsa_dir c = [] then [] else [(''DFSA_DIR='', dfsa_dir c)]) @
     [(''MPI_SUPPORT='', flag_word (mpi_support c)), (''ACCEPT_GUESTS='', flag_word (conf_accept c)),
      (''LOCAL_LIBS='', flag_word (local_libs c)), (''DSM_MODE='', print_int (uint (dsm_mode c)))]"

definition render_config :: "mattx_config \<Rightarrow> string" where
  "render_config c = concat (map (\<lambda>(k, w). k @ w @ [NEWLINE]) (conf_fields c))"

definition flag_ok :: "u8 \<Rightarrow> bool" where "flag_ok v \<longleftrightarrow> v = 0 \<or> v = 1"

definition conf_ok :: "mattx_config \<Rightarrow> bool" where
  "conf_ok c \<longleftrightarrow> good_word 15 (interface c) \<and> good_word 15 (group c) \<and> good_word 31 (autodiscovery c) \<and> fits32 (port c) \<and>
     conf_node_id c \<noteq> 0 \<and> (dfsa_dir c = [] \<or> good_word 245 (dfsa_dir c)) \<and> mpi_support c = 0 \<and>
     flag_ok (migrate_file_io c) \<and> flag_ok (migrate_net_io c) \<and> flag_ok (mattxfs_enabled c) \<and> flag_ok (conf_accept c) \<and> flag_ok (local_libs c)"

lemma literal_cspace [simp]:
  "is_cspace (Char a b c d e f g h) \<longleftrightarrow> Char a b c d e f g h \<in> {CHR '' '', CHR 0x09, CHR 0x0A, CHR 0x0B, CHR 0x0C, CHR 0x0D}"
  by (simp only: is_cspace_def)

lemma good_word_scan:
  assumes "good_word n w"
  shows "takeWhile (\<lambda>c. c \<noteq> CHR 0x00) (w @ [NEWLINE]) = w @ [NEWLINE]" "dropWhile is_cspace (w @ [NEWLINE]) = w @ [NEWLINE]"
    "takeWhile (\<lambda>c. \<not> is_cspace c) (w @ [NEWLINE]) = w" "takeWhile (\<lambda>c. c \<noteq> NEWLINE) (w @ [NEWLINE] @ s) = w" "NEWLINE \<notin> set w"
proof -
  have all: "\<forall>c\<in>set w. \<not> is_cspace c \<and> c \<noteq> CHR 0x00" "w \<noteq> []" using assms by (simp_all add: good_word_def list_all_iff)
  then show n: "NEWLINE \<notin> set w" by (auto simp: is_cspace_def)
  have ne: "\<forall>c\<in>set w. c \<noteq> NEWLINE" using n by auto
  show "takeWhile (\<lambda>c. c \<noteq> CHR 0x00) (w @ [NEWLINE]) = w @ [NEWLINE]" "takeWhile (\<lambda>c. \<not> is_cspace c) (w @ [NEWLINE]) = w"
    "takeWhile (\<lambda>c. c \<noteq> NEWLINE) (w @ [NEWLINE] @ s) = w"
    using all ne by (simp_all add: takeWhile_append)
  show "dropWhile is_cspace (w @ [NEWLINE]) = w @ [NEWLINE]" using all by (cases w) auto
qed

lemma numbers_good: "fits32 v \<Longrightarrow> good_word 11 (print_int v)" "good_word 10 (print_u n)"
proof -
  have c: "is_cspace c \<Longrightarrow> is_space c" for c by (auto simp: is_cspace_def is_space_def)
  show "fits32 v \<Longrightarrow> good_word 11 (print_int v)"
    using print_int_length [of v] print_int_chars [of _ v] print_int_hd [of v] c by (auto simp: good_word_def list_all_iff)
  show "good_word 10 (print_u n)"
    using print_u_length [of n] dec_chars [of _ "unat n"] c by (auto simp: good_word_def list_all_iff print_u_def)
qed

lemma flags_good: "good_word 5 (flag_word v)"
  by (simp add: flag_word_def good_word_def)

lemma signed_word:
  assumes "fits32 v"
  shows "sign_of (print_int v @ s) = (v < 0, dec (nat \<bar>v\<bar>) @ s)" "signed_limit (v < 0) (nat \<bar>v\<bar>) = v"
proof -
  show "sign_of (print_int v @ s) = (v < 0, dec (nat \<bar>v\<bar>) @ s)"
    using dec_hd [of "nat v"] by (simp add: sign_of_def print_int_def)
  have "int (nat \<bar>v\<bar>) = \<bar>v\<bar>" by simp
  then show "signed_limit (v < 0) (nat \<bar>v\<bar>) = v" using assms sint_int32 [OF assms]
    by (simp add: signed_limit_def)
qed

lemma unsigned_word: "sign_of (print_u n @ s) = (False, dec (unat n) @ s)" "word_of_int (unsigned_limit False (unat n)) = n"
proof -
  show "sign_of (print_u n @ s) = (False, dec (unat n) @ s)" using dec_hd [of "unat n"] by (simp add: sign_of_def print_u_def)
  have "unat n < 2 ^ 32" using unsigned_less [of n] by simp
  then show "word_of_int (unsigned_limit False (unat n)) = n" by (simp add: unsigned_limit_def)
qed

lemma first_of_lines:
  assumes "good_word n w" "length k + n \<le> 254" "NEWLINE \<notin> set k"
  shows "fgets_lines (k @ w @ [NEWLINE] @ s) = (k @ w @ [NEWLINE]) # fgets_lines s"
proof -
  have "\<forall>c\<in>set k. c \<noteq> NEWLINE" using assms(3) by auto
  then have "takeWhile (\<lambda>c. c \<noteq> NEWLINE) (k @ w @ [NEWLINE] @ s) = k @ w"
    using good_word_scan(4) [OF assms(1)] by (simp add: takeWhile_append)
  moreover have "length (k @ w) \<le> 254" using assms(1,2) by (simp add: good_word_def)
  ultimately have "first_line (k @ w @ [NEWLINE] @ s) = k @ w @ [NEWLINE]" by (simp add: first_line_def)
  then show ?thesis by (subst fgets_lines.simps) simp
qed

lemma good_not_Nil: "good_word n w \<Longrightarrow> w @ s \<noteq> []" "good_word n w \<Longrightarrow> length w \<le> n"
  by (simp_all add: good_word_def)

lemmas load_simps = load_line_def on_match_def get_word_def get_number_def field_def off_line_def Let_def

text \<open>Each key is found by its own scan and by none before it.\<close>

lemma load_words:
  "good_word 15 w \<Longrightarrow> load_line (''INTERFACE='' @ w @ [NEWLINE]) c = Some (c\<lparr>interface := w\<rparr>)"
  "good_word 15 w \<Longrightarrow> load_line (''MULTICAST_GROUP='' @ w @ [NEWLINE]) c = Some (c\<lparr>group := w\<rparr>)"
  "good_word 31 w \<Longrightarrow> load_line (''AUTODISCOVERY='' @ w @ [NEWLINE]) c = Some (c\<lparr>autodiscovery := w\<rparr>)"
  "good_word 245 w \<Longrightarrow> load_line (''DFSA_DIR='' @ w @ [NEWLINE]) c = Some (c\<lparr>dfsa_dir := w\<rparr>)"
  by (frule good_word_scan(1), frule good_word_scan(2), frule good_word_scan(3), frule good_not_Nil(1), frule good_not_Nil(2), simp add: load_simps)+

lemma dec_number: "takeWhile is_digit (dec n @ [NEWLINE]) = dec n"
  by (rule takeWhile_dec) simp

lemma byte_int32: "fits32 (uint (d :: u8))"
proof -
  have "0 \<le> uint d" "uint d < 256" using uint_lt2p [of d] by simp_all
  then show ?thesis by (auto intro: order_trans [of _ 0])
qed

lemma load_numbers:
  "fits32 v \<Longrightarrow> load_line (''PORT='' @ print_int v @ [NEWLINE]) c = Some (c\<lparr>port := v\<rparr>)"
  "load_line (''NODE_ID='' @ print_u n @ [NEWLINE]) c = Some (c\<lparr>conf_node_id := n\<rparr>)"
  "load_line (''DSM_MODE='' @ print_int (uint d) @ [NEWLINE]) c = Some (c\<lparr>dsm_mode := d\<rparr>)"
proof -
  have i: "load_line (''PORT='' @ print_int v @ [NEWLINE]) c = Some (c\<lparr>port := v\<rparr>)" if "fits32 v" for v
    using good_word_scan(1,2) [OF numbers_good(1) [OF that]] good_not_Nil(1) [OF numbers_good(1) [OF that]]
      signed_word(1) [OF that, of "[NEWLINE]"] signed_word(2) [OF that]
    by (simp add: load_simps dec_number)
  show "fits32 v \<Longrightarrow> load_line (''PORT='' @ print_int v @ [NEWLINE]) c = Some (c\<lparr>port := v\<rparr>)" by (rule i)
  show "load_line (''NODE_ID='' @ print_u n @ [NEWLINE]) c = Some (c\<lparr>conf_node_id := n\<rparr>)"
    using good_word_scan(1,2) [OF numbers_good(2) [of n]] good_not_Nil(1) [OF numbers_good(2) [of n]]
      unsigned_word(1) [of n "[NEWLINE]"] unsigned_word(2) [of n]
    by (simp add: load_simps dec_number)
  note d = byte_int32 [of d]
  show "load_line (''DSM_MODE='' @ print_int (uint d) @ [NEWLINE]) c = Some (c\<lparr>dsm_mode := d\<rparr>)"
    using good_word_scan(1,2) [OF numbers_good(1) [OF d]] good_not_Nil(1) [OF numbers_good(1) [OF d]]
      signed_word(1) [OF d, of "[NEWLINE]"] signed_word(2) [OF d]
    by (simp add: load_simps dec_number)
qed

lemma load_switches:
  "load_line (''MIGRATE_FILE_IO='' @ flag_word v @ [NEWLINE]) c = Some (if v = 0 then c\<lparr>migrate_file_io := 0\<rparr> else c)"
  "load_line (''MIGRATE_NETWORK_IO='' @ flag_word v @ [NEWLINE]) c = Some (if v = 0 then c\<lparr>migrate_net_io := 0\<rparr> else c)"
  "load_line (''MATTXFS_ENABLED='' @ flag_word v @ [NEWLINE]) c = Some (if v = 0 then c\<lparr>mattxfs_enabled := 0\<rparr> else c)"
  "load_line (''MPI_SUPPORT='' @ flag_word v @ [NEWLINE]) c = Some (if v = 0 then c\<lparr>mpi_support := 0\<rparr> else c)"
  "load_line (''ACCEPT_GUESTS='' @ flag_word v @ [NEWLINE]) c = Some (if v = 0 then c\<lparr>conf_accept := 0\<rparr> else c)"
  "load_line (''LOCAL_LIBS='' @ flag_word v @ [NEWLINE]) c = Some (if v = 0 then c\<lparr>local_libs := 0\<rparr> else c)"
  by (simp_all add: load_simps flag_word_def is_false_def)

lemma load_flags:
  "flag_ok v \<Longrightarrow> migrate_file_io c = 1 \<Longrightarrow> load_line (''MIGRATE_FILE_IO='' @ flag_word v @ [NEWLINE]) c = Some (c\<lparr>migrate_file_io := v\<rparr>)"
  "flag_ok v \<Longrightarrow> migrate_net_io c = 1 \<Longrightarrow> load_line (''MIGRATE_NETWORK_IO='' @ flag_word v @ [NEWLINE]) c = Some (c\<lparr>migrate_net_io := v\<rparr>)"
  "flag_ok v \<Longrightarrow> mattxfs_enabled c = 1 \<Longrightarrow> load_line (''MATTXFS_ENABLED='' @ flag_word v @ [NEWLINE]) c = Some (c\<lparr>mattxfs_enabled := v\<rparr>)"
  "mpi_support c = 0 \<Longrightarrow> load_line (''MPI_SUPPORT='' @ flag_word 0 @ [NEWLINE]) c = Some c"
  "flag_ok v \<Longrightarrow> conf_accept c = 1 \<Longrightarrow> load_line (''ACCEPT_GUESTS='' @ flag_word v @ [NEWLINE]) c = Some (c\<lparr>conf_accept := v\<rparr>)"
  "flag_ok v \<Longrightarrow> local_libs c = 1 \<Longrightarrow> load_line (''LOCAL_LIBS='' @ flag_word v @ [NEWLINE]) c = Some (c\<lparr>local_libs := v\<rparr>)"
  unfolding load_switches flag_ok_def by (cases c; (elim disjE)?; simp)+

fun load_fields :: "(string \<times> string) list \<Rightarrow> mattx_config \<Rightarrow> mattx_config option" where
  "load_fields [] c = Some c"
| "load_fields ((k, w) # fs) c = (case load_line (k @ w @ [NEWLINE]) c of None \<Rightarrow> None | Some c' \<Rightarrow> load_fields fs c')"

definition line_fits :: "string \<times> string \<Rightarrow> bool" where
  "line_fits f \<longleftrightarrow> (case f of (k, w) \<Rightarrow> NEWLINE \<notin> set k \<and>
     (length k + 31 \<le> 254 \<and> good_word 31 w \<or> length k + 245 \<le> 254 \<and> good_word 245 w))"

lemma good_word_mono: "good_word n w \<Longrightarrow> n \<le> m \<Longrightarrow> good_word m w"
  by (simp add: good_word_def)

lemma load_fields_append: "load_fields (fs @ gs) c = Option.bind (load_fields fs c) (load_fields gs)"
  by (induction fs c rule: load_fields.induct) (auto split: option.splits)

lemma load_rendered:
  assumes "list_all line_fits fs"
  shows "load_lines (fgets_lines (concat (map (\<lambda>(k, w). k @ w @ [NEWLINE]) fs))) c = load_fields fs c"
  using assms
proof (induction fs arbitrary: c)
  case Nil
  then show ?case by (simp add: fgets_lines.simps)
next
  case (Cons f fs)
  obtain k w where f: "f = (k, w)" by fastforce
  obtain n where n: "good_word n w" "length k + n \<le> 254" "NEWLINE \<notin> set k" using Cons.prems f by (auto simp: line_fits_def)
  show ?case using first_of_lines [OF n, of "concat (map (\<lambda>(k, w). k @ w @ [NEWLINE]) fs)"] Cons.IH Cons.prems
    by (simp add: f split: option.splits)
qed

text \<open>
  A configuration that is written out with one line per key is read back as it was, and when the
  daemon registers it with the module the settings of the module are those of the file.
\<close>

theorem configuration_roundtrip:
  assumes "conf_ok c"
  shows "load_config mac (Some (render_config c)) = Some c \<and>
    mattx_nl_cmd_set_config (register_config_to_kernel c) (register_local_ip ip c s) =
      s\<lparr>set_node_id := conf_node_id c, set_ip_addr := ip, set_file_io := migrate_file_io c \<noteq> 0, set_network_io := migrate_net_io c \<noteq> 0,
        set_mattxfs := mattxfs_enabled c \<noteq> 0, set_dfsa_dir := (if dfsa_dir c = [] then set_dfsa_dir s else dfsa_dir c), set_mpi := False,
        set_accept := conf_accept c \<noteq> 0, set_local_libs := local_libs c \<noteq> 0, set_dsm_mode := uint (dsm_mode c)\<rparr>"
proof -
  note ok = assms [unfolded conf_ok_def]
  note d = byte_int32 [of "dsm_mode c"]
  have words: "good_word 31 (interface c)" "good_word 31 (group c)" "good_word 31 (print_int (port c))" "good_word 31 (print_u (conf_node_id c))"
      "good_word 31 (print_int (uint (dsm_mode c)))" "\<And>v. good_word 31 (flag_word v)"
    using ok numbers_good(1) [OF d] numbers_good(1) [of "port c"] numbers_good(2) [of "conf_node_id c"] good_word_mono [OF flags_good, of 31]
    by (auto intro: good_word_mono)
  have fits: "list_all line_fits (conf_fields c)"
    using ok words by (auto simp: conf_fields_def line_fits_def)
  have "load_fields (conf_fields c) default_config = Some c"
    using ok by (auto simp: load_fields_append conf_fields_def load_words load_numbers load_flags default_config_def simp del: append.simps)
  then have "load_config mac (Some (render_config c)) = Some c" using ok load_rendered [OF fits] unfolding render_config_def
    by (simp add: load_config_def)
  moreover have "take 255 (dfsa_dir c) = dfsa_dir c" using ok by (auto simp: good_word_def)
  ultimately show ?thesis using ok
    by (simp add: mattx_nl_cmd_set_config_def register_config_to_kernel_def register_local_ip_def mattx_nl_cmd_set_local_ip_def when_given_def)
qed

definition demo_config :: mattx_config where
  "demo_config = default_config\<lparr>interface := ''enp1s0'', conf_node_id := 7, migrate_net_io := 0, dfsa_dir := ''/mnt/shared'', dsm_mode := 2\<rparr>"

theorem configuration_roundtrip_witness:
  "load_config (\<lambda>_. Inr 0) (Some (render_config demo_config)) = Some demo_config \<and>
   set_network_io (mattx_nl_cmd_set_config (register_config_to_kernel demo_config) (register_local_ip 9 demo_config demo_settings)) = False \<and>
   set_dsm_mode (mattx_nl_cmd_set_config (register_config_to_kernel demo_config) (register_local_ip 9 demo_config demo_settings)) = 2"
proof -
  have ok: "conf_ok demo_config"
    by (simp add: conf_ok_def demo_config_def default_config_def good_word_def flag_ok_def)
  show ?thesis using configuration_roundtrip [OF ok, of "\<lambda>_. Inr 0" 9 demo_settings]
    by (simp add: demo_config_def default_config_def)
qed

text \<open>
  What goes wrong: no configuration switches MPI support on, and a long word for the interface, the group or a
  switch is written past its buffer.
\<close>

lemma load_line_mpi: "load_line l c = Some c' \<Longrightarrow> mpi_support c = 0 \<Longrightarrow> mpi_support c' = 0"
  unfolding load_line_def off_line_def on_match_def Let_def
  by (auto split: if_splits match.splits)

lemma mpi_never_enabled: "load_config mac text = Some c \<Longrightarrow> mpi_support c = 0"
proof -
  have lines: "load_lines ls c1 = Some c2 \<Longrightarrow> mpi_support c1 = 0 \<Longrightarrow> mpi_support c2 = 0" for ls c1 c2
    by (induction ls arbitrary: c1) (auto split: option.splits dest: load_line_mpi)
  show "load_config mac text = Some c \<Longrightarrow> mpi_support c = 0"
    using lines [of _ default_config] by (auto simp: load_config_def default_config_def split: option.splits if_splits)
qed

lemma long_words_overflow:
  assumes "good_word n w" "16 \<le> length w"
  shows "load_line (''INTERFACE='' @ w @ [NEWLINE]) c = None" "load_line (''MULTICAST_GROUP='' @ w @ [NEWLINE]) c = None"
  using assms(2) good_word_scan(1-3) [OF assms(1)] good_not_Nil(1) [OF assms(1)] by (simp_all add: load_simps)

text \<open>The sweep of a network of 256 addresses sends to each host but the own one, once.\<close>

lemma le32_un32:
  assumes "length bs = 4"
  shows "le32 (un32 bs) = bs"
proof -
  obtain a b c d where bs: "bs = [a, b, c, d]" using assms by (auto simp: numeral_eq_Suc length_Suc_conv)
  have "ucast (un32 [a, b, c, d]) = a" "ucast (drop_bit 8 (un32 [a, b, c, d])) = b"
    "ucast (drop_bit 16 (un32 [a, b, c, d])) = c" "ucast (drop_bit 24 (un32 [a, b, c, d])) = d"
    by (rule bit_word_eqI; auto simp: un32_def bit_simps dest: bit_imp_le_length; fail)+
  then show ?thesis by (simp add: bs le32_def)
qed

lemma htonl_htonl: "htonl (htonl x) = x"
proof -
  have "un32 (le32 w) = w" for w using un32_le32 [of w "[]"] by simp
  moreover have "rev (le32 (htonl x)) = le32 x" unfolding htonl_def by (simp add: le32_un32)
  ultimately show ?thesis by (simp add: htonl_def [of "htonl x"])
qed

lemma host_split:
  fixes x :: u32
  shows "(x AND NOT (mask 8)) OR (x AND mask 8) = x"
  by (rule bit_word_eqI) (auto simp: bit_simps)

lemma host_parts:
  fixes x i :: u32
  assumes "i AND mask 8 = i"
  shows "((x AND NOT (mask 8)) OR i) AND NOT (mask 8) = x AND NOT (mask 8)" "((x AND NOT (mask 8)) OR i) AND mask 8 = i"
proof -
  have i: "bit i n \<longleftrightarrow> bit i n \<and> n < 8" for n using arg_cong [OF assms, of "\<lambda>w. bit w n"] by (auto simp: bit_simps)
  show "((x AND NOT (mask 8)) OR i) AND NOT (mask 8) = x AND NOT (mask 8)" "((x AND NOT (mask 8)) OR i) AND mask 8 = i"
    by (rule bit_word_eqI; use i in \<open>auto simp: bit_simps\<close>)+
qed

lemma small_host: "i < 255 \<Longrightarrow> of_nat i AND mask 8 = (of_nat i :: u32)"
  by (simp add: take_bit_of_nat take_bit_nat_eq_self flip: take_bit_eq_mask)

lemma sweep_hosts:
  assumes "htonl nmask = NOT (mask 8)"
  shows "distinct (sweep_targets ip nmask)"
    "set (sweep_targets ip nmask) = {t. t \<noteq> ip \<and> htonl t AND NOT (mask 8) = htonl ip AND NOT (mask 8) \<and> unat (htonl t AND mask 8) \<in> {1..<255}}"
proof -
  let ?net = "htonl ip AND NOT (mask 8)"
  let ?t = "\<lambda>i. htonl (?net OR of_nat i)"
  have eq: "sweep_targets ip nmask = filter (\<lambda>t. t \<noteq> ip) (map ?t [1..<255])" by (simp add: sweep_targets_def assms Let_def)
  have u: "unat (of_nat i :: u32) = i" if "i < 255" for i using that by (simp add: unat_of_nat)
  have parts: "htonl (?t i) AND NOT (mask 8) = ?net" "unat (htonl (?t i) AND mask 8) = i" if "i < 255" for i
    using host_parts [OF small_host [OF that], of "htonl ip"] u [OF that] by (simp_all add: htonl_htonl)
  have "inj_on ?t {1..<255}" by (rule inj_onI) (metis parts(2) atLeastLessThan_iff)
  then show "distinct (sweep_targets ip nmask)" unfolding eq by (simp add: distinct_map)
  have whole: "?t (unat (htonl t AND mask 8)) = t" if "htonl t AND NOT (mask 8) = ?net" for t
    using host_split [of "htonl t"] that by (simp add: htonl_htonl)
  show "set (sweep_targets ip nmask) = {t. t \<noteq> ip \<and> htonl t AND NOT (mask 8) = ?net \<and> unat (htonl t AND mask 8) \<in> {1..<255}}" (is "?L = ?R")
  proof (intro set_eqI iffI)
    fix t assume "t \<in> ?L"
    then obtain i where "t = ?t i" "i \<in> {1..<255}" "t \<noteq> ip" unfolding eq by auto
    then show "t \<in> ?R" using parts [of i] by simp
  next
    fix t assume t: "t \<in> ?R"
    then have "t \<in> ?t ` {1..<255}" using whole [of t] by (intro image_eqI [of _ _ "unat (htonl t AND mask 8)"]) simp_all
    then show "t \<in> ?L" using t unfolding eq by auto
  qed
qed

end
