(* ===== verification/Mx_Migr.thy ===== *)
theory Mx_Migr
  imports Mx_Guest
begin

text \<open>
  The source side of a migration, \<^verbatim>\<open>mattx_migr.c\<close>: freezing a process, collecting its
  threads, building the blueprint, handing it over, and pumping its memory to the node that
  asked for it; and the way back: recall requests, expulsion of guests.

  A task structure is a number; \<open>kthread\<close> is what the code reads of it. Everything the kernel
  answers during one capture is in \<open>capture_env\<close>: the threads each scan sees, their
  registers, files, memory areas, the outcome of allocations and of the send. User addresses
  are naturals (they lie far below the wrap of a machine word). The effects list names
  references taken and dropped, freezes, signals, and messages that were handed over.
\<close>

section \<open>Data\<close>

record kthread =
  k_pid :: pid
  k_exiting :: bool
  k_exit_state :: bool
  k_stack :: bool
  k_regs :: "u64 list"
  k_fsbase :: u64
  k_gsbase :: u64
  k_clear_child_tid :: u64
  k_set_child_tid :: u64
  k_fpu :: "byte list option"

record mattx_thread_info =
  ti_tid :: u32
  ti_regs :: "u64 list"
  ti_fsbase :: u64
  ti_gsbase :: u64
  ti_clear_child_tid :: u64
  ti_set_child_tid :: u64
  ti_fpu_state :: "byte list"

record mattx_vma_info =
  vm_start :: nat
  vm_end :: nat
  vm_flags :: u64
  vi_shmid :: u32
  is_shm :: bool

record mattx_migration_req =
  rq_orig_pid :: u32
  rq_uid :: u32
  rq_gid :: u32
  rq_home_node :: u32
  rq_threads :: "mattx_thread_info list"
  rq_arg_start :: nat
  rq_arg_end :: nat
  rq_start_brk :: nat
  rq_brk :: nat
  rq_vdso_addr :: nat
  rq_monotonic_at_freeze :: u64
  rq_comm :: string
  rq_dfsa_dir :: string
  rq_open_fds :: "nat list"
  rq_mattxfs_enabled :: bool
  rq_vmas :: "mattx_vma_info list"

text \<open>A memory area as the kernel holds it: range, flags, name and inode of the file behind it.\<close>

record kvma =
  kv_start :: nat
  kv_end :: nat
  kv_flags :: u64
  kv_file :: "(string \<times> u64) option"

record mm =
  mm_arg_start :: nat
  mm_arg_end :: nat
  mm_start_brk :: nat
  mm_brk :: nat
  mm_vdso :: nat
  mm_vmas :: "kvma list"

datatype mig_msg =
  Migrate_req mattx_migration_req
| Return_blueprint mattx_migration_req
| Page_transfer nat "byte list"
| Migrate_done
| Return_done
| Ready_for_data
| Recall_req u32

datatype mig_effect =
  Freeze nat
| Get_task nat
| Put_task nat
| Sig signal nat
| To_node u32 mig_msg
| Oops

record migr =
  local_migration_req :: "mattx_migration_req option"
  migrating_task :: "nat option"
  migrating_target_node :: u32
  is_returning :: bool

record migr_cfg =
  mc_node :: u32
  mc_mattxfs :: bool
  mc_dfsa_dir :: string

record capture_env =
  ce_task :: nat
  ce_first :: kthread
  ce_visible :: "nat \<Rightarrow> nat list"
  ce_threads :: "nat \<Rightarrow> kthread"
  ce_cred :: "u32 \<times> u32"
  ce_comm :: string
  ce_files :: "bool list option"
  ce_mm :: "mm option"
  ce_now :: u64
  ce_mem :: "bool \<times> bool"
  ce_send :: int

section \<open>Freezing one task\<close>

text \<open>
  The bounded wait for the stopped state; \<open>stopped k\<close> is what the \<open>k\<close>-th poll sees. The result is
  what is left of the retries.
\<close>

fun stop_wait :: "(nat \<Rightarrow> bool) \<Rightarrow> nat \<Rightarrow> nat \<Rightarrow> nat" where
  "stop_wait stopped k 0 = 0"
| "stop_wait stopped k (Suc r) = (if stopped k then Suc r else stop_wait stopped (Suc k) r)"

text \<open>
  \<open>ret\<close> is the result of \<^verbatim>\<open>task_work_add\<close> (\<open>None\<close> when the symbol was not resolved). The two
  unbounded waits, for the remote call of the task and for the callback, have returned. The
  result lists the signals sent and says whether the task was seen stopped in time (the
  fall-back path does not look at its retries).
\<close>

definition mattx_freeze_task_safely ::
    "int option \<Rightarrow> bool \<Rightarrow> (nat \<Rightarrow> bool) \<Rightarrow> nat \<Rightarrow> mig_effect list \<times> bool" where
  "mattx_freeze_task_safely ret was_stopped stopped t =
     (if ret = Some 0 then
        ((if was_stopped then [Sig SIGCONT t] else []) @ [Sig SIGSTOP t], stop_wait stopped 0 500 \<noteq> 0)
      else ([Sig SIGSTOP t], stop_wait stopped 0 50 \<noteq> 0))"

definition mattx_task_capturable :: "kthread \<Rightarrow> bool" where
  "mattx_task_capturable k \<longleftrightarrow> \<not> k_exiting k \<and> \<not> k_exit_state k \<and> k_stack k"

section \<open>The gang\<close>

text \<open>One pass over the threads of the group.\<close>

fun gang_scan :: "nat list \<Rightarrow> nat list \<Rightarrow> nat list" where
  "gang_scan ts [] = ts"
| "gang_scan ts (t # vis) =
     gang_scan (if t \<notin> set ts \<and> length ts < MAX_GANG_THREADS then ts @ [t] else ts) vis"

text \<open>
  The stabilising loop: \<open>retries\<close> passes are left, \<open>quiet\<close> passes in a row found nothing new.
  New threads are referenced in the pass and frozen after it; the mother is frozen already.
\<close>

fun gang_loop :: "nat \<Rightarrow> (nat \<Rightarrow> nat list) \<Rightarrow> nat \<Rightarrow> nat \<Rightarrow> nat \<Rightarrow> nat list \<Rightarrow> nat list \<times> mig_effect list" where
  "gang_loop task vis k 0 quiet ts = (ts, [])"
| "gang_loop task vis k (Suc retries) quiet ts =
     (let ts' = gang_scan ts (vis k);
          fresh = drop (length ts) ts';
          effs = map Get_task fresh @ map Freeze (filter (\<lambda>t. t \<noteq> task) fresh);
          quiet' = (if length ts' = length ts then quiet + 1 else 0)
      in if quiet' < 5 \<and> 0 < retries
         then (case gang_loop task vis (Suc k) retries quiet' ts' of (r, e) \<Rightarrow> (r, effs @ e))
         else (ts', effs))"

definition thread_info_of :: "kthread \<Rightarrow> mattx_thread_info" where
  "thread_info_of k = \<lparr>ti_tid = k_pid k, ti_regs = k_regs k, ti_fsbase = k_fsbase k, ti_gsbase = k_gsbase k,
     ti_clear_child_tid = k_clear_child_tid k, ti_set_child_tid = k_set_child_tid k,
     ti_fpu_state = (case k_fpu k of None \<Rightarrow> [] | Some b \<Rightarrow> take 1024 b)\<rparr>"

definition zero_thread :: mattx_thread_info where
  "zero_thread = \<lparr>ti_tid = 0, ti_regs = replicate 21 0, ti_fsbase = 0, ti_gsbase = 0, ti_clear_child_tid = 0,
     ti_set_child_tid = 0, ti_fpu_state = []\<rparr>"

text \<open>The forward copy loop gives up on the whole gang at the first thread that has lost its stack.\<close>

fun pack_threads :: "(nat \<Rightarrow> kthread) \<Rightarrow> bool \<Rightarrow> nat list \<Rightarrow> mattx_thread_info list \<times> bool \<times> mig_effect list" where
  "pack_threads K gone [] = ([], gone, [])"
| "pack_threads K gone (t # ts) =
     (if gone \<or> \<not> mattx_task_capturable (K t)
      then (case pack_threads K True ts of (is, g, e) \<Rightarrow> (zero_thread # is, g, Put_task t # e))
      else (case pack_threads K gone ts of (is, g, e) \<Rightarrow> (thread_info_of (K t) # is, g, Put_task t # e)))"

text \<open>The copy loop of the return path does not look; a missing stack is a null access.\<close>

fun pack_return :: "(nat \<Rightarrow> kthread) \<Rightarrow> nat list \<Rightarrow> mattx_thread_info list option \<times> mig_effect list" where
  "pack_return K [] = (Some [], [])"
| "pack_return K (t # ts) =
     (if \<not> k_stack (K t) then (None, [Oops])
      else (case pack_return K ts of
         (None, e) \<Rightarrow> (None, Put_task t # e)
       | (Some is, e) \<Rightarrow> (Some (thread_info_of (K t) # is), Put_task t # e)))"

section \<open>The blueprint\<close>

fun fd_loop :: "bool list \<Rightarrow> nat \<Rightarrow> nat list \<Rightarrow> nat list" where
  "fd_loop [] i acc = acc"
| "fd_loop (b # bs) i acc =
     (if length acc < MAX_FDS then fd_loop bs (Suc i) (if b then acc @ [i] else acc) else acc)"

definition vma_info_of :: "kvma \<Rightarrow> mattx_vma_info" where
  "vma_info_of v =
     (case kv_file v of
        Some (name, ino) \<Rightarrow>
          if take 4 name = ''SYSV''
          then \<lparr>vm_start = kv_start v, vm_end = kv_end v, vm_flags = kv_flags v, vi_shmid = ucast ino, is_shm = True\<rparr>
          else \<lparr>vm_start = kv_start v, vm_end = kv_end v, vm_flags = kv_flags v, vi_shmid = 0, is_shm = False\<rparr>
      | None \<Rightarrow> \<lparr>vm_start = kv_start v, vm_end = kv_end v, vm_flags = kv_flags v, vi_shmid = 0, is_shm = False\<rparr>)"

fun vma_loop :: "kvma list \<Rightarrow> nat \<Rightarrow> mattx_vma_info list" where
  "vma_loop [] n = []"
| "vma_loop (v # vs) n = (if MAX_VMAS \<le> n then [] else vma_info_of v # vma_loop vs (Suc n))"

text \<open>The common part of the two captures. The buffer is zeroed, so absent parts are 0.\<close>

definition blueprint ::
    "migr_cfg \<Rightarrow> capture_env \<Rightarrow> u32 \<Rightarrow> u32 \<times> u32 \<Rightarrow> nat list \<Rightarrow> mattx_thread_info list \<Rightarrow> mattx_migration_req" where
  "blueprint cfg env op ids fds infos =
     \<lparr>rq_orig_pid = op, rq_uid = fst ids, rq_gid = snd ids, rq_home_node = mc_node cfg, rq_threads = infos,
      rq_arg_start = (case ce_mm env of None \<Rightarrow> 0 | Some m \<Rightarrow> mm_arg_start m),
      rq_arg_end = (case ce_mm env of None \<Rightarrow> 0 | Some m \<Rightarrow> mm_arg_end m),
      rq_start_brk = (case ce_mm env of None \<Rightarrow> 0 | Some m \<Rightarrow> mm_start_brk m),
      rq_brk = (case ce_mm env of None \<Rightarrow> 0 | Some m \<Rightarrow> mm_brk m),
      rq_vdso_addr = (case ce_mm env of None \<Rightarrow> 0 | Some m \<Rightarrow> mm_vdso m),
      rq_monotonic_at_freeze = ce_now env, rq_comm = ce_comm env, rq_dfsa_dir = take 255 (mc_dfsa_dir cfg),
      rq_open_fds = fds, rq_mattxfs_enabled = mc_mattxfs cfg,
      rq_vmas = (case ce_mm env of None \<Rightarrow> [] | Some m \<Rightarrow> vma_loop (mm_vmas m) 0)\<rparr>"

text \<open>\<^verbatim>\<open>sizeof(struct mattx_migration_req) + vma_count * sizeof(struct mattx_vma_info)\<close>.\<close>

definition payload_size :: "nat \<Rightarrow> nat" where
  "payload_size vmas = (5 * 4 + MAX_GANG_THREADS * (4 + 21 * 8 + 4 * 8 + 4 + 1024) + 5 * 8 + 8 + 16 + 256 + 4 +
     MAX_FDS * 4 + 4 + 1) + vmas * 32"

section \<open>The captures\<close>

text \<open>Remember the task and the blueprint for the data pump.\<close>

definition arm :: "capture_env \<Rightarrow> mattx_migration_req \<Rightarrow> u32 \<Rightarrow> migr \<Rightarrow> migr \<times> mig_effect list" where
  "arm env req target m =
     (m\<lparr>local_migration_req := (if snd (ce_mem env) then Some req else None), migrating_task := Some (ce_task env),
        migrating_target_node := target\<rparr>,
      (case migrating_task m of None \<Rightarrow> [] | Some t \<Rightarrow> [Put_task t]) @ [Get_task (ce_task env)])"

definition hand_over ::
    "(u32 \<Rightarrow> bool) \<Rightarrow> capture_env \<Rightarrow> mig_msg \<Rightarrow> u32 \<Rightarrow> nat list \<Rightarrow> bool \<times> mig_effect list" where
  "hand_over links env msg target ts =
     (if links target \<and> \<not> ce_send env < 0 then (True, [To_node target msg]) else (False, map (Sig SIGCONT) ts))"

definition mattx_capture_and_send_state ::
    "migr_cfg \<Rightarrow> (u32 \<Rightarrow> bool) \<Rightarrow> capture_env \<Rightarrow> u32 \<Rightarrow> migr \<Rightarrow> migr \<times> mig_effect list" where
  "mattx_capture_and_send_state cfg links env target m =
     (let m0 = m\<lparr>is_returning := False\<rparr>; task = ce_task env
      in if \<not> mattx_task_capturable (ce_first env) then (m0, [])
         else if \<not> fst (ce_mem env) then (m0, [])
         else
           (case gang_loop task (ce_visible env) 0 200 0 [] of (ts, e1) \<Rightarrow>
             (case pack_threads (ce_threads env) False ts of
                (infos, True, e2) \<Rightarrow> (m0, [Freeze task] @ e1 @ e2 @ [Sig SIGCONT task])
              | (infos, False, e2) \<Rightarrow>
                 (let fds = (case ce_files env of None \<Rightarrow> [] | Some fs \<Rightarrow> fd_loop fs 0 []);
                      req = blueprint cfg env (k_pid (ce_first env)) (ce_cred env) fds infos
                  in (case arm env req target m0 of (m1, e3) \<Rightarrow>
                       (m1, [Freeze task] @ e1 @ e2 @ e3 @ snd (hand_over links env (Migrate_req req) target ts)))))))"

definition set_migrating :: "pid \<Rightarrow> bool \<Rightarrow> guests \<Rightarrow> guests" where
  "set_migrating p b r =
     (case scan (\<lambda>i. local_pid (slots r i) = p) (cnt r) of
        None \<Rightarrow> r | Some i \<Rightarrow> upd_slot i (\<lambda>g. g\<lparr>is_migrating := b\<rparr>) r)"

definition mattx_capture_and_return_state ::
    "migr_cfg \<Rightarrow> (u32 \<Rightarrow> bool) \<Rightarrow> capture_env \<Rightarrow> u32 \<Rightarrow> u32 \<Rightarrow> migr \<Rightarrow> guests \<Rightarrow>
     migr \<times> guests \<times> mig_effect list" where
  "mattx_capture_and_return_state cfg links env op target m r =
     (let m0 = m\<lparr>is_returning := True\<rparr>; task = ce_task env; r0 = set_migrating (k_pid (ce_first env)) True r
      in if \<not> fst (ce_mem env) then (m0, r0, [])
         else
           (case gang_loop task (ce_visible env) 0 200 0 [] of (ts, e1) \<Rightarrow>
             (case pack_return (ce_threads env) ts of
                (None, e2) \<Rightarrow> (m0, r0, [Freeze task] @ e1 @ e2)
              | (Some infos, e2) \<Rightarrow>
                 (let req = blueprint cfg env op (0, 0) [] infos
                  in (case arm env req target m0 of (m1, e3) \<Rightarrow>
                     (case hand_over links env (Return_blueprint req) target ts of (ok, e4) \<Rightarrow>
                       (m1, if ok then r0 else set_migrating (k_pid (ce_first env)) False r0,
                        [Freeze task] @ e1 @ e2 @ e3 @ e4)))))))"

section \<open>The data pump\<close>

text \<open>
  The kernel's answers for the page at an address: whether the two buffers can be allocated,
  what \<^verbatim>\<open>access_process_vm\<close> reads there, and what the send returns.
\<close>

record pump_env =
  pe_page_mem :: "nat \<Rightarrow> bool"
  pe_buf_mem :: "nat \<Rightarrow> bool"
  pe_read :: "nat \<Rightarrow> nat \<Rightarrow> int \<times> byte list"
  pe_send :: "nat \<Rightarrow> int"

record pump_stats =
  total_pages :: nat
  sent_pages :: nat
  skipped_pages :: nat
  network_errors :: nat

text \<open>\<^verbatim>\<open>send_res < payload_size\<close>: the \<^verbatim>\<open>int\<close> is converted to \<^verbatim>\<open>size_t\<close> first.\<close>

definition int_lt_size :: "int \<Rightarrow> nat \<Rightarrow> bool" where
  "int_lt_size r n \<longleftrightarrow> r mod 2 ^ 64 < int n"

text \<open>One page: the counters, and the page that was handed over, if any.\<close>

definition pump_page :: "pump_env \<Rightarrow> nat \<Rightarrow> nat \<Rightarrow> pump_stats \<Rightarrow> pump_stats \<times> (nat \<times> byte list) list" where
  "pump_page env cur chunk s =
     (let s1 = s\<lparr>total_pages := total_pages s + 1\<rparr>
      in if \<not> pe_page_mem env cur then (s1, [])
         else (case pe_read env cur chunk of (n, d) \<Rightarrow>
           if \<not> 0 < n then (s1\<lparr>skipped_pages := skipped_pages s1 + 1\<rparr>, [])
           else if \<not> pe_buf_mem env cur then (s1, [])
           else
             ((if int_lt_size (pe_send env cur) (16 + nat n) then s1\<lparr>network_errors := network_errors s1 + 1\<rparr>
               else s1\<lparr>sent_pages := sent_pages s1 + 1\<rparr>),
              (if 0 \<le> pe_send env cur then [(cur, take (nat n) d)] else []))))"

definition chunk_at :: "nat \<Rightarrow> nat \<Rightarrow> nat" where
  "chunk_at cur en = (if en < cur + PAGE_SIZE then en - cur else PAGE_SIZE)"

function page_loop :: "pump_env \<Rightarrow> nat \<Rightarrow> nat \<Rightarrow> pump_stats \<Rightarrow> pump_stats \<times> (nat \<times> byte list) list" where
  "page_loop env cur en s =
     (if cur < en then
        (case pump_page env cur (chunk_at cur en) s of (s1, p1) \<Rightarrow>
          (case page_loop env (cur + chunk_at cur en) en s1 of (s2, p2) \<Rightarrow> (s2, p1 @ p2)))
      else (s, []))"
  by pat_completeness auto
termination
  by (relation "measure (\<lambda>(env, cur, en, s). en - cur)") (auto simp: chunk_at_def)

declare page_loop.simps [simp del]

text \<open>The two filters: inert areas on the way back, shared segments on the way out.\<close>

definition skip_vma :: "bool \<Rightarrow> mattx_vma_info \<Rightarrow> bool" where
  "skip_vma ret v \<longleftrightarrow> (ret \<and> vm_flags v AND 6 = 0) \<or> (\<not> ret \<and> is_shm v)"

fun vma_pump :: "pump_env \<Rightarrow> bool \<Rightarrow> mattx_vma_info list \<Rightarrow> pump_stats \<Rightarrow> pump_stats \<times> (nat \<times> byte list) list" where
  "vma_pump env ret [] s = (s, [])"
| "vma_pump env ret (v # vs) s =
     (if skip_vma ret v then vma_pump env ret vs s
      else (case page_loop env (vm_start v) (vm_end v) s of (s1, p1) \<Rightarrow>
        (case vma_pump env ret vs s1 of (s2, p2) \<Rightarrow> (s2, p1 @ p2))))"

definition zero_stats :: pump_stats where
  "zero_stats = \<lparr>total_pages = 0, sent_pages = 0, skipped_pages = 0, network_errors = 0\<rparr>"

text \<open>\<open>pid_of\<close>: the pid of the task structure. The counters are only printed; they are the last component.\<close>

definition mattx_send_vma_data ::
    "pump_env \<Rightarrow> (u32 \<Rightarrow> bool) \<Rightarrow> (nat \<Rightarrow> pid) \<Rightarrow> migr \<Rightarrow> exports \<Rightarrow> migr \<times> exports \<times> mig_effect list \<times> pump_stats" where
  "mattx_send_vma_data env links pid_of m r =
     (case (local_migration_req m, migrating_task m) of
        (Some req, Some task) \<Rightarrow>
          if migrating_target_node m = - 1 \<or> \<not> links (migrating_target_node m) then (m, r, [], zero_stats)
          else
            (case vma_pump env (is_returning m) (rq_vmas req) zero_stats of (s, ps) \<Rightarrow>
              (m\<lparr>migrating_task := None, local_migration_req := None\<rparr>,
               (if is_returning m then r else add_export_process (pid_of task) (migrating_target_node m) r),
               map (\<lambda>(a, d). To_node (migrating_target_node m) (Page_transfer a d)) ps @
               (if is_returning m then [To_node (migrating_target_node m) Return_done, Sig SIGKILL task]
                else [To_node (migrating_target_node m) Migrate_done]) @
               [Put_task task], s))
      | _ \<Rightarrow> (m, r, [], zero_stats))"

definition handle_ready_for_data ::
    "pump_env \<Rightarrow> (u32 \<Rightarrow> bool) \<Rightarrow> (nat \<Rightarrow> pid) \<Rightarrow> u32 \<Rightarrow> migr \<Rightarrow> exports \<Rightarrow> migr \<times> exports \<times> mig_effect list \<times> pump_stats" where
  "handle_ready_for_data env links pid_of sender m r = mattx_send_vma_data env links pid_of m r"

section \<open>Recall and expulsion\<close>

definition mattx_trigger_recall :: "(u32 \<Rightarrow> bool) \<Rightarrow> pid \<Rightarrow> exports \<Rightarrow> mig_effect list" where
  "mattx_trigger_recall links op r =
     (let t = get_export_target op r
      in if t = - 1 then [] else if \<not> links t then [] else [To_node t (Recall_req op)])"

text \<open>\<open>env p\<close>: the capture environment of the task with pid \<open>p\<close>, \<open>None\<close> if there is no such task.\<close>

definition handle_recall_req ::
    "migr_cfg \<Rightarrow> (u32 \<Rightarrow> bool) \<Rightarrow> (pid \<Rightarrow> capture_env option) \<Rightarrow> u32 \<Rightarrow> u32 option \<Rightarrow> migr \<Rightarrow> guests \<Rightarrow>
     migr \<times> guests \<times> mig_effect list" where
  "handle_recall_req cfg links env sender payload m r =
     (case payload of None \<Rightarrow> (m, r, [])
      | Some op \<Rightarrow>
        (case scan (\<lambda>i. orig_pid (slots r i) = op \<and> home_node (slots r i) = sender) (cnt r) of
           None \<Rightarrow> (m, r, [])
         | Some i \<Rightarrow>
            if local_pid (slots r i) = - 1 then (m, r, [])
            else
              (case env (local_pid (slots r i)) of None \<Rightarrow> (m, r, [])
               | Some e \<Rightarrow>
                  (case mattx_capture_and_return_state cfg links e op sender m r of
                     (m', r', effs) \<Rightarrow> (m', r', [Get_task (ce_task e)] @ effs @ [Put_task (ce_task e)])))))"

text \<open>
  The wait of an expulsion: \<open>seen k\<close> is the registry at the \<open>k\<close>-th poll and \<open>now k\<close> the tick counter
  read after it. \<open>None\<close>: still waiting after \<open>fuel\<close> polls.
\<close>

fun expel_wait :: "nat \<Rightarrow> (nat \<Rightarrow> guests) \<Rightarrow> (nat \<Rightarrow> u64) \<Rightarrow> u64 \<Rightarrow> pid \<Rightarrow> nat \<Rightarrow> int option" where
  "expel_wait 0 seen now expire p k = None"
| "expel_wait (Suc fuel) seen now expire p k =
     (if \<not> is_guest_process p (seen k) then Some 0
      else if sint (expire - now k) < 0 then Some (- ETIMEDOUT)
      else expel_wait fuel seen now expire p (Suc k))"

text \<open>Up to the wait: either a result, or the return pipeline has been started.\<close>

definition expel_start ::
    "migr_cfg \<Rightarrow> (u32 \<Rightarrow> bool) \<Rightarrow> (pid \<Rightarrow> capture_env option) \<Rightarrow> pid \<Rightarrow> migr \<Rightarrow> guests \<Rightarrow>
     int option \<times> migr \<times> guests \<times> mig_effect list" where
  "expel_start cfg links env p m r =
     (case scan (\<lambda>i. local_pid (slots r i) = p) (cnt r) of
        None \<Rightarrow> (Some (- ENOENT), m, r, [])
      | Some i \<Rightarrow>
         if \<not> links (home_node (slots r i)) then (Some (- ENOTCONN), m, r, [])
         else
           (case env p of None \<Rightarrow> (Some (- ESRCH), m, r, [])
            | Some e \<Rightarrow>
               (case mattx_capture_and_return_state cfg links e (orig_pid (slots r i)) (home_node (slots r i)) m r of
                  (m', r', effs) \<Rightarrow> (None, m', r', [Get_task (ce_task e)] @ effs @ [Put_task (ce_task e)]))))"

text \<open>\<open>t0\<close> is the tick counter when the wait begins, \<open>hz\<close> the timeout of 30 seconds in ticks.\<close>

definition mattx_expel_guest ::
    "migr_cfg \<Rightarrow> (u32 \<Rightarrow> bool) \<Rightarrow> (pid \<Rightarrow> capture_env option) \<Rightarrow> nat \<Rightarrow> (nat \<Rightarrow> guests) \<Rightarrow> (nat \<Rightarrow> u64) \<Rightarrow> u64 \<Rightarrow> u64 \<Rightarrow>
     pid \<Rightarrow> migr \<Rightarrow> guests \<Rightarrow> int option \<times> migr \<times> guests \<times> mig_effect list" where
  "mattx_expel_guest cfg links env fuel seen now t0 hz p m r =
     (case expel_start cfg links env p m r of
        (Some e, m', r', effs) \<Rightarrow> (Some e, m', r', effs)
      | (None, m', r', effs) \<Rightarrow> (expel_wait fuel seen now (t0 + hz) p 0, m', r', effs))"

section \<open>The gang is complete and frozen\<close>

lemma gang_scan_props:
  "\<exists>xs. gang_scan ts vis = ts @ xs" "distinct ts \<Longrightarrow> distinct (gang_scan ts vis)"
  "length ts \<le> MAX_GANG_THREADS \<Longrightarrow> length (gang_scan ts vis) \<le> MAX_GANG_THREADS"
  "set (gang_scan ts vis) \<subseteq> set ts \<union> set vis"
  by (induction ts vis rule: gang_scan.induct) (fastforce split: if_splits)+

lemma gang_scan_length: "length ts \<le> length (gang_scan ts vis)"
  using gang_scan_props(1) [of ts vis] by auto

lemma gang_scan_all: "length (gang_scan ts vis) < MAX_GANG_THREADS \<Longrightarrow> set (gang_scan ts vis) = set ts \<union> set vis"
proof (induction ts vis rule: gang_scan.induct)
  case (2 ts t vis)
  let ?ts = "if t \<notin> set ts \<and> length ts < MAX_GANG_THREADS then ts @ [t] else ts"
  have "length ts < MAX_GANG_THREADS" using 2(2) gang_scan_length [of ?ts vis] by (auto split: if_splits)
  then show ?case using 2 by auto
qed simp

lemma gang_scan_same: "length (gang_scan ts vis) = length ts \<Longrightarrow> gang_scan ts vis = ts"
  using gang_scan_props(1) [of ts vis] by auto

definition gang_after :: "(nat \<Rightarrow> nat list) \<Rightarrow> nat \<Rightarrow> nat list" where
  "gang_after vis n = foldl gang_scan [] (map vis [0..<n])"

lemma gang_after_Suc: "gang_after vis (Suc n) = gang_scan (gang_after vis n) (vis n)"
  by (simp add: gang_after_def)

lemma gang_after_0 [simp]: "gang_after vis 0 = []"
  by (simp add: gang_after_def)

lemma gang_after_ok: "distinct (gang_after vis n) \<and> length (gang_after vis n) \<le> MAX_GANG_THREADS"
  using gang_scan_props(2,3) by (induction n) (simp_all add: gang_after_Suc)

lemma gang_after_all: "length (gang_after vis n) < MAX_GANG_THREADS \<Longrightarrow> set (gang_after vis n) = (\<Union>k<n. set (vis k))"
proof (induction n)
  case (Suc n)
  have "length (gang_after vis n) < MAX_GANG_THREADS"
    using Suc.prems gang_scan_length [of "gang_after vis n" "vis n"] by (simp add: gang_after_Suc)
  then show ?case using Suc gang_scan_all [of "gang_after vis n" "vis n"] by (simp add: gang_after_Suc lessThan_Suc Un_commute)
qed simp

text \<open>What a list of effects does, kind by kind.\<close>

definition gets :: "mig_effect list \<Rightarrow> nat list" where
  "gets es = List.map_filter (\<lambda>e. case e of Get_task t \<Rightarrow> Some t | _ \<Rightarrow> None) es"

definition puts :: "mig_effect list \<Rightarrow> nat list" where
  "puts es = List.map_filter (\<lambda>e. case e of Put_task t \<Rightarrow> Some t | _ \<Rightarrow> None) es"

definition freezes :: "mig_effect list \<Rightarrow> nat list" where
  "freezes es = List.map_filter (\<lambda>e. case e of Freeze t \<Rightarrow> Some t | _ \<Rightarrow> None) es"

definition conts :: "mig_effect list \<Rightarrow> nat list" where
  "conts es = List.map_filter (\<lambda>e. case e of Sig SIGCONT t \<Rightarrow> Some t | _ \<Rightarrow> None) es"

definition sent :: "mig_effect list \<Rightarrow> (u32 \<times> mig_msg) list" where
  "sent es = List.map_filter (\<lambda>e. case e of To_node n x \<Rightarrow> Some (n, x) | _ \<Rightarrow> None) es"

lemmas eff_defs = gets_def puts_def freezes_def conts_def sent_def

lemma eff_append [simp]:
  "gets (a @ b) = gets a @ gets b" "puts (a @ b) = puts a @ puts b" "freezes (a @ b) = freezes a @ freezes b"
  "conts (a @ b) = conts a @ conts b" "sent (a @ b) = sent a @ sent b"
  by (simp_all add: eff_defs map_filter_append)

lemma eff_nil [simp]: "gets [] = []" "puts [] = []" "freezes [] = []" "conts [] = []" "sent [] = []"
  by (simp_all add: eff_defs map_filter_simps)

lemma eff_cons [simp]:
  "gets (e # es) = (case e of Get_task t \<Rightarrow> t # gets es | _ \<Rightarrow> gets es)"
  "puts (e # es) = (case e of Put_task t \<Rightarrow> t # puts es | _ \<Rightarrow> puts es)"
  "freezes (e # es) = (case e of Freeze t \<Rightarrow> t # freezes es | _ \<Rightarrow> freezes es)"
  "conts (e # es) = (case e of Sig SIGCONT t \<Rightarrow> t # conts es | _ \<Rightarrow> conts es)"
  "sent (e # es) = (case e of To_node n x \<Rightarrow> (n, x) # sent es | _ \<Rightarrow> sent es)"
  by (simp_all add: eff_defs map_filter_simps split: mig_effect.split signal.split)

lemma eff_map [simp]:
  "gets (map Get_task ts) = ts" "puts (map Get_task ts) = []" "freezes (map Get_task ts) = []" "conts (map Get_task ts) = []"
  "sent (map Get_task ts) = []" "gets (map Freeze ts) = []" "puts (map Freeze ts) = []" "freezes (map Freeze ts) = ts"
  "conts (map Freeze ts) = []" "sent (map Freeze ts) = []" "gets (map (Sig s) ts) = []" "puts (map (Sig s) ts) = []"
  "freezes (map (Sig s) ts) = []" "sent (map (Sig s) ts) = []" "conts (map (Sig SIGCONT) ts) = ts"
  by (induction ts) simp_all

lemma gang_loop_spec:
  assumes "gang_loop task vis k retries q ts = (ts', effs)" "0 < retries" "q < 5" "q \<le> k"
    and "ts = gang_after vis k" "gang_after vis (k - q) = ts"
  shows "\<exists>n. k < n \<and> n \<le> k + retries \<and> ts' = gang_after vis n \<and> (n < k + retries \<longrightarrow> 5 \<le> n \<and> gang_after vis (n - 5) = ts') \<and>
    gets effs = drop (length ts) ts' \<and> freezes effs = filter (\<lambda>t. t \<noteq> task) (drop (length ts) ts') \<and>
    puts effs = [] \<and> conts effs = [] \<and> sent effs = []"
  using assms
proof (induction retries arbitrary: k q ts ts' effs)
  case (Suc retries)
  define t1 where "t1 = gang_scan ts (vis k)"
  define fr where "fr = drop (length ts) t1"
  define e1 where "e1 = map Get_task fr @ map Freeze (filter (\<lambda>t. t \<noteq> task) fr)"
  define q1 where "q1 = (if length t1 = length ts then q + 1 else 0)"
  have t1: "t1 = gang_after vis (Suc k)" using Suc.prems(5) by (simp add: t1_def gang_after_Suc)
  have q1: "q1 \<le> Suc k" "gang_after vis (Suc k - q1) = t1"
    using Suc.prems(4-6) t1 gang_scan_same [of ts "vis k"] by (auto simp: q1_def t1_def)
  have le: "length ts \<le> length t1" unfolding t1_def by (rule gang_scan_length)
  have def_eq: "gang_loop task vis k (Suc retries) q ts =
      (if q1 < 5 \<and> 0 < retries then (case gang_loop task vis (Suc k) retries q1 t1 of (r, e) \<Rightarrow> (r, e1 @ e)) else (t1, e1))"
    by (simp add: Let_def t1_def fr_def e1_def q1_def)
  show ?case
  proof (cases "q1 < 5 \<and> 0 < retries")
    case True
    obtain r e where g: "gang_loop task vis (Suc k) retries q1 t1 = (r, e)" by fastforce
    with Suc.prems(1) True def_eq have r: "ts' = r" "effs = e1 @ e" by auto
    obtain n where n: "Suc k < n" "n \<le> Suc k + retries" "r = gang_after vis n"
        "n < Suc k + retries \<longrightarrow> 5 \<le> n \<and> gang_after vis (n - 5) = r"
        "gets e = drop (length t1) r" "freezes e = filter (\<lambda>t. t \<noteq> task) (drop (length t1) r)"
        "puts e = []" "conts e = []" "sent e = []"
      using Suc.IH [OF g _ _ q1(1) t1 q1(2)] True by auto
    have "\<exists>xs. gang_after vis n = gang_after vis (Suc k) @ xs" if "Suc k \<le> n" for n using that
    proof (induction rule: dec_induct)
      case (step n)
      then show ?case using gang_scan_props(1) [of "gang_after vis n" "vis n"] by (auto simp: gang_after_Suc)
    qed simp
    then obtain xs where "r = t1 @ xs" using n(1,3) t1 by (metis less_imp_le)
    then have "drop (length ts) r = fr @ drop (length t1) r" using le by (simp add: fr_def)
    then show ?thesis using n r by (intro exI [of _ n]) (simp add: e1_def)
  next
    case False
    with Suc.prems(1) def_eq have r: "ts' = t1" "effs = e1" by auto
    have "5 \<le> Suc k \<and> gang_after vis (Suc k - 5) = t1" if "0 < retries"
    proof -
      have "q1 = 5" using that False Suc.prems(3) by (auto simp: q1_def split: if_splits)
      then show ?thesis using q1 by simp
    qed
    then show ?thesis using r t1 by (intro exI [of _ "Suc k"]) (auto simp: e1_def fr_def)
  qed
qed simp

text \<open>
  C27. The gang is collected completely. Whatever threads each pass over the group sees, the
  loop ends after at most 200 passes with distinct threads, at most 16; if fewer, they are all
  the threads any pass has seen. Unless the passes ran out, the last five found nothing new.
  Every collected thread but the mother is frozen exactly once.
\<close>

theorem gang_capture_complete:
  "\<exists>n ts effs. gang_loop task vis 0 200 0 [] = (ts, effs) \<and> 0 < n \<and> n \<le> 200 \<and>
    distinct ts \<and> length ts \<le> MAX_GANG_THREADS \<and>
    (length ts < MAX_GANG_THREADS \<longrightarrow> set ts = (\<Union>k<n. set (vis k))) \<and>
    (n < 200 \<longrightarrow> 5 \<le> n \<and> gang_after vis (n - 5) = ts) \<and>
    freezes effs = filter (\<lambda>t. t \<noteq> task) ts"
proof -
  obtain ts effs where g: "gang_loop task vis 0 200 0 [] = (ts, effs)" by fastforce
  obtain n where "0 < n" "n \<le> 200" "ts = gang_after vis n" "n < 200 \<longrightarrow> 5 \<le> n \<and> gang_after vis (n - 5) = ts"
      "freezes effs = filter (\<lambda>t. t \<noteq> task) ts"
    using gang_loop_spec [OF g] by auto
  then show ?thesis using g gang_after_ok [of vis n] gang_after_all [of vis n] by blast
qed

theorem gang_capture_complete_witness:
  "\<exists>ts effs. gang_loop 7 (\<lambda>k. if k < 2 then [7, 8] else [7, 8, 9]) 0 200 0 [] = (ts, effs) \<and>
     ts = [7, 8, 9] \<and> freezes effs = [8, 9]"
proof -
  let ?v = "\<lambda>k. if k < (2::nat) then [7, 8] else [7, 8, 9::nat]"
  obtain n ts effs where g: "gang_loop 7 ?v 0 200 0 [] = (ts, effs)" "freezes effs = filter (\<lambda>t. t \<noteq> 7) ts"
    using gang_capture_complete [of 7 ?v] by blast
  moreover have "fst (gang_loop 7 ?v 0 200 0 []) = [7, 8, 9]" by (simp add: eval_nat_numeral Let_def)
  ultimately show ?thesis by simp
qed

section \<open>A capture hands over or lets go\<close>

lemma pack_threads_eff: "snd (snd (pack_threads K g ts)) = map Put_task ts"
  by (induction ts arbitrary: g) (auto split: prod.splits simp: prod_eq_iff)

lemma pack_threads_gone: "fst (snd (pack_threads K g ts)) \<longleftrightarrow> g \<or> (\<exists>t\<in>set ts. \<not> mattx_task_capturable (K t))"
  by (induction ts arbitrary: g) (auto split: prod.splits simp: prod_eq_iff)

lemma pack_threads_ok:
  "\<forall>t\<in>set ts. mattx_task_capturable (K t) \<Longrightarrow> pack_threads K False ts = (map (\<lambda>t. thread_info_of (K t)) ts, False, map Put_task ts)"
  by (induction ts) auto

lemma pack_return_ok:
  "\<forall>t\<in>set ts. k_stack (K t) \<Longrightarrow> pack_return K ts = (Some (map (\<lambda>t. thread_info_of (K t)) ts), map Put_task ts)"
  by (induction ts) auto

lemma eff_map_put [simp]:
  "gets (map Put_task ts) = []" "puts (map Put_task ts) = ts" "freezes (map Put_task ts) = []" "conts (map Put_task ts) = []"
  "sent (map Put_task ts) = []"
  by (induction ts) simp_all

lemma gang_has_mother:
  assumes "gang_loop task vis 0 200 0 [] = (ts, effs)" "\<exists>vs. vis 0 = task # vs"
  shows "task \<in> set ts" "gets effs = ts" "freezes effs = filter (\<lambda>t. t \<noteq> task) ts"
    "puts effs = []" "conts effs = []" "sent effs = []"
proof -
  have 1: "task \<in> set (gang_after vis (Suc n))" for n
  proof (induction n)
    case 0
    obtain vs where "vis 0 = task # vs" using assms(2) by blast
    then show ?case using gang_scan_props(1) [of "[task]" vs] by (auto simp: gang_after_Suc)
  next
    case (Suc n)
    then show ?case using gang_scan_props(1) [of "gang_after vis (Suc n)" "vis (Suc n)"] by (auto simp: gang_after_Suc [of vis "Suc n"])
  qed
  obtain n where "0 < n" "ts = gang_after vis n" "gets effs = ts" "freezes effs = filter (\<lambda>t. t \<noteq> task) ts"
      "puts effs = []" "conts effs = []" "sent effs = []"
    using gang_loop_spec [OF assms(1)] by auto
  then show "task \<in> set ts" "gets effs = ts" "freezes effs = filter (\<lambda>t. t \<noteq> task) ts"
      "puts effs = []" "conts effs = []" "sent effs = []"
    using 1 by (cases n; simp)+
qed

definition held :: "migr \<Rightarrow> nat multiset" where
  "held m = (case migrating_task m of None \<Rightarrow> {#} | Some t \<Rightarrow> {#t#})"

lemma arm_eff:
  assumes "arm env req target m = (m', e)"
  shows "mset (gets e) + held m = mset (puts e) + held m'" "freezes e = []" "conts e = []" "sent e = []"
  using assms by (auto simp: arm_def held_def split: option.splits)


definition demo_kthread :: "nat \<Rightarrow> kthread" where
  "demo_kthread t = \<lparr>k_pid = of_nat t, k_exiting = False, k_exit_state = False, k_stack = True,
     k_regs = replicate 21 (of_nat t), k_fsbase = 1, k_gsbase = 2, k_clear_child_tid = 0, k_set_child_tid = 0, k_fpu = Some [1, 2]\<rparr>"

definition demo_vma :: "nat \<Rightarrow> nat \<Rightarrow> u64 \<Rightarrow> kvma" where
  "demo_vma a b fl = \<lparr>kv_start = a, kv_end = b, kv_flags = fl, kv_file = None\<rparr>"

definition demo_env :: capture_env where
  "demo_env = \<lparr>ce_task = 7, ce_first = demo_kthread 7, ce_visible = (\<lambda>_. [7, 8]), ce_threads = demo_kthread, ce_cred = (1000, 1000),
     ce_comm = ''sim'', ce_files = Some [True, True, False, True],
     ce_mm = Some \<lparr>mm_arg_start = 0, mm_arg_end = 0, mm_start_brk = 0, mm_brk = 0, mm_vdso = 0,
       mm_vmas = [demo_vma 4096 12290 3, demo_vma 16384 20480 1]\<rparr>,
     ce_now = 5000, ce_mem = (True, True), ce_send = 100\<rparr>"

definition demo_migr_cfg :: migr_cfg where
  "demo_migr_cfg = \<lparr>mc_node = 1, mc_mattxfs = False, mc_dfsa_dir = []\<rparr>"

definition idle_migr :: migr where
  "idle_migr = \<lparr>local_migration_req = None, migrating_task = None, migrating_target_node = - 1, is_returning = False\<rparr>"

lemma demo_gang: "fst (gang_loop 7 (\<lambda>_. [7, 8]) 0 200 0 []) = [7, 8]"
  by (simp add: eval_nat_numeral Let_def)

lemma demo_capturable: "mattx_task_capturable (demo_kthread t)"
  by (simp add: mattx_task_capturable_def demo_kthread_def)


lemma set_migrating_scan: "scan (\<lambda>i. local_pid (slots (set_migrating p b r) i) = q) (cnt (set_migrating p b r)) =
    scan (\<lambda>i. local_pid (slots r i) = q) (cnt r)"
proof (cases "scan (\<lambda>i. local_pid (slots r i) = p) (cnt r)")
  case (Some i)
  have "cnt (set_migrating p b r) = cnt r" by (simp add: set_migrating_def Some)
  moreover have "local_pid (slots (set_migrating p b r) j) = local_pid (slots r j)" for j
    by (simp add: set_migrating_def Some)
  ultimately show ?thesis by (simp only:)
qed (simp add: set_migrating_def)

text \<open>
  A return capture with its buffer and all its threads' stacks hands the guest over or
  lets it go: delivered exactly when the link is there and the send succeeds, and then the
  registry marks the guest as migrating; otherwise all its threads are woken and the mark is
  gone. Without the buffer nothing is frozen or sent, but the mark stays, unlike the forward
  path; and a thread that has lost its stack is a null access.
\<close>

theorem return_capture_outcome:
  assumes "mattx_capture_and_return_state cfg links env op target m r = (m', r', effs)"
    and "scan (\<lambda>i. local_pid (slots r i) = k_pid (ce_first env)) (cnt r) = Some i"
    and "\<exists>vs. ce_visible env 0 = ce_task env # vs"
    and "ts = fst (gang_loop (ce_task env) (ce_visible env) 0 200 0 [])"
  shows "if \<not> fst (ce_mem env) then effs = [] \<and> is_migrating (slots r' i)
    else if \<exists>t\<in>set ts. \<not> k_stack (ce_threads env t) then Oops \<in> set effs
    else if links target \<and> 0 \<le> ce_send env
      then (\<exists>req. sent effs = [(target, Return_blueprint req)] \<and> rq_threads req = map (\<lambda>t. thread_info_of (ce_threads env t)) ts) \<and>
        conts effs = [] \<and> set (freezes effs) = set ts \<and> is_migrating (slots r' i)
      else sent effs = [] \<and> conts effs = ts \<and> \<not> is_migrating (slots r' i)"
proof -
  let ?p = "k_pid (ce_first env)" and ?K = "ce_threads env"
  have sm: "is_migrating (slots (set_migrating ?p b r) i) = b" for b by (simp add: set_migrating_def assms(2))
  have sm2: "is_migrating (slots (set_migrating ?p False (set_migrating ?p True r)) i) = False"
    using set_migrating_scan [of ?p True r ?p] assms(2) by (simp add: set_migrating_def [of ?p False])
  obtain e1 where g: "gang_loop (ce_task env) (ce_visible env) 0 200 0 [] = (ts, e1)" using assms(4) by (metis prod.collapse)
  note gm = gang_has_mother [OF g assms(3)]
  show ?thesis
  proof (cases "fst (ce_mem env)")
    case False
    then have "mattx_capture_and_return_state cfg links env op target m r = (m\<lparr>is_returning := True\<rparr>, set_migrating ?p True r, [])"
      by (simp add: mattx_capture_and_return_state_def Let_def)
    then show ?thesis using assms(1) False sm by auto
  next
    case True
    show ?thesis
    proof (cases "\<forall>t\<in>set ts. k_stack (?K t)")
      case ok: True
      define req where "req = blueprint cfg env op (0, 0) [] (map (\<lambda>t. thread_info_of (?K t)) ts)"
      obtain m1 e3 where a: "arm env req target (m\<lparr>is_returning := True\<rparr>) = (m1, e3)" by fastforce
      obtain d e4 where h: "hand_over links env (Return_blueprint req) target ts = (d, e4)" by fastforce
      have eq: "r' = (if d then set_migrating ?p True r else set_migrating ?p False (set_migrating ?p True r))"
          "effs = [Freeze (ce_task env)] @ e1 @ map Put_task ts @ e3 @ e4"
        using assms(1) True g a h pack_return_ok [OF ok]
        by (simp_all add: mattx_capture_and_return_state_def Let_def req_def split: if_splits)
      have "rq_threads req = map (\<lambda>t. thread_info_of (?K t)) ts" by (simp add: req_def blueprint_def)
      then show ?thesis using True ok gm arm_eff [OF a] h sm sm2 unfolding eq
        by (auto simp: hand_over_def split: if_splits)
    next
      case bad: False
      have "\<exists>e. pack_return K us = (None, e) \<and> Oops \<in> set e" if "\<exists>t\<in>set us. \<not> k_stack (K t)" for K us
        using that by (induction us) fastforce+
      with bad obtain e2 where "pack_return ?K ts = (None, e2)" "Oops \<in> set e2" by blast
      then show ?thesis using assms(1) True g bad by (auto simp: mattx_capture_and_return_state_def Let_def)
    qed
  qed
qed

definition demo_registry :: guests where
  "demo_registry = \<lparr>slots = (\<lambda>_. fresh_guest 7 70 2 (undefined\<lparr>thread_count := 0\<rparr>)), cnt = 1\<rparr>"

lemma demo_registry_scan: "scan (\<lambda>i. local_pid (slots demo_registry i) = 7) (cnt demo_registry) = Some 0"
  by (rule scan_unique) (simp_all add: demo_registry_def fresh_guest_def)

theorem return_capture_outcome_witness:
  "\<exists>m' r' effs. mattx_capture_and_return_state demo_migr_cfg (\<lambda>n. n = 3) demo_env 70 4 idle_migr demo_registry = (m', r', effs) \<and>
     conts effs = [7, 8] \<and> \<not> is_migrating (slots r' 0)"
proof -
  obtain m' r' effs where c: "mattx_capture_and_return_state demo_migr_cfg (\<lambda>n. n = 3) demo_env 70 4 idle_migr demo_registry = (m', r', effs)"
    using prod_cases3 by blast
  have p: "scan (\<lambda>i. local_pid (slots demo_registry i) = k_pid (ce_first demo_env)) (cnt demo_registry) = Some 0"
    using demo_registry_scan by (simp add: demo_env_def demo_kthread_def)
  have v: "\<exists>vs. ce_visible demo_env 0 = ce_task demo_env # vs" by (simp add: demo_env_def)
  have t: "[7, 8] = fst (gang_loop (ce_task demo_env) (ce_visible demo_env) 0 200 0 [])"
    using demo_gang by (simp add: demo_env_def)
  have "fst (ce_mem demo_env)" "\<forall>t\<in>set [7, 8]. k_stack (ce_threads demo_env t)"
    by (simp_all add: demo_env_def demo_kthread_def)
  with return_capture_outcome [OF c p v t] have "conts effs = [7, 8] \<and> \<not> is_migrating (slots r' 0)" by simp
  then show ?thesis using c by blast
qed

section \<open>The blueprint is well formed\<close>

lemma fd_loop_length: "length acc \<le> MAX_FDS \<Longrightarrow> length (fd_loop bs i acc) \<le> MAX_FDS"
  by (induction bs i acc rule: fd_loop.induct) auto

lemma vma_loop_take: "vma_loop vs n = map vma_info_of (take (MAX_VMAS - n) vs)"
proof (induction vs n rule: vma_loop.induct)
  case (2 v vs n)
  then show ?case by (cases "MAX_VMAS \<le> n") (simp_all add: Suc_diff_Suc [symmetric])
qed simp

definition blueprint_ok :: "mattx_migration_req \<Rightarrow> bool" where
  "blueprint_ok req \<longleftrightarrow> length (rq_threads req) \<le> MAX_GANG_THREADS \<and> length (rq_open_fds req) \<le> MAX_FDS \<and>
     length (rq_vmas req) \<le> MAX_VMAS \<and> length (rq_dfsa_dir req) < 256 \<and>
     (\<forall>t\<in>set (rq_threads req). length (ti_fpu_state t) \<le> 1024)"

lemma thread_info_fpu: "length (ti_fpu_state (thread_info_of k)) \<le> 1024"
  by (simp add: thread_info_of_def split: option.split)

lemma capture_sent:
  assumes "(n, x) \<in> set (sent (snd (mattx_capture_and_send_state cfg links env target m)))"
  obtains ts fds req where "ts = fst (gang_loop (ce_task env) (ce_visible env) 0 200 0 [])" "length ts \<le> MAX_GANG_THREADS" "length fds \<le> MAX_FDS" "n = target" "x = Migrate_req req"
    "req = blueprint cfg env (k_pid (ce_first env)) (ce_cred env) fds (map (\<lambda>t. thread_info_of (ce_threads env t)) ts)"
    "fst (mattx_capture_and_send_state cfg links env target m) = fst (arm env req target (m\<lparr>is_returning := False\<rparr>))"
proof -
  obtain ts e1 where g: "gang_loop (ce_task env) (ce_visible env) 0 200 0 [] = (ts, e1)" by fastforce
  obtain k where "ts = gang_after (ce_visible env) k" and e1: "sent e1 = []" using gang_loop_spec [OF g] by auto
  then have ts: "length ts \<le> MAX_GANG_THREADS" using gang_after_ok by blast
  obtain infos gone e2 where p: "pack_threads (ce_threads env) False ts = (infos, gone, e2)" using prod_cases3 by blast
  have e2: "e2 = map Put_task ts" using pack_threads_eff [of "ce_threads env" False ts] p by simp
  define fds where "fds = (case ce_files env of None \<Rightarrow> [] | Some fs \<Rightarrow> fd_loop fs 0 [])"
  define bp where "bp = blueprint cfg env (k_pid (ce_first env)) (ce_cred env) fds infos"
  obtain m1 e3 where a: "arm env bp target (m\<lparr>is_returning := False\<rparr>) = (m1, e3)" by fastforce
  have "\<not> gone \<and> n = target \<and> x = Migrate_req bp \<and> fst (mattx_capture_and_send_state cfg links env target m) = m1"
    using assms g p a e1 e2 arm_eff(4) [OF a]
    by (cases gone) (auto simp: mattx_capture_and_send_state_def Let_def bp_def fds_def hand_over_def split: if_splits)
  moreover have "infos = map (\<lambda>t. thread_info_of (ce_threads env t)) ts" if "\<not> gone"
    using that pack_threads_gone [of "ce_threads env" False ts] p pack_threads_ok [of ts "ce_threads env"] by auto
  moreover have "length fds \<le> MAX_FDS" using fd_loop_length [of "[]"] by (simp add: fds_def split: option.split)
  ultimately show ?thesis using that [of ts, OF _ ts, of fds bp] a g by (simp add: bp_def)
qed

lemma return_sent:
  assumes "(n, x) \<in> set (sent (snd (snd (mattx_capture_and_return_state cfg links env op target m r))))"
  obtains ts req where "ts = fst (gang_loop (ce_task env) (ce_visible env) 0 200 0 [])" "n = target" "x = Return_blueprint req"
    "req = blueprint cfg env op (0, 0) [] (map (\<lambda>t. thread_info_of (ce_threads env t)) ts)"
    "fst (mattx_capture_and_return_state cfg links env op target m r) = fst (arm env req target (m\<lparr>is_returning := True\<rparr>))"
proof -
  obtain ts e1 where g: "gang_loop (ce_task env) (ce_visible env) 0 200 0 [] = (ts, e1)" by fastforce
  have e1: "sent e1 = []" using gang_loop_spec [OF g] by auto
  have mem: "fst (ce_mem env)" using assms by (auto simp: mattx_capture_and_return_state_def Let_def split: if_splits)
  have bad: "\<exists>e. pack_return K us = (None, e) \<and> sent e = []" if "\<exists>t\<in>set us. \<not> k_stack (K t)" for K us
    using that by (induction us) fastforce+
  have ok: "\<forall>t\<in>set ts. k_stack (ce_threads env t)"
  proof (rule ccontr)
    assume "\<not> ?thesis"
    then have "\<exists>t\<in>set ts. \<not> k_stack (ce_threads env t)" by blast
    from bad [OF this] obtain e where "pack_return (ce_threads env) ts = (None, e)" "sent e = []" by blast
    then show False using assms mem g e1 by (simp add: mattx_capture_and_return_state_def Let_def)
  qed
  define req where "req = blueprint cfg env op (0, 0) [] (map (\<lambda>t. thread_info_of (ce_threads env t)) ts)"
  obtain m1 e3 where a: "arm env req target (m\<lparr>is_returning := True\<rparr>) = (m1, e3)" by fastforce
  have "n = target \<and> x = Return_blueprint req \<and> fst (mattx_capture_and_return_state cfg links env op target m r) = m1"
    using assms mem g a e1 pack_return_ok [OF ok] arm_eff(4) [OF a]
    by (auto simp: mattx_capture_and_return_state_def Let_def req_def hand_over_def split: if_splits)
  then show ?thesis using that [of ts req] a g by (simp add: req_def)
qed

text \<open>
  Every blueprint that leaves a node is well formed: at most 16 threads with register
  images of at most 1024 bytes, 256 descriptors, 1024 areas, a terminated path. Therefore it
  fits a netlink attribute (16-bit length, 4 bytes of header), which is how the stub gets it,
  and the payload limit of the wire protocol.
\<close>

theorem blueprint_fits:
  assumes "(n, Migrate_req req) \<in> set (sent (snd (mattx_capture_and_send_state cfg links env target m)))"
  shows "blueprint_ok req \<and> payload_size (length (rq_vmas req)) + 4 < 2 ^ 16 \<and> payload_size (length (rq_vmas req)) \<le> 10 * 1024 * 1024"
proof -
  obtain ts fds where d: "length ts \<le> MAX_GANG_THREADS" "length fds \<le> MAX_FDS"
      "req = blueprint cfg env (k_pid (ce_first env)) (ce_cred env) fds (map (\<lambda>t. thread_info_of (ce_threads env t)) ts)"
    using capture_sent [OF assms] by (metis mig_msg.inject(1))
  have v: "length (rq_vmas req) \<le> MAX_VMAS" by (simp add: d(3) blueprint_def vma_loop_take split: option.split)
  then have "blueprint_ok req" using d thread_info_fpu by (simp add: blueprint_ok_def blueprint_def)
  then show ?thesis using v by (simp add: payload_size_def)
qed

theorem blueprint_fits_witness:
  "\<exists>req. (3, Migrate_req req) \<in> set (sent (snd (mattx_capture_and_send_state demo_migr_cfg (\<lambda>n. n = 3) demo_env 3 idle_migr))) \<and>
     blueprint_ok req \<and> payload_size (length (rq_vmas req)) + 4 < 2 ^ 16"
proof -
  let ?c = "mattx_capture_and_send_state demo_migr_cfg (\<lambda>n. n = 3) demo_env 3 idle_migr"
  obtain e1 where g: "gang_loop 7 (\<lambda>_. [7, 8]) 0 200 0 [] = ([7, 8], e1)" using demo_gang by (metis prod.collapse)
  have "pack_threads demo_kthread False [7, 8] = (map (\<lambda>t. thread_info_of (demo_kthread t)) [7, 8], False, map Put_task [7, 8])"
    using demo_capturable by (intro pack_threads_ok) simp
  then have "\<exists>req. (3, Migrate_req req) \<in> set (sent (snd ?c))"
    using g demo_capturable by (simp add: mattx_capture_and_send_state_def Let_def demo_env_def arm_def hand_over_def) blast
  then show ?thesis using blueprint_fits by blast
qed

section \<open>What the pump delivers\<close>

text \<open>The bytes of a list of pages with their addresses, in order.\<close>

definition image_of :: "(nat \<times> byte list) list \<Rightarrow> (nat \<times> byte) list" where
  "image_of ps = concat (map (\<lambda>(a, d). zip [a..<a + length d] d) ps)"

lemma image_of_simps [simp]:
  "image_of [] = []" "image_of ((a, d) # ps) = zip [a..<a + length d] d @ image_of ps"
  "image_of (ps @ qs) = image_of ps @ image_of qs"
  by (simp_all add: image_of_def)

text \<open>The kernel serves the pump: buffers, complete reads of \<open>src\<close> in the areas, and sends.\<close>

definition pump_served :: "pump_env \<Rightarrow> (nat \<Rightarrow> byte) \<Rightarrow> mattx_vma_info list \<Rightarrow> bool" where
  "pump_served env src vs \<longleftrightarrow> (\<forall>a. pe_page_mem env a \<and> pe_buf_mem env a \<and> 0 \<le> pe_send env a) \<and>
     (\<forall>v\<in>set vs. \<forall>a n. vm_start v \<le> a \<and> 0 < n \<and> n \<le> PAGE_SIZE \<and> a + n \<le> vm_end v \<longrightarrow>
        pe_read env a n = (int n, map src [a..<a + n]))"

lemma chunk_at_props: "cur < en \<Longrightarrow> 0 < chunk_at cur en \<and> chunk_at cur en \<le> PAGE_SIZE \<and> cur + chunk_at cur en \<le> en"
  by (auto simp: chunk_at_def)

lemma pump_page_served:
  assumes "pump_served env src vs" "v \<in> set vs" "vm_start v \<le> cur" "0 < n" "n \<le> PAGE_SIZE" "cur + n \<le> vm_end v"
  shows "snd (pump_page env cur n s) = [(cur, map src [cur..<cur + n])]"
proof -
  have "pe_read env cur n = (int n, map src [cur..<cur + n])" "pe_page_mem env cur" "pe_buf_mem env cur" "0 \<le> pe_send env cur"
    using assms unfolding pump_served_def by blast+
  then show ?thesis using assms(4) by (simp add: pump_page_def Let_def)
qed

definition page_of_src :: "(nat \<Rightarrow> byte) \<Rightarrow> nat \<Rightarrow> nat \<Rightarrow> nat \<times> byte list \<Rightarrow> bool" where
  "page_of_src src lo hi p \<longleftrightarrow> (case p of (a, d) \<Rightarrow> lo \<le> a \<and> a + length d \<le> hi \<and> 0 < length d \<and> length d \<le> PAGE_SIZE \<and>
     d = map src [a..<a + length d])"

lemma zip_map_self: "zip [a..<a + n] (map f [a..<a + n]) = map (\<lambda>x. (x, f x)) [a..<a + n]"
  by (simp add: zip_map2 zip_same_conv_map)

lemma page_loop_image:
  assumes "pump_served env src vs" "v \<in> set vs" "vm_start v \<le> cur" "en = vm_end v"
  shows "image_of (snd (page_loop env cur en s)) = map (\<lambda>x. (x, src x)) [cur..<en] \<and>
    (\<forall>p\<in>set (snd (page_loop env cur en s)). page_of_src src (vm_start v) en p)"
  using assms
proof (induction env cur en s rule: page_loop.induct)
  case (1 env cur en s)
  show ?case
  proof (cases "cur < en")
    case False
    then show ?thesis by (simp add: page_loop.simps [of env cur] image_of_def)
  next
    case True
    define n where "n = chunk_at cur en"
    have n: "0 < n" "n \<le> PAGE_SIZE" "cur + n \<le> en" using chunk_at_props [OF True] by (simp_all add: n_def)
    obtain s1 p1 where p: "pump_page env cur n s = (s1, p1)" by fastforce
    have p1: "p1 = [(cur, map src [cur..<cur + n])]"
      using pump_page_served [OF 1(2,3,4) n(1,2), of s] n(3) 1(5) p by simp
    obtain s2 p2 where r: "page_loop env (cur + n) en s1 = (s2, p2)" by fastforce
    have IH: "image_of p2 = map (\<lambda>x. (x, src x)) [cur + n..<en] \<and> (\<forall>p\<in>set p2. page_of_src src (vm_start v) en p)"
      using "1.IH" [OF True p [unfolded n_def, symmetric]] 1(2-5) r by (simp add: n_def)
    have "snd (page_loop env cur en s) = p1 @ p2"
      using True p r by (simp add: page_loop.simps [of env cur] n_def)
    moreover have "image_of p1 = map (\<lambda>x. (x, src x)) [cur..<cur + n]"
      using zip_map_self [of cur n src] by (simp add: p1)
    moreover have "[cur..<en] = [cur..<cur + n] @ [cur + n..<en]" using upt_add_eq_append [of cur "cur + n" "en - (cur + n)"] n(3) by simp
    moreover have "page_of_src src (vm_start v) en (cur, map src [cur..<cur + n])" using n 1(4) by (simp add: page_of_src_def)
    ultimately show ?thesis using IH p1 by simp
  qed
qed

lemma vma_pump_image:
  assumes "pump_served env src vs" "set us \<subseteq> set vs"
  shows "image_of (snd (vma_pump env ret us s)) =
      concat (map (\<lambda>v. map (\<lambda>x. (x, src x)) [vm_start v..<vm_end v]) (filter (\<lambda>v. \<not> skip_vma ret v) us)) \<and>
    (\<forall>p\<in>set (snd (vma_pump env ret us s)). \<exists>v\<in>set us. \<not> skip_vma ret v \<and> page_of_src src (vm_start v) (vm_end v) p)"
  using assms(2)
proof (induction us arbitrary: s)
  case (Cons v us)
  obtain s1 p1 where p: "page_loop env (vm_start v) (vm_end v) s = (s1, p1)" by fastforce
  obtain s2 p2 where r: "vma_pump env ret us s1 = (s2, p2)" by fastforce
  show ?case
  proof (cases "skip_vma ret v")
    case True
    then show ?thesis using Cons by auto
  next
    case False
    have "image_of p1 = map (\<lambda>x. (x, src x)) [vm_start v..<vm_end v] \<and> (\<forall>p\<in>set p1. page_of_src src (vm_start v) (vm_end v) p)"
      using page_loop_image [OF assms(1), of v "vm_start v" "vm_end v" s] Cons.prems p by simp
    moreover have "image_of p2 = concat (map (\<lambda>v. map (\<lambda>x. (x, src x)) [vm_start v..<vm_end v]) (filter (\<lambda>v. \<not> skip_vma ret v) us)) \<and>
        (\<forall>p\<in>set p2. \<exists>v\<in>set us. \<not> skip_vma ret v \<and> page_of_src src (vm_start v) (vm_end v) p)"
      using Cons.IH [of s1] Cons.prems r by simp
    ultimately show ?thesis using False p r by auto
  qed
qed (simp add: image_of_def)

definition transfers :: "(u32 \<times> mig_msg) list \<Rightarrow> (nat \<times> byte list) list" where
  "transfers ms = List.map_filter (\<lambda>(n, x). case x of Page_transfer a d \<Rightarrow> Some (a, d) | _ \<Rightarrow> None) ms"

lemma transfers_simps [simp]:
  "transfers (map (\<lambda>(a, d). (n, Page_transfer a d)) ps) = ps" "transfers (xs @ ys) = transfers xs @ transfers ys"
  "transfers [(n, Migrate_done)] = []" "transfers [(n, Return_done)] = []"
  by (induction ps) (auto simp: transfers_def map_filter_simps map_filter_append)

lemma eff_transfers [simp]:
  "sent (map (\<lambda>(a, d). To_node n (Page_transfer a d)) ps) = map (\<lambda>(a, d). (n, Page_transfer a d)) ps"
  "puts (map (\<lambda>(a, d). To_node n (Page_transfer a d)) ps) = []" "conts (map (\<lambda>(a, d). To_node n (Page_transfer a d)) ps) = []"
  by (induction ps) auto

text \<open>
  C28. The pump sends the memory, all of it and nothing else. For an armed migration to a
  connected node, with a kernel that serves it, the pages sent are at most 4096 bytes each and
  together hold, in order and once, every byte of every area that is not filtered out (shared
  segments on the way out, inert areas on the way back), followed by the matching end marker.
  The migration is disarmed, its task reference dropped, and the process is registered as
  exported, or the surrogate killed.
\<close>

theorem pump_delivers_memory:
  assumes "local_migration_req m = Some req" and "migrating_task m = Some task"
    and "migrating_target_node m = n" and "n \<noteq> - 1" and "links n"
    and "pump_served env src (rq_vmas req)"
    and "mattx_send_vma_data env links pid_of m r = (m', r', effs, st)"
  shows "\<exists>ps. sent effs = map (\<lambda>(a, d). (n, Page_transfer a d)) ps @ [(n, if is_returning m then Return_done else Migrate_done)] \<and>
    image_of ps = concat (map (\<lambda>v. map (\<lambda>x. (x, src x)) [vm_start v..<vm_end v])
       (filter (\<lambda>v. \<not> skip_vma (is_returning m) v) (rq_vmas req))) \<and>
    (\<forall>(a, d)\<in>set ps. length d \<le> PAGE_SIZE) \<and>
    local_migration_req m' = None \<and> migrating_task m' = None \<and> puts effs = [task] \<and>
    (if is_returning m then r' = r \<and> Sig SIGKILL task \<in> set effs else r' = add_export_process (pid_of task) n r)"
proof -
  obtain s ps where p: "vma_pump env (is_returning m) (rq_vmas req) zero_stats = (s, ps)" by fastforce
  note img = vma_pump_image [OF assms(6) order.refl, of "is_returning m" zero_stats, unfolded p snd_conv]
  have "\<forall>(a, d)\<in>set ps. length d \<le> PAGE_SIZE"
    using conjunct2 [OF img] by (fastforce simp: page_of_src_def)
  moreover have "m' = m\<lparr>migrating_task := None, local_migration_req := None\<rparr>"
      "r' = (if is_returning m then r else add_export_process (pid_of task) n r)"
      "effs = map (\<lambda>(a, d). To_node n (Page_transfer a d)) ps @
         (if is_returning m then [To_node n Return_done, Sig SIGKILL task] else [To_node n Migrate_done]) @ [Put_task task]"
    using assms(1-5,7) p by (auto simp: mattx_send_vma_data_def)
  ultimately show ?thesis using conjunct1 [OF img] by (intro exI [of _ ps]) simp
qed

definition demo_src :: "nat \<Rightarrow> byte" where
  "demo_src a = of_nat (a mod 7)"

definition demo_pump :: pump_env where
  "demo_pump = \<lparr>pe_page_mem = (\<lambda>_. True), pe_buf_mem = (\<lambda>_. True), pe_read = (\<lambda>a n. (int n, map demo_src [a..<a + n])),
     pe_send = (\<lambda>_. 5000)\<rparr>"

definition demo_req :: mattx_migration_req where
  "demo_req = blueprint demo_migr_cfg demo_env 7 (1000, 1000) [0, 1, 3] (map (\<lambda>t. thread_info_of (demo_kthread t)) [7, 8])"

definition armed_migr :: migr where
  "armed_migr = \<lparr>local_migration_req = Some demo_req, migrating_task = Some 7, migrating_target_node = 3, is_returning = False\<rparr>"

lemma demo_vmas: "rq_vmas demo_req = [\<lparr>vm_start = 4096, vm_end = 12290, vm_flags = 3, vi_shmid = 0, is_shm = False\<rparr>,
    \<lparr>vm_start = 16384, vm_end = 20480, vm_flags = 1, vi_shmid = 0, is_shm = False\<rparr>]"
  by (simp add: demo_req_def blueprint_def demo_env_def demo_vma_def vma_info_of_def)

lemma demo_served: "pump_served demo_pump demo_src vs"
  by (simp add: pump_served_def demo_pump_def)

theorem pump_delivers_memory_witness:
  "\<exists>ps. sent (fst (snd (snd (mattx_send_vma_data demo_pump (\<lambda>n. n = 3) (\<lambda>t. of_nat t) armed_migr demo_exports)))) =
       map (\<lambda>(a, d). (3, Page_transfer a d)) ps @ [(3, Migrate_done)] \<and>
     map fst (image_of ps) = [4096..<12290] @ [16384..<20480]"
proof -
  obtain m' r' effs st where d: "mattx_send_vma_data demo_pump (\<lambda>n. n = 3) (\<lambda>t. of_nat t) armed_migr demo_exports = (m', r', effs, st)"
    using prod_cases4 by blast
  have a: "local_migration_req armed_migr = Some demo_req" "migrating_task armed_migr = Some 7"
      "migrating_target_node armed_migr = 3" "(3::u32) \<noteq> - 1" "(3::u32) = 3" "\<not> is_returning armed_migr"
    by (simp_all add: armed_migr_def)
  obtain ps where "sent effs = map (\<lambda>(a, d). (3, Page_transfer a d)) ps @ [(3, Migrate_done)]"
      "image_of ps = concat (map (\<lambda>v. map (\<lambda>x. (x, demo_src x)) [vm_start v..<vm_end v])
         (filter (\<lambda>v. \<not> skip_vma False v) (rq_vmas demo_req)))"
    using pump_delivers_memory [OF a(1-5) demo_served d] a(6) by auto
  moreover have "filter (\<lambda>v. \<not> skip_vma False v) (rq_vmas demo_req) = rq_vmas demo_req"
    by (simp add: demo_vmas skip_vma_def)
  moreover have "map fst (concat (map (\<lambda>v. map (\<lambda>x. (x, demo_src x)) [vm_start v..<vm_end v]) vs)) =
      concat (map (\<lambda>v. [vm_start v..<vm_end v]) vs)" for vs :: "mattx_vma_info list"
    by (induction vs) (simp_all add: comp_def)
  moreover have "concat (map (\<lambda>v. [vm_start v..<vm_end v]) (rq_vmas demo_req)) = [4096..<12290] @ [16384..<20480]"
    by (simp only: demo_vmas list.map concat.simps append_Nil2 mattx_vma_info.select_convs)
  ultimately have "map fst (image_of ps) = [4096..<12290] @ [16384..<20480]" by (simp only:)
  with \<open>sent effs = _\<close> show ?thesis unfolding d fst_conv snd_conv by blast
qed

text \<open>
  A pump whose sends all fail counts every page as sent and none as an error, because the
  negative result is compared as an unsigned size; it still announces the end, and the process
  counts as exported.
\<close>

lemma failing_page_counts:
  assumes "pe_page_mem env a" "pe_buf_mem env a" "pe_read env a n = (int n, d)" "0 < n" "n \<le> PAGE_SIZE" "pe_send env a = - 32"
  shows "pump_page env a n s = (s\<lparr>total_pages := total_pages s + 1, sent_pages := sent_pages s + 1\<rparr>, [])"
  using assms by (simp add: pump_page_def Let_def int_lt_size_def)

text \<open>
  The source keeps one migration at a time. A second capture before the first target has
  answered replaces the first: the answer of the first target then starts the pump of the
  second process, to the second target, and the first process, frozen by its capture, is
  neither exported nor woken.
\<close>

lemma send_vma_data_targets:
  "x \<in> set (sent (fst (snd (snd (mattx_send_vma_data env links pid_of m r))))) \<Longrightarrow> fst x = migrating_target_node m"
  by (cases "local_migration_req m"; cases "migrating_task m"; cases "vma_pump env (is_returning m) (rq_vmas (the (local_migration_req m))) zero_stats")
    (auto simp: mattx_send_vma_data_def split: if_splits)

lemma overlapping_captures:
  assumes "mattx_capture_and_send_state cfg links env1 n1 m0 = (m1, e1)"
    and "mattx_capture_and_send_state cfg links env2 n2 m1 = (m2, e2)"
    and "(n2, Migrate_req req2) \<in> set (sent e2)"
    and "handle_ready_for_data penv links pid_of n1 m2 r = (m3, r3, e3, st)"
  shows "\<forall>x\<in>set (sent e3). fst x = n2"
proof -
  have "(n2, Migrate_req req2) \<in> set (sent (snd (mattx_capture_and_send_state cfg links env2 n2 m1)))"
    using assms(2,3) by simp
  then obtain req where "fst (mattx_capture_and_send_state cfg links env2 n2 m1) = fst (arm env2 req n2 (m1\<lparr>is_returning := False\<rparr>))"
    by (rule capture_sent)
  then have "migrating_target_node m2 = n2" using assms(2) by (simp add: arm_def)
  then show ?thesis using assms(4) send_vma_data_targets [of _ penv links pid_of m2 r] by (simp add: handle_ready_for_data_def)
qed

section \<open>An expulsion returns\<close>



end
