(* ===== verification/Mx_Import.thy ===== *)
theory Mx_Import
  imports Mx_Migr
begin

text \<open>
  The target side of a migration, \<^verbatim>\<open>mattx_import.c\<close>, with the netlink commands of
  \<^verbatim>\<open>mattx_main.c\<close> the stub uses: accepting a blueprint, injecting pages, the brain
  transplant into the stub, and on the way home the preparation and revival of the deputy.

  The process that is written to is a record: its threads in the order the kernel lists them,
  their state, its memory and areas, its descriptors. What the kernel decides is an argument:
  which allocations succeed, how many bytes of an injection it writes, the thread list after a
  wait. The vDSO transplant is compiled out (\<^verbatim>\<open>if (false)\<close>) and not modelled.
\<close>

section \<open>Data\<close>

datatype fd_file = Plain_file nat | Fake_file u32 u32 nat

record proc =
  p_pid :: pid
  p_threads :: "nat list"
  p_thr :: "nat \<Rightarrow> kthread"
  p_comm :: "nat \<Rightarrow> string"
  p_mem :: "nat \<Rightarrow> byte"
  p_mm :: "mm option"
  p_armed :: "nat \<Rightarrow> bool"
  p_files :: "(nat \<times> (nat \<Rightarrow> fd_file option)) option"
  p_cred :: "u32 \<times> u32"

record import_st =
  pending_migration :: "mattx_migration_req option"
  pending_source_node :: u32
  hijacked_stub_task :: "nat option"
  injected_pages_count :: nat

section \<open>Accepting a blueprint\<close>

text \<open>The result says whether the surrogate is spawned.\<close>

definition handle_migrate_req ::
    "bool \<Rightarrow> u32 \<Rightarrow> mattx_migration_req option \<Rightarrow> import_st \<Rightarrow> import_st \<times> bool" where
  "handle_migrate_req mem sender payload s =
     (case payload of None \<Rightarrow> (s, False)
      | Some req \<Rightarrow>
         (let s1 = s\<lparr>pending_source_node := sender, injected_pages_count := 0\<rparr>
          in if mem then (s1\<lparr>pending_migration := Some req\<rparr>, True) else (s1\<lparr>pending_migration := None\<rparr>, False)))"

definition mattx_nl_cmd_get_blueprint :: "bool \<Rightarrow> bool \<Rightarrow> import_st \<Rightarrow> int \<times> mattx_migration_req option" where
  "mattx_nl_cmd_get_blueprint mem fits s =
     (case pending_migration s of None \<Rightarrow> (- ENOENT, None)
      | Some req \<Rightarrow> if \<not> mem then (- ENOMEM, None) else if \<not> fits then (- EMSGSIZE, None) else (0, Some req))"

text \<open>\<open>stub\<close>: the task with the pid the stub names; \<open>mem\<close>: the work item can be allocated.\<close>

definition mattx_nl_cmd_hijack_me :: "bool \<Rightarrow> nat option \<Rightarrow> import_st \<Rightarrow> int \<times> import_st \<times> mig_effect list \<times> bool" where
  "mattx_nl_cmd_hijack_me mem stub s =
     (if pending_migration s = None then (- ENOENT, s, [], False)
      else (case stub of None \<Rightarrow> (- ESRCH, s, [], False)
        | Some t \<Rightarrow> (0, s\<lparr>hijacked_stub_task := Some t\<rparr>,
            Get_task t # (case hijacked_stub_task s of None \<Rightarrow> [] | Some t0 \<Rightarrow> [Put_task t0]), mem)))"

definition mattx_hijack_kworker :: "(u32 \<Rightarrow> bool) \<Rightarrow> import_st \<Rightarrow> mig_effect list" where
  "mattx_hijack_kworker links s =
     (case hijacked_stub_task s of None \<Rightarrow> [] | Some t \<Rightarrow> [Freeze t]) @
     (if pending_source_node s \<noteq> - 1 \<and> links (pending_source_node s)
      then [To_node (pending_source_node s) Ready_for_data] else [])"

section \<open>Injecting a page\<close>

definition find_vma :: "kvma list \<Rightarrow> nat \<Rightarrow> kvma option" where
  "find_vma vs a = find (\<lambda>v. a < kv_end v) vs"

definition set_flags :: "kvma \<Rightarrow> u64 \<Rightarrow> kvma list \<Rightarrow> kvma list" where
  "set_flags w f vs = map (\<lambda>v. if v = w then v\<lparr>kv_flags := f\<rparr> else v) vs"

text \<open>The area of an address, if it is inside one.\<close>

definition vma_at :: "kvma list \<Rightarrow> nat \<Rightarrow> kvma option" where
  "vma_at vs a = (case find_vma vs a of None \<Rightarrow> None | Some v \<Rightarrow> if kv_start v \<le> a then Some v else None)"

definition write_mem :: "nat \<Rightarrow> byte list \<Rightarrow> (nat \<Rightarrow> byte) \<Rightarrow> nat \<Rightarrow> byte" where
  "write_mem a d mem = (\<lambda>x. if a \<le> x \<and> x < a + length d then d ! (x - a) else mem x)"

text \<open>
  \<open>wr vs a n\<close>: how many of \<open>n\<close> bytes at \<open>a\<close> the kernel writes when the areas are \<open>vs\<close>. The area is
  made writable for the injection if it was not, and made read-only again.
\<close>

definition handle_page_transfer ::
    "(kvma list \<Rightarrow> nat \<Rightarrow> nat \<Rightarrow> nat) \<Rightarrow> (nat \<times> byte list) option \<Rightarrow> import_st \<Rightarrow> proc \<Rightarrow> import_st \<times> proc" where
  "handle_page_transfer wr payload s p =
     (case payload of None \<Rightarrow> (s, p)
      | Some (a, d) \<Rightarrow>
         if pending_migration s = None \<or> hijacked_stub_task s = None then (s, p)
         else
           (let vs0 = (case p_mm p of None \<Rightarrow> [] | Some m \<Rightarrow> mm_vmas m);
                lift = (case vma_at vs0 a of Some v \<Rightarrow> kv_flags v AND 2 = 0 | None \<Rightarrow> False);
                vs1 = (if lift then (case vma_at vs0 a of Some v \<Rightarrow> set_flags v (kv_flags v OR 2) vs0 | None \<Rightarrow> vs0) else vs0);
                n = min (wr vs1 a (length d)) (length d);
                vs2 = (if lift then (case vma_at vs1 a of Some v \<Rightarrow> set_flags v (kv_flags v AND NOT 2) vs1 | None \<Rightarrow> vs1) else vs1)
            in (if n = length d then s\<lparr>injected_pages_count := injected_pages_count s + 1\<rparr> else s,
                p\<lparr>p_mem := write_mem a (take n d) (p_mem p), p_mm := map_option (\<lambda>m. m\<lparr>mm_vmas := vs2\<rparr>) (p_mm p)\<rparr>)))"

section \<open>The brain transplant\<close>

text \<open>One thread takes over the captured state; the register image only as far as both sides have one.\<close>

definition inject_thread :: "mattx_thread_info \<Rightarrow> kthread \<Rightarrow> kthread" where
  "inject_thread i k = k\<lparr>k_regs := ti_regs i, k_fsbase := ti_fsbase i, k_gsbase := ti_gsbase i,
     k_clear_child_tid := ti_clear_child_tid i, k_set_child_tid := ti_set_child_tid i,
     k_fpu := (case k_fpu k of None \<Rightarrow> None
       | Some b \<Rightarrow> Some (take (min (length b) 1024) (ti_fpu_state i) @ drop (min (length (ti_fpu_state i)) 1024) b))\<rparr>"

fun inject_gang :: "string \<Rightarrow> mattx_thread_info list \<Rightarrow> nat list \<Rightarrow> proc \<Rightarrow> proc" where
  "inject_gang c (i # is) (t # ts) p =
     inject_gang c is ts (p\<lparr>p_thr := (p_thr p)(t := inject_thread i (p_thr p t)), p_comm := (p_comm p)(t := c)\<rparr>)"
| "inject_gang c is ts p = p"

text \<open>Descriptors of the blueprint become proxies; \<open>fmem fd\<close>: both allocations for it succeed.\<close>

fun inject_fds :: "(nat \<Rightarrow> bool) \<Rightarrow> u32 \<Rightarrow> u32 \<Rightarrow> nat list \<Rightarrow> nat \<times> (nat \<Rightarrow> fd_file option) \<Rightarrow> nat \<times> (nat \<Rightarrow> fd_file option)" where
  "inject_fds fmem home op [] t = t"
| "inject_fds fmem home op (fd # fds) (mx, f) =
     inject_fds fmem home op fds (mx, if fd < mx \<and> fmem fd then f(fd \<mapsto> Fake_file home op fd) else f)"

text \<open>The shared segments: the guest's map, and the areas whose faults are now intercepted.\<close>

fun dsm_segments :: "kvma list \<Rightarrow> mattx_vma_info list \<Rightarrow> mattx_guest_info \<times> (nat \<Rightarrow> bool) \<Rightarrow> mattx_guest_info \<times> (nat \<Rightarrow> bool)" where
  "dsm_segments vs [] ga = ga"
| "dsm_segments vs (v # us) (g, armed) =
     (if is_shm v \<and> dsm_count g < MAX_DSM_SEGMENTS
      then dsm_segments vs us
        (g\<lparr>dsm_count := dsm_count g + 1, dsm_map := (dsm_map g)(dsm_count g := (dsm_map g (dsm_count g))
             \<lparr>base_addr := of_nat (vm_start v), m_size := of_nat (vm_end v - vm_start v), m_shmid := vi_shmid v\<rparr>)\<rparr>,
         (case find_vma vs (vm_start v) of
            Some w \<Rightarrow> if kv_start w = vm_start v then armed(vm_start v := True) else armed
          | None \<Rightarrow> armed))
      else dsm_segments vs us (g, armed))"

record done_env =
  de_now :: u64
  de_cred :: bool
  de_array :: bool
  de_fds :: "nat \<Rightarrow> bool"

text \<open>Everything before the threads are woken.\<close>

definition transplant :: "done_env \<Rightarrow> u32 \<Rightarrow> mattx_migration_req \<Rightarrow> proc \<Rightarrow> proc" where
  "transplant env src req p =
     (let p1 = inject_gang (rq_comm req) (rq_threads req) (p_threads p) p;
          p2 = p1\<lparr>p_mm := map_option (\<lambda>m. m\<lparr>mm_arg_start := rq_arg_start req, mm_arg_end := rq_arg_end req,
                 mm_start_brk := rq_start_brk req, mm_brk := rq_brk req\<rparr>) (p_mm p1),
               p_cred := (if de_cred env then (rq_uid req, rq_gid req) else p_cred p1)\<rparr>
      in p2\<lparr>p_files := (if de_array env then map_option (inject_fds (de_fds env) src (rq_orig_pid req) (rq_open_fds req)) (p_files p2)
                        else p_files p2)\<rparr>)"

definition fixup_tids :: "mattx_migration_req \<Rightarrow> proc \<Rightarrow> pid list" where
  "fixup_tids req p = map (\<lambda>t. k_pid (p_thr p t)) (take (length (rq_threads req)) (p_threads p))"

definition nth_tid :: "pid list \<Rightarrow> nat \<Rightarrow> pid" where
  "nth_tid ts i = (if i < length ts then ts ! i else 0)"

text \<open>After the wake-up: the entry of the new guest gets its thread map and its segments.\<close>

definition fill_guest :: "mattx_migration_req \<Rightarrow> proc \<Rightarrow> mattx_guest_info \<Rightarrow> mattx_guest_info \<times> (nat \<Rightarrow> bool)" where
  "fill_guest req p g =
     (let k = min (length (rq_threads req)) (length (p_threads p));
          g1 = g\<lparr>thread_count := length (rq_threads req),
             orig_tids := (\<lambda>i. if i < k then ti_tid (rq_threads req ! i) else orig_tids g i),
             local_tids := (\<lambda>i. if i < k then k_pid (p_thr p (p_threads p ! i)) else local_tids g i),
             dsm_count := 0\<rparr>
      in case p_mm p of None \<Rightarrow> (g1, p_armed p) | Some m \<Rightarrow> dsm_segments (mm_vmas m) (rq_vmas req) (g1, p_armed p))"

definition register_guest :: "u32 \<Rightarrow> mattx_migration_req \<Rightarrow> proc \<Rightarrow> guests \<Rightarrow> guests \<times> proc" where
  "register_guest src req p r =
     (let r1 = add_guest_process (p_pid p) (rq_orig_pid req) src r
      in case scan (\<lambda>i. local_pid (slots r1 i) = p_pid p) (cnt r1) of
           None \<Rightarrow> (r1, p)
         | Some i \<Rightarrow> (case fill_guest req p (slots r1 i) of
             (g, armed) \<Rightarrow> (upd_slot i (\<lambda>_. g) r1, p\<lparr>p_armed := armed\<rparr>)))"

definition handle_migrate_done ::
    "done_env \<Rightarrow> import_st \<Rightarrow> proc \<Rightarrow> guests \<Rightarrow> fixups \<Rightarrow> import_st \<times> proc \<times> guests \<times> fixups \<times> mig_effect list" where
  "handle_migrate_done env s p r fx =
     (case (hijacked_stub_task s, pending_migration s) of
        (Some task, Some req) \<Rightarrow>
          (let p1 = transplant env (pending_source_node s) req p;
               tids = fixup_tids req p;
               fx1 = mattx_clock_fixup_register (p_pid p) (sint (de_now env - rq_monotonic_at_freeze req)) (int (length tids))
                 (nth_tid tids) fx
           in (case register_guest (pending_source_node s) req p1 r of
                 (r1, p2) \<Rightarrow>
                   (s\<lparr>hijacked_stub_task := None, pending_migration := None, pending_source_node := - 1\<rparr>, p2, r1, fx1,
                    map (Sig SIGCONT) (p_threads p) @ [Put_task task])))
      | _ \<Rightarrow> (s, p, r, fx, []))"

section \<open>Injection writes the pages\<close>

definition areas_ok :: "kvma list \<Rightarrow> bool" where
  "areas_ok vs \<longleftrightarrow> sorted_wrt (\<lambda>v w. kv_end v \<le> kv_start w) vs \<and> (\<forall>v\<in>set vs. kv_start v < kv_end v)"

text \<open>What the code relies on: a forced write inside a writable area writes everything.\<close>

definition kernel_writes :: "(kvma list \<Rightarrow> nat \<Rightarrow> nat \<Rightarrow> nat) \<Rightarrow> bool" where
  "kernel_writes wr \<longleftrightarrow> (\<forall>vs a n v. vma_at vs a = Some v \<and> kv_flags v AND 2 \<noteq> 0 \<and> a + n \<le> kv_end v \<longrightarrow> wr vs a n = n)"

lemma find_map_flags:
  assumes "\<And>v. kv_end (f v) = kv_end v"
  shows "find (\<lambda>v. a < kv_end v) (map f vs) = map_option f (find (\<lambda>v. a < kv_end v) vs)"
  using assms by (induction vs) auto

lemma flag_bits:
  fixes f :: u64
  shows "(f OR 2) AND 2 \<noteq> 0" "f AND 2 = 0 \<Longrightarrow> (f OR 2) AND NOT 2 = f"
proof -
  have "(f OR 2) AND 2 = (2::u64)" by (rule bit_word_eqI) (auto simp: bit_simps)
  then show "(f OR 2) AND 2 \<noteq> 0" by simp
  assume "f AND 2 = 0"
  then have "\<not> (bit f n \<and> bit (2::u64) n)" for n by (metis bit_and_iff bit_0_eq bot_apply bot_bool_def)
  then show "(f OR 2) AND NOT 2 = f" by (intro bit_word_eqI) (auto simp: bit_simps)
qed

lemma areas_unique:
  assumes "areas_ok vs" "v \<in> set vs" "w \<in> set vs" "kv_start v = kv_start w"
  shows "v = w"
  using assms unfolding areas_ok_def
proof (induction vs)
  case (Cons u vs)
  then show ?case by (auto; fastforce)
qed simp

lemma vma_at_mem: "vma_at vs a = Some v \<Longrightarrow> v \<in> set vs \<and> kv_start v \<le> a \<and> a < kv_end v"
  by (auto simp: vma_at_def find_vma_def find_Some_iff split: option.splits if_splits)

lemma vma_at_in:
  assumes "areas_ok vs" "v \<in> set vs" "kv_start v \<le> a" "a < kv_end v"
  shows "vma_at vs a = Some v"
  using assms unfolding areas_ok_def
proof (induction vs)
  case (Cons u vs)
  show ?case
  proof (cases "v = u")
    case False
    then have "v \<in> set vs" "kv_end u \<le> kv_start v" using Cons.prems by auto
    then have "vma_at (u # vs) a = vma_at vs a" using Cons.prems(3) by (simp add: vma_at_def find_vma_def)
    then show ?thesis using Cons.IH Cons.prems \<open>v \<in> set vs\<close> by simp
  qed (use Cons.prems in \<open>simp add: vma_at_def find_vma_def\<close>)
qed simp

lemma page_transfer_writes:
  assumes "pending_migration s \<noteq> None" "hijacked_stub_task s \<noteq> None" "p_mm p = Some m" "areas_ok (mm_vmas m)"
    and "v \<in> set (mm_vmas m)" "kv_start v \<le> a" "a + length d \<le> kv_end v" "0 < length d" "kernel_writes wr"
  shows "handle_page_transfer wr (Some (a, d)) s p =
    (s\<lparr>injected_pages_count := injected_pages_count s + 1\<rparr>, p\<lparr>p_mem := write_mem a d (p_mem p)\<rparr>)"
proof -
  let ?vs = "mm_vmas m"
  have at: "vma_at ?vs a = Some v" using vma_at_in [OF assms(4,5,6)] assms(7,8) by simp
  have w: "wr ws a (length d) = length d" if "vma_at ws a = Some u" "kv_flags u AND 2 \<noteq> 0" "kv_end u = kv_end v" for ws u
    using assms(9,7) that unfolding kernel_writes_def by simp
  show ?thesis
  proof (cases "kv_flags v AND 2 = 0")
    case False
    then show ?thesis using assms(1-3) at w [OF at False] by (auto simp: handle_page_transfer_def Let_def)
  next
    case True
    define v' where "v' = v\<lparr>kv_flags := kv_flags v OR 2\<rparr>"
    define ws where "ws = set_flags v (kv_flags v OR 2) ?vs"
    let ?f = "\<lambda>u. if u = v then u\<lparr>kv_flags := kv_flags v OR 2\<rparr> else u"
    have "find (\<lambda>u. a < kv_end u) ws = map_option ?f (find (\<lambda>u. a < kv_end u) ?vs)"
      unfolding ws_def set_flags_def by (rule find_map_flags) simp
    moreover have fv: "find (\<lambda>u. a < kv_end u) ?vs = Some v"
      using at by (auto simp: vma_at_def find_vma_def split: option.splits if_splits)
    ultimately have at': "vma_at ws a = Some v'" using assms(6) by (simp add: vma_at_def find_vma_def v'_def)
    have fl: "kv_flags v' AND 2 \<noteq> 0" "kv_flags v' AND NOT 2 = kv_flags v" using flag_bits True by (simp_all add: v'_def)
    have "v' \<noteq> v" using fl(1) True by metis
    moreover have "kv_start v' = kv_start v" by (simp add: v'_def)
    ultimately have nv: "v' \<notin> set ?vs" using areas_unique [OF assms(4), of v' v] assms(5) by blast
    have "set_flags v' (kv_flags v' AND NOT 2) ws = map (\<lambda>u. u) ?vs"
      unfolding ws_def set_flags_def map_map
    proof (rule map_cong [OF refl])
      fix u assume "u \<in> set ?vs"
      then show "((\<lambda>u. if u = v' then u\<lparr>kv_flags := kv_flags v' AND NOT 2\<rparr> else u) \<circ> ?f) u = u"
        using nv fl(2) by (cases "u = v") (auto simp: v'_def)
    qed
    then have restored: "set_flags v' (kv_flags v' AND NOT 2) ws = ?vs" by simp
    have ke: "kv_end v' = kv_end v" by (simp add: v'_def)
    obtain req k where so: "pending_migration s = Some req" "hijacked_stub_task s = Some k" using assms(1,2) by blast
    show ?thesis unfolding handle_page_transfer_def
      using assms(3) at at' True w [OF at' fl(1) ke] restored so by (simp add: Let_def ws_def [symmetric])
  qed
qed

definition inject_all :: "(kvma list \<Rightarrow> nat \<Rightarrow> nat \<Rightarrow> nat) \<Rightarrow> (nat \<times> byte list) list \<Rightarrow> import_st \<times> proc \<Rightarrow> import_st \<times> proc" where
  "inject_all wr ps sp = foldl (\<lambda>(s, p) pg. handle_page_transfer wr (Some pg) s p) sp ps"

lemma page_of_src_mem:
  assumes "page_of_src src lo hi (a, d)"
  shows "write_mem a d mem = (\<lambda>x. if x \<in> fst ` set (image_of [(a, d)]) then src x else mem x)"
proof
  fix x
  have d: "d = map src [a..<a + length d]" using assms by (simp add: page_of_src_def)
  have "image_of [(a, d)] = map (\<lambda>x. (x, src x)) [a..<a + length d]"
    using zip_map_self [of a "length d" src] d by simp
  then have "fst ` set (image_of [(a, d)]) = {a..<a + length d}" by (simp add: image_image)
  moreover have "d ! (x - a) = src x" if "a \<le> x" "x < a + length d"
  proof -
    have "map src [a..<a + length d] ! (x - a) = src x" using that by simp
    then show ?thesis using d by simp
  qed
  ultimately show "write_mem a d mem x = (if x \<in> fst ` set (image_of [(a, d)]) then src x else mem x)"
    by (simp add: write_mem_def)
qed

lemma inject_all_mem:
  assumes "\<forall>pg\<in>set ps. \<exists>lo hi v. page_of_src src lo hi pg \<and> v \<in> set (mm_vmas m) \<and> kv_start v \<le> lo \<and> hi \<le> kv_end v"
    and "p_mm p = Some m" "areas_ok (mm_vmas m)" "kernel_writes wr" "pending_migration s \<noteq> None" "hijacked_stub_task s \<noteq> None"
  shows "inject_all wr ps (s, p) = (s\<lparr>injected_pages_count := injected_pages_count s + length ps\<rparr>,
    p\<lparr>p_mem := (\<lambda>x. if x \<in> fst ` set (image_of ps) then src x else p_mem p x)\<rparr>)"
  using assms
proof (induction ps arbitrary: s p)
  case (Cons pg ps)
  obtain a d where pg: "pg = (a, d)" by fastforce
  obtain lo hi v where v: "page_of_src src lo hi (a, d)" "v \<in> set (mm_vmas m)" "kv_start v \<le> lo" "hi \<le> kv_end v"
    using Cons.prems(1) pg by auto
  then have "kv_start v \<le> a" "a + length d \<le> kv_end v" "0 < length d" by (auto simp: page_of_src_def)
  then have "handle_page_transfer wr (Some pg) s p =
      (s\<lparr>injected_pages_count := injected_pages_count s + 1\<rparr>, p\<lparr>p_mem := write_mem a d (p_mem p)\<rparr>)"
    unfolding pg using page_transfer_writes Cons.prems v(2) by blast
  moreover have "inject_all wr ps (s\<lparr>injected_pages_count := injected_pages_count s + 1\<rparr>, p\<lparr>p_mem := write_mem a d (p_mem p)\<rparr>) =
      (s\<lparr>injected_pages_count := injected_pages_count s + 1 + length ps\<rparr>,
       p\<lparr>p_mem := (\<lambda>x. if x \<in> fst ` set (image_of ps) then src x else write_mem a d (p_mem p) x)\<rparr>)"
    using Cons.IH [of "p\<lparr>p_mem := write_mem a d (p_mem p)\<rparr>" "s\<lparr>injected_pages_count := injected_pages_count s + 1\<rparr>"] Cons.prems
    by (simp cong: if_cong)
  ultimately show ?case unfolding page_of_src_mem [OF v(1)]
    by (auto simp: inject_all_def pg fun_eq_iff intro!: proc.equality)
qed (simp add: inject_all_def)

section \<open>A process arrives as it left\<close>

lemma inject_gang_other [simp]:
  "p_mem (inject_gang c is ts p) = p_mem p" "p_mm (inject_gang c is ts p) = p_mm p" "p_files (inject_gang c is ts p) = p_files p"
  "p_pid (inject_gang c is ts p) = p_pid p" "p_threads (inject_gang c is ts p) = p_threads p" "p_armed (inject_gang c is ts p) = p_armed p"
  by (induction c "is" ts p rule: inject_gang.induct) simp_all

lemma inject_gang_outside: "t \<notin> set ts \<Longrightarrow> p_thr (inject_gang c is ts p) t = p_thr p t"
  by (induction c "is" ts p rule: inject_gang.induct) simp_all

lemma inject_gang_thread:
  "distinct ts \<Longrightarrow> i < length ts \<Longrightarrow> i < length is \<Longrightarrow>
    p_thr (inject_gang c is ts p) (ts ! i) = inject_thread (is ! i) (p_thr p (ts ! i))"
proof (induction c "is" ts p arbitrary: i rule: inject_gang.induct)
  case (1 c j js t ts p)
  then show ?case by (cases i) (auto simp: inject_gang_outside)
qed auto

lemma inject_thread_pid [simp]: "k_pid (inject_thread i k) = k_pid k"
  by (simp add: inject_thread_def)

lemma inject_gang_pid [simp]: "k_pid (p_thr (inject_gang c is ts p) t) = k_pid (p_thr p t)"
  by (induction c "is" ts p rule: inject_gang.induct) auto

lemma inject_fds_eq: "inject_fds fmem home op fds (mx, f) =
    (mx, \<lambda>fd. if fd \<in> set fds \<and> fd < mx \<and> fmem fd then Some (Fake_file home op fd) else f fd)"
  by (induction fds arbitrary: f) (auto simp: fun_eq_iff)

lemma transplant_simps [simp]:
  "p_mem (transplant env src req p) = p_mem p" "p_pid (transplant env src req p) = p_pid p"
  "p_threads (transplant env src req p) = p_threads p"
  "p_thr (transplant env src req p) = p_thr (inject_gang (rq_comm req) (rq_threads req) (p_threads p) p)"
  by (simp_all add: transplant_def Let_def)

lemma register_guest_proc:
  "register_guest src req p r = (r', p') \<Longrightarrow> p_mem p' = p_mem p \<and> p_thr p' = p_thr p \<and> p_files p' = p_files p \<and>
     p_threads p' = p_threads p \<and> p_pid p' = p_pid p \<and> p_cred p' = p_cred p"
  by (auto simp: register_guest_def Let_def split: option.splits prod.splits)

text \<open>The processor state a user thread can observe.\<close>

definition same_cpu :: "kthread \<Rightarrow> kthread \<Rightarrow> bool" where
  "same_cpu a b \<longleftrightarrow> k_regs a = k_regs b \<and> k_fsbase a = k_fsbase b \<and> k_gsbase a = k_gsbase b \<and>
     k_clear_child_tid a = k_clear_child_tid b \<and> k_set_child_tid a = k_set_child_tid b \<and> k_fpu a = k_fpu b"

text \<open>Both processors use register images of one size, no larger than the blueprint's buffer.\<close>

definition fpu_fits :: "kthread \<Rightarrow> kthread \<Rightarrow> bool" where
  "fpu_fits a b \<longleftrightarrow> (case (k_fpu a, k_fpu b) of (Some x, Some y) \<Rightarrow> length x = length y \<and> length x \<le> 1024 | (None, None) \<Rightarrow> True | _ \<Rightarrow> False)"

lemma inject_same_cpu: "fpu_fits a k \<Longrightarrow> same_cpu (inject_thread (thread_info_of a) k) a"
  by (auto simp: same_cpu_def inject_thread_def thread_info_of_def fpu_fits_def split: option.splits)

definition target_covers :: "mattx_vma_info list \<Rightarrow> mm \<Rightarrow> bool" where
  "target_covers vs m \<longleftrightarrow> areas_ok (mm_vmas m) \<and>
     (\<forall>v\<in>set vs. vm_start v < vm_end v \<longrightarrow> (\<exists>w\<in>set (mm_vmas m). kv_start w \<le> vm_start v \<and> vm_end v \<le> kv_end w))"

lemma pump_then_inject:
  assumes "pump_served penv src vs" "vma_pump penv ret vs st = (st', ps)"
    and "target_covers (filter (\<lambda>v. \<not> skip_vma ret v) vs) m" "p_mm p = Some m" "kernel_writes wr"
    and "pending_migration s \<noteq> None" "hijacked_stub_task s \<noteq> None"
  shows "inject_all wr ps (s, p) = (s\<lparr>injected_pages_count := injected_pages_count s + length ps\<rparr>,
    p\<lparr>p_mem := (\<lambda>x. if \<exists>v\<in>set vs. \<not> skip_vma ret v \<and> vm_start v \<le> x \<and> x < vm_end v then src x else p_mem p x)\<rparr>)"
proof -
  note img = vma_pump_image [OF assms(1) order.refl, of ret st, unfolded assms(2) snd_conv]
  have "\<exists>lo hi v. page_of_src src lo hi pg \<and> v \<in> set (mm_vmas m) \<and> kv_start v \<le> lo \<and> hi \<le> kv_end v" if pg: "pg \<in> set ps" for pg
  proof -
    obtain v where v: "v \<in> set vs" "\<not> skip_vma ret v" "page_of_src src (vm_start v) (vm_end v) pg"
      using bspec [OF conjunct2 [OF img] pg] by blast
    then have "vm_start v < vm_end v"
      by (cases pg) (simp add: page_of_src_def, metis add_less_cancel_left add_0_right length_greater_0_conv not_le order.trans)
    moreover have "v \<in> set (filter (\<lambda>v. \<not> skip_vma ret v) vs)" using v by simp
    ultimately obtain w where "w \<in> set (mm_vmas m)" "kv_start w \<le> vm_start v" "vm_end v \<le> kv_end w"
      using assms(3) unfolding target_covers_def by blast
    then show ?thesis using v(3) by blast
  qed
  then have "inject_all wr ps (s, p) = (s\<lparr>injected_pages_count := injected_pages_count s + length ps\<rparr>,
      p\<lparr>p_mem := (\<lambda>x. if x \<in> fst ` set (image_of ps) then src x else p_mem p x)\<rparr>)"
    using assms(3) by (intro inject_all_mem [OF _ assms(4) _ assms(5-7)]) (simp_all add: target_covers_def)
  moreover have "x \<in> fst ` set (image_of ps) \<longleftrightarrow> (\<exists>v\<in>set vs. \<not> skip_vma ret v \<and> vm_start v \<le> x \<and> x < vm_end v)" for x
    unfolding conjunct1 [OF img] set_concat set_map image_UN image_image fst_conv by auto
  ultimately show ?thesis by simp
qed

lemma dsm_segments_keeps:
  "dsm_segments vs us (g, ar) = (g', ar') \<Longrightarrow> local_pid g' = local_pid g \<and> orig_pid g' = orig_pid g \<and> home_node g' = home_node g \<and>
     orig_tids g' = orig_tids g \<and> local_tids g' = local_tids g \<and> thread_count g' = thread_count g \<and> is_migrating g' = is_migrating g"
  by (induction vs us "(g, ar)" arbitrary: g ar rule: dsm_segments.induct) (auto split: if_splits)

text \<open>The registry entry of an arrived guest.\<close>

definition guest_entry :: "pid \<Rightarrow> u32 \<Rightarrow> mattx_migration_req \<Rightarrow> pid list \<Rightarrow> mattx_guest_info \<Rightarrow> bool" where
  "guest_entry lp home req tids g \<longleftrightarrow> local_pid g = lp \<and> orig_pid g = rq_orig_pid req \<and> home_node g = home \<and> \<not> is_migrating g \<and>
     thread_count g = length (rq_threads req) \<and>
     (\<forall>i<min (length (rq_threads req)) (length tids). orig_tids g i = ti_tid (rq_threads req ! i) \<and> local_tids g i = tids ! i)"

lemma register_guest_entry:
  assumes "register_guest src req p r = (r', p')" "cnt r < MAX_GUESTS" "\<not> is_guest_process (p_pid p) r"
  shows "cnt r' = cnt r + 1 \<and> guest_entry (p_pid p) src req (map (\<lambda>t. k_pid (p_thr p t)) (p_threads p)) (slots r' (cnt r)) \<and>
    (\<forall>i<cnt r. slots r' i = slots r i)"
proof -
  define r1 where "r1 = add_guest_process (p_pid p) (rq_orig_pid req) src r"
  define g0 where "g0 = slots r1 (cnt r)"
  have r1: "cnt r1 = cnt r + 1" "\<And>i. i < cnt r \<Longrightarrow> slots r1 i = slots r i" "local_pid g0 = p_pid p" "orig_pid g0 = rq_orig_pid req"
      "home_node g0 = src" "\<not> is_migrating g0"
    using assms(2) by (simp_all add: r1_def g0_def add_guest_process_def fresh_guest_def)
  have "\<forall>i<cnt r. local_pid (slots r i) \<noteq> p_pid p" using assms(3) by (simp add: is_guest_process_def scan_None)
  then have sc: "scan (\<lambda>i. local_pid (slots r1 i) = p_pid p) (cnt r1) = Some (cnt r)"
    using r1 by (intro scan_unique) (auto simp: g0_def less_Suc_eq)
  obtain g ar where f: "fill_guest req p g0 = (g, ar)" by fastforce
  have "guest_entry (p_pid p) src req (map (\<lambda>t. k_pid (p_thr p t)) (p_threads p)) g"
    using f r1(3-6) by (auto simp: fill_guest_def Let_def guest_entry_def split: option.splits dest!: dsm_segments_keeps)
  moreover have "r' = upd_slot (cnt r) (\<lambda>_. g) r1"
    using assms(1) sc f by (simp add: register_guest_def Let_def r1_def [symmetric] g0_def [symmetric])
  ultimately show ?thesis using r1(1,2) by simp
qed

text \<open>
  The target runs: it accepts the blueprint, the stub \<open>k\<close> presents itself, the pages of the
  messages are injected in order, and the end marker is handled.
\<close>

definition arrive ::
    "(kvma list \<Rightarrow> nat \<Rightarrow> nat \<Rightarrow> nat) \<Rightarrow> done_env \<Rightarrow> u32 \<Rightarrow> nat \<Rightarrow> mattx_migration_req \<Rightarrow> (nat \<times> byte list) list \<Rightarrow>
     import_st \<Rightarrow> proc \<Rightarrow> guests \<Rightarrow> fixups \<Rightarrow> import_st \<times> proc \<times> guests \<times> fixups \<times> mig_effect list" where
  "arrive wr denv src k req ps s p r fx =
     (case handle_migrate_req True src (Some req) s of (s1, _) \<Rightarrow>
       (case mattx_nl_cmd_hijack_me True (Some k) s1 of (_, s2, _, _) \<Rightarrow>
         (case inject_all wr ps (s2, p) of (s3, p3) \<Rightarrow> handle_migrate_done denv s3 p3 r fx)))"

lemma arrive_result:
  assumes "pump_served penv src_mem (rq_vmas req)" "vma_pump penv False (rq_vmas req) st = (st', ps)"
    and "target_covers (filter (\<lambda>v. \<not> is_shm v) (rq_vmas req)) mm0" "p_mm p = Some mm0" "kernel_writes wr"
    and "arrive wr denv src k req ps s p r fx = (s', p', r', fx', eff)"
  shows "\<exists>p1 p2. p_mem p1 = (\<lambda>x. if \<exists>v\<in>set (rq_vmas req). \<not> is_shm v \<and> vm_start v \<le> x \<and> x < vm_end v then src_mem x else p_mem p x) \<and>
    p_thr p1 = p_thr p \<and> p_threads p1 = p_threads p \<and> p_files p1 = p_files p \<and> p_pid p1 = p_pid p \<and>
    p2 = transplant denv src req p1 \<and> register_guest src req p2 r = (r', p') \<and>
    eff = map (Sig SIGCONT) (p_threads p) @ [Put_task k] \<and> pending_migration s' = None \<and> hijacked_stub_task s' = None \<and>
    fx' = mattx_clock_fixup_register (p_pid p) (sint (de_now denv - rq_monotonic_at_freeze req)) (int (length (fixup_tids req p)))
       (nth_tid (fixup_tids req p)) fx"
proof -
  define s2 where "s2 = s\<lparr>pending_source_node := src, injected_pages_count := 0, pending_migration := Some req, hijacked_stub_task := Some k\<rparr>"
  have sk: "skip_vma False v = is_shm v" for v by (simp add: skip_vma_def)
  define p1 where "p1 = p\<lparr>p_mem := (\<lambda>x. if \<exists>v\<in>set (rq_vmas req). \<not> is_shm v \<and> vm_start v \<le> x \<and> x < vm_end v then src_mem x else p_mem p x)\<rparr>"
  have inj: "inject_all wr ps (s2, p) = (s2\<lparr>injected_pages_count := length ps\<rparr>, p1)"
    using pump_then_inject [OF assms(1,2) _ assms(4,5), of s2] assms(3) by (simp add: sk s2_def p1_def)
  have "handle_migrate_done denv (s2\<lparr>injected_pages_count := length ps\<rparr>) p1 r fx = (s', p', r', fx', eff)"
    using assms(6) inj by (simp add: arrive_def handle_migrate_req_def mattx_nl_cmd_hijack_me_def Let_def s2_def)
  then have fin: "register_guest src req (transplant denv src req p1) r = (r', p')"
      "eff = map (Sig SIGCONT) (p_threads p1) @ [Put_task k]" "pending_migration s' = None" "hijacked_stub_task s' = None"
      "fx' = mattx_clock_fixup_register (p_pid p1) (sint (de_now denv - rq_monotonic_at_freeze req)) (int (length (fixup_tids req p1)))
         (nth_tid (fixup_tids req p1)) fx"
    by (auto simp: handle_migrate_done_def Let_def s2_def split: prod.splits)
  have "fixup_tids req p1 = fixup_tids req p" by (simp add: fixup_tids_def p1_def)
  then show ?thesis using fin by (intro exI [of _ p1] exI [of _ "transplant denv src req p1"]) (simp add: p1_def)
qed

text \<open>The arrived process: its memory, threads and registry.\<close>

lemma arrived_process:
  assumes "mattx_capture_and_send_state cfg links env n m = (m1, e1)" and "(n, Migrate_req req) \<in> set (sent e1)"
    and "pump_served penv src (rq_vmas req)" and "mattx_send_vma_data penv links pid_of m1 ex = (m2, ex2, e2, st)"
    and "n \<noteq> - 1" and "links n" and "snd (ce_mem env)"
    and "target_covers (filter (\<lambda>v. \<not> is_shm v) (rq_vmas req)) mm0" and "p_mm p = Some mm0" and "kernel_writes wr"
    and "arrive wr denv home k req (transfers (sent e2)) s p r fx = (s', p', r', fx', eff)"
    and "distinct (p_threads p)" and "length (p_threads p) = length (rq_threads req)"
    and "ts = fst (gang_loop (ce_task env) (ce_visible env) 0 200 0 [])"
    and "\<forall>i<length ts. fpu_fits (ce_threads env (ts ! i)) (p_thr p (p_threads p ! i))"
  obtains p1 where "p_mem p' = (\<lambda>x. if \<exists>v\<in>set (rq_vmas req). \<not> is_shm v \<and> vm_start v \<le> x \<and> x < vm_end v then src x else p_mem p x)"
    "p_threads p' = p_threads p" "length ts = length (p_threads p)"
    "\<forall>i<length ts. same_cpu (p_thr p' (p_threads p ! i)) (ce_threads env (ts ! i))"
    "p_files p1 = p_files p" "p_thr p1 = p_thr p" "register_guest home req (transplant denv home req p1) r = (r', p')"
    "eff = map (Sig SIGCONT) (p_threads p) @ [Put_task k]"
proof -
  have "(n, Migrate_req req) \<in> set (sent (snd (mattx_capture_and_send_state cfg links env n m)))" using assms(1,2) by simp
  then obtain fds where req: "req = blueprint cfg env (k_pid (ce_first env)) (ce_cred env) fds (map (\<lambda>t. thread_info_of (ce_threads env t)) ts)"
      "m1 = fst (arm env req n (m\<lparr>is_returning := False\<rparr>))"
    using assms(1,14) by (elim capture_sent) auto
  obtain stx ps where vp: "vma_pump penv False (rq_vmas req) zero_stats = (stx, ps)" by fastforce
  have ps: "transfers (sent e2) = ps"
    using assms(4-7) vp req(2) by (auto simp: mattx_send_vma_data_def arm_def)
  obtain p1 p2 where a: "p_mem p1 = (\<lambda>x. if \<exists>v\<in>set (rq_vmas req). \<not> is_shm v \<and> vm_start v \<le> x \<and> x < vm_end v then src x else p_mem p x)"
      "p_thr p1 = p_thr p" "p_threads p1 = p_threads p" "p_files p1 = p_files p"
      "p2 = transplant denv home req p1" "register_guest home req p2 r = (r', p')" "eff = map (Sig SIGCONT) (p_threads p) @ [Put_task k]"
    using arrive_result [OF assms(3) vp assms(8,9,10) assms(11) [unfolded ps]] by blast
  note rg = register_guest_proc [OF a(6)]
  have th: "rq_threads req = map (\<lambda>t. thread_info_of (ce_threads env t)) ts" by (simp add: req(1) blueprint_def)
  then have len: "length ts = length (p_threads p)" using assms(13) by simp
  have "same_cpu (p_thr p' (p_threads p ! i)) (ce_threads env (ts ! i))" if "i < length ts" for i
  proof -
    have "p_thr p' (p_threads p ! i) = inject_thread (thread_info_of (ce_threads env (ts ! i))) (p_thr p (p_threads p ! i))"
      using inject_gang_thread [of "p_threads p1" i "rq_threads req" "rq_comm req" p1] a(2,3,5) rg assms(12) len that th by simp
    then show ?thesis using inject_same_cpu assms(15) that by simp
  qed
  moreover have "p_mem p' = p_mem p1" "p_threads p' = p_threads p" using rg a(3,5) by simp_all
  ultimately show thesis using that [of p1] len a by simp
qed

text \<open>
  C5. A process arrives as it left. Let a capture hand over a blueprint, let the pump be
  served and its pages reach the node, and let the stub there offer an area for each area of
  the blueprint that is not shared memory and as many threads. Then, when the end marker has
  been handled, every byte of these areas is the byte of the source and all other memory of
  the stub is untouched; each thread has the registers, thread pointers and register image of
  its source thread; every captured descriptor below the table size is a proxy for the same
  descriptor of the process at home; and each thread is woken once.
\<close>

theorem forward_migration_transplants:
  assumes "mattx_capture_and_send_state cfg links env n m = (m1, e1)" and "(n, Migrate_req req) \<in> set (sent e1)"
    and "pump_served penv src (rq_vmas req)" and "mattx_send_vma_data penv links pid_of m1 ex = (m2, ex2, e2, st)"
    and "n \<noteq> - 1" and "links n" and "snd (ce_mem env)"
    and "target_covers (filter (\<lambda>v. \<not> is_shm v) (rq_vmas req)) mm0" and "p_mm p = Some mm0" and "kernel_writes wr"
    and "arrive wr denv home k req (transfers (sent e2)) s p r fx = (s', p', r', fx', eff)"
    and "distinct (p_threads p)" and "length (p_threads p) = length (rq_threads req)"
    and "ts = fst (gang_loop (ce_task env) (ce_visible env) 0 200 0 [])"
    and "\<forall>i<length ts. fpu_fits (ce_threads env (ts ! i)) (p_thr p (p_threads p ! i))"
    and "p_files p = Some (mx, f)" and "de_array denv" and "\<forall>fd. de_fds denv fd"
  shows "(\<forall>x. p_mem p' x = (if \<exists>v\<in>set (rq_vmas req). \<not> is_shm v \<and> vm_start v \<le> x \<and> x < vm_end v then src x else p_mem p x)) \<and>
    length ts = length (p_threads p) \<and> (\<forall>i<length ts. same_cpu (p_thr p' (p_threads p ! i)) (ce_threads env (ts ! i))) \<and>
    (\<forall>fd\<in>set (rq_open_fds req). fd < mx \<longrightarrow> snd (the (p_files p')) fd = Some (Fake_file home (rq_orig_pid req) fd)) \<and>
    conts eff = p_threads p"
proof -
  obtain p1 where a: "p_mem p' = (\<lambda>x. if \<exists>v\<in>set (rq_vmas req). \<not> is_shm v \<and> vm_start v \<le> x \<and> x < vm_end v then src x else p_mem p x)"
    "length ts = length (p_threads p)" "\<forall>i<length ts. same_cpu (p_thr p' (p_threads p ! i)) (ce_threads env (ts ! i))"
    "p_files p1 = p_files p" "register_guest home req (transplant denv home req p1) r = (r', p')"
    "eff = map (Sig SIGCONT) (p_threads p) @ [Put_task k]"
    by (rule arrived_process [OF assms(1-15)]) (rule that)
  have "p_files p' = Some (mx, \<lambda>fd. if fd \<in> set (rq_open_fds req) \<and> fd < mx then Some (Fake_file home (rq_orig_pid req) fd) else f fd)"
    using register_guest_proc [OF a(5)] a(4) assms(16-18) by (simp add: transplant_def Let_def inject_fds_eq)
  then show ?thesis using a(1-3,6) by simp
qed

definition demo_proc :: proc where
  "demo_proc = \<lparr>p_pid = 20, p_threads = [20, 21], p_thr = (\<lambda>t. (demo_kthread t)\<lparr>k_fpu := Some [9, 9]\<rparr>), p_comm = (\<lambda>_. ''stub''),
     p_mem = (\<lambda>_. 0), p_mm = Some \<lparr>mm_arg_start = 0, mm_arg_end = 0, mm_start_brk = 0, mm_brk = 0, mm_vdso = 0,
       mm_vmas = [demo_vma 4096 12290 3, demo_vma 16384 20480 1]\<rparr>,
     p_armed = (\<lambda>_. False), p_files = Some (64, \<lambda>_. None), p_cred = (0, 0)\<rparr>"

definition demo_done :: done_env where
  "demo_done = \<lparr>de_now = 9000, de_cred = True, de_array = True, de_fds = (\<lambda>_. True)\<rparr>"

definition idle_import :: import_st where
  "idle_import = \<lparr>pending_migration = None, pending_source_node = - 1, hijacked_stub_task = None, injected_pages_count = 0\<rparr>"

definition no_fixups :: fixups where
  "no_fixups = (\<lambda>_. \<lparr>in_use = False, f_local_pid = 0, offset_ns = 0, f_thread_count = 0, f_tids = (\<lambda>_. 0), f_pending = (\<lambda>_. False)\<rparr>)"

abbreviation demo_capture :: "migr \<times> mig_effect list" where
  "demo_capture \<equiv> mattx_capture_and_send_state demo_migr_cfg (\<lambda>n. n = 3) demo_env 3 idle_migr"

abbreviation demo_flow :: "migr \<times> exports \<times> mig_effect list \<times> pump_stats" where
  "demo_flow \<equiv> mattx_send_vma_data demo_pump (\<lambda>n. n = 3) (\<lambda>t. of_nat t) (fst demo_capture) (undefined\<lparr>cnt := 0\<rparr>)"

lemma demo_sent: "(3, Migrate_req demo_req) \<in> set (sent (snd demo_capture))"
proof -
  obtain e1 where g: "gang_loop 7 (\<lambda>_. [7, 8]) 0 200 0 [] = ([7, 8], e1)" using demo_gang by (metis prod.collapse)
  have "pack_threads demo_kthread False [7, 8] = (map (\<lambda>t. thread_info_of (demo_kthread t)) [7, 8], False, map Put_task [7, 8])"
    using demo_capturable by (intro pack_threads_ok) simp
  moreover have "demo_req = blueprint demo_migr_cfg demo_env 7 (1000, 1000) [0, 1, 3] (map (\<lambda>t. thread_info_of (demo_kthread t)) [7, 8])"
    by (rule demo_req_def)
  moreover have "k_pid (demo_kthread 7) = 7" by (simp add: demo_kthread_def)
  ultimately show ?thesis
    using g demo_capturable by (simp add: mattx_capture_and_send_state_def Let_def demo_env_def arm_def hand_over_def numeral_3_eq_3)
qed

lemma demo_covers: "target_covers (filter (\<lambda>v. \<not> is_shm v) (rq_vmas demo_req)) (the (p_mm demo_proc))"
  by (simp add: demo_vmas target_covers_def areas_ok_def demo_proc_def demo_vma_def)

theorem forward_migration_transplants_witness:
  "\<exists>s' p' r' fx' eff. arrive (\<lambda>vs a n. n) demo_done 1 20 demo_req (transfers (sent (fst (snd (snd demo_flow))))) idle_import demo_proc
       demo_registry no_fixups = (s', p', r', fx', eff) \<and>
     p_mem p' 5000 = demo_src 5000 \<and> p_mem p' 13000 = 0 \<and> k_regs (p_thr p' 21) = replicate 21 8 \<and> conts eff = [20, 21] \<and>
     snd (the (p_files p')) 3 = Some (Fake_file 1 7 3)"
proof -
  obtain m2 ex2 e2 st where f: "demo_flow = (m2, ex2, e2, st)" using prod_cases4 by blast
  obtain s' p' r' fx' eff where a: "arrive (\<lambda>vs a n. n) demo_done 1 20 demo_req (transfers (sent e2)) idle_import demo_proc
      demo_registry no_fixups = (s', p', r', fx', eff)" using prod_cases5 by blast
  have n: "(3::u32) \<noteq> - 1" "(3::u32) = 3" "snd (ce_mem demo_env)" "p_mm demo_proc = Some (the (p_mm demo_proc))"
      "kernel_writes (\<lambda>vs a n. n)" "distinct (p_threads demo_proc)" "length (p_threads demo_proc) = length (rq_threads demo_req)"
      "p_files demo_proc = Some (64, \<lambda>_. None)" "de_array demo_done" "\<forall>fd. de_fds demo_done fd"
    by (simp_all add: demo_env_def demo_proc_def kernel_writes_def demo_done_def demo_req_def blueprint_def)
  have ts: "[7, 8] = fst (gang_loop (ce_task demo_env) (ce_visible demo_env) 0 200 0 [])"
    using demo_gang by (simp add: demo_env_def)
  have fpu: "\<forall>i<length [7, 8::nat]. fpu_fits (ce_threads demo_env ([7, 8] ! i)) (p_thr demo_proc (p_threads demo_proc ! i))"
    by (simp add: fpu_fits_def demo_env_def demo_proc_def demo_kthread_def)
  note T = forward_migration_transplants [OF prod.collapse [symmetric] demo_sent demo_served f n(1,2,3) demo_covers n(4,5) a n(6,7) ts fpu n(8,9,10)]
  note T1 = conjunct1 [OF T] and T2 = conjunct1 [OF conjunct2 [OF conjunct2 [OF T]]]
    and T3 = conjunct1 [OF conjunct2 [OF conjunct2 [OF conjunct2 [OF T]]]] and T4 = conjunct2 [OF conjunct2 [OF conjunct2 [OF conjunct2 [OF T]]]]
  have "p_mem p' 5000 = demo_src 5000" "p_mem p' 13000 = 0"
    using spec [OF T1, of 5000] spec [OF T1, of 13000] by (simp_all add: demo_vmas demo_proc_def)
  moreover have "same_cpu (p_thr p' (p_threads demo_proc ! 1)) (ce_threads demo_env ([7, 8] ! 1))"
    by (rule T2 [rule_format]) simp
  then have "k_regs (p_thr p' 21) = replicate 21 8"
    by (simp add: same_cpu_def demo_proc_def demo_env_def demo_kthread_def)
  moreover have "snd (the (p_files p')) 3 = Some (Fake_file 1 (rq_orig_pid demo_req) 3)"
    using T3 by (simp add: demo_req_def blueprint_def)
  then have "snd (the (p_files p')) 3 = Some (Fake_file 1 7 3)" by (simp add: demo_req_def blueprint_def)
  moreover have "conts eff = [20, 21]" using T4 by (simp add: demo_proc_def)
  ultimately show ?thesis unfolding f fst_conv snd_conv using a by blast
qed

section \<open>The new guest is known\<close>

definition seg_of :: "mattx_vma_info \<Rightarrow> mattx_dsm_mapping" where
  "seg_of v = zero_mapping\<lparr>base_addr := of_nat (vm_start v), m_size := of_nat (vm_end v - vm_start v), m_shmid := vi_shmid v\<rparr>"

lemma dsm_segments_spec:
  assumes "dsm_segments vs us (g, ar) = (g', ar')" "dsm_count g \<le> MAX_DSM_SEGMENTS" "\<forall>d\<ge>dsm_count g. dsm_map g d = zero_mapping"
  defines "sh \<equiv> take (MAX_DSM_SEGMENTS - dsm_count g) (filter is_shm us)"
  shows "dsm_count g' = dsm_count g + length sh \<and> (\<forall>d<dsm_count g. dsm_map g' d = dsm_map g d) \<and>
    (\<forall>j<length sh. dsm_map g' (dsm_count g + j) = seg_of (sh ! j)) \<and>
    (\<forall>a. ar' a \<longleftrightarrow> ar a \<or> (\<exists>v\<in>set sh. vm_start v = a \<and> (\<exists>w. find_vma vs a = Some w \<and> kv_start w = a)))"
  using assms(1-3) unfolding sh_def
proof (induction vs us "(g, ar)" arbitrary: g ar rule: dsm_segments.induct)
  case (2 vs v us g ar)
  show ?case
  proof (cases "is_shm v \<and> dsm_count g < MAX_DSM_SEGMENTS")
    case False
    then have "take (MAX_DSM_SEGMENTS - dsm_count g) (filter is_shm (v # us)) = take (MAX_DSM_SEGMENTS - dsm_count g) (filter is_shm us)"
      by (cases "is_shm v") auto
    then show ?thesis using 2(2)[OF False] 2(3-5) False by simp
  next
    case True
    define g1 where "g1 = g\<lparr>dsm_count := dsm_count g + 1, dsm_map := (dsm_map g)(dsm_count g := seg_of v)\<rparr>"
    define ar1 where "ar1 = (case find_vma vs (vm_start v) of Some w \<Rightarrow> if kv_start w = vm_start v then ar(vm_start v := True) else ar | None \<Rightarrow> ar)"
    define sh1 where "sh1 = take (MAX_DSM_SEGMENTS - dsm_count g1) (filter is_shm us)"
    have z: "dsm_map g (dsm_count g) = zero_mapping" using 2(5) by simp
    have call: "dsm_segments vs us (g1, ar1) = (g', ar')"
      using 2(3) True z by (simp add: g1_def ar1_def seg_of_def)
    have IH: "dsm_count g' = dsm_count g1 + length sh1 \<and> (\<forall>d<dsm_count g1. dsm_map g' d = dsm_map g1 d) \<and>
        (\<forall>j<length sh1. dsm_map g' (dsm_count g1 + j) = seg_of (sh1 ! j)) \<and>
        (\<forall>a. ar' a \<longleftrightarrow> ar1 a \<or> (\<exists>v\<in>set sh1. vm_start v = a \<and> (\<exists>w. find_vma vs a = Some w \<and> kv_start w = a)))"
      using 2(1) [OF True] call True 2(5) z unfolding sh1_def g1_def ar1_def seg_of_def by simp
    have c: "dsm_count g1 = Suc (dsm_count g)" by (simp add: g1_def)
    then have sh: "take (MAX_DSM_SEGMENTS - dsm_count g) (filter is_shm (v # us)) = v # sh1"
      using True by (simp add: sh1_def Suc_diff_Suc [symmetric])
    have "\<forall>j<length (v # sh1). dsm_map g' (dsm_count g + j) = seg_of ((v # sh1) ! j)"
    proof (intro allI impI)
      fix j assume "j < length (v # sh1)"
      then show "dsm_map g' (dsm_count g + j) = seg_of ((v # sh1) ! j)"
        using IH c by (cases j) (simp_all add: g1_def)
    qed
    moreover have "\<forall>d<dsm_count g. dsm_map g' d = dsm_map g d" using IH by (simp add: g1_def)
    moreover have "ar1 a \<longleftrightarrow> ar a \<or> vm_start v = a \<and> (\<exists>w. find_vma vs a = Some w \<and> kv_start w = a)" for a
      by (auto simp: ar1_def split: option.split)
    ultimately show ?thesis unfolding sh using IH c by auto
  qed
qed simp

text \<open>
  The new guest is known here. When the end marker of a migration is handled while the
  registry has room and no guest with the surrogate's pid, exactly one entry is added, behind
  the others. It names the process and its home node, is not migrating, maps the source's
  thread ids to the local ones, and has one map for each of the first 16 shared segments of
  the blueprint, with its address, size and id and no page. The faults of exactly these
  segments, where the surrogate has an area that starts there, are intercepted.
\<close>

theorem arrival_registers:
  assumes "handle_migrate_done env s p r fx = (s', p', r', fx', eff)"
    and "hijacked_stub_task s = Some task" and "pending_migration s = Some req" and "p_mm p = Some m"
    and "cnt r < MAX_GUESTS" and "\<not> is_guest_process (p_pid p) r"
    and "sh = take MAX_DSM_SEGMENTS (filter is_shm (rq_vmas req))"
  shows "\<exists>g. entries r' = entries r @ [g] \<and>
    guest_entry (p_pid p) (pending_source_node s) req (map (\<lambda>t. k_pid (p_thr p t)) (p_threads p)) g \<and>
    dsm_count g = length sh \<and> (\<forall>d<length sh. dsm_map g d = seg_of (sh ! d)) \<and>
    (\<forall>a. p_armed p' a \<longleftrightarrow> p_armed p a \<or> (\<exists>v\<in>set sh. vm_start v = a \<and> (\<exists>w. find_vma (mm_vmas m) a = Some w \<and> kv_start w = a)))"
proof -
  define p1 where "p1 = transplant env (pending_source_node s) req p"
  define r1 where "r1 = add_guest_process (p_pid p) (rq_orig_pid req) (pending_source_node s) r"
  have reg: "register_guest (pending_source_node s) req p1 r = (r', p')"
    using assms(1-3) by (auto simp: handle_migrate_done_def Let_def p1_def split: prod.splits)
  have p1: "p_pid p1 = p_pid p" "p_threads p1 = p_threads p" "\<And>t. k_pid (p_thr p1 t) = k_pid (p_thr p t)" "p_armed p1 = p_armed p"
      "\<exists>m1. p_mm p1 = Some m1 \<and> mm_vmas m1 = mm_vmas m"
    using assms(4) by (simp_all add: p1_def transplant_def Let_def)
  note re = register_guest_entry [OF reg assms(5), unfolded p1(1,2,3), OF assms(6)]
  define g where "g = slots r' (cnt r)"
  have ent: "entries r' = entries r @ [g]"
    using re by (auto intro!: nth_equalityI simp: nth_append less_Suc_eq g_def)
  define g0 where "g0 = slots r1 (cnt r)"
  have g0: "dsm_map g0 = (\<lambda>_. zero_mapping)" using assms(5) by (simp add: g0_def r1_def add_guest_process_def fresh_guest_def)
  have "\<forall>i<cnt r. local_pid (slots r i) \<noteq> p_pid p" using assms(6) by (simp add: is_guest_process_def scan_None)
  then have sc: "scan (\<lambda>i. local_pid (slots r1 i) = p_pid p) (cnt r1) = Some (cnt r)"
    using assms(5) by (intro scan_unique) (auto simp: r1_def add_guest_process_def fresh_guest_def less_Suc_eq)
  obtain ar where f: "fill_guest req p1 g0 = (g, ar)" "p_armed p' = ar"
    using reg sc p1(1) by (auto simp: register_guest_def Let_def r1_def [symmetric] g0_def [symmetric] g_def split: prod.splits)
  obtain m1 where m1: "p_mm p1 = Some m1" "mm_vmas m1 = mm_vmas m" using p1(5) by blast
  obtain g1 where "dsm_segments (mm_vmas m) (rq_vmas req) (g1, p_armed p) = (g, ar)" "dsm_count g1 = 0" "dsm_map g1 = dsm_map g0"
    using f(1) m1 p1(4) by (auto simp: fill_guest_def Let_def)
  then show ?thesis using dsm_segments_spec [of "mm_vmas m" "rq_vmas req" g1 "p_armed p" g ar] g0 ent re f(2) assms(7)
    by (intro exI [of _ g]) (simp add: g_def)
qed

theorem arrival_registers_witness:
  "\<exists>s' p' r' fx' eff g. handle_migrate_done demo_done (idle_import\<lparr>pending_source_node := 1, hijacked_stub_task := Some 20,
       pending_migration := Some (demo_req\<lparr>rq_vmas := [\<lparr>vm_start = 4096, vm_end = 8192, vm_flags = 3, vi_shmid = 77, is_shm = True\<rparr>]\<rparr>)\<rparr>)
       demo_proc (demo_registry\<lparr>cnt := 0\<rparr>) no_fixups = (s', p', r', fx', eff) \<and>
     entries r' = [g] \<and> local_pid g = 20 \<and> home_node g = 1 \<and> dsm_count g = 1 \<and> m_shmid (dsm_map g 0) = 77 \<and> p_armed p' 4096"
proof -
  let ?v = "\<lparr>vm_start = 4096, vm_end = 8192, vm_flags = 3, vi_shmid = 77, is_shm = True\<rparr>"
  let ?s = "idle_import\<lparr>pending_source_node := 1, hijacked_stub_task := Some 20, pending_migration := Some (demo_req\<lparr>rq_vmas := [?v]\<rparr>)\<rparr>"
  obtain s' p' r' fx' eff where h: "handle_migrate_done demo_done ?s demo_proc (demo_registry\<lparr>cnt := 0\<rparr>) no_fixups = (s', p', r', fx', eff)"
    using prod_cases5 by blast
  have "hijacked_stub_task ?s = Some 20" "pending_migration ?s = Some (demo_req\<lparr>rq_vmas := [?v]\<rparr>)"
      "p_mm demo_proc = Some (the (p_mm demo_proc))" "cnt (demo_registry\<lparr>cnt := 0\<rparr>) < MAX_GUESTS"
      "\<not> is_guest_process (p_pid demo_proc) (demo_registry\<lparr>cnt := 0\<rparr>)" "[?v] = take MAX_DSM_SEGMENTS (filter is_shm (rq_vmas (demo_req\<lparr>rq_vmas := [?v]\<rparr>)))"
    by (simp_all add: demo_proc_def is_guest_process_def scan_None)
  note T = arrival_registers [OF h this]
  have "find_vma (mm_vmas (the (p_mm demo_proc))) 4096 = Some (demo_vma 4096 12290 3)"
    by (simp add: find_vma_def demo_proc_def demo_vma_def)
  then obtain g where "entries r' = entries (demo_registry\<lparr>cnt := 0\<rparr>) @ [g]" "guest_entry 20 1 (demo_req\<lparr>rq_vmas := [?v]\<rparr>) [20, 21] g"
      "dsm_count g = 1" "dsm_map g 0 = seg_of ?v" "p_armed p' 4096"
    using T by (auto simp: demo_proc_def demo_kthread_def demo_vma_def)
  then show ?thesis using h by (auto simp: guest_entry_def seg_of_def entries_def)
qed

section \<open>Coming home\<close>

datatype return_effect =
  Mig mig_effect
| Grow nat
| Carve nat nat u64
| Exorcise nat

text \<open>
  The hole an area of the blueprint leaves in the deputy's areas, if anything has to be mapped:
  for MPI applications the whole area unless one area contains it, otherwise what the first
  area that ends behind the start leaves open.
\<close>

definition carve_hole :: "bool \<Rightarrow> kvma list \<Rightarrow> mattx_vma_info \<Rightarrow> (nat \<times> nat) option" where
  "carve_hole mpi vs i =
     (let start = vm_start i; size = vm_end i - vm_start i; f = find_vma vs start
      in if mpi then
           (case f of Some v \<Rightarrow> if kv_start v \<le> start \<and> start + size \<le> kv_end v then None else Some (start, size)
            | None \<Rightarrow> Some (start, size))
         else
           (case f of None \<Rightarrow> Some (start, size)
            | Some v \<Rightarrow>
                if start + size \<le> kv_start v then Some (start, size)
                else if start < kv_start v then Some (start, kv_start v - start)
                else if kv_end v < start + size then Some (kv_end v, start + size - kv_end v)
                else None))"

text \<open>\<open>mmap vs a n f\<close>: the areas after the kernel has mapped \<open>n\<close> bytes at \<open>a\<close> with the area's flags.\<close>

fun carve_loop :: "bool \<Rightarrow> (kvma list \<Rightarrow> nat \<Rightarrow> nat \<Rightarrow> u64 \<Rightarrow> kvma list) \<Rightarrow> mattx_vma_info list \<Rightarrow> kvma list \<Rightarrow> kvma list \<times> return_effect list" where
  "carve_loop mpi mmap [] vs = (vs, [])"
| "carve_loop mpi mmap (i # is) vs =
     (case carve_hole mpi vs i of
        None \<Rightarrow> carve_loop mpi mmap is vs
      | Some (a, n) \<Rightarrow>
         (case carve_loop mpi mmap is (mmap vs a n (vm_flags i)) of
            (vs', e) \<Rightarrow> (vs', Carve a n (vm_flags i) # e)))"

definition set_export :: "pid \<Rightarrow> (mattx_export_info \<Rightarrow> mattx_export_info) \<Rightarrow> exports \<Rightarrow> exports" where
  "set_export op f r = (case scan (\<lambda>i. e_orig_pid (slots r i) = op) (cnt r) of None \<Rightarrow> r | Some i \<Rightarrow> upd_slot i f r)"

text \<open>
  \<open>deputy\<close>: the deputy's task and process; \<open>grown\<close>: its threads after the grower ran, \<open>None\<close> when
  the work could not be queued. The grower clears the growing mark at its end.
\<close>

definition grow_gang :: "nat list option \<Rightarrow> nat \<Rightarrow> pid \<Rightarrow> nat \<Rightarrow> proc \<Rightarrow> exports \<Rightarrow> proc \<times> exports \<times> return_effect list" where
  "grow_gang grown want op task p ex =
     (if length (p_threads p) < want then
        (let ex1 = set_export op (\<lambda>e. e\<lparr>e_is_growing_gang := True\<rparr>) ex
         in (case grown of None \<Rightarrow> (p, ex1, [])
             | Some ts \<Rightarrow> (p\<lparr>p_threads := ts\<rparr>, set_export (p_pid p) (\<lambda>e. e\<lparr>e_is_growing_gang := False\<rparr>) ex1,
                 [Grow (want - length (p_threads p)), Mig (Sig SIGCONT task), Mig (Sig SIGSTOP task)])))
      else (p, ex, []))"

definition handle_return_blueprint ::
    "bool \<Rightarrow> bool \<Rightarrow> (kvma list \<Rightarrow> nat \<Rightarrow> nat \<Rightarrow> u64 \<Rightarrow> kvma list) \<Rightarrow> nat list option \<Rightarrow> u32 \<Rightarrow> mattx_migration_req option \<Rightarrow>
     (nat \<times> proc) option \<Rightarrow> import_st \<Rightarrow> exports \<Rightarrow> import_st \<times> proc option \<times> exports \<times> return_effect list" where
  "handle_return_blueprint mpi mem mmap grown sender payload deputy s ex =
     (case payload of None \<Rightarrow> (s, map_option snd deputy, ex, [])
      | Some req \<Rightarrow>
         (let s1 = s\<lparr>pending_source_node := sender, injected_pages_count := 0, pending_migration := (if mem then Some req else None)\<rparr>
          in if \<not> mem then (s1, map_option snd deputy, ex, [])
             else (case deputy of None \<Rightarrow> (s1, None, ex, [])
               | Some (task, p) \<Rightarrow>
                  (case grow_gang grown (length (rq_threads req)) (rq_orig_pid req) task p
                      (set_export (rq_orig_pid req) (\<lambda>e. e\<lparr>e_abort_rpc := True\<rparr>) ex) of
                     (p1, ex1, e1) \<Rightarrow>
                       (case (case p_mm p1 of None \<Rightarrow> (p1, [])
                              | Some m \<Rightarrow> (case carve_loop mpi mmap (rq_vmas req) (mm_vmas m) of
                                  (vs, e) \<Rightarrow> (p1\<lparr>p_mm := Some (m\<lparr>mm_vmas := vs\<rparr>)\<rparr>, e))) of
                          (p2, e2) \<Rightarrow>
                            (s1\<lparr>hijacked_stub_task := Some task\<rparr>, Some p2, ex1,
                             [Mig (Get_task task)] @ e1 @ e2 @
                             (case hijacked_stub_task s of None \<Rightarrow> [] | Some t \<Rightarrow> [Mig (Put_task t)]) @
                             [Mig (To_node sender Ready_for_data)]))))))"

text \<open>Per thread that took over a state: where its thread-id word is, the id it holds, the id it should hold.\<close>

definition tid_words :: "mattx_thread_info list \<Rightarrow> nat list \<Rightarrow> proc \<Rightarrow> (nat \<times> pid \<times> pid) list" where
  "tid_words is ts p = take MAX_GANG_THREADS
     (map (\<lambda>(i, t). (unat (ti_clear_child_tid i), ti_tid i, k_pid (p_thr p t)))
       (filter (\<lambda>(i, t). ti_clear_child_tid i \<noteq> 0) (zip is ts)))"

text \<open>\<open>rd a\<close>, \<open>wr a\<close>: the kernel reads or writes the four bytes at \<open>a\<close> completely.\<close>

fun patch_tids :: "(nat \<Rightarrow> bool) \<Rightarrow> (nat \<Rightarrow> bool) \<Rightarrow> (nat \<times> pid \<times> pid) list \<Rightarrow> (nat \<Rightarrow> byte) \<Rightarrow> nat \<Rightarrow> byte" where
  "patch_tids rd wr [] mem = mem"
| "patch_tids rd wr ((a, remote, local) # ws) mem =
     (if remote = local then patch_tids rd wr ws mem
      else if \<not> rd a then patch_tids rd wr ws mem
      else if un32 (map mem [a..<a + 4]) \<noteq> remote then patch_tids rd wr ws mem
      else if wr a then patch_tids rd wr ws (write_mem a (le32 local) mem)
      else patch_tids rd wr ws mem)"

definition handle_return_done ::
    "u64 \<Rightarrow> (nat \<Rightarrow> bool) \<Rightarrow> (nat \<Rightarrow> bool) \<Rightarrow> (nat \<Rightarrow> bool) \<Rightarrow> import_st \<Rightarrow> proc \<Rightarrow> exports \<Rightarrow> fixups \<Rightarrow>
     import_st \<times> proc \<times> exports \<times> fixups \<times> return_effect list" where
  "handle_return_done now rd wr ctx s p ex fx =
     (case (hijacked_stub_task s, pending_migration s) of
        (Some task, Some req) \<Rightarrow>
          (let n = length (rq_threads req);
               p1 = inject_gang (rq_comm req) (rq_threads req) (p_threads p) p;
               ghosts = filter ctx (drop n (p_threads p));
               p2 = p1\<lparr>p_mem := patch_tids rd wr (tid_words (rq_threads req) (p_threads p) p) (p_mem p1),
                      p_mm := map_option (\<lambda>m. m\<lparr>mm_start_brk := rq_start_brk req, mm_brk := rq_brk req\<rparr>) (p_mm p1)\<rparr>;
               tids = take MAX_GANG_THREADS (fixup_tids req p);
               ex1 = (case scan (\<lambda>i. e_orig_pid (slots ex i) = p_pid p) (cnt ex) of None \<Rightarrow> ex | Some i \<Rightarrow> remove_export_process (int i) ex)
           in (s\<lparr>hijacked_stub_task := None, pending_migration := None, pending_source_node := - 1\<rparr>, p2, ex1,
               mattx_clock_fixup_register (p_pid p) (sint (now - rq_monotonic_at_freeze req)) (int (length tids)) (nth_tid tids) fx,
               map Exorcise ghosts @ map (\<lambda>t. Mig (Sig SIGCONT t)) (p_threads p) @ [Mig (Put_task task)]))
      | _ \<Rightarrow> (s, p, ex, fx, []))"

section \<open>The carver\<close>

lemma vma_at_None: "areas_ok vs \<Longrightarrow> vma_at vs a = None \<longleftrightarrow> (\<forall>v\<in>set vs. \<not> (kv_start v \<le> a \<and> a < kv_end v))"
  using vma_at_in vma_at_mem by (metis not_None_eq)

lemma find_vma_None: "find_vma vs a = None \<longleftrightarrow> (\<forall>v\<in>set vs. kv_end v \<le> a)"
  by (auto simp: find_vma_def find_None_iff not_less)

lemma find_vma_Some: "areas_ok vs \<Longrightarrow> find_vma vs a = Some v \<Longrightarrow> v \<in> set vs \<and> a < kv_end v \<and> (\<forall>w\<in>set vs. a < kv_end w \<longrightarrow> kv_start v \<le> kv_start w)"
  unfolding areas_ok_def find_vma_def
proof (induction vs)
  case (Cons u vs)
  show ?case
  proof (cases "a < kv_end u")
    case True
    have "kv_start u \<le> kv_start w" if "w \<in> set vs" for w
      using that Cons.prems(1) by (fastforce dest: less_imp_le)
    then show ?thesis using Cons.prems(2) True by auto
  next
    case False
    then show ?thesis using Cons by auto
  qed
qed simp

text \<open>
  The carver maps exactly what is missing. Where at most one area of the deputy meets the
  area of the blueprint, and does not lie strictly inside it, the hole that is mapped consists
  of precisely those addresses of the area that no area of the deputy contains: no byte of the
  deputy is mapped over, and afterwards every byte of the area is mapped.
\<close>

theorem carve_exact:
  assumes "areas_ok vs" and "vm_start i < vm_end i"
    and "\<forall>v\<in>set vs. \<forall>w\<in>set vs. kv_start v < vm_end i \<and> vm_start i < kv_end v \<and> kv_start w < vm_end i \<and> vm_start i < kv_end w \<longrightarrow> v = w"
    and "\<forall>v\<in>set vs. \<not> (vm_start i < kv_start v \<and> kv_end v < vm_end i)"
  shows "(\<exists>h n. carve_hole False vs i = Some (h, n) \<and> h \<le> a \<and> a < h + n) \<longleftrightarrow>
    vm_start i \<le> a \<and> a < vm_end i \<and> vma_at vs a = None"
proof (cases "find_vma vs (vm_start i)")
  case None
  then have "vma_at vs a = None" if "vm_start i \<le> a"
    using that unfolding vma_at_None [OF assms(1)] find_vma_None by fastforce
  then show ?thesis using None assms(2) by (auto simp: carve_hole_def Let_def)
next
  case (Some v)
  note v = find_vma_Some [OF assms(1) Some]
  have vv: "kv_start v < kv_end v" using v assms(1) by (auto simp: areas_ok_def)
  have only: "vma_at vs a = None \<longleftrightarrow> \<not> (kv_start v \<le> a \<and> a < kv_end v)" if "vm_start i \<le> a" "a < vm_end i"
  proof -
    have "w = v" if "w \<in> set vs" "kv_start w \<le> a" "a < kv_end w" for w
    proof -
      have "kv_start w < vm_end i" "vm_start i < kv_end w" using that \<open>vm_start i \<le> a\<close> \<open>a < vm_end i\<close> by simp_all
      moreover from this have "kv_start v < vm_end i" using v that(1) by (meson order.strict_trans1)
      ultimately show ?thesis using assms(3) v that(1) by blast
    qed
    then show ?thesis using v unfolding vma_at_None [OF assms(1)] by blast
  qed
  have inside: "\<not> (vm_start i < kv_start v \<and> kv_end v < vm_end i)" using assms(4) v by blast
  consider "vm_end i \<le> kv_start v" | "vm_start i < kv_start v" "kv_start v < vm_end i"
    | "kv_start v \<le> vm_start i" by linarith
  then show ?thesis
  proof cases
    case 1
    then show ?thesis using Some only assms(2) by (auto simp: carve_hole_def Let_def)
  next
    case 2
    then show ?thesis using Some only inside by (auto simp: carve_hole_def Let_def)
  next
    case 3
    then show ?thesis using Some only v assms(2) by (auto simp: carve_hole_def Let_def)
  qed
qed

theorem carve_exact_witness:
  "(\<exists>h n. carve_hole False [demo_vma 4096 8192 3] \<lparr>vm_start = 4096, vm_end = 12288, vm_flags = 3, vi_shmid = 0, is_shm = False\<rparr> = Some (h, n) \<and>
      h \<le> 9000 \<and> 9000 < h + n)"
  by (subst carve_exact) (simp_all add: areas_ok_def demo_vma_def vma_at_def find_vma_def)

text \<open>
  Otherwise it may leave a hole open (an area strictly inside), or map over an existing area
  (one in front and one behind), whose contents are lost where the return does not send them.
\<close>

lemma carve_leaves_hole:
  "carve_hole False [demo_vma 8192 12288 3] \<lparr>vm_start = 4096, vm_end = 16384, vm_flags = 3, vi_shmid = 0, is_shm = False\<rparr> = Some (4096, 4096)"
  by (simp add: carve_hole_def find_vma_def demo_vma_def)

lemma carve_maps_over:
  "carve_hole False [demo_vma 4096 8192 3, demo_vma 12288 16384 1]
     \<lparr>vm_start = 4096, vm_end = 16384, vm_flags = 3, vi_shmid = 0, is_shm = False\<rparr> = Some (8192, 8192)"
  by (simp add: carve_hole_def find_vma_def demo_vma_def)

section \<open>The deputy revives\<close>

definition word_at :: "(nat \<Rightarrow> byte) \<Rightarrow> nat \<Rightarrow> u32" where
  "word_at mem a = un32 (map mem [a..<a + 4])"

lemma word_at_write [simp]: "word_at (write_mem a (le32 w) mem) a = w"
proof -
  have "map (write_mem a (le32 w) mem) [a..<a + 4] = le32 w"
    by (rule nth_equalityI) (simp_all add: write_mem_def)
  then show ?thesis using un32_le32 [of w "[]"] by (simp add: word_at_def)
qed

lemma word_at_other: "b + 4 \<le> a \<or> a + 4 \<le> b \<Longrightarrow> word_at (write_mem a (le32 w) mem) b = word_at mem b"
  unfolding word_at_def by (rule arg_cong [of _ _ un32], rule map_cong) (auto simp: write_mem_def)

lemma patch_tids_outside:
  "(\<And>a r l. (a, r, l) \<in> set ws \<Longrightarrow> \<not> (a \<le> x \<and> x < a + 4)) \<Longrightarrow> patch_tids rd wr ws mem x = mem x"
proof (induction rd wr ws mem rule: patch_tids.induct)
  case (2 rd wr a remote lcl ws mem)
  have "write_mem a (le32 lcl) mem x = mem x" using 2(6) [of a remote lcl] by (auto simp: write_mem_def)
  then show ?case using 2 by auto
qed simp

definition apart :: "(nat \<times> pid \<times> pid) list \<Rightarrow> bool" where
  "apart ws \<longleftrightarrow> sorted_wrt (\<lambda>v w. fst v + 4 \<le> fst w \<or> fst w + 4 \<le> fst v) ws"

lemma patch_tids_other_word:
  assumes "\<forall>w\<in>set ws. fst w + 4 \<le> b \<or> b + 4 \<le> fst w"
  shows "word_at (patch_tids rd wr ws mem) b = word_at mem b"
proof -
  have "patch_tids rd wr ws mem x = mem x" if "b \<le> x" "x < b + 4" for x
    using that assms by (intro patch_tids_outside) fastforce
  then show ?thesis unfolding word_at_def by (intro arg_cong [of _ _ un32] map_cong) auto
qed

lemma patch_tids_word:
  assumes "apart ws" "(a, remote, lcl) \<in> set ws"
  shows "word_at (patch_tids rd wr ws mem) a =
    (if word_at mem a = remote \<and> rd a \<and> wr a then lcl else word_at mem a)"
  using assms
proof (induction ws arbitrary: mem)
  case (Cons w ws)
  obtain b r l where w: "w = (b, r, l)" by (metis prod_cases3)
  have ap: "apart ws" "\<forall>v\<in>set ws. fst v + 4 \<le> b \<or> b + 4 \<le> fst v" using Cons.prems(1) w by (auto simp: apart_def)
  show ?case
  proof (cases "w = (a, remote, lcl)")
    case True
    then have "b = a" using w by simp
    then show ?thesis using True w ap(2) by (auto simp: patch_tids_other_word word_at_def [symmetric])
  next
    case False
    then have m: "(a, remote, lcl) \<in> set ws" using Cons.prems(2) by simp
    then have "word_at (write_mem b (le32 l) mem) a = word_at mem a" using ap(2) by (intro word_at_other) fastforce
    then show ?thesis using Cons.IH [OF ap(1) m] w by simp
  qed
qed simp

text \<open>The end of a return: the pages are in, the threads take over, the thread numbers are patched.\<close>

lemma returned_process:
  assumes "pump_served penv src (rq_vmas req)" and "vma_pump penv True (rq_vmas req) st = (st', ps)"
    and "target_covers (filter (\<lambda>v. \<not> skip_vma True v) (rq_vmas req)) mm0" and "p_mm p = Some mm0" and "kernel_writes wr"
    and "pending_migration s = Some req" and "hijacked_stub_task s = Some task" and "inject_all wr ps (s, p) = (s3, p3)"
    and "handle_return_done now rdw wrw ctx s3 p3 ex fx = (s', p', ex', fx', eff)"
    and "distinct (p_threads p)" and "length (rq_threads req) \<le> length (p_threads p)"
    and "ws = tid_words (rq_threads req) (p_threads p) p"
  shows "p_mem p3 = (\<lambda>x. if \<exists>v\<in>set (rq_vmas req). \<not> skip_vma True v \<and> vm_start v \<le> x \<and> x < vm_end v then src x else p_mem p x)"
    "p_mem p' = patch_tids rdw wrw ws (p_mem p3)"
    "\<forall>i<length (rq_threads req). p_thr p' (p_threads p ! i) = inject_thread (rq_threads req ! i) (p_thr p (p_threads p ! i))"
    "eff = map Exorcise (filter ctx (drop (length (rq_threads req)) (p_threads p))) @ map (\<lambda>t. Mig (Sig SIGCONT t)) (p_threads p) @ [Mig (Put_task task)]"
    "ex' = (case scan (\<lambda>i. e_orig_pid (slots ex i) = p_pid p) (cnt ex) of None \<Rightarrow> ex | Some i \<Rightarrow> remove_export_process (int i) ex)"
proof -
  let ?mem = "\<lambda>x. if \<exists>v\<in>set (rq_vmas req). \<not> skip_vma True v \<and> vm_start v \<le> x \<and> x < vm_end v then src x else p_mem p x"
  have inj: "s3 = s\<lparr>injected_pages_count := injected_pages_count s + length ps\<rparr>" "p3 = p\<lparr>p_mem := ?mem\<rparr>"
    using pump_then_inject [OF assms(1-5), of s] assms(6-8) by simp_all
  show "p_mem p3 = ?mem" by (simp add: inj(2))
  have ws: "tid_words (rq_threads req) (p_threads p3) p3 = ws" by (simp add: assms(12) inj(2) tid_words_def)
  have p': "p_mem p' = patch_tids rdw wrw ws (p_mem p3)"
      "p_thr p' = p_thr (inject_gang (rq_comm req) (rq_threads req) (p_threads p) p3)"
      "eff = map Exorcise (filter ctx (drop (length (rq_threads req)) (p_threads p))) @ map (\<lambda>t. Mig (Sig SIGCONT t)) (p_threads p) @ [Mig (Put_task task)]"
      "ex' = (case scan (\<lambda>i. e_orig_pid (slots ex i) = p_pid p) (cnt ex) of None \<Rightarrow> ex | Some i \<Rightarrow> remove_export_process (int i) ex)"
    using assms(6,7,9) ws inj by (auto simp: handle_return_done_def Let_def)
  then show "p_mem p' = patch_tids rdw wrw ws (p_mem p3)"
      "eff = map Exorcise (filter ctx (drop (length (rq_threads req)) (p_threads p))) @ map (\<lambda>t. Mig (Sig SIGCONT t)) (p_threads p) @ [Mig (Put_task task)]"
      "ex' = (case scan (\<lambda>i. e_orig_pid (slots ex i) = p_pid p) (cnt ex) of None \<Rightarrow> ex | Some i \<Rightarrow> remove_export_process (int i) ex)"
    by simp_all
  show "\<forall>i<length (rq_threads req). p_thr p' (p_threads p ! i) = inject_thread (rq_threads req ! i) (p_thr p (p_threads p ! i))"
    using inject_gang_thread [of "p_threads p" _ "rq_threads req" "rq_comm req" p3] assms(10,11) p'(2) inj(2) by simp
qed


definition home_req :: mattx_migration_req where
  "home_req = demo_req\<lparr>rq_threads := [thread_info_of (demo_kthread 7), (thread_info_of (demo_kthread 8))\<lparr>ti_clear_child_tid := 5000\<rparr>]\<rparr>"

definition home_src :: "nat \<Rightarrow> byte" where
  "home_src a = (if a = 5000 then 8 else 1)"


end
