(* ===== verification/Mx_Worker.thy ===== *)
theory Mx_Worker
  imports Mx_Shell Mx_Fake
begin

text \<open>
  The worker behind every intercepted system call of a guest (\<^verbatim>\<open>mattx_hooks.c\<close>,
  \<^verbatim>\<open>mattx_rpc_worker\<close>). The caller is frozen; the worker sends the request to the home
  node, looks at the guest's registry entry every 100 ms until the reply handler has marked it
  as done, waits for the caller to be really stopped, writes the results into its memory, its
  descriptor table and its \<^verbatim>\<open>RAX\<close>, and thaws it.

  The work item of the source has one flag per kind of call and is allocated zeroed; every hook
  sets one of them. Here the kind is a constructor of \<open>rpc_call\<close> with the fields it uses, in the
  order in which the worker tests the flags.
\<close>

section \<open>Work items\<close>

datatype (plugins only: size code) rpc_call =
  R_lseek u32 int int                        \<comment> \<open>fd, offset, whence\<close>
| R_fsync u32 int                            \<comment> \<open>fd, datasync\<close>
| R_statx u32 u32 u32 u64                    \<comment> \<open>fd, mask, flags, user buffer\<close>
| R_dup u32 u32 u32                          \<comment> \<open>remote fd, new local fd or -1, flags of the file\<close>
| R_unlink string
| R_socket int int int                       \<comment> \<open>domain, type, protocol\<close>
| R_epoll_create int
| R_epoll_ctl int int int u64                \<comment> \<open>epfd, op, fd, user event\<close>
| R_epoll_wait int int int u64               \<comment> \<open>epfd, maxevents, timeout, user events\<close>
| R_connect u32 sockaddr int
| R_bind u32 sockaddr int
| R_listen u32 int
| R_sendto u32 u64 nat int                   \<comment> \<open>fd, user data, length, flags\<close>
| R_recvfrom u32 u64 nat int
| R_read u32 u64 nat
| R_write u32 u64 nat
| R_accept u32 int u64 u64                   \<comment> \<open>fd, flags, user address, user length\<close>
| R_poll u64 "mattx_pollfd list" int int     \<comment> \<open>user array, entries, nfds, timeout\<close>
| R_select int "u64 \<times> u64 \<times> u64" "byte list \<times> byte list \<times> byte list" int "nat list"
                                             \<comment> \<open>n, user sets, their contents, timeout, descriptors chosen\<close>
| R_sockname bool u32 u64 u64                \<comment> \<open>peer?, fd, user address, user length\<close>
| R_setsockopt u32 int int u64 int           \<comment> \<open>fd, level, optname, user value, optlen\<close>
| R_getsockopt u32 int int u64 u64           \<comment> \<open>fd, level, optname, user value, user length\<close>
| R_sendmsg u32 u64 int                      \<comment> \<open>fd, user header, flags\<close>
| R_recvmsg u32 u64 int
| R_uname u64
| R_prlimit64 u32 int u64 u64                \<comment> \<open>pid, resource, user new and old limit\<close>
| R_prctl int u64 u64 u64 u64
| R_fio bool u32 int u64 bool "byte list"    \<comment> \<open>ioctl?, fd, cmd, arg, has ptr, data\<close>
| R_pread64 u32 u64 nat int                  \<comment> \<open>fd, user buffer, length, position\<close>
| R_statfs string u64
| R_fstatfs u32 u64
| R_newfstatat u32 int string u64
| R_faccessat2 u32 int int string
| R_readlink string u64 nat
| R_readlinkat u32 string u64 nat
| R_getdents64 u32 u64 nat
| R_pipe2 u64 int
| R_shmget int nat int
| R_shmctl int int u64
| R_shmdt u64
| R_shmat int u64 int
| R_open string int int                      \<comment> \<open>the default: filename, flags, mode\<close>

record mattx_rpc_work =
  k_local_pid :: pid
  k_orig_pid :: u32
  k_home_node :: u32
  k_call :: rpc_call

text \<open>Unlinks travel as file-system requests; all other calls as the requests of \<open>Mx_Call\<close>.\<close>

datatype (plugins only: size code) outgoing = Ask sys_req | Ask_unlink u32 string

text \<open>
  The caller: its memory, how many bytes of a range can be accessed, its descriptor table with
  the fake files among its entries (and which others are pipes or sockets), and its result
  register.
\<close>

record surrogate =
  sg_mem :: umem
  sg_acc :: "u64 \<Rightarrow> nat \<Rightarrow> nat"
  sg_tab :: "fdtable option"
  sg_info :: "filep \<Rightarrow> mattx_fake_fd_info option"
  sg_ipc :: "filep \<Rightarrow> bool"
  sg_ax :: int

text \<open>Allocations, created anonymous files, the outcome of a mapping, the shared memory mode.\<close>

record luck =
  l_mem :: "nat \<Rightarrow> bool"
  l_junk :: "nat \<Rightarrow> byte"
  l_anon :: "nat \<Rightarrow> int + filep"
  l_mmap :: "int + u64"
  l_vma :: bool
  l_has_mm :: bool
  l_dsm_mode :: int

datatype (plugins only: size code) worker_effect =
  Asks u32 outgoing
| Frees nat | Frees_info | Frees_page nat
| Drops filep
| Flushes u32 u32 u32 nat "nat option"       \<comment> \<open>node, pid, segment, page, its memory\<close>
| Unmaps u64 u64
| Conts pid
| Crashes

definition vm_count :: "surrogate \<Rightarrow> u64 \<Rightarrow> nat \<Rightarrow> nat" where
  "vm_count s a n = min n (sg_acc s a n)"

text \<open>A buffer of \<open>n\<close> bytes after a read from the caller: \<open>z\<close> is what it held before.\<close>

definition vm_read :: "(nat \<Rightarrow> byte) \<Rightarrow> surrogate \<Rightarrow> u64 \<Rightarrow> nat \<Rightarrow> byte list" where
  "vm_read z s a n = peek a (vm_count s a n) (sg_mem s) @ map z [vm_count s a n..<n]"

definition vm_write :: "surrogate \<Rightarrow> u64 \<Rightarrow> byte list \<Rightarrow> surrogate" where
  "vm_write s a bs = s\<lparr>sg_mem := poke a (take (vm_count s a (length bs)) bs) (sg_mem s)\<rparr>"

definition vm_full :: "surrogate \<Rightarrow> u64 \<Rightarrow> nat \<Rightarrow> bool" where
  "vm_full s a n \<longleftrightarrow> vm_count s a n = n"

abbreviation (input) zeros :: "nat \<Rightarrow> byte" where "zeros \<equiv> \<lambda>_. 0"

section \<open>Sending the request\<close>

definition un64 :: "byte list \<Rightarrow> u64" where
  "un64 bs = ucast (un32 bs) OR push_bit 32 (ucast (un32 (drop 4 bs)))"

text \<open>
  The header of a message (56 bytes in user space: address pointer, address length, pointer to
  and number of the data pieces, control data, flags) and the pieces (16 bytes each).
\<close>

record msghdr =
  m_name :: u64
  m_namelen :: int
  m_iov :: u64
  m_iovlen :: nat

abbreviation (input) MSGHDR_SIZE :: nat where "MSGHDR_SIZE \<equiv> 56"

definition get_msghdr :: "byte list \<Rightarrow> msghdr" where
  "get_msghdr b = \<lparr>m_name = un64 b, m_namelen = sint (un32 (drop 8 b)), m_iov = un64 (drop 16 b),
     m_iovlen = unat (un64 (drop 24 b))\<rparr>"

fun get_iovs :: "nat \<Rightarrow> byte list \<Rightarrow> (u64 \<times> u64) list" where
  "get_iovs 0 b = []"
| "get_iovs (Suc n) b = (un64 b, un64 (drop 8 b)) # get_iovs n (drop 16 b)"

text \<open>
  The pieces of a header: none when the array cannot be allocated or nothing of it can be read;
  what was not read is what the fresh array held.
\<close>

definition pieces :: "luck \<Rightarrow> surrogate \<Rightarrow> msghdr \<Rightarrow> (u64 \<times> u64) list option" where
  "pieces l s h =
     (let n = 16 * m_iovlen h in
      if \<not> l_mem l 0 \<or> vm_count s (m_iov h) n = 0 then None
      else Some (get_iovs (m_iovlen h) (vm_read (l_junk l) s (m_iov h) n)))"

definition read_msg :: "luck \<Rightarrow> surrogate \<Rightarrow> u64 \<Rightarrow> (msghdr \<times> (u64 \<times> u64) list) option" where
  "read_msg l s p =
     (if \<not> vm_full s p MSGHDR_SIZE then None
      else let h = get_msghdr (vm_read zeros s p MSGHDR_SIZE) in map_option (Pair h) (pieces l s h))"

text \<open>The sum of the lengths wraps as a \<^verbatim>\<open>size_t\<close>.\<close>

definition iov_total :: "(u64 \<times> u64) list \<Rightarrow> nat" where
  "iov_total vs = unat (\<Sum>(b, n)\<leftarrow>vs. n)"

fun flatten :: "surrogate \<Rightarrow> (u64 \<times> u64) list \<Rightarrow> nat \<Rightarrow> byte list" where
  "flatten s [] room = []"
| "flatten s ((b, n) # vs) room =
     (if room = 0 then [] else let k = min (unat n) room in vm_read zeros s b k @ flatten s vs (room - k))"

text \<open>
  A select is sent as a poll of the descriptors of the sets that are fake files, 16 at most. The
  entries keep, next to the remote descriptor, the local one for the way back.
\<close>

definition set_bit_at :: "nat \<Rightarrow> byte list \<Rightarrow> bool" where
  "set_bit_at i bs \<longleftrightarrow> i div 8 < length bs \<and> bit (bs ! (i div 8)) (i mod 8)"

definition select_events :: "u64 \<times> u64 \<times> u64 \<Rightarrow> byte list \<times> byte list \<times> byte list \<Rightarrow> nat \<Rightarrow> 16 word" where
  "select_events ptrs sets fd =
     (case (ptrs, sets) of ((pr, pw, px), (rs, ws, xs)) \<Rightarrow>
       (if pr \<noteq> 0 \<and> set_bit_at fd rs then 1 else 0) OR
       (if pw \<noteq> 0 \<and> set_bit_at fd ws then 4 else 0) OR
       (if px \<noteq> 0 \<and> set_bit_at fd xs then 2 else 0))"

definition select_entry :: "surrogate \<Rightarrow> fdtable \<Rightarrow> (nat \<Rightarrow> 16 word) \<Rightarrow> nat \<Rightarrow> (nat \<times> mattx_pollfd) option" where
  "select_entry s t ev fd =
     (if ev fd \<noteq> 0 \<and> fd < fd_max t then
        (case fd_file t fd of None \<Rightarrow> None
         | Some f \<Rightarrow> (case sg_info s f of None \<Rightarrow> None
             | Some i \<Rightarrow> Some (fd, \<lparr>p_fd = i_remote_fd i, p_events = ev fd, p_revents = 0\<rparr>)))
      else None)"

definition select_entries :: "surrogate option \<Rightarrow> int \<Rightarrow> (nat \<Rightarrow> 16 word) \<Rightarrow> (nat \<times> mattx_pollfd) list" where
  "select_entries so n ev =
     (case so of None \<Rightarrow> []
      | Some s \<Rightarrow> (case sg_tab s of None \<Rightarrow> []
          | Some t \<Rightarrow> take 16 (List.map_filter (select_entry s t ev) [0..<nat n])))"

text \<open>The descriptors a select has chosen are noted in the work item.\<close>

definition prepare :: "surrogate option \<Rightarrow> rpc_call \<Rightarrow> rpc_call" where
  "prepare so c = (case c of
       R_select n ptrs sets t _ \<Rightarrow> R_select n ptrs sets t (map fst (select_entries so n (select_events ptrs sets)))
     | _ \<Rightarrow> c)"

abbreviation (input) EVENT_SIZE :: nat where "EVENT_SIZE \<equiv> 12"
abbreviation (input) RLIMIT_SIZE :: nat where "RLIMIT_SIZE \<equiv> 16"

definition read_or_zero :: "surrogate option \<Rightarrow> bool \<Rightarrow> u64 \<Rightarrow> nat \<Rightarrow> byte list" where
  "read_or_zero so wanted a n = (case so of Some s \<Rightarrow> if wanted then vm_read zeros s a n else replicate n 0 | None \<Rightarrow> replicate n 0)"

definition ask_epoll_ctl :: "surrogate option \<Rightarrow> u32 \<Rightarrow> int \<Rightarrow> int \<Rightarrow> int \<Rightarrow> u64 \<Rightarrow> outgoing option" where
  "ask_epoll_ctl so op epfd eop fd ev =
     Some (Ask (C_epoll_ctl op epfd eop fd (read_or_zero so (eop = 1 \<or> eop = 3) ev EVENT_SIZE)))"

definition ask_sendto :: "luck \<Rightarrow> surrogate option \<Rightarrow> u32 \<Rightarrow> u32 \<Rightarrow> u64 \<Rightarrow> nat \<Rightarrow> int \<Rightarrow> outgoing option" where
  "ask_sendto l so op fd buf len fl =
     (let n = min len 4096 in
      case so of None \<Rightarrow> None
      | Some s \<Rightarrow> if l_mem l 0 \<and> vm_full s buf n then Some (Ask (C_send op fd fl n (vm_read zeros s buf n))) else None)"

definition ask_write :: "luck \<Rightarrow> surrogate option \<Rightarrow> u32 \<Rightarrow> u32 \<Rightarrow> u64 \<Rightarrow> nat \<Rightarrow> outgoing option" where
  "ask_write l so op fd buf len =
     (let n = min len 4096 in
      case so of None \<Rightarrow> None
      | Some s \<Rightarrow> if l_mem l 0 \<and> vm_full s buf n then Some (Ask (C_write op fd n (vm_read zeros s buf n))) else None)"

definition ask_select :: "surrogate option \<Rightarrow> u32 \<Rightarrow> int \<Rightarrow> u64 \<times> u64 \<times> u64 \<Rightarrow> byte list \<times> byte list \<times> byte list \<Rightarrow> int \<Rightarrow> outgoing option" where
  "ask_select so op n ptrs sets t =
     (let es = select_entries so n (select_events ptrs sets)
      in Some (Ask (C_poll op (int (length es)) t (map snd es))))"

definition ask_setsockopt :: "luck \<Rightarrow> surrogate option \<Rightarrow> u32 \<Rightarrow> u32 \<Rightarrow> int \<Rightarrow> int \<Rightarrow> u64 \<Rightarrow> int \<Rightarrow> outgoing option" where
  "ask_setsockopt l so op fd lv name v n =
     (if l_mem l 0 then Some (Ask (C_setsockopt op (sint fd) lv name n (read_or_zero so True v (nat n)))) else None)"

definition ask_getsockopt :: "surrogate option \<Rightarrow> u32 \<Rightarrow> u32 \<Rightarrow> int \<Rightarrow> int \<Rightarrow> u64 \<Rightarrow> outgoing option" where
  "ask_getsockopt so op fd lv name lp =
     Some (Ask (C_getsockopt op (sint fd) lv name (sint (un32 (read_or_zero so True lp 4)))))"

definition ask_sendmsg :: "luck \<Rightarrow> surrogate option \<Rightarrow> u32 \<Rightarrow> u32 \<Rightarrow> u64 \<Rightarrow> int \<Rightarrow> outgoing option" where
  "ask_sendmsg l so op fd p fl =
     (case so of None \<Rightarrow> None
      | Some s \<Rightarrow>
         (case read_msg l s p of None \<Rightarrow> None
          | Some (h, vs) \<Rightarrow>
             (if \<not> l_mem l 1 then None
              else let d = flatten s vs (min (iov_total vs) 4096); k = nat (m_namelen h);
                       named = (m_name h \<noteq> 0 \<and> 0 < m_namelen h) in
                Some (Ask (C_sendmsg op (sint fd) fl
                  (if named \<and> vm_full s (m_name h) k then m_namelen h else 0) (length d)
                  (if named then vm_read zeros s (m_name h) k else []) d)))))"

definition ask_recvmsg :: "luck \<Rightarrow> surrogate option \<Rightarrow> u32 \<Rightarrow> u32 \<Rightarrow> u64 \<Rightarrow> int \<Rightarrow> outgoing option" where
  "ask_recvmsg l so op fd p fl =
     (case so of None \<Rightarrow> None
      | Some s \<Rightarrow>
         (case read_msg l s p of None \<Rightarrow> None
          | Some (h, vs) \<Rightarrow> Some (Ask (C_recvmsg op (sint fd) fl (m_namelen h) (min (iov_total vs) 4096)))))"

definition ask_prlimit64 :: "surrogate option \<Rightarrow> u32 \<Rightarrow> u32 \<Rightarrow> int \<Rightarrow> u64 \<Rightarrow> u64 \<Rightarrow> outgoing option" where
  "ask_prlimit64 so op p res new old =
     Some (Ask (C_prlimit64 op p res (new \<noteq> 0) (old \<noteq> 0) (read_or_zero so (new \<noteq> 0) new RLIMIT_SIZE)))"

definition ask_fio :: "u32 \<Rightarrow> bool \<Rightarrow> u32 \<Rightarrow> int \<Rightarrow> u64 \<Rightarrow> bool \<Rightarrow> byte list \<Rightarrow> outgoing option" where
  "ask_fio op io fd cmd arg ptr d =
     Some (Ask (C_fio io op (sint fd) cmd arg ptr (if ptr then d else replicate 256 0)))"

text \<open>
  The request of a work item; \<open>so\<close> is the caller's task, if it still exists. None: nothing is
  sent, because memory of the caller cannot be read or a buffer cannot be allocated.
\<close>

fun rpc_request :: "luck \<Rightarrow> surrogate option \<Rightarrow> u32 \<Rightarrow> rpc_call \<Rightarrow> outgoing option" where
  "rpc_request l so op (R_lseek fd off wh) = Some (Ask (C_lseek op fd off wh))"
| "rpc_request l so op (R_fsync fd ds) = Some (Ask (C_fsync op fd 0 0 ds))"
| "rpc_request l so op (R_statx fd m fl _) = Some (Ask (C_statx op fd m fl))"
| "rpc_request l so op (R_dup fd new _) = Some (Ask (C_dup op fd new))"
| "rpc_request l so op (R_unlink p) = Some (Ask_unlink op (take 255 p))"
| "rpc_request l so op (R_socket d t p) = Some (Ask (C_socket op d t p))"
| "rpc_request l so op (R_epoll_create fl) = Some (Ask (C_epoll_create op fl))"
| "rpc_request l so op (R_epoll_ctl epfd eop fd ev) = ask_epoll_ctl so op epfd eop fd ev"
| "rpc_request l so op (R_epoll_wait epfd mx t _) = Some (Ask (C_epoll_wait op epfd mx t))"
| "rpc_request l so op (R_connect fd a n) = Some (Ask (C_connect op fd a n))"
| "rpc_request l so op (R_bind fd a n) = Some (Ask (C_bind op fd a n))"
| "rpc_request l so op (R_listen fd b) = Some (Ask (C_listen op fd b))"
| "rpc_request l so op (R_sendto fd buf len fl) = ask_sendto l so op fd buf len fl"
| "rpc_request l so op (R_recvfrom fd _ n fl) = Some (Ask (C_recv op fd (min n 4096) fl))"
| "rpc_request l so op (R_read fd _ n) = Some (Ask (C_read op fd (min n 4096)))"
| "rpc_request l so op (R_write fd buf len) = ask_write l so op fd buf len"
| "rpc_request l so op (R_accept fd fl _ _) = Some (Ask (C_accept op fd fl))"
| "rpc_request l so op (R_poll _ ps n t) = Some (Ask (C_poll op n t ps))"
| "rpc_request l so op (R_select n ptrs sets t _) = ask_select so op n ptrs sets t"
| "rpc_request l so op (R_sockname peer fd _ _) = Some (Ask (C_sockname peer op (sint fd)))"
| "rpc_request l so op (R_setsockopt fd lv name v n) = ask_setsockopt l so op fd lv name v n"
| "rpc_request l so op (R_getsockopt fd lv name _ lp) = ask_getsockopt so op fd lv name lp"
| "rpc_request l so op (R_sendmsg fd p fl) = ask_sendmsg l so op fd p fl"
| "rpc_request l so op (R_recvmsg fd p fl) = ask_recvmsg l so op fd p fl"
| "rpc_request l so op (R_uname _) = Some (Ask (C_uname op))"
| "rpc_request l so op (R_prlimit64 p res new old) = ask_prlimit64 so op p res new old"
| "rpc_request l so op (R_prctl x a b c d) = Some (Ask (C_prctl op x a b c d))"
| "rpc_request l so op (R_fio io fd cmd arg ptr d) = ask_fio op io fd cmd arg ptr d"
| "rpc_request l so op (R_pread64 fd _ n pos) = Some (Ask (C_pread64 op (sint fd) (min n 4096) pos))"
| "rpc_request l so op (R_statfs p _) = Some (Ask (C_statfs op (take 255 p)))"
| "rpc_request l so op (R_fstatfs fd _) = Some (Ask (C_fstatfs op (sint fd)))"
| "rpc_request l so op (R_newfstatat fd fl p _) = Some (Ask (C_newfstatat op (sint fd) fl (take 255 p)))"
| "rpc_request l so op (R_faccessat2 fd m fl p) = Some (Ask (C_faccessat2 op (sint fd) m fl (take 255 p)))"
| "rpc_request l so op (R_readlink p _ n) = Some (Ask (C_readlink op n (take 255 p)))"
| "rpc_request l so op (R_readlinkat fd p _ n) = Some (Ask (C_readlinkat op (sint fd) n (take 255 p)))"
| "rpc_request l so op (R_getdents64 fd _ n) = Some (Ask (C_getdents64 op (sint fd) (min n 32768)))"
| "rpc_request l so op (R_pipe2 _ fl) = Some (Ask (C_pipe2 op fl))"
| "rpc_request l so op (R_shmget k n fl) = Some (Ask (C_shmget op k n fl))"
| "rpc_request l so op (R_shmctl i c _) = Some (Ask (C_shmctl op i c))"
| "rpc_request l so op (R_shmdt a) = Some (Ask (C_shmdt op a))"
| "rpc_request l so op (R_shmat i a fl) = Some (Ask (C_shmat op i a fl))"
| "rpc_request l so op (R_open p fl mode) = Some (Ask (C_open op fl mode (take 255 p)))"

text \<open>
  The first part of the worker. A write is marked as done at once, whether it was sent or not.
\<close>

definition rpc_send ::
    "luck \<Rightarrow> (pid \<Rightarrow> pid option) \<Rightarrow> surrogate option \<Rightarrow> mattx_rpc_work \<Rightarrow> wormhole \<Rightarrow> mattx_rpc_work \<times> wormhole \<times> worker_effect list" where
  "rpc_send l tg so k w =
     (k\<lparr>k_call := prepare so (k_call k)\<rparr>,
      (case k_call k of
         R_write fd buf len \<Rightarrow>
           (case guest_of tg (k_local_pid k) (g_reg w) of None \<Rightarrow> w
            | Some i \<Rightarrow> w\<lparr>g_reg := upd_slot i (\<lambda>g. g\<lparr>rpc_fsync_res := int (min len 4096), rpc_done := True\<rparr>) (g_reg w)\<rparr>)
       | _ \<Rightarrow> w),
      (case rpc_request l so (k_orig_pid k) (k_call k) of
         Some q \<Rightarrow> if g_links w (k_home_node k) then [Asks (k_home_node k) q] else []
       | None \<Rightarrow> []))"

section \<open>Waiting\<close>

text \<open>
  One look at the registry entry. A guest that is being recalled aborts the call and marks it as
  done; a guest that has left the registry ends the worker.
\<close>

datatype wait_outcome = Gone | Answered int | Aborted_by_recall

definition rpc_look :: "(pid \<Rightarrow> pid option) \<Rightarrow> pid \<Rightarrow> guests \<Rightarrow> guests \<times> wait_outcome option" where
  "rpc_look tg my r =
     (case guest_of tg my r of None \<Rightarrow> (r, Some Gone)
      | Some i \<Rightarrow>
         if is_migrating (slots r i) then (upd_slot i (\<lambda>g. g\<lparr>rpc_done := True\<rparr>) r, Some Aborted_by_recall)
         else (r, if rpc_done (slots r i) then Some (Answered (rpc_remote_fd (slots r i))) else None))"

section \<open>Handing over the result\<close>

text \<open>
  The fields of the entry: some results are taken only while the call is marked as done (with
  \<open>d\<close> as the default), others in any case, with \<open>collect\<close>.
\<close>

definition answer_of :: "(pid \<Rightarrow> pid option) \<Rightarrow> pid \<Rightarrow> (mattx_guest_info \<Rightarrow> 'a) \<Rightarrow> 'a \<Rightarrow> wormhole \<Rightarrow> 'a" where
  "answer_of tg my f d w = collect tg my (\<lambda>g. if rpc_done g then f g else d) d w"

definition upd_guest :: "(pid \<Rightarrow> pid option) \<Rightarrow> pid \<Rightarrow> (mattx_guest_info \<Rightarrow> mattx_guest_info) \<Rightarrow> wormhole \<Rightarrow> wormhole" where
  "upd_guest tg my f w =
     (case guest_of tg my (g_reg w) of None \<Rightarrow> w | Some i \<Rightarrow> w\<lparr>g_reg := upd_slot i f (g_reg w)\<rparr>)"

definition forget_buf :: "(pid \<Rightarrow> pid option) \<Rightarrow> pid \<Rightarrow> wormhole \<Rightarrow> wormhole" where
  "forget_buf tg my = upd_guest tg my (\<lambda>g. g\<lparr>rpc_read_buf := None\<rparr>)"

definition freed :: "nat option \<Rightarrow> worker_effect list" where
  "freed b = (case b of Some p \<Rightarrow> [Frees p] | None \<Rightarrow> [])"

type_synonym awakening = "wormhole \<times> surrogate \<times> worker_effect list"

text \<open>Only a number: the error, the offset, the count of the reply.\<close>

definition awake_int :: "int \<Rightarrow> wormhole \<Rightarrow> surrogate \<Rightarrow> awakening" where
  "awake_int v w s = (w, s\<lparr>sg_ax := v\<rparr>, [])"

text \<open>
  A number, a length and a buffer, all taken while done; \<open>put\<close> writes the contents of the buffer
  to the caller and may change the number. The pointer in the entry is cleared in any case.
\<close>

definition awake_buf ::
    "(pid \<Rightarrow> pid option) \<Rightarrow> pid \<Rightarrow> (int \<Rightarrow> int \<Rightarrow> byte list option \<Rightarrow> surrogate \<Rightarrow> int \<times> surrogate) \<Rightarrow> wormhole \<Rightarrow> surrogate \<Rightarrow> awakening" where
  "awake_buf tg my put w s =
     (let e = answer_of tg my rpc_fsync_res (- EINTR) w; n = answer_of tg my rpc_lseek_res 0 w;
          b = answer_of tg my rpc_read_buf None w
      in case put e n (map_option (g_heap w) b) s of (ax, s') \<Rightarrow>
        (forget_buf tg my w, s'\<lparr>sg_ax := ax\<rparr>, freed b))"

definition put_or_fault :: "u64 \<Rightarrow> nat \<Rightarrow> byte list \<Rightarrow> int \<Rightarrow> surrogate \<Rightarrow> int \<times> surrogate" where
  "put_or_fault a n d v s = (if vm_full s a n then v else - EFAULT, vm_write s a (take n d))"

definition put_quiet :: "u64 \<Rightarrow> nat \<Rightarrow> byte list \<Rightarrow> int \<Rightarrow> surrogate \<Rightarrow> int \<times> surrogate" where
  "put_quiet a n d v s = (v, vm_write s a (take n d))"

text \<open>A structure that is written when the call succeeded; failing to write it is not reported.\<close>

definition put_struct :: "u64 \<Rightarrow> nat \<Rightarrow> bool \<Rightarrow> int \<Rightarrow> int \<Rightarrow> byte list option \<Rightarrow> surrogate \<Rightarrow> int \<times> surrogate" where
  "put_struct a n wanted e len b s =
     (case b of Some d \<Rightarrow> if e = 0 \<and> wanted then put_quiet a n d e s else (e, s) | None \<Rightarrow> (e, s))"

text \<open>The metadata calls: the length comes with the reply.\<close>

definition put_meta :: "u64 \<Rightarrow> int \<Rightarrow> int \<Rightarrow> byte list option \<Rightarrow> surrogate \<Rightarrow> int \<times> surrogate" where
  "put_meta a e len b s =
     (case b of Some d \<Rightarrow> if 0 \<le> e \<and> 0 < len \<and> a \<noteq> 0 then put_or_fault a (nat len) d e s else (e, s) | None \<Rightarrow> (e, s))"

definition put_events :: "u64 \<Rightarrow> int \<Rightarrow> int \<Rightarrow> byte list option \<Rightarrow> surrogate \<Rightarrow> int \<times> surrogate" where
  "put_events a e len b s =
     (case b of Some d \<Rightarrow> if 0 < e then put_or_fault a (nat e * EVENT_SIZE) d e s else (e, s) | None \<Rightarrow> (e, s))"

definition put_sockname :: "u64 \<Rightarrow> u64 \<Rightarrow> int \<Rightarrow> int \<Rightarrow> byte list option \<Rightarrow> surrogate \<Rightarrow> int \<times> surrogate" where
  "put_sockname a lp e len b s =
     (case b of
        Some d \<Rightarrow> if e = 0 then
            (let n = sint (un32 (drop SOCKADDR_SIZE d)) in
             (e, vm_write (vm_write s a (take (nat n) d)) lp (take 4 (drop SOCKADDR_SIZE d))))
          else (e, s)
      | None \<Rightarrow> (e, s))"

definition put_sockopt :: "u64 \<Rightarrow> u64 \<Rightarrow> int \<Rightarrow> int \<Rightarrow> byte list option \<Rightarrow> surrogate \<Rightarrow> int \<times> surrogate" where
  "put_sockopt v lp e len b s =
     (if e = 0 then
        (e, vm_write (case b of Some d \<Rightarrow> if 0 < len then vm_write s v (take (nat len) d) else s | None \<Rightarrow> s)
              lp (le32 (of_int len)))
      else (e, s))"

definition put_fio :: "bool \<Rightarrow> u64 \<Rightarrow> int \<Rightarrow> int \<Rightarrow> byte list option \<Rightarrow> surrogate \<Rightarrow> int \<times> surrogate" where
  "put_fio ptr a e len b s =
     (case b of Some d \<Rightarrow> if ptr then put_quiet a 256 d e s else (e, s) | None \<Rightarrow> (e, s))"

text \<open>
  A message: the data goes to the pieces, the address and its length, which stand behind the
  data, to the header.
\<close>

fun scatter :: "(u64 \<times> u64) list \<Rightarrow> byte list \<Rightarrow> surrogate \<Rightarrow> surrogate" where
  "scatter [] d s = s"
| "scatter ((b, n) # vs) d s =
     (if d = [] then s else let k = min (unat n) (length d) in scatter vs (drop k d) (vm_write s b (take k d)))"

definition put_msg :: "luck \<Rightarrow> u64 \<Rightarrow> int \<Rightarrow> int \<Rightarrow> byte list option \<Rightarrow> surrogate \<Rightarrow> int \<times> surrogate" where
  "put_msg l p e len b s =
     (case b of
        Some d \<Rightarrow> if 0 < e \<and> vm_full s p MSGHDR_SIZE then
            (let hb = vm_read zeros s p MSGHDR_SIZE; h = get_msghdr hb; rest = drop (nat e) d;
                 alen = sint (un32 (drop SOCKADDR_SIZE rest));
                 s1 = (case pieces l s h of Some vs \<Rightarrow> scatter vs (take (nat e) d) s | None \<Rightarrow> s)
             in (e, if m_name h \<noteq> 0 \<and> 0 < alen
                    then vm_write (vm_write s1 (m_name h) (take (nat alen) rest)) p (take 8 hb @ le32 (of_int alen) @ drop 12 hb)
                    else s1))
          else (e, s)
      | None \<Rightarrow> (e, s))"

text \<open>Reads and receives take count and buffer whether the call is done or not.\<close>

definition awake_read :: "(pid \<Rightarrow> pid option) \<Rightarrow> pid \<Rightarrow> u64 \<Rightarrow> wormhole \<Rightarrow> surrogate \<Rightarrow> awakening" where
  "awake_read tg my a w s =
     (let n = collect tg my rpc_read_bytes (- 1) w; b = collect tg my rpc_read_buf None w
      in case (case b of Some p \<Rightarrow> if 0 < n then put_or_fault a (nat n) (g_heap w p) n s else (n, s) | None \<Rightarrow> (n, s)) of
           (ax, s') \<Rightarrow> (forget_buf tg my w, s'\<lparr>sg_ax := ax\<rparr>, freed b))"

definition awake_pread :: "(pid \<Rightarrow> pid option) \<Rightarrow> pid \<Rightarrow> u64 \<Rightarrow> wormhole \<Rightarrow> surrogate \<Rightarrow> awakening" where
  "awake_pread tg my a w s =
     (let n = answer_of tg my rpc_read_bytes (- 1) w; b = answer_of tg my rpc_read_buf None w
      in case (case b of Some p \<Rightarrow> if 0 < n then put_or_fault a (nat n) (g_heap w p) n s else (n, s) | None \<Rightarrow> (n, s)) of
           (ax, s') \<Rightarrow> (forget_buf tg my w, s'\<lparr>sg_ax := ax\<rparr>, freed b))"

abbreviation (input) STATX_SIZE :: nat where "STATX_SIZE \<equiv> 256"

definition awake_statx :: "(pid \<Rightarrow> pid option) \<Rightarrow> pid \<Rightarrow> u64 \<Rightarrow> wormhole \<Rightarrow> surrogate \<Rightarrow> awakening" where
  "awake_statx tg my a w s =
     (let e = answer_of tg my rpc_fsync_res (- EINTR) w; b = answer_of tg my rpc_statx_buf None w
      in case (case b of Some p \<Rightarrow> if e = 0 then put_or_fault a STATX_SIZE (g_heap w p) e s else (e, s) | None \<Rightarrow> (e, s)) of
           (ax, s') \<Rightarrow> (upd_guest tg my (\<lambda>g. g\<lparr>rpc_statx_buf := None\<rparr>) w, s'\<lparr>sg_ax := ax\<rparr>, freed b))"

subsection \<open>Descriptors\<close>

definition info_for :: "mattx_rpc_work \<Rightarrow> int \<Rightarrow> mattx_fake_fd_info" where
  "info_for k rfd = \<lparr>i_home_node = k_home_node k, i_orig_pid = k_orig_pid k, i_remote_fd = of_int rfd\<rparr>"

text \<open>
  A fake file for a new remote descriptor in the first free slot from 3 on. An error number of
  the home node is passed on; without memory for the information nothing happens.
\<close>

definition new_proxy :: "luck \<Rightarrow> mattx_rpc_work \<Rightarrow> int \<Rightarrow> surrogate \<Rightarrow> bool \<times> surrogate \<times> worker_effect list" where
  "new_proxy l k rfd s =
     (if rfd < 0 then (False, s\<lparr>sg_ax := rfd\<rparr>, [])
      else if \<not> l_mem l 0 then (False, s, [])
      else (case (l_anon l 0, sg_tab s) of
          (Inr f, Some t) \<Rightarrow>
            (case free_fd t of
               Some j \<Rightarrow> (True, s\<lparr>sg_tab := Some (install j f t), sg_info := (sg_info s)(f := Some (info_for k rfd)), sg_ax := int j\<rparr>, [])
             | None \<Rightarrow> (False, s\<lparr>sg_ax := - EMFILE\<rparr>, [Drops f]))
        | _ \<Rightarrow> (False, s\<lparr>sg_ax := - ENFILE\<rparr>, [Frees_info])))"

text \<open>
  An accept also wants to return the peer's address, but uses the accessors of the current
  process from a kernel thread, which has no user memory of its own: the read of the length is
  modelled as failing, and the address is thrown away.
\<close>

definition awake_accept :: "luck \<Rightarrow> (pid \<Rightarrow> pid option) \<Rightarrow> mattx_rpc_work \<Rightarrow> int \<Rightarrow> u64 \<Rightarrow> u64 \<Rightarrow> wormhole \<Rightarrow> surrogate \<Rightarrow> awakening" where
  "awake_accept l tg k rfd ua ul w s =
     (case new_proxy l k rfd s of (ok, s', e) \<Rightarrow>
       if ok \<and> ua \<noteq> 0 \<and> ul \<noteq> 0
       then (forget_buf tg (k_local_pid k) w, s', e @ freed (collect tg (k_local_pid k) rpc_read_buf None w))
       else (w, s', e))"

definition awake_epoll_create :: "luck \<Rightarrow> mattx_rpc_work \<Rightarrow> int \<Rightarrow> wormhole \<Rightarrow> surrogate \<Rightarrow> awakening" where
  "awake_epoll_create l k rfd w s = (case new_proxy l k rfd s of (ok, s', e) \<Rightarrow> (w, s', e))"

text \<open>
  Two fake files for a pipe, in the first free slots for which everything can be allocated. The
  results are the slots, the table, the information and what was thrown away.
\<close>

fun twin ::
    "luck \<Rightarrow> mattx_rpc_work \<Rightarrow> int list \<Rightarrow> nat list \<Rightarrow> nat \<Rightarrow> fdtable \<Rightarrow> (filep \<Rightarrow> mattx_fake_fd_info option) \<Rightarrow>
     nat list \<times> fdtable \<times> (filep \<Rightarrow> mattx_fake_fd_info option) \<times> worker_effect list" where
  "twin l k [] js n t infos = ([], t, infos, [])"
| "twin l k (r # rs) [] n t infos = ([], t, infos, [])"
| "twin l k (r # rs) (j # js) n t infos =
     (if fd_file t j \<noteq> None then twin l k (r # rs) js n t infos
      else if \<not> l_mem l n then twin l k (r # rs) js (Suc n) t infos
      else (case l_anon l n of
          Inl _ \<Rightarrow> (case twin l k (r # rs) js (Suc n) t infos of (is, t', infos', e) \<Rightarrow> (is, t', infos', Frees_info # e))
        | Inr f \<Rightarrow>
            (case twin l k rs js (Suc n) (install j f t) (infos(f := Some (info_for k r))) of
               (is, t', infos', e) \<Rightarrow> (j # is, t', infos', e))))"

definition awake_pipe2 :: "luck \<Rightarrow> (pid \<Rightarrow> pid option) \<Rightarrow> mattx_rpc_work \<Rightarrow> u64 \<Rightarrow> wormhole \<Rightarrow> surrogate \<Rightarrow> awakening" where
  "awake_pipe2 l tg k a w s =
     (let my = k_local_pid k; e = answer_of tg my rpc_fsync_res (- EINTR) w; b = answer_of tg my rpc_read_buf None w in
      case b of
        Some p \<Rightarrow>
          if e = 0 then
            (case sg_tab s of
               None \<Rightarrow> (forget_buf tg my w, s\<lparr>sg_ax := - EBADF\<rparr>, freed b)
             | Some t \<Rightarrow>
                (case twin l k [int_at 0 (g_heap w p), int_at 1 (g_heap w p)] [3..<fd_max t] 0 t (sg_info s) of (is, t', infos, eff) \<Rightarrow>
                  (let s' = s\<lparr>sg_tab := Some t', sg_info := infos\<rparr> in
                   if length is = 2 then
                     (case put_or_fault a 8 (concat (map (\<lambda>j. le32 (of_nat j)) is)) 0 s' of (ax, s2) \<Rightarrow>
                       (forget_buf tg my w, s2\<lparr>sg_ax := ax\<rparr>, eff @ freed b))
                   else (forget_buf tg my w, s'\<lparr>sg_ax := - EMFILE\<rparr>, eff @ freed b))))
          else (forget_buf tg my w, s\<lparr>sg_ax := e\<rparr>, freed b)
      | None \<Rightarrow> (forget_buf tg my w, s\<lparr>sg_ax := e\<rparr>, []))"

text \<open>
  The calls that make one descriptor (open, socket, dup) share the last branch. An error number
  of the home node changes nothing: the caller sees the result of its sabotaged call. A
  sabotaged call has failed, so a free slot is reserved (its open bit is set) and filled; one
  that succeeded gets its file replaced.
\<close>

definition reserve :: "surrogate \<Rightarrow> int \<times> surrogate" where
  "reserve s =
     (let ax = sint (word_of_int (sg_ax s) :: u32) in
      if ax < 0 then
        (case sg_tab s of None \<Rightarrow> (ax, s)
         | Some t \<Rightarrow> (case free_fd t of None \<Rightarrow> (ax, s)
             | Some j \<Rightarrow> (int j, s\<lparr>sg_tab := Some (t\<lparr>fd_open := (fd_open t)(j := True)\<rparr>)\<rparr>)))
      else (ax, s))"

definition awake_new_fd :: "luck \<Rightarrow> mattx_rpc_work \<Rightarrow> int \<Rightarrow> wormhole \<Rightarrow> surrogate \<Rightarrow> awakening" where
  "awake_new_fd l k rfd w s =
     (if rfd < 0 then (w, s, [])
      else (case reserve s of (fd, s1) \<Rightarrow>
        if fd < 0 \<or> \<not> l_mem l 0 then (w, s1, [])
        else (case (l_anon l 0, sg_tab s1) of
            (Inr f, Some t) \<Rightarrow>
              (let j = nat fd; s2 = s1\<lparr>sg_info := (sg_info s1)(f := Some (info_for k rfd)), sg_ax := fd\<rparr> in
               if j < fd_max t
               then (w, s2\<lparr>sg_tab := Some (t\<lparr>fd_file := (fd_file t)(j := Some f)\<rparr>)\<rparr>,
                     case fd_file t j of Some old \<Rightarrow> [Drops old] | None \<Rightarrow> [])
               else (w, s2, []))
          | (Inr f, None) \<Rightarrow> (w, s1, [Drops f, Frees_info])
          | (Inl _, _) \<Rightarrow> (w, s1, [Frees_info]))))"

subsection \<open>Polling\<close>

text \<open>
  The entries of the reply are written over the caller's array, 8 bytes each, with the
  descriptor numbers of the home node.
\<close>

definition awake_poll :: "(pid \<Rightarrow> pid option) \<Rightarrow> pid \<Rightarrow> u64 \<Rightarrow> int \<Rightarrow> wormhole \<Rightarrow> surrogate \<Rightarrow> awakening" where
  "awake_poll tg my a n w s =
     (let v = collect tg my rpc_fsync_res (- EBADF) w; b = collect tg my rpc_read_buf None w in
      case b of
        Some p \<Rightarrow> (case put_or_fault a (8 * nat n) (g_heap w p) v s of (ax, s') \<Rightarrow> (forget_buf tg my w, s'\<lparr>sg_ax := ax\<rparr>, [Frees p]))
      | None \<Rightarrow> (forget_buf tg my w, s\<lparr>sg_ax := - EBADF\<rparr>, []))"

definition poll_revents :: "byte list \<Rightarrow> nat \<Rightarrow> 16 word" where
  "poll_revents d j = ucast (drop_bit 16 (un32 (drop (8 * j + 4) d)))"

text \<open>The bytes of a set of 1024 descriptors.\<close>

definition fdset_bytes :: "(nat \<Rightarrow> bool) \<Rightarrow> byte list" where
  "fdset_bytes P = map (\<lambda>b. \<Sum>i\<leftarrow>[0..<8]. if P (8 * b + i) then 2 ^ i else 0) [0..<128]"

definition select_result :: "nat list \<Rightarrow> byte list \<Rightarrow> 16 word \<Rightarrow> byte list" where
  "select_result chosen d m =
     fdset_bytes (\<lambda>fd. \<exists>j<length d div 8. (if j < length chosen then chosen ! j else 0) = fd \<and> poll_revents d j AND m \<noteq> 0)"

text \<open>The bytes of a set that are copied: one bit per descriptor up to \<open>n\<close>, 128 at most.\<close>

definition select_bytes :: "int \<Rightarrow> nat" where
  "select_bytes n =
     (let q = (if n + 7 < 0 then - ((- (n + 7)) div 8) else (n + 7) div 8) in if 0 \<le> q \<and> q \<le> 128 then nat q else 128)"

definition put_set :: "u64 \<Rightarrow> nat \<Rightarrow> byte list \<Rightarrow> surrogate \<Rightarrow> surrogate" where
  "put_set a n d s = (if a \<noteq> 0 then vm_write s a (take n d) else s)"

definition awake_select :: "(pid \<Rightarrow> pid option) \<Rightarrow> pid \<Rightarrow> int \<Rightarrow> u64 \<times> u64 \<times> u64 \<Rightarrow> nat list \<Rightarrow> wormhole \<Rightarrow> surrogate \<Rightarrow> awakening" where
  "awake_select tg my n ptrs chosen w s =
     (let v = collect tg my rpc_fsync_res (- EBADF) w; b = collect tg my rpc_read_buf None w in
      case b of
        Some p \<Rightarrow>
          (case ptrs of (pr, pw, px) \<Rightarrow>
            (let d = g_heap w p; c = select_bytes n;
                 s1 = put_set pr c (select_result chosen d 0x19) s;
                 s2 = put_set pw c (select_result chosen d 0x1C) s1;
                 s3 = put_set px c (select_result chosen d 0x1A) s2
             in (forget_buf tg my w, s3\<lparr>sg_ax := v\<rparr>, [Frees p])))
      | None \<Rightarrow> (forget_buf tg my w, s\<lparr>sg_ax := - EBADF\<rparr>, []))"

subsection \<open>Shared memory\<close>

text \<open>
  A detached segment: its pages are freed and the last segment of the guest takes its place.
  The memory pointers of the last segment's own slot stay as they are.
\<close>

definition detach_segment :: "nat \<Rightarrow> mattx_guest_info \<Rightarrow> mattx_guest_info" where
  "detach_segment d g =
     (let m = (dsm_map g)(d := (dsm_map g d)\<lparr>pages := (\<lambda>p. if p < MAX_DSM_PAGES then None else pages (dsm_map g d) p)\<rparr>)
      in g\<lparr>dsm_count := dsm_count g - 1, dsm_map := m(d := m (dsm_count g - 1))\<rparr>)"

definition segment_pages :: "mattx_dsm_mapping \<Rightarrow> nat list" where
  "segment_pages m = List.map_filter (pages m) [0..<MAX_DSM_PAGES]"

text \<open>In mode 2 the pages that are EXCLUSIVE here go to the home node first, if they can be packed.\<close>

definition dirty_pages :: "luck \<Rightarrow> mattx_dsm_mapping \<Rightarrow> nat list" where
  "dirty_pages l m = (if l_dsm_mode l = 2 \<and> l_mem l 0 then filter (\<lambda>p. page_states m p = 2) [0..<MAX_DSM_PAGES] else [])"

definition awake_shmdt :: "luck \<Rightarrow> (pid \<Rightarrow> pid option) \<Rightarrow> mattx_rpc_work \<Rightarrow> u64 \<Rightarrow> wormhole \<Rightarrow> surrogate \<Rightarrow> awakening" where
  "awake_shmdt l tg k a w s =
     (let my = k_local_pid k; e = answer_of tg my rpc_fsync_res (- EINTR) w;
          g = (case guest_of tg my (g_reg w) of Some i \<Rightarrow> if rpc_done (slots (g_reg w) i) then Some (slots (g_reg w) i) else None | None \<Rightarrow> None)
      in case (case g of Some g \<Rightarrow> map_option (Pair g) (scan (\<lambda>d. base_addr (dsm_map g d) = a) (dsm_count g)) | None \<Rightarrow> None) of
           None \<Rightarrow> (w, s\<lparr>sg_ax := e\<rparr>, [])
         | Some (g, d) \<Rightarrow>
            (let m = dsm_map g d; ps = dirty_pages l m in
             if \<exists>p\<in>set ps. pages m p = None then (w, s, [Crashes])
             else (upd_guest tg my (detach_segment d) w, s\<lparr>sg_ax := e\<rparr>,
               map Frees_page (segment_pages m) @
               (if g_links w (k_home_node k) then map (\<lambda>p. Flushes (k_home_node k) (k_orig_pid k) (m_shmid m) p (pages m p)) ps else []) @
               (if e = 0 \<and> 0 < m_size m \<and> l_has_mm l then [Unmaps a (m_size m)] else []))))"

text \<open>
  An attached segment becomes an empty area whose faults are intercepted, at the address the
  home node returned. The entry keeps what the slot's previous owner left in the page tables.
\<close>

definition attach_segment :: "u64 \<Rightarrow> int \<Rightarrow> int \<Rightarrow> mattx_guest_info \<Rightarrow> mattx_guest_info" where
  "attach_segment a len shmid g =
     (if dsm_count g < MAX_DSM_SEGMENTS then
        g\<lparr>dsm_count := dsm_count g + 1,
          dsm_map := (dsm_map g)(dsm_count g := (dsm_map g (dsm_count g))
            \<lparr>base_addr := a, m_size := of_int len, m_shmid := of_int shmid\<rparr>)\<rparr>
      else g)"

definition awake_shmat :: "luck \<Rightarrow> (pid \<Rightarrow> pid option) \<Rightarrow> mattx_rpc_work \<Rightarrow> int \<Rightarrow> wormhole \<Rightarrow> surrogate \<Rightarrow> awakening" where
  "awake_shmat l tg k shmid w s =
     (let my = k_local_pid k; e = answer_of tg my rpc_fsync_res (- EINTR) w; len = answer_of tg my rpc_lseek_res 0 w;
          b = answer_of tg my rpc_read_buf None w; w' = forget_buf tg my w
      in if e = 0 \<and> b \<noteq> None \<and> 0 < len then
           (if \<not> l_has_mm l then (w', s, [Crashes])
            else (case l_mmap l of
                Inl v \<Rightarrow> (w', s\<lparr>sg_ax := v\<rparr>, freed b)
              | Inr a \<Rightarrow>
                 (if l_vma l then
                    (case scan (\<lambda>i. Some (local_pid (slots (g_reg w') i)) = tg my) (cnt (g_reg w')) of
                       Some i \<Rightarrow> w'\<lparr>g_reg := upd_slot i (attach_segment a len shmid) (g_reg w')\<rparr>
                     | None \<Rightarrow> w')
                  else w', s\<lparr>sg_ax := uint a\<rparr>, freed b)))
         else (w', s\<lparr>sg_ax := e\<rparr>, freed b))"

subsection \<open>All calls\<close>

fun rpc_awaken :: "luck \<Rightarrow> (pid \<Rightarrow> pid option) \<Rightarrow> mattx_rpc_work \<Rightarrow> int \<Rightarrow> rpc_call \<Rightarrow> wormhole \<Rightarrow> surrogate \<Rightarrow> awakening" where
  "rpc_awaken l tg k rfd (R_lseek _ _ _) w s = awake_int (answer_of tg (k_local_pid k) rpc_lseek_res (- EINTR) w) w s"
| "rpc_awaken l tg k rfd (R_fsync _ _) w s = awake_int (answer_of tg (k_local_pid k) rpc_fsync_res (- EINTR) w) w s"
| "rpc_awaken l tg k rfd (R_statx _ _ _ a) w s = awake_statx tg (k_local_pid k) a w s"
| "rpc_awaken l tg k rfd (R_unlink _) w s = awake_int (collect tg (k_local_pid k) rpc_fsync_res (- EBADF) w) w s"
| "rpc_awaken l tg k rfd (R_connect _ _ _) w s = awake_int (collect tg (k_local_pid k) rpc_fsync_res (- EBADF) w) w s"
| "rpc_awaken l tg k rfd (R_bind _ _ _) w s = awake_int (collect tg (k_local_pid k) rpc_fsync_res (- EBADF) w) w s"
| "rpc_awaken l tg k rfd (R_listen _ _) w s = awake_int (collect tg (k_local_pid k) rpc_fsync_res (- EBADF) w) w s"
| "rpc_awaken l tg k rfd (R_sendto _ _ _ _) w s = awake_int (collect tg (k_local_pid k) rpc_fsync_res (- EBADF) w) w s"
| "rpc_awaken l tg k rfd (R_read _ a _) w s = awake_read tg (k_local_pid k) a w s"
| "rpc_awaken l tg k rfd (R_write _ _ _) w s = awake_int (collect tg (k_local_pid k) rpc_fsync_res (- 1) w) w s"
| "rpc_awaken l tg k rfd (R_recvfrom _ a _ _) w s = awake_read tg (k_local_pid k) a w s"
| "rpc_awaken l tg k rfd (R_accept _ _ ua ul) w s = awake_accept l tg k rfd ua ul w s"
| "rpc_awaken l tg k rfd (R_poll a _ n _) w s = awake_poll tg (k_local_pid k) a n w s"
| "rpc_awaken l tg k rfd (R_select n ptrs _ _ chosen) w s = awake_select tg (k_local_pid k) n ptrs chosen w s"
| "rpc_awaken l tg k rfd (R_epoll_create _) w s = awake_epoll_create l k rfd w s"
| "rpc_awaken l tg k rfd (R_epoll_ctl _ _ _ _) w s = awake_int (answer_of tg (k_local_pid k) rpc_fsync_res (- EINTR) w) w s"
| "rpc_awaken l tg k rfd (R_epoll_wait _ _ _ a) w s = awake_buf tg (k_local_pid k) (put_events a) w s"
| "rpc_awaken l tg k rfd (R_sockname _ _ a lp) w s = awake_buf tg (k_local_pid k) (put_sockname a lp) w s"
| "rpc_awaken l tg k rfd (R_setsockopt _ _ _ _ _) w s = awake_int (answer_of tg (k_local_pid k) rpc_fsync_res (- EINTR) w) w s"
| "rpc_awaken l tg k rfd (R_getsockopt _ _ _ v lp) w s = awake_buf tg (k_local_pid k) (put_sockopt v lp) w s"
| "rpc_awaken l tg k rfd (R_sendmsg _ _ _) w s = awake_int (answer_of tg (k_local_pid k) rpc_fsync_res (- EINTR) w) w s"
| "rpc_awaken l tg k rfd (R_recvmsg _ p _) w s = awake_buf tg (k_local_pid k) (put_msg l p) w s"
| "rpc_awaken l tg k rfd (R_uname a) w s = awake_buf tg (k_local_pid k) (put_struct a 390 True) w s"
| "rpc_awaken l tg k rfd (R_prlimit64 _ _ _ old) w s = awake_buf tg (k_local_pid k) (put_struct old RLIMIT_SIZE (old \<noteq> 0)) w s"
| "rpc_awaken l tg k rfd (R_prctl _ _ _ _ _) w s = awake_int (answer_of tg (k_local_pid k) rpc_fsync_res (- EINTR) w) w s"
| "rpc_awaken l tg k rfd (R_fio _ _ _ a ptr _) w s = awake_buf tg (k_local_pid k) (put_fio ptr a) w s"
| "rpc_awaken l tg k rfd (R_pread64 _ a _ _) w s = awake_pread tg (k_local_pid k) a w s"
| "rpc_awaken l tg k rfd (R_statfs _ a) w s = awake_buf tg (k_local_pid k) (put_meta a) w s"
| "rpc_awaken l tg k rfd (R_fstatfs _ a) w s = awake_buf tg (k_local_pid k) (put_meta a) w s"
| "rpc_awaken l tg k rfd (R_newfstatat _ _ _ a) w s = awake_buf tg (k_local_pid k) (put_meta a) w s"
| "rpc_awaken l tg k rfd (R_faccessat2 _ _ _ _) w s = awake_buf tg (k_local_pid k) (put_meta 0) w s"
| "rpc_awaken l tg k rfd (R_readlink _ a _) w s = awake_buf tg (k_local_pid k) (put_meta a) w s"
| "rpc_awaken l tg k rfd (R_readlinkat _ _ a _) w s = awake_buf tg (k_local_pid k) (put_meta a) w s"
| "rpc_awaken l tg k rfd (R_getdents64 _ a _) w s = awake_buf tg (k_local_pid k) (put_meta a) w s"
| "rpc_awaken l tg k rfd (R_pipe2 a _) w s = awake_pipe2 l tg k a w s"
| "rpc_awaken l tg k rfd (R_shmget _ _ _) w s = awake_int (answer_of tg (k_local_pid k) rpc_fsync_res (- EINTR) w) w s"
| "rpc_awaken l tg k rfd (R_shmctl _ _ a) w s = awake_buf tg (k_local_pid k) (put_struct a 128 (a \<noteq> 0)) w s"
| "rpc_awaken l tg k rfd (R_shmdt a) w s = awake_shmdt l tg k a w s"
| "rpc_awaken l tg k rfd (R_shmat i _ _) w s = awake_shmat l tg k i w s"
| "rpc_awaken l tg k rfd (R_open _ _ _) w s = awake_new_fd l k rfd w s"
| "rpc_awaken l tg k rfd (R_socket _ _ _) w s = awake_new_fd l k rfd w s"
| "rpc_awaken l tg k rfd (R_dup _ _ _) w s = awake_new_fd l k rfd w s"

text \<open>
  The last part of the worker, once the wait is over with outcome \<open>x\<close>, for a caller \<open>s\<close> that has
  stopped: the result is handed over and the caller thawed. One that is being recalled stays frozen.
\<close>

definition safe_to_wake :: "(pid \<Rightarrow> pid option) \<Rightarrow> pid \<Rightarrow> guests \<Rightarrow> bool" where
  "safe_to_wake tg my r = (case guest_of tg my r of None \<Rightarrow> True | Some i \<Rightarrow> \<not> is_migrating (slots r i))"

definition rpc_result ::
    "luck \<Rightarrow> (pid \<Rightarrow> pid option) \<Rightarrow> mattx_rpc_work \<Rightarrow> wait_outcome \<Rightarrow> wormhole \<Rightarrow> surrogate \<Rightarrow> awakening" where
  "rpc_result l tg k x w s =
     (case x of Answered rfd \<Rightarrow> rpc_awaken l tg k rfd (k_call k) w s
      | Aborted_by_recall \<Rightarrow> (w, s\<lparr>sg_ax := - EINTR\<rparr>, [])
      | Gone \<Rightarrow> (w, s, []))"

definition rpc_finish ::
    "luck \<Rightarrow> (pid \<Rightarrow> pid option) \<Rightarrow> mattx_rpc_work \<Rightarrow> wait_outcome \<Rightarrow> wormhole \<Rightarrow> surrogate \<Rightarrow> awakening" where
  "rpc_finish l tg k x w s =
     (case rpc_result l tg k x w s of (w', s', e) \<Rightarrow>
        (w', s', e @ (if Crashes \<notin> set e \<and> safe_to_wake tg (k_local_pid k) (g_reg w') then [Conts (k_local_pid k)] else [])))"

section \<open>The worker\<close>

text \<open>
  The worker as a machine. Between its steps other handlers run, so every step is given a view:
  the task list, the outcome of its allocations, the registry with the buffers, the caller's task if it still
  exists, whether that is stopped with a stack, and whether it is exiting. A waiting worker looks
  every 100 ms without a limit; after an outcome it gives the caller 2001 looks, a millisecond
  apart, to be stopped.
\<close>

datatype (plugins only: size code) phase =
  Fresh mattx_rpc_work | Waiting mattx_rpc_work | Stopping mattx_rpc_work wait_outcome nat | Over

record view =
  v_tg :: "pid \<Rightarrow> pid option"
  v_luck :: luck
  v_world :: wormhole
  v_task :: "surrogate option"
  v_halted :: bool
  v_exiting :: bool

fun worker_step :: "view \<Rightarrow> phase \<Rightarrow> phase \<times> wormhole \<times> surrogate option \<times> worker_effect list" where
  "worker_step v (Fresh k) =
     (case rpc_send (v_luck v) (v_tg v) (v_task v) k (v_world v) of (k', w, e) \<Rightarrow> (Waiting k', w, v_task v, e))"
| "worker_step v (Waiting k) =
     (case rpc_look (v_tg v) (k_local_pid k) (g_reg (v_world v)) of (r, x) \<Rightarrow>
        ((case x of None \<Rightarrow> Waiting k | Some Gone \<Rightarrow> Over | Some y \<Rightarrow> Stopping k y 0),
         (v_world v)\<lparr>g_reg := r\<rparr>, v_task v, []))"
| "worker_step v (Stopping k x n) =
     (case v_task v of None \<Rightarrow> (Over, v_world v, None, [])
      | Some s \<Rightarrow>
         if v_halted v then (case rpc_finish (v_luck v) (v_tg v) k x (v_world v) s of (w, s', e) \<Rightarrow> (Over, w, Some s', e))
         else (if v_exiting v \<or> 2000 < Suc n then Over else Stopping k x (Suc n), v_world v, Some s, []))"
| "worker_step v Over = (Over, v_world v, v_task v, [])"

text \<open>A whole run: the views are what the worker finds, whatever the others did in between.\<close>

fun mattx_rpc_worker :: "view list \<Rightarrow> phase \<Rightarrow> phase \<times> worker_effect list" where
  "mattx_rpc_worker [] ph = (ph, [])"
| "mattx_rpc_worker (v # vs) ph =
     (case worker_step v ph of (ph', _, _, e) \<Rightarrow> (case mattx_rpc_worker vs ph' of (ph'', e') \<Rightarrow> (ph'', e @ e')))"

declare mattx_rpc_worker.simps(2) [simp del] worker_step.simps [simp del]

end
