(* ===== verification/Mx_Probe.thy ===== *)
theory Mx_Probe
  imports Mx_Vfs Mx_Worker
begin

text \<open>
  The hooks on the system calls of guests, first part (\<^verbatim>\<open>mattx_hooks.c\<close>): what they share, and the
  calls on files and sockets. A hook has two handlers. The entry handler looks at the arguments of a call,
  saves what it needs, and makes a call that must not run here fail by spoiling an argument; the
  return handler stops the caller and queues the worker of \<open>Mx_Worker\<close>.

  The saved data lives in a structure that the kernel hands to both handlers and does
  not clear: an entry handler that returns early leaves in it what an earlier call has saved.
  The handlers here take it as an argument, with what it held before.
\<close>

section \<open>The caller\<close>

record hook_config =
  cfg_mattxfs :: bool
  cfg_file_io :: bool
  cfg_network_io :: bool
  cfg_hpc_libs :: bool

text \<open>The calling thread; \<open>cl_dying\<close>: a fatal signal is pending or it is exiting.\<close>

record hook_caller =
  cl_pid :: pid
  cl_tgid :: pid
  cl_comm :: string
  cl_dying :: bool
  cl_task :: surrogate

datatype (plugins only: size code) hook_effect = Freezes pid | Queues mattx_rpc_work

text \<open>The registry, the result register if the handler sets it, and the effects of a return handler.\<close>

type_synonym hook_result = "guests \<times> int option \<times> hook_effect list"

definition keep :: "guests \<Rightarrow> hook_result" where
  "keep r = (r, None, [])"

abbreviation (input) int32 :: "u64 \<Rightarrow> int" where
  "int32 x \<equiv> sint (ucast x :: u32)"

definition file_at :: "surrogate \<Rightarrow> int \<Rightarrow> filep option" where
  "file_at s fd = (case sg_tab s of None \<Rightarrow> None
     | Some t \<Rightarrow> if 0 \<le> fd \<and> nat fd < fd_max t then fd_file t (nat fd) else None)"

text \<open>
  A descriptor belongs to the home node if it is a fake file, a pipe or a socket, or not open
  here at all. \<open>out\<close> is what the result variable held before.
\<close>

definition is_wormhole_fd :: "surrogate \<Rightarrow> int \<Rightarrow> int \<Rightarrow> bool \<times> int" where
  "is_wormhole_fd s fd out =
     (if 0 \<le> fd then
        (case file_at s fd of
           Some f \<Rightarrow> (case sg_info s f of
               Some i \<Rightarrow> (True, sint (i_remote_fd i))
             | None \<Rightarrow> if sg_ipc s f then (True, fd) else (False, out))
         | None \<Rightarrow> (True, fd))
      else (False, out))"

text \<open>A string of the caller, \<open>n\<close> bytes at most; None is a fault.\<close>

definition user_path :: "surrogate \<Rightarrow> u64 \<Rightarrow> nat \<Rightarrow> string option" where
  "user_path s a n =
     (let bs = peek a (vm_count s a n) (sg_mem s) in
      if 0 \<in> set bs \<or> length bs = n then Some (map (\<lambda>b. char_of (unat b)) (takeWhile (\<lambda>b. b \<noteq> 0) bs)) else None)"

abbreviation (input) PATH_ROOM :: nat where "PATH_ROOM \<equiv> 255"

definition fast_path :: "hook_config \<Rightarrow> hook_caller \<Rightarrow> u64 \<Rightarrow> bool" where
  "fast_path cfg c a \<longleftrightarrow> cfg_hpc_libs cfg \<and> a \<noteq> 0 \<and>
     (case user_path (cl_task c) a PATH_ROOM of Some p \<Rightarrow> p \<noteq> [] \<and> is_hpc_local_lib (Some p) | None \<Rightarrow> False)"

text \<open>
  What the return handlers have in common. The entry of the caller's process is looked for, marked
  as waiting (\<open>mark\<close>), and the work queued, unless the caller is \<open>dying\<close>, there is no
  memory, or nothing is to be queued (no \<open>call\<close>). Some set the result to \<^verbatim>\<open>-EINTR\<close> meanwhile.
\<close>

definition waiting_mark :: "mattx_guest_info \<Rightarrow> mattx_guest_info" where
  "waiting_mark g = g\<lparr>rpc_done := False\<rparr>"

definition forward_with ::
    "(mattx_guest_info \<Rightarrow> mattx_guest_info) \<Rightarrow> bool \<Rightarrow> bool \<Rightarrow> bool \<Rightarrow> hook_caller \<Rightarrow> rpc_call option \<Rightarrow> guests \<Rightarrow> hook_result" where
  "forward_with mark eintr dying mem c call r =
     (case scan (\<lambda>i. local_pid (slots r i) = cl_tgid c) (cnt r) of
        None \<Rightarrow> keep r
      | Some i \<Rightarrow>
         (let g = slots r i; r' = upd_slot i mark r in
          case call of
            None \<Rightarrow> keep r'
          | Some k \<Rightarrow>
             if home_node g = - 1 \<or> dying \<or> \<not> mem then keep r'
             else (r', if eintr then Some (- EINTR) else None,
                   [Freezes (cl_pid c),
                    Queues \<lparr>k_local_pid = cl_pid c, k_orig_pid = orig_pid g, k_home_node = home_node g, k_call = k\<rparr>])))"

text \<open>Most look for a dying caller after the entry was marked, the others before.\<close>

definition forward :: "bool \<Rightarrow> hook_caller \<Rightarrow> rpc_call option \<Rightarrow> guests \<Rightarrow> hook_result" where
  "forward mem c call r = forward_with waiting_mark False (cl_dying c) mem c call r"

definition forward_early :: "bool \<Rightarrow> bool \<Rightarrow> hook_caller \<Rightarrow> rpc_call option \<Rightarrow> guests \<Rightarrow> hook_result" where
  "forward_early eintr mem c call r = (if cl_dying c then keep r else forward_with waiting_mark eintr False mem c call r)"

section \<open>Files\<close>

datatype (plugins only: size code) kretprobe_data = Open_data u64 int int bool   \<comment> \<open>path, flags, mode, fast path\<close>

text \<open>\<open>how\<close> is the structure with flags and mode that the kernel function gets.\<close>

definition entry_handler_openat ::
    "hook_config \<Rightarrow> guests \<Rightarrow> hook_caller \<Rightarrow> (u64 \<times> u64) option \<Rightarrow> sysregs \<Rightarrow> kretprobe_data \<Rightarrow> sysregs \<times> kretprobe_data" where
  "entry_handler_openat cfg r c how regs data =
     (if \<not> is_guest_process (cl_pid c) r \<or> cfg_mattxfs cfg then (regs, data)
      else (let a = r_si regs; fast = fast_path cfg c a;
                fm = (case how of Some (f, m) \<Rightarrow> (int32 f, int32 m) | None \<Rightarrow> (0, 0))
            in (if fast then regs else regs\<lparr>r_si := 0\<rparr>, Open_data a (fst fm) (snd fm) fast)))"

text \<open>With forwarding of file calls switched off the caller is left with the failure of its spoiled call.\<close>

fun ret_handler_openat :: "hook_config \<Rightarrow> bool \<Rightarrow> hook_caller \<Rightarrow> kretprobe_data \<Rightarrow> guests \<Rightarrow> hook_result" where
  "ret_handler_openat cfg mem c (Open_data a fl md fast) r =
     (if \<not> is_guest_process (cl_pid c) r \<or> cfg_mattxfs cfg \<or> fast then keep r
      else (case user_path (cl_task c) a PATH_ROOM of
          Some p \<Rightarrow>
            if p = [] then keep r
            else forward_with waiting_mark False (cl_dying c \<or> \<not> cfg_file_io cfg) mem c (Some (R_open p fl md)) r
        | None \<Rightarrow> keep r))"

datatype (plugins only: size code) dup_kretprobe_data = Dup_data int int bool int  \<comment> \<open>old, new, fake file?, remote\<close>

definition entry_handler_dup :: "bool \<Rightarrow> hook_config \<Rightarrow> guests \<Rightarrow> hook_caller \<Rightarrow> sysregs \<Rightarrow> dup_kretprobe_data \<Rightarrow> sysregs \<times> dup_kretprobe_data" where
  "entry_handler_dup is_dup2 cfg r c regs data =
     (if \<not> is_guest_process (cl_pid c) r \<or> cfg_mattxfs cfg then (regs, data)
      else (let old = int32 (r_di regs); new = (if is_dup2 then int32 (r_si regs) else - 1) in
        case file_at (cl_task c) old of
          None \<Rightarrow> (regs, Dup_data old new False (- 1))
        | Some f \<Rightarrow>
           (case sg_info (cl_task c) f of
              Some i \<Rightarrow> (regs\<lparr>r_di := - 1\<rparr>, Dup_data old new True (sint (i_remote_fd i)))
            | None \<Rightarrow> (regs, Dup_data old new False (- 1)))))"

text \<open>\<open>flags\<close>: the flags of an open file.\<close>

fun ret_handler_dup :: "(filep \<Rightarrow> u32) \<Rightarrow> bool \<Rightarrow> hook_caller \<Rightarrow> dup_kretprobe_data \<Rightarrow> guests \<Rightarrow> hook_result" where
  "ret_handler_dup flags mem c (Dup_data old new worm rfd) r =
     (if \<not> is_guest_process (cl_pid c) r \<or> \<not> worm then keep r
      else forward mem c (Some (R_dup (of_int rfd) (of_int new)
        (case file_at (cl_task c) old of Some f \<Rightarrow> flags f | None \<Rightarrow> 2))) r)"

datatype (plugins only: size code) unlinkat_kretprobe_data = Unlink_data u64

definition entry_handler_unlinkat ::
    "hook_config \<Rightarrow> guests \<Rightarrow> hook_caller \<Rightarrow> sysregs \<Rightarrow> unlinkat_kretprobe_data \<Rightarrow> sysregs \<times> unlinkat_kretprobe_data" where
  "entry_handler_unlinkat cfg r c regs data =
     (if \<not> is_guest_process (cl_pid c) r \<or> cfg_mattxfs cfg then (regs, data)
      else (regs\<lparr>r_si := 0\<rparr>, Unlink_data (r_si regs)))"

fun ret_handler_unlinkat :: "hook_config \<Rightarrow> bool \<Rightarrow> hook_caller \<Rightarrow> unlinkat_kretprobe_data \<Rightarrow> guests \<Rightarrow> hook_result" where
  "ret_handler_unlinkat cfg mem c (Unlink_data a) r =
     (if \<not> is_guest_process (cl_pid c) r \<or> cfg_mattxfs cfg then keep r
      else (case user_path (cl_task c) a PATH_ROOM of
          Some p \<Rightarrow> if p = [] then keep r else forward mem c (Some (R_unlink p)) r
        | None \<Rightarrow> keep r))"

text \<open>Reads and writes leave fake files to their own operations, and keep the number of the descriptor.\<close>

datatype (plugins only: size code) rw_kretprobe_data = Rw_data int u64 nat bool    \<comment> \<open>fd, buffer, count, forwarded?\<close>

definition rw_wormhole :: "surrogate \<Rightarrow> int \<Rightarrow> bool" where
  "rw_wormhole s fd \<longleftrightarrow> 0 \<le> fd \<and> (case file_at s fd of Some f \<Rightarrow> sg_info s f = None \<and> sg_ipc s f | None \<Rightarrow> True)"

definition entry_rw :: "guests \<Rightarrow> hook_caller \<Rightarrow> sysregs \<Rightarrow> rw_kretprobe_data \<Rightarrow> sysregs \<times> rw_kretprobe_data" where
  "entry_rw r c regs data =
     (if \<not> is_guest_process (cl_pid c) r then (regs, data)
      else (let fd = int32 (r_di regs); worm = rw_wormhole (cl_task c) fd in
        (if worm then regs\<lparr>r_di := - 1\<rparr> else regs, Rw_data fd (r_si regs) (unat (r_dx regs)) worm)))"

definition entry_handler_read where "entry_handler_read = entry_rw"
definition entry_handler_write where "entry_handler_write = entry_rw"

fun ret_handler_read :: "bool \<Rightarrow> hook_caller \<Rightarrow> rw_kretprobe_data \<Rightarrow> guests \<Rightarrow> hook_result" where
  "ret_handler_read mem c (Rw_data fd buf n worm) r =
     (if \<not> is_guest_process (cl_pid c) r \<or> \<not> worm then keep r else forward mem c (Some (R_read (of_int fd) buf n)) r)"

fun ret_handler_write :: "bool \<Rightarrow> hook_caller \<Rightarrow> rw_kretprobe_data \<Rightarrow> guests \<Rightarrow> hook_result" where
  "ret_handler_write mem c (Rw_data fd buf n worm) r =
     (if \<not> is_guest_process (cl_pid c) r \<or> \<not> worm then keep r else forward mem c (Some (R_write (of_int fd) buf n)) r)"

text \<open>
  One pair of handlers serves seeking, syncing and the extended status. The saved fields are the
  descriptor, whether the call is forwarded, and those of the three calls.
\<close>

datatype fileio_probe = Probe_lseek | Probe_fsync | Probe_statx

record fileio_kretprobe_data =
  fi_fd :: int
  fi_wormhole :: bool
  fi_offset :: int
  fi_whence :: int
  fi_datasync :: int
  fi_mask :: u32
  fi_flags :: int
  fi_buf :: u64

definition entry_handler_fileio ::
    "fileio_probe \<Rightarrow> hook_config \<Rightarrow> guests \<Rightarrow> hook_caller \<Rightarrow> sysregs \<Rightarrow> fileio_kretprobe_data \<Rightarrow> sysregs \<times> fileio_kretprobe_data" where
  "entry_handler_fileio kind cfg r c regs data =
     (if \<not> is_guest_process (cl_tgid c) r then (regs, data\<lparr>fi_wormhole := False\<rparr>)
      else (let fd = int32 (r_di regs);
                worm = (case file_at (cl_task c) fd of
                    Some f \<Rightarrow> if sg_info (cl_task c) f \<noteq> None then \<not> cfg_mattxfs cfg else sg_ipc (cl_task c) f
                  | None \<Rightarrow> False);
                d = data\<lparr>fi_fd := fd, fi_wormhole := worm\<rparr>
            in if worm then
                 (regs\<lparr>r_di := - 1\<rparr>,
                  (case kind of
                     Probe_lseek \<Rightarrow> d\<lparr>fi_offset := sint (r_si regs), fi_whence := int32 (r_dx regs)\<rparr>
                   | Probe_fsync \<Rightarrow> d\<lparr>fi_datasync := int32 (r_si regs)\<rparr>
                   | Probe_statx \<Rightarrow> d\<lparr>fi_flags := int32 (r_dx regs), fi_mask := ucast (r_r10 regs), fi_buf := r_r8 regs\<rparr>))
               else (regs, d)))"

definition ret_handler_fileio :: "fileio_probe \<Rightarrow> bool \<Rightarrow> hook_caller \<Rightarrow> fileio_kretprobe_data \<Rightarrow> guests \<Rightarrow> hook_result" where
  "ret_handler_fileio kind mem c d r =
     (if \<not> fi_wormhole d then keep r
      else forward_early True mem c (Some (case kind of
          Probe_lseek \<Rightarrow> R_lseek (of_int (fi_fd d)) (fi_offset d) (fi_whence d)
        | Probe_fsync \<Rightarrow> R_fsync (of_int (fi_fd d)) (fi_datasync d)
        | Probe_statx \<Rightarrow> R_statx (of_int (fi_fd d)) (fi_mask d) (of_int (fi_flags d)) (fi_buf d))) r)"

section \<open>Sockets\<close>

datatype (plugins only: size code) socket_kretprobe_data = Socket_data int int int

definition entry_handler_socket ::
    "hook_config \<Rightarrow> guests \<Rightarrow> hook_caller \<Rightarrow> sysregs \<Rightarrow> socket_kretprobe_data \<Rightarrow> sysregs \<times> socket_kretprobe_data" where
  "entry_handler_socket cfg r c regs data =
     (if \<not> is_guest_process (cl_pid c) r \<or> \<not> cfg_network_io cfg then (regs, data)
      else (regs\<lparr>r_di := - 1\<rparr>, Socket_data (int32 (r_di regs)) (int32 (r_si regs)) (int32 (r_dx regs))))"

fun ret_handler_socket :: "hook_config \<Rightarrow> bool \<Rightarrow> hook_caller \<Rightarrow> socket_kretprobe_data \<Rightarrow> guests \<Rightarrow> hook_result" where
  "ret_handler_socket cfg mem c (Socket_data d t p) r =
     (if \<not> is_guest_process (cl_pid c) r \<or> \<not> cfg_network_io cfg then keep r else forward mem c (Some (R_socket d t p)) r)"

text \<open>
  Calls on a descriptor share their test: the descriptor is that of the home node, and the call
  is spoiled. The structures begin with the descriptor's number and end with the test and the
  remote number, with the saved arguments in between.
\<close>

datatype (plugins only: size code) 'a fd_data = Fd_data int 'a bool int

definition entry_on_fd :: "hook_config \<Rightarrow> guests \<Rightarrow> hook_caller \<Rightarrow> sysregs \<Rightarrow> 'a \<Rightarrow> 'a fd_data \<Rightarrow> sysregs \<times> 'a fd_data" where
  "entry_on_fd cfg r c regs args data =
     (if \<not> is_guest_process (cl_pid c) r \<or> \<not> cfg_network_io cfg then (regs, data)
      else (let fd = int32 (r_di regs) in
        case is_wormhole_fd (cl_task c) fd (- 1) of (worm, rfd) \<Rightarrow>
          (if worm then regs\<lparr>r_di := - 1\<rparr> else regs, Fd_data fd args worm rfd)))"

fun ret_on_fd :: "(int \<Rightarrow> 'a \<Rightarrow> rpc_call) \<Rightarrow> hook_config \<Rightarrow> bool \<Rightarrow> hook_caller \<Rightarrow> 'a fd_data \<Rightarrow> guests \<Rightarrow> hook_result" where
  "ret_on_fd call cfg mem c (Fd_data fd args worm rfd) r =
     (if \<not> is_guest_process (cl_pid c) r \<or> \<not> cfg_network_io cfg \<or> \<not> worm then keep r
      else forward mem c (Some (call rfd args)) r)"

text \<open>An address of the caller, if its length is sane and it can be read.\<close>

definition fetch_sockaddr :: "surrogate \<Rightarrow> u64 \<Rightarrow> int \<Rightarrow> sockaddr \<times> int" where
  "fetch_sockaddr s a n =
     (if 0 < n \<and> n \<le> int SOCKADDR_SIZE \<and> vm_full s a (nat n)
      then (vm_read zeros s a (nat n) @ replicate (SOCKADDR_SIZE - nat n) 0, n)
      else (replicate SOCKADDR_SIZE 0, 0))"

definition entry_handler_connect ::
    "hook_config \<Rightarrow> guests \<Rightarrow> hook_caller \<Rightarrow> sysregs \<Rightarrow> (sockaddr \<times> int) fd_data \<Rightarrow> sysregs \<times> (sockaddr \<times> int) fd_data" where
  "entry_handler_connect cfg r c regs = entry_on_fd cfg r c regs (fetch_sockaddr (cl_task c) (r_si regs) (int32 (r_dx regs)))"

definition ret_handler_connect :: "hook_config \<Rightarrow> bool \<Rightarrow> hook_caller \<Rightarrow> (sockaddr \<times> int) fd_data \<Rightarrow> guests \<Rightarrow> hook_result" where
  "ret_handler_connect = ret_on_fd (\<lambda>rfd (a, n). R_connect (of_int rfd) a n)"

definition entry_handler_bind ::
    "hook_config \<Rightarrow> guests \<Rightarrow> hook_caller \<Rightarrow> sysregs \<Rightarrow> (sockaddr \<times> int) fd_data \<Rightarrow> sysregs \<times> (sockaddr \<times> int) fd_data" where
  "entry_handler_bind cfg r c regs = entry_on_fd cfg r c regs (fetch_sockaddr (cl_task c) (r_si regs) (int32 (r_dx regs)))"

definition ret_handler_bind :: "hook_config \<Rightarrow> bool \<Rightarrow> hook_caller \<Rightarrow> (sockaddr \<times> int) fd_data \<Rightarrow> guests \<Rightarrow> hook_result" where
  "ret_handler_bind = ret_on_fd (\<lambda>rfd (a, n). R_bind (of_int rfd) a n)"

definition entry_handler_listen :: "hook_config \<Rightarrow> guests \<Rightarrow> hook_caller \<Rightarrow> sysregs \<Rightarrow> int fd_data \<Rightarrow> sysregs \<times> int fd_data" where
  "entry_handler_listen cfg r c regs = entry_on_fd cfg r c regs (int32 (r_si regs))"

definition ret_handler_listen :: "hook_config \<Rightarrow> bool \<Rightarrow> hook_caller \<Rightarrow> int fd_data \<Rightarrow> guests \<Rightarrow> hook_result" where
  "ret_handler_listen = ret_on_fd (\<lambda>rfd b. R_listen (of_int rfd) b)"

definition entry_handler_sendto ::
    "hook_config \<Rightarrow> guests \<Rightarrow> hook_caller \<Rightarrow> sysregs \<Rightarrow> (u64 \<times> nat \<times> int) fd_data \<Rightarrow> sysregs \<times> (u64 \<times> nat \<times> int) fd_data" where
  "entry_handler_sendto cfg r c regs = entry_on_fd cfg r c regs (r_si regs, unat (r_dx regs), int32 (r_r10 regs))"

definition ret_handler_sendto :: "hook_config \<Rightarrow> bool \<Rightarrow> hook_caller \<Rightarrow> (u64 \<times> nat \<times> int) fd_data \<Rightarrow> guests \<Rightarrow> hook_result" where
  "ret_handler_sendto = ret_on_fd (\<lambda>rfd (a, n, fl). R_sendto (of_int rfd) a n fl)"

definition entry_handler_recvfrom ::
    "hook_config \<Rightarrow> guests \<Rightarrow> hook_caller \<Rightarrow> sysregs \<Rightarrow> (u64 \<times> nat \<times> int) fd_data \<Rightarrow> sysregs \<times> (u64 \<times> nat \<times> int) fd_data" where
  "entry_handler_recvfrom cfg r c regs = entry_on_fd cfg r c regs (r_si regs, unat (r_dx regs), int32 (r_r10 regs))"

definition ret_handler_recvfrom :: "hook_config \<Rightarrow> bool \<Rightarrow> hook_caller \<Rightarrow> (u64 \<times> nat \<times> int) fd_data \<Rightarrow> guests \<Rightarrow> hook_result" where
  "ret_handler_recvfrom = ret_on_fd (\<lambda>rfd (a, n, fl). R_recvfrom (of_int rfd) a n fl)"

definition entry_handler_accept ::
    "hook_config \<Rightarrow> guests \<Rightarrow> hook_caller \<Rightarrow> sysregs \<Rightarrow> (u64 \<times> u64 \<times> int) fd_data \<Rightarrow> sysregs \<times> (u64 \<times> u64 \<times> int) fd_data" where
  "entry_handler_accept cfg r c regs = entry_on_fd cfg r c regs (r_si regs, r_dx regs, int32 (r_r10 regs))"

definition ret_handler_accept :: "hook_config \<Rightarrow> bool \<Rightarrow> hook_caller \<Rightarrow> (u64 \<times> u64 \<times> int) fd_data \<Rightarrow> guests \<Rightarrow> hook_result" where
  "ret_handler_accept = ret_on_fd (\<lambda>rfd (a, l, fl). R_accept (of_int rfd) fl a l)"

section \<open>Polling\<close>

fun get_pollfds :: "nat \<Rightarrow> byte list \<Rightarrow> mattx_pollfd list" where
  "get_pollfds 0 b = []"
| "get_pollfds (Suc n) b =
     \<lparr>p_fd = un32 b, p_events = ucast (un32 (drop 4 b)), p_revents = ucast (drop_bit 16 (un32 (drop 4 b)))\<rparr> # get_pollfds n (drop 8 b)"

definition translate_pollfd :: "surrogate \<Rightarrow> mattx_pollfd \<Rightarrow> bool \<times> mattx_pollfd" where
  "translate_pollfd s p = (case is_wormhole_fd s (sint (p_fd p)) (- 1) of (worm, rfd) \<Rightarrow>
     (worm, if worm \<and> rfd \<noteq> - 1 then p\<lparr>p_fd := of_int rfd\<rparr> else p))"

datatype (plugins only: size code) poll_kretprobe_data = Poll_data u64 int int bool "mattx_pollfd list"

text \<open>A poll of at most 16 entries is forwarded as a whole as soon as one of them belongs to the home node.\<close>

definition entry_handler_poll ::
    "hook_config \<Rightarrow> guests \<Rightarrow> hook_caller \<Rightarrow> sysregs \<Rightarrow> poll_kretprobe_data \<Rightarrow> sysregs \<times> poll_kretprobe_data" where
  "entry_handler_poll cfg r c regs data =
     (if \<not> is_guest_process (cl_pid c) r \<or> \<not> cfg_network_io cfg then (regs, data)
      else (let ufds = r_di regs; n = int32 (r_si regs); t = int32 (r_dx regs); k = 8 * nat n in
        if 0 < n \<and> n \<le> 16 \<and> vm_full (cl_task c) ufds k then
          (let ps = map (translate_pollfd (cl_task c)) (get_pollfds (nat n) (vm_read zeros (cl_task c) ufds k));
               worm = (\<exists>p\<in>set ps. fst p)
           in (if worm then regs\<lparr>r_di := 0\<rparr> else regs, Poll_data ufds n t worm (map snd ps)))
        else (regs, Poll_data ufds n t False [])))"

fun ret_handler_poll :: "hook_config \<Rightarrow> bool \<Rightarrow> hook_caller \<Rightarrow> poll_kretprobe_data \<Rightarrow> guests \<Rightarrow> hook_result" where
  "ret_handler_poll cfg mem c (Poll_data ufds n t worm ps) r =
     (if \<not> is_guest_process (cl_pid c) r \<or> \<not> cfg_network_io cfg \<or> \<not> worm then keep r
      else forward mem c (Some (R_poll ufds ps n t)) r)"

datatype (plugins only: size code) select_kretprobe_data = Select_data int "u64 \<times> u64 \<times> u64" u64   \<comment> \<open>n, sets, time\<close>

definition entry_handler_select ::
    "hook_config \<Rightarrow> guests \<Rightarrow> hook_caller \<Rightarrow> sysregs \<Rightarrow> select_kretprobe_data \<Rightarrow> sysregs \<times> select_kretprobe_data" where
  "entry_handler_select cfg r c regs data =
     (if \<not> is_guest_process (cl_pid c) r \<or> \<not> cfg_network_io cfg then (regs, data)
      else (regs\<lparr>r_di := - 1\<rparr>, Select_data (int32 (r_di regs)) (r_si regs, r_dx regs, r_r10 regs) (r_r8 regs)))"

definition entry_handler_pselect6 where "entry_handler_pselect6 = entry_handler_select"

text \<open>A set of the caller; what cannot be read of it is zero.\<close>

definition fetch_set :: "surrogate \<Rightarrow> nat \<Rightarrow> u64 \<Rightarrow> byte list" where
  "fetch_set s n a = (if a \<noteq> 0 then vm_read zeros s a n @ replicate (128 - n) 0 else replicate 128 0)"

text \<open>Seconds and a fraction of \<open>1000 * unit\<close> per second, in milliseconds; no limit without a time.\<close>

definition c_div :: "int \<Rightarrow> int \<Rightarrow> int" where
  "c_div a b = (if a < 0 then - ((- a) div b) else a div b)"

definition fetch_ms :: "surrogate \<Rightarrow> int \<Rightarrow> u64 \<Rightarrow> int" where
  "fetch_ms s unit a =
     (if a \<noteq> 0 \<and> vm_full s a 16 then
        (let b = vm_read zeros s a 16 in sint (word_of_int (sint (un64 b) * 1000 + c_div (sint (un64 (drop 8 b))) unit) :: u32))
      else - 1)"

definition ret_select :: "int \<Rightarrow> hook_config \<Rightarrow> bool \<Rightarrow> hook_caller \<Rightarrow> select_kretprobe_data \<Rightarrow> guests \<Rightarrow> hook_result" where
  "ret_select unit cfg mem c data r =
     (case data of Select_data n (pr, pw, px) t \<Rightarrow>
       (if \<not> is_guest_process (cl_pid c) r \<or> \<not> cfg_network_io cfg then keep r
        else (let k = select_bytes n; get = fetch_set (cl_task c) k in
          forward mem c (Some (R_select n (pr, pw, px) (get pr, get pw, get px) (fetch_ms (cl_task c) unit t) [])) r)))"

definition ret_handler_select where "ret_handler_select = ret_select 1000"
definition ret_handler_pselect6 where "ret_handler_pselect6 = ret_select 1000000"

end
