(* ===== verification/Mx_Awake.thy ===== *)
theory Mx_Awake
  imports Mx_Worker
begin

text \<open>
  What the worker behind an intercepted call achieves: it ends once it has an outcome, thaws its
  own caller at most once and exactly when it should, and frees the buffers of the reply it has
  taken from the registry. A forwarded \<^verbatim>\<open>pread64\<close>, followed from the worker through the home node
  and back, is a local one.
\<close>

section \<open>What an awakening leaves alone\<close>

definition released :: "worker_effect list \<Rightarrow> nat multiset" where
  "released e = mset (List.map_filter (\<lambda>x. case x of Frees p \<Rightarrow> Some p | _ \<Rightarrow> None) e)"

lemma released_simps [simp]:
  "released [] = {#}" "released (xs @ ys) = released xs + released ys"
  "released (x # xs) = (case x of Frees p \<Rightarrow> {#p#} | _ \<Rightarrow> {#}) + released xs"
  by (simp_all add: released_def List.map_filter_def split: worker_effect.splits)

text \<open>The buffers an entry refers to.\<close>

definition opt_mset :: "'a option \<Rightarrow> 'a multiset" where
  "opt_mset b = (case b of Some p \<Rightarrow> {#p#} | None \<Rightarrow> {#})"

definition pinned :: "mattx_guest_info \<Rightarrow> nat multiset" where
  "pinned g = opt_mset (rpc_read_buf g) + opt_mset (rpc_statx_buf g)"

definition holding :: "(pid \<Rightarrow> pid option) \<Rightarrow> pid \<Rightarrow> wormhole \<Rightarrow> nat multiset" where
  "holding tg my w = collect tg my pinned {#} w"

text \<open>
  An awakening is tidy: nobody's identity or recall flag changes, nobody is thawed on the way,
  and what the entry of a guest with a complete reply no longer holds has been freed, once.
\<close>

definition tidy :: "(pid \<Rightarrow> pid option) \<Rightarrow> pid \<Rightarrow> wormhole \<Rightarrow> awakening \<Rightarrow> bool" where
  "tidy tg my w x = (case x of (w', s', e) \<Rightarrow>
     guest_of tg my (g_reg w') = guest_of tg my (g_reg w) \<and>
     (\<forall>i. is_migrating (slots (g_reg w') i) = is_migrating (slots (g_reg w) i)) \<and>
     (\<forall>p. Conts p \<notin> set e) \<and>
     (check_rpc_done tg my (g_reg w) \<longrightarrow> holding tg my w = holding tg my w' + released e))"

lemma released_freed [simp]: "released (freed b) = opt_mset b" "Conts p \<notin> set (freed b)"
  by (simp_all add: freed_def opt_mset_def split: option.split)

lemma same_upd_slot:
  assumes "\<And>g. same_guest g (f g)"
  shows "guest_of tg my (upd_slot i f r) = guest_of tg my r"
    and "is_migrating (slots (upd_slot i f r) j) = is_migrating (slots r j)"
proof -
  have "local_pid (slots (upd_slot i f r) j) = local_pid (slots r j)" "cnt (upd_slot i f r) = cnt r" for j
    using assms by (auto simp: upd_slot_def same_guest_def)
  then show "guest_of tg my (upd_slot i f r) = guest_of tg my r" by (simp add: guest_of_def)
  show "is_migrating (slots (upd_slot i f r) j) = is_migrating (slots r j)"
    using assms by (auto simp: upd_slot_def same_guest_def)
qed

lemma upd_guest_of:
  assumes "\<And>g. same_guest g (f g)"
  shows "guest_of tg my (g_reg (upd_guest tg my f w)) = guest_of tg my (g_reg w)"
    and "is_migrating (slots (g_reg (upd_guest tg my f w)) i) = is_migrating (slots (g_reg w) i)"
  using same_upd_slot [of f] assms by (simp_all add: upd_guest_def split: option.split)

lemma holding_upd:
  assumes "\<And>g. same_guest g (f g)"
  shows "holding tg my (upd_guest tg my f w) = collect tg my (\<lambda>g. pinned (f g)) {#} w"
  using upd_guest_of(1) [OF assms, of tg my w]
  by (auto simp: holding_def collect_def upd_guest_def upd_slot_def split: option.splits)

text \<open>Two ways of giving up a buffer: read while done, or read in any case.\<close>

lemma tidy_same: "(\<And>p. Conts p \<notin> set e) \<Longrightarrow> released e = {#} \<Longrightarrow> tidy tg my w (w, s, e)"
  by (simp add: tidy_def)

lemma same_forget: "same_guest g (g\<lparr>rpc_read_buf := None\<rparr>)"
  by (simp add: same_guest_def)

lemma tidy_take:
  assumes "\<And>p. Conts p \<notin> set e" and "released e = opt_mset (collect tg my rpc_read_buf None w)"
  shows "tidy tg my w (forget_buf tg my w, s, e)"
  using assms
  by (auto simp: tidy_def forget_buf_def upd_guest_of [OF same_forget] holding_upd [OF same_forget] check_rpc_done_def
      holding_def [of tg my w] collect_def pinned_def opt_mset_def split: option.splits)

lemma tidy_take_done:
  assumes "\<And>p. Conts p \<notin> set e" and "released e = opt_mset (answer_of tg my rpc_read_buf None w)"
  shows "tidy tg my w (forget_buf tg my w, s, e)"
  using assms
  by (auto simp: tidy_def forget_buf_def upd_guest_of [OF same_forget] holding_upd [OF same_forget] check_rpc_done_def
      holding_def [of tg my w] collect_def answer_of_def pinned_def opt_mset_def split: option.splits)

text \<open>Further changes of an entry that keep its identity and its buffers.\<close>

lemma tidy_upd_slot:
  assumes "tidy tg my w (w', s, e)" and same: "\<And>g. same_guest g (f g)" and "\<And>g. pinned (f g) = pinned g"
  shows "tidy tg my w (w'\<lparr>g_reg := upd_slot i f (g_reg w')\<rparr>, s', e)"
proof -
  note g = same_upd_slot(1) [of f, OF same] and m = same_upd_slot(2) [of f, OF same]
  have h: "holding tg my (w'\<lparr>g_reg := upd_slot i f (g_reg w')\<rparr>) = holding tg my w'"
  proof -
    have "pinned (slots (upd_slot i f (g_reg w')) j) = pinned (slots (g_reg w') j)" for j
      using assms(3) by (simp add: upd_slot_def)
    then show ?thesis by (simp add: holding_def collect_def g split: option.split)
  qed
  show ?thesis using assms(1) same by (simp add: tidy_def g m h same_guest_def)
qed

lemma tidy_int: "tidy tg my w (awake_int v w s)"
  by (simp add: awake_int_def tidy_same)

lemma tidy_buf: "tidy tg my w (awake_buf tg my put w s)"
  by (auto simp: awake_buf_def Let_def split: prod.split intro!: tidy_take_done)

lemma tidy_read: "tidy tg my w (awake_read tg my a w s)"
  unfolding awake_read_def Let_def by (rule prod.split [THEN iffD2]) (intro allI impI tidy_take; simp)

lemma tidy_pread: "tidy tg my w (awake_pread tg my a w s)"
  unfolding awake_pread_def Let_def by (rule prod.split [THEN iffD2]) (intro allI impI tidy_take_done; simp)

lemma tidy_statx: "tidy tg my w (awake_statx tg my a w s)"
proof -
  have same: "same_guest g (g\<lparr>rpc_statx_buf := None\<rparr>)" for g by (simp add: same_guest_def)
  show ?thesis unfolding awake_statx_def Let_def
    by (rule prod.split [THEN iffD2])
      (auto simp: tidy_def upd_guest_of [OF same] holding_upd [OF same] check_rpc_done_def holding_def [of tg my w]
        collect_def answer_of_def pinned_def opt_mset_def split: option.splits)
qed

lemma new_proxy_quiet:
  assumes "new_proxy l k rfd s = (ok, s', e)"
  shows "released e = {#}" "Conts p \<notin> set e"
  using assms by (auto simp: new_proxy_def split: if_splits sum.splits option.splits)

lemma tidy_accept: "tidy tg (k_local_pid k) w (awake_accept l tg k rfd ua ul w s)"
proof -
  obtain ok s' e where n: "new_proxy l k rfd s = (ok, s', e)" using prod_cases3 by blast
  show ?thesis using new_proxy_quiet [OF n] by (auto simp: awake_accept_def n intro!: tidy_take tidy_same)
qed

lemma tidy_epoll_create: "tidy tg my w (awake_epoll_create l k rfd w s)"
proof -
  obtain ok s' e where n: "new_proxy l k rfd s = (ok, s', e)" using prod_cases3 by blast
  show ?thesis using new_proxy_quiet [OF n] by (auto simp: awake_epoll_create_def n intro!: tidy_same)
qed

lemma twin_quiet:
  assumes "twin l k rs js n t info = (ds, t', info', e)"
  shows "released e = {#} \<and> Conts p \<notin> set e"
  using assms
  by (induction l k rs js n t info arbitrary: ds t' info' e rule: twin.induct)
    (auto split: if_splits sum.splits prod.splits)

lemma tidy_pipe2: "tidy tg (k_local_pid k) w (awake_pipe2 l tg k a w s)"
proof (cases "answer_of tg (k_local_pid k) rpc_read_buf None w")
  case None
  then show ?thesis by (simp add: awake_pipe2_def Let_def) (rule tidy_take_done; simp add: opt_mset_def)
next
  case (Some p)
  show ?thesis
  proof (cases "sg_tab s")
    case None
    then show ?thesis using Some by (auto simp: awake_pipe2_def Let_def intro!: tidy_take_done)
  next
    case t: (Some t)
    obtain ds t' info e where x: "twin l k [int_at 0 (g_heap w p), int_at 1 (g_heap w p)] [3..<fd_max t] 0 t (sg_info s) = (ds, t', info, e)"
      using prod_cases4 by blast
    from twin_quiet [OF x] Some t x show ?thesis
      by (auto simp: awake_pipe2_def Let_def split: prod.split intro!: tidy_take_done)
  qed
qed

lemma tidy_new_fd: "tidy tg my w (awake_new_fd l k rfd w s)"
  unfolding awake_new_fd_def
  by (cases "reserve s") (auto simp: Let_def split: sum.split option.split intro!: tidy_same)

lemma tidy_poll: "tidy tg my w (awake_poll tg my a n w s)"
  by (auto simp: awake_poll_def Let_def opt_mset_def split: prod.split option.split intro!: tidy_take)

lemma tidy_select: "tidy tg my w (awake_select tg my n ptrs chosen w s)"
  by (auto simp: awake_select_def Let_def opt_mset_def split: prod.split option.split intro!: tidy_take)

lemma released_pages: "released (map Frees_page xs) = {#}" "released (map (\<lambda>p. Flushes n o' i p (f p)) xs) = {#}"
  by (induction xs) auto

lemma tidy_shmdt: "tidy tg (k_local_pid k) w (awake_shmdt l tg k a w s)"
proof -
  have same: "same_guest g (detach_segment d g)" "pinned (detach_segment d g) = pinned g" for d g
    by (simp_all add: detach_segment_def same_guest_def pinned_def Let_def)
  have upd: "tidy tg my w (upd_guest tg my (detach_segment d) w, s', e)" if "\<And>p. Conts p \<notin> set e" "released e = {#}" for my d s' e
    using tidy_upd_slot [OF tidy_same [OF that], where f = "detach_segment d"] tidy_same [OF that] same
    by (auto simp: upd_guest_def split: option.split)
  show ?thesis
    unfolding awake_shmdt_def Let_def
    by (auto simp: released_pages split: option.split intro!: tidy_same upd)
qed

lemma tidy_shmat:
  assumes "Crashes \<notin> set (snd (snd (awake_shmat l tg k i w s)))"
  shows "tidy tg (k_local_pid k) w (awake_shmat l tg k i w s)"
proof -
  have same: "same_guest g (attach_segment a n j g)" "pinned (attach_segment a n j g) = pinned g" for a n j g
    by (simp_all add: attach_segment_def same_guest_def pinned_def)
  have take: "tidy tg my w (forget_buf tg my w, s', freed b)" if "answer_of tg my rpc_read_buf None w = b" for my s' b
    by (rule tidy_take_done) (simp_all add: that)
  from assms show ?thesis
    unfolding awake_shmat_def Let_def
    by (auto split: if_splits option.split sum.split intro!: take tidy_upd_slot [OF take] same)
qed

text \<open>A crash on the way is no awakening.\<close>

lemma tidy_awaken:
  assumes "rpc_awaken l tg k rfd c w s = x" "Crashes \<notin> set (snd (snd x))"
  shows "tidy tg (k_local_pid k) w x"
  using assms(2) unfolding assms(1) [symmetric]
  by (cases c; simp only: rpc_awaken.simps;
      intro tidy_int tidy_buf tidy_read tidy_pread tidy_statx tidy_accept tidy_epoll_create tidy_pipe2 tidy_new_fd
      tidy_poll tidy_select tidy_shmdt tidy_shmat; assumption?)

section \<open>Thawing\<close>

lemma finish_tidy:
  assumes "rpc_finish l tg k x w s = (w', s', e)" and "Crashes \<notin> set e"
  obtains e0 where "tidy tg (k_local_pid k) w (w', s', e0)"
    and "e = e0 @ (if safe_to_wake tg (k_local_pid k) (g_reg w) then [Conts (k_local_pid k)] else [])"
proof -
  obtain w1 s1 e1 where r: "rpc_result l tg k x w s = (w1, s1, e1)" by (rule prod_cases3)
  from assms have e: "w' = w1" "s' = s1" "Crashes \<notin> set e1"
      "e = e1 @ (if safe_to_wake tg (k_local_pid k) (g_reg w1) then [Conts (k_local_pid k)] else [])"
    by (auto simp: rpc_finish_def r split: if_splits)
  have t: "tidy tg (k_local_pid k) w (w1, s1, e1)"
  proof (cases x)
    case (Answered rfd)
    show ?thesis by (rule tidy_awaken [OF r [unfolded rpc_result_def Answered, simplified]]) (simp add: e(3))
  qed (use r in \<open>auto simp: rpc_result_def intro!: tidy_same\<close>)
  then have "safe_to_wake tg (k_local_pid k) (g_reg w1) = safe_to_wake tg (k_local_pid k) (g_reg w)"
    by (simp add: tidy_def safe_to_wake_def split: option.split)
  with e t show ?thesis by (intro that [of e1]) simp_all
qed

text \<open>
  Whatever the call was and whatever its reply, a stopped caller is thawed when its result has been
  handed over, exactly if it is not being recalled.
\<close>

lemma worker_wakes:
  assumes "rpc_finish l tg k x w s = (w', s', e)" and "Crashes \<notin> set e"
  shows "filter (\<lambda>y. \<exists>p. y = Conts p) e =
    (case guest_of tg (k_local_pid k) (g_reg w) of
       Some i \<Rightarrow> if is_migrating (slots (g_reg w) i) then [] else [Conts (k_local_pid k)]
     | None \<Rightarrow> [Conts (k_local_pid k)])"
proof -
  obtain e0 where t: "tidy tg (k_local_pid k) w (w', s', e0)"
    and e: "e = e0 @ (if safe_to_wake tg (k_local_pid k) (g_reg w) then [Conts (k_local_pid k)] else [])"
    by (rule finish_tidy [OF assms])
  have "filter (\<lambda>y. \<exists>p. y = Conts p) e0 = []" using t by (auto simp: tidy_def filter_empty_conv)
  then show ?thesis by (simp add: e safe_to_wake_def split: option.split)
qed

text \<open>
  C19. The worker frees what it takes. When the guest's entry is marked as done, the buffers of the
  reply that the entry no longer refers to after the awakening are the buffers that were freed, each once, for every
  kind of call.
\<close>

theorem awakening_frees_buffers:
  assumes "rpc_finish l tg k x w s = (w', s', e)" and "Crashes \<notin> set e"
    and "guest_of tg (k_local_pid k) (g_reg w) = Some i" and "rpc_done (slots (g_reg w) i)"
  shows "opt_mset (rpc_read_buf (slots (g_reg w) i)) + opt_mset (rpc_statx_buf (slots (g_reg w) i)) =
    opt_mset (rpc_read_buf (slots (g_reg w') i)) + opt_mset (rpc_statx_buf (slots (g_reg w') i)) + released e"
proof -
  obtain e0 where t: "tidy tg (k_local_pid k) w (w', s', e0)"
    and e: "e = e0 @ (if safe_to_wake tg (k_local_pid k) (g_reg w) then [Conts (k_local_pid k)] else [])"
    by (rule finish_tidy [OF assms(1,2)])
  have "guest_of tg (k_local_pid k) (g_reg w') = Some i" using t assms(3) by (simp add: tidy_def)
  moreover have "check_rpc_done tg (k_local_pid k) (g_reg w)" using assms(3,4) by (simp add: check_rpc_done_def)
  ultimately show ?thesis
    using t assms(3) by (simp add: tidy_def e holding_def collect_def pinned_def)
qed

section \<open>Whole runs\<close>

definition thaws :: "worker_effect list \<Rightarrow> pid list" where
  "thaws e = List.map_filter (\<lambda>x. case x of Conts p \<Rightarrow> Some p | _ \<Rightarrow> None) e"

lemma thaws_simps [simp]: "thaws (xs @ ys) = thaws xs @ thaws ys" "thaws [] = []"
  "thaws [x] = (case x of Conts p \<Rightarrow> [p] | _ \<Rightarrow> [])"
  by (simp_all add: thaws_def List.map_filter_def split: worker_effect.split)

abbreviation effects_of :: "phase \<times> wormhole \<times> surrogate option \<times> worker_effect list \<Rightarrow> worker_effect list" where
  "effects_of x \<equiv> snd (snd (snd x))"

lemma run_step:
  "fst (mattx_rpc_worker (v # vs) ph) = fst (mattx_rpc_worker vs (fst (worker_step v ph)))"
  "snd (mattx_rpc_worker (v # vs) ph) = effects_of (worker_step v ph) @ snd (mattx_rpc_worker vs (fst (worker_step v ph)))"
  by (simp_all add: mattx_rpc_worker.simps split: prod.split)

lemma over_is_over: "mattx_rpc_worker vs Over = (Over, [])"
  by (induction vs) (auto simp: mattx_rpc_worker.simps worker_step.simps)

lemma step_waiting:
  "\<exists>x. fst (worker_step v (Waiting k)) \<in> {Waiting k, Over, Stopping k x 0}" "effects_of (worker_step v (Waiting k)) = []"
  by (auto simp: worker_step.simps split: prod.splits option.splits wait_outcome.splits)

lemma step_stopping:
  "fst (worker_step v (Stopping k x n)) = Over \<or> fst (worker_step v (Stopping k x n)) = Stopping k x (Suc n) \<and> n < 2000"
  "fst (worker_step v (Stopping k x n)) \<noteq> Over \<Longrightarrow> effects_of (worker_step v (Stopping k x n)) = []"
  by (auto simp: worker_step.simps split: prod.splits option.splits)

lemma run_append:
  "fst (mattx_rpc_worker (xs @ ys) ph) = fst (mattx_rpc_worker ys (fst (mattx_rpc_worker xs ph)))"
  "snd (mattx_rpc_worker (xs @ ys) ph) = snd (mattx_rpc_worker xs ph) @ snd (mattx_rpc_worker ys (fst (mattx_rpc_worker xs ph)))"
  by (induction xs arbitrary: ph) (simp_all add: run_step)

lemma thaws_of_filter: "filter (\<lambda>y. \<exists>p. y = Conts p) e = map Conts ps \<Longrightarrow> thaws e = ps"
proof (induction e arbitrary: ps)
  case (Cons x e)
  then show ?case by (cases x; cases ps) (auto simp: thaws_def List.map_filter_simps)
qed (simp add: thaws_def List.map_filter_simps)

lemma thaws_of_tidy: "tidy tg my w (w', s', e) \<Longrightarrow> thaws e = []"
  by (auto simp: tidy_def thaws_def List.map_filter_def filter_empty_conv split: worker_effect.splits)

lemma thaws_awaken: "thaws (snd (snd (rpc_awaken l tg k rfd c w s))) = []"
proof (cases "\<exists>i a fl. c = R_shmat i a fl")
  case True
  then obtain i a fl where c: "c = R_shmat i a fl" by blast
  show ?thesis
  proof (cases "Crashes \<in> set (snd (snd (awake_shmat l tg k i w s)))")
    case True
    then show ?thesis by (auto simp: c awake_shmat_def Let_def thaws_def freed_def List.map_filter_def split: if_splits sum.splits option.splits)
  next
    case False
    obtain w' s' e where r: "awake_shmat l tg k i w s = (w', s', e)" by (rule prod_cases3)
    show ?thesis using thaws_of_tidy [OF tidy_shmat [OF False, unfolded r]] by (simp add: c r)
  qed
next
  case False
  have "tidy tg (k_local_pid k) w (rpc_awaken l tg k rfd c w s)"
    using False
    by (cases c; simp only: rpc_awaken.simps;
        (intro tidy_int tidy_buf tidy_read tidy_pread tidy_statx tidy_accept tidy_epoll_create tidy_pipe2 tidy_new_fd
          tidy_poll tidy_select tidy_shmdt)?; blast?)
  then show ?thesis by (cases "rpc_awaken l tg k rfd c w s") (auto dest: thaws_of_tidy)
qed

lemma thaws_finish: "thaws (snd (snd (rpc_finish l tg k x w s))) \<in> {[], [k_local_pid k]}"
proof -
  obtain w1 s1 e1 where r: "rpc_result l tg k x w s = (w1, s1, e1)" by (rule prod_cases3)
  have "thaws e1 = []"
    using r thaws_awaken [of l tg k _ "k_call k" w s]
    by (cases x) (auto simp: rpc_result_def, metis prod.sel(2))
  then show ?thesis by (simp add: rpc_finish_def r)
qed

text \<open>
  C36. Over a whole run, with any handlers running between its steps, the worker sends at most one
  SIGCONT, and that to the process whose call it serves.
\<close>

theorem worker_thaws_once: "thaws (snd (mattx_rpc_worker vs (Fresh k))) \<in> {[], [k_local_pid k]}"
proof -
  have stopping: "thaws (snd (mattx_rpc_worker vs (Stopping k x n))) \<in> {[], [k_local_pid k]}" for vs k x n
  proof (induction vs arbitrary: n)
    case (Cons v vs)
    show ?case
    proof (cases "fst (worker_step v (Stopping k x n)) = Over")
      case True
      have "thaws (effects_of (worker_step v (Stopping k x n))) \<in> {[], [k_local_pid k]}"
        using thaws_finish [of "v_luck v" "v_tg v" k x "v_world v"]
        by (auto simp: worker_step.simps split: prod.splits option.splits) (metis snd_conv)+
      then show ?thesis by (simp add: run_step True over_is_over)
    next
      case False
      then show ?thesis using Cons.IH [of "Suc n"] step_stopping [of v k x n] by (auto simp: run_step)
    qed
  qed simp
  have waiting: "thaws (snd (mattx_rpc_worker vs (Waiting k))) \<in> {[], [k_local_pid k]}" for vs k
  proof (induction vs)
    case (Cons v vs)
    obtain x where "fst (worker_step v (Waiting k)) \<in> {Waiting k, Over, Stopping k x 0}" using step_waiting(1) by blast
    then show ?case
      using Cons.IH stopping [of vs k x 0] step_waiting(2) [of v k] by (auto simp: run_step over_is_over)
  qed simp
  show ?thesis
  proof (cases vs)
    case (Cons v us)
    obtain k' w e where r: "rpc_send (v_luck v) (v_tg v) (v_task v) k (v_world v) = (k', w, e)" by (rule prod_cases3)
    then have "k_local_pid k' = k_local_pid k" "thaws e = []"
      by (auto simp: rpc_send_def thaws_def List.map_filter_def split: option.splits)
    then show ?thesis using waiting [of us k'] by (simp add: Cons run_step worker_step.simps r)
  qed simp
qed

text \<open>
  C37. The worker ends. As soon as one look of a waiting worker finds that its guest is gone, is being
  recalled or has its reply, 2001 further steps are enough, whatever they find.
\<close>

theorem worker_ends:
  assumes "case guest_of (v_tg v) (k_local_pid k) (g_reg (v_world v)) of None \<Rightarrow> True
     | Some i \<Rightarrow> is_migrating (slots (g_reg (v_world v)) i) \<or> rpc_done (slots (g_reg (v_world v)) i)"
    and "2001 \<le> length after"
  shows "fst (mattx_rpc_worker (before @ v # after) (Waiting k)) = Over"
proof -
  have stopping: "fst (mattx_rpc_worker vs (Stopping k x n)) = Over" if "2001 \<le> n + length vs" "n \<le> 2000" for vs k x n
    using that
  proof (induction vs arbitrary: n)
    case (Cons u vs)
    then show ?case using step_stopping(1) [of u k x n] by (auto simp: run_step over_is_over)
  qed simp
  show ?thesis
  proof (induction before)
    case Nil
    obtain r y where "rpc_look (v_tg v) (k_local_pid k) (g_reg (v_world v)) = (r, Some y)"
      using assms(1) by (cases "rpc_look (v_tg v) (k_local_pid k) (g_reg (v_world v))") (auto simp: rpc_look_def split: option.splits if_splits)
    then obtain x where "fst (worker_step v (Waiting k)) \<in> {Over, Stopping k x 0}"
      by (cases y) (auto simp: worker_step.simps)
    then show ?case using stopping [of 0 after k x] assms(2) by (auto simp: run_step over_is_over)
  next
    case (Cons u us)
    obtain x where "fst (worker_step u (Waiting k)) \<in> {Waiting k, Over, Stopping k x 0}" using step_waiting(1) by blast
    then show ?case using Cons.IH stopping [of 0 "us @ v # after" k x] assms(2) by (auto simp: run_step over_is_over)
  qed
qed

section \<open>An intercepted read is a read at home\<close>

lemma poke_nothing [simp]: "poke a [] m = m"
  by (simp add: poke_def)

text \<open>The last two steps of a worker whose read has been answered.\<close>

lemma awaken_read:
  assumes "k_call k = R_read fd a n" "guest_of tg (k_local_pid k) (g_reg w) = Some i"
    and "rpc_done (slots (g_reg w) i)" "\<not> is_migrating (slots (g_reg w) i)"
    and "rpc_read_bytes (slots (g_reg w) i) = m" "rpc_read_buf (slots (g_reg w) i) = (if 0 < m then Some p else None)"
    and "0 < m \<Longrightarrow> g_heap w p = d \<and> length d = nat m \<and> vm_full s a (nat m)"
    and "worker_step \<lparr>v_tg = tg, v_luck = l, v_world = w, v_task = so, v_halted = b, v_exiting = c\<rparr> (Waiting k) = (ph, w1, so1, e1)"
    and "worker_step \<lparr>v_tg = tg, v_luck = l', v_world = w1, v_task = Some s, v_halted = True, v_exiting = c'\<rparr> ph = (ph', w2, so2, e2)"
  shows "ph' = Over" "e2 = (if 0 < m then [Frees p] else []) @ [Conts (k_local_pid k)]"
    and "so2 = Some (s\<lparr>sg_mem := (if 0 < m then poke a d (sg_mem s) else sg_mem s), sg_ax := m\<rparr>)"
proof -
  have w1: "w1 = w" "ph = Stopping k (Answered (rpc_remote_fd (slots (g_reg w) i))) 0"
    using assms(2-4,8) by (auto simp: worker_step.simps rpc_look_def)
  have safe: "safe_to_wake tg (k_local_pid k) (g_reg (forget_buf tg (k_local_pid k) w))"
    using assms(2,4) by (simp add: safe_to_wake_def forget_buf_def upd_guest_of [OF same_forget])
  have "rpc_awaken l' tg k (rpc_remote_fd (slots (g_reg w) i)) (k_call k) w s =
      (forget_buf tg (k_local_pid k) w, s\<lparr>sg_mem := (if 0 < m then poke a d (sg_mem s) else sg_mem s), sg_ax := m\<rparr>,
       if 0 < m then [Frees p] else [])"
    using assms(1,2,5-7)
    by (auto simp: awake_read_def collect_def freed_def put_or_fault_def vm_write_def vm_full_def Let_def)
  then have "rpc_finish l' tg k (Answered (rpc_remote_fd (slots (g_reg w) i))) w s =
      (forget_buf tg (k_local_pid k) w, s\<lparr>sg_mem := (if 0 < m then poke a d (sg_mem s) else sg_mem s), sg_ax := m\<rparr>,
       (if 0 < m then [Frees p] else []) @ [Conts (k_local_pid k)])"
    by (simp add: rpc_finish_def rpc_result_def safe)
  then show "ph' = Over" "e2 = (if 0 < m then [Frees p] else []) @ [Conts (k_local_pid k)]"
    "so2 = Some (s\<lparr>sg_mem := (if 0 < m then poke a d (sg_mem s) else sg_mem s), sg_ax := m\<rparr>)"
    using assms(9) by (auto simp: w1 worker_step.simps)
qed

text \<open>
  From a read's work item to the caller: the request is sent, served at home, and answered, with any replies for
  other guests before and after; the worker finds the reply, and the caller has stopped.
\<close>

lemma answered_read:
  assumes "guest_of tg my (g_reg w) = Some i" and "guest_for home op (g_reg w) = Some i" and "\<not> is_migrating (slots (g_reg w) i)"
    and "rpc_send l tg so \<lparr>k_local_pid = my, k_orig_pid = op, k_home_node = home, k_call = R_read fd a n\<rparr> w =
           (k, w1, [Asks home (Ask (C_read op fd m))])"
    and "fd < 1000" and "native_file op (unat fd) h = Some f" and "h_links h from" and "h_mem env 0" and "h_mem env 1"
    and "h_read env (map_option t_cred (tasks h op)) f (min n 4096) (f_pos h f) = (ret, d, fpos)" and "nat ret \<le> length d"
    and "handle_sys_read_req env from (Some (op, fd, m)) h = (h', ds)" and "Send from r \<in> set ds"
    and "foreign home op p before" and "foreign home op p after"
    and "worker_step \<lparr>v_tg = tg, v_luck = l1, v_world = deliver_all (before @ [(Some p, home, r)] @ after) w1,
           v_task = so1, v_halted = b, v_exiting = c\<rparr> (Waiting k) = (ph, w2, so2, e2)"
    and "worker_step \<lparr>v_tg = tg, v_luck = l2, v_world = w2, v_task = Some s, v_halted = True, v_exiting = c'\<rparr> ph = (ph', w3, so3, e3)"
    and "vm_full s a (nat ret)"
  shows "so3 = Some (s\<lparr>sg_mem := poke a (take (nat ret) d) (sg_mem s), sg_ax := ret\<rparr>) \<and>
    f_pos h' f = (if 0 \<le> ret then fpos else f_pos h f) \<and> ph' = Over \<and>
    e3 = (if 0 < ret then [Frees p] else []) @ [Conts my]"
proof -
  have k: "k_call k = R_read fd a n" "k_local_pid k = my" and w1: "w1 = w" and m: "m = min n 4096"
    using assms(4) by (auto simp: rpc_send_def prepare_def split: if_splits)
  note ans = read_req_answer [OF assms(5-9) assms(10) [folded m] assms(12)]
  have r: "r = A_data MATTX_MSG_SYS_READ_REPLY op ret (err_of ret) (take (nat ret) d)"
    using assms(13) ans(1) by blast
  define v where "v = deliver_all before w"
  obtain w' e' where d': "deliver (Some p) home r v = (w', e')" by (meson surj_pair)
  note fr1 = foreign_frame [OF assms(14) assms(2), of tg my, folded v_def]
  have v: "guest_for home op (g_reg v) = Some i" "slots (g_reg v) i = slots (g_reg w) i" using fr1 by simp_all
  note own = deliver_read [OF v(1) d' [unfolded r]]
  have for3: "guest_for home op (g_reg w') = Some i" "guest_of tg my (g_reg w') = Some i"
    using fr1 assms(1) deliver_for [OF d'] by simp_all
  define u where "u = deliver_all after w'"
  note fr2 = foreign_frame [OF assms(15) for3(1), of tg my, folded u_def]
  have run: "deliver_all (before @ [(Some p, home, r)] @ after) w1 = u" by (simp add: u_def d' w1 v_def [symmetric])
  have entry: "slots (g_reg u) i = (store_read (Some p) ret (slots (g_reg w) i))\<lparr>rpc_done := True\<rparr>"
    using fr2 own(1) by (simp add: v(2))
  have g: "guest_of tg (k_local_pid k) (g_reg u) = Some i" using fr2 for3 by (simp add: k)
  have e: "rpc_done (slots (g_reg u) i)" "\<not> is_migrating (slots (g_reg u) i)" "rpc_read_bytes (slots (g_reg u) i) = ret"
      "rpc_read_buf (slots (g_reg u) i) = (if 0 < ret then Some p else None)"
    using assms(3) by (simp_all add: entry store_read_def)
  have heap: "0 < ret \<Longrightarrow> g_heap u p = take (nat ret) d \<and> length (take (nat ret) d) = nat ret \<and> vm_full s a (nat ret)"
    using fr2 own(2) assms(11,18) by simp
  note res = awaken_read [OF k(1) g e heap assms(16) [unfolded run] assms(17)]
  show ?thesis using res ans(2) by (cases "0 < ret") (auto simp: k)
qed

section \<open>Instances\<close>

text \<open>A process 501 of node 7 reads 10 bytes from descriptor 3 into its memory at 64.\<close>

definition demo_sur :: surrogate where
  "demo_sur = \<lparr>sg_mem = (\<lambda>_. 0), sg_acc = (\<lambda>_ n. n), sg_tab = None, sg_info = (\<lambda>_. None), sg_ipc = (\<lambda>_. False), sg_ax = - 4\<rparr>"

definition demo_luck :: luck where
  "demo_luck = \<lparr>l_mem = (\<lambda>_. True), l_junk = (\<lambda>_. 0), l_anon = (\<lambda>_. Inl (- 12)), l_mmap = Inl (- 12), l_vma = False,
     l_has_mm = True, l_dsm_mode = 1\<rparr>"

definition demo_work :: mattx_rpc_work where
  "demo_work = \<lparr>k_local_pid = 501, k_orig_pid = 100, k_home_node = 7, k_call = R_read 3 64 10\<rparr>"

definition demo_answered :: wormhole where
  "demo_answered = deliver_all [(Some 6, 7, A_data MATTX_MSG_SYS_READ_REPLY 100 2 0 [1, 2])] demo_worm"

definition demo_view :: "wormhole \<Rightarrow> view" where
  "demo_view w = \<lparr>v_tg = (\<lambda>_. None), v_luck = demo_luck, v_world = w, v_task = Some demo_sur, v_halted = True, v_exiting = False\<rparr>"

lemma demo_answered_entry:
  "guest_of (\<lambda>_. None) 501 (g_reg demo_answered) = Some 1" "g_heap demo_answered 6 = [1, 2]"
  "rpc_done (slots (g_reg demo_answered) 1)" "\<not> is_migrating (slots (g_reg demo_answered) 1)"
  "rpc_read_bytes (slots (g_reg demo_answered) 1) = 2" "rpc_read_buf (slots (g_reg demo_answered) 1) = Some 6"
proof -
  obtain w' e where d: "deliver (Some 6) 7 (A_data MATTX_MSG_SYS_READ_REPLY 100 2 0 [1, 2]) demo_worm = (w', e)" by (meson surj_pair)
  have w': "demo_answered = w'" by (simp only: demo_answered_def deliver_all.simps d fst_conv)
  note r = deliver_read [OF demo_worm_finds(2) d]
  show "guest_of (\<lambda>_. None) 501 (g_reg demo_answered) = Some 1" using deliver_for(2) [OF d] demo_worm_finds(1) by (simp add: w')
  show "g_heap demo_answered 6 = [1, 2]" using r(2) by (simp add: w')
  show "rpc_done (slots (g_reg demo_answered) 1)" "rpc_read_bytes (slots (g_reg demo_answered) 1) = 2"
    "rpc_read_buf (slots (g_reg demo_answered) 1) = Some 6" using r(1) by (simp_all add: w' store_read_def)
  show "\<not> is_migrating (slots (g_reg demo_answered) 1)"
    by (simp add: w' r(1) store_read_def demo_worm_def demo_guest_def del: One_nat_def)
qed

lemmas demo_answered_facts = demo_answered_entry demo_answered_entry [unfolded One_nat_def]

lemma demo_finish:
  "\<exists>w' s'. rpc_finish demo_luck (\<lambda>_. None) demo_work (Answered rfd) demo_answered demo_sur = (w', s', [Frees 6, Conts 501])"
proof -
  have "safe_to_wake (\<lambda>_. None) 501 (g_reg (forget_buf (\<lambda>_. None) 501 demo_answered))"
    by (simp add: safe_to_wake_def forget_buf_def upd_guest_of [OF same_forget] demo_answered_facts)
  moreover have "\<exists>s'. awake_read (\<lambda>_. None) 501 64 demo_answered demo_sur = (forget_buf (\<lambda>_. None) 501 demo_answered, s', [Frees 6])"
    by (simp add: awake_read_def collect_def demo_answered_facts freed_def split: prod.split)
  ultimately show ?thesis by (auto simp: rpc_finish_def rpc_result_def demo_work_def)
qed

theorem awakening_frees_buffers_witness:
  "\<exists>w' s' e. rpc_finish demo_luck (\<lambda>_. None) demo_work (Answered 0) demo_answered demo_sur = (w', s', e) \<and> 6 \<in># released e"
proof -
  obtain w' s' where f: "rpc_finish demo_luck (\<lambda>_. None) demo_work (Answered 0) demo_answered demo_sur = (w', s', [Frees 6, Conts 501])"
    using demo_finish by blast
  have g: "guest_of (\<lambda>_. None) (k_local_pid demo_work) (g_reg demo_answered) = Some 1" by (simp add: demo_work_def demo_answered_facts)
  from awakening_frees_buffers [OF f _ g demo_answered_entry(3)] f show ?thesis by auto
qed

theorem worker_ends_witness:
  "fst (mattx_rpc_worker ([demo_view demo_worm] @ demo_view demo_answered # replicate 2001 (demo_view demo_worm)) (Waiting demo_work)) = Over"
  by (rule worker_ends) (simp_all add: demo_view_def demo_work_def demo_answered_facts)

section \<open>What goes wrong\<close>

text \<open>
  A caller that has not stopped within the 2001 looks is left alone: its result is lost, and
  nobody thaws it when the pending SIGSTOP reaches it.
\<close>

lemma slow_stop_never_woken:
  assumes "\<forall>v\<in>set vs. v_task v \<noteq> None \<and> \<not> v_halted v \<and> \<not> v_exiting v" and "2001 \<le> length vs"
  shows "mattx_rpc_worker vs (Stopping k x 0) = (Over, [])"
proof -
  have "mattx_rpc_worker vs (Stopping k x n) = (Over, [])" if "2001 \<le> n + length vs" "n \<le> 2000" for n
    using assms(1) that
  proof (induction vs arbitrary: n)
    case (Cons v vs)
    have "fst (worker_step v (Stopping k x n)) = (if 2000 < Suc n then Over else Stopping k x (Suc n))"
      "effects_of (worker_step v (Stopping k x n)) = []"
      using Cons.prems(1) by (auto simp: worker_step.simps)
    then show ?case using Cons by (intro prod_eqI) (auto simp: run_step over_is_over)
  qed simp
  then show ?thesis using assms(2) by simp
qed

text \<open>A caller that does not stop at once is looked at again.\<close>

lemma still_stopping:
  assumes "\<forall>v\<in>set vs. v_task v \<noteq> None \<and> \<not> v_halted v \<and> \<not> v_exiting v" and "n + length vs \<le> 2000"
  shows "mattx_rpc_worker vs (Stopping k x n) = (Stopping k x (n + length vs), [])"
  using assms
proof (induction vs arbitrary: n)
  case (Cons v vs)
  have "fst (worker_step v (Stopping k x n)) = Stopping k x (Suc n)" "effects_of (worker_step v (Stopping k x n)) = []"
    using Cons.prems by (auto simp: worker_step.simps)
  then show ?case using Cons by (intro prod_eqI) (auto simp: run_step)
qed simp

text \<open>Without a reply the worker waits for ever: there is no limit on the looks, and the caller stays frozen.\<close>

lemma no_reply_no_end:
  assumes "\<forall>v\<in>set vs. \<exists>i. guest_of (v_tg v) (k_local_pid k) (g_reg (v_world v)) = Some i \<and>
     \<not> is_migrating (slots (g_reg (v_world v)) i) \<and> \<not> rpc_done (slots (g_reg (v_world v)) i)"
  shows "mattx_rpc_worker vs (Waiting k) = (Waiting k, [])"
  using assms
proof (induction vs)
  case (Cons v vs)
  then have "fst (worker_step v (Waiting k)) = Waiting k" "effects_of (worker_step v (Waiting k)) = []"
    by (auto simp: worker_step.simps rpc_look_def)
  then show ?case using Cons by (intro prod_eqI) (simp_all add: run_step)
qed simp

text \<open>A duplicate gets the slot its result register or the first free one names, never the descriptor the caller asked for.\<close>

lemma dup2_ignores_target: "rpc_awaken l tg k r (R_dup fd new fl) w s = rpc_awaken l tg k r (R_dup fd' new' fl') w s"
  by simp

text \<open>A write whose data cannot be read from the caller sends nothing, and succeeds.\<close>

lemma unsent_write_succeeds:
  assumes "guest_of tg (k_local_pid k) (g_reg w) = Some i" "k_call k = R_write fd a n" "\<not> vm_full s a (min n 4096)"
    and "rpc_send l tg (Some s) k w = (k', w', e)"
  shows "e = []" and "rpc_done (slots (g_reg w') i)" and "rpc_fsync_res (slots (g_reg w') i) = int (min n 4096)"
  using assms by (auto simp: rpc_send_def ask_write_def Let_def upd_slot_def split: if_splits)

text \<open>When a file was made but the caller has no descriptor table, its information is freed by the last close and once more.\<close>

lemma new_fd_double_free:
  assumes "0 \<le> r" "0 \<le> sint (word_of_int (sg_ax s) :: u32)" "l_mem l 0" "l_anon l 0 = Inr f" "sg_tab s = None"
  shows "awake_new_fd l k r w s = (w, s, [Drops f, Frees_info])"
  using assms by (simp add: awake_new_fd_def reserve_def Let_def)

text \<open>Without memory for the information the slot that was reserved stays taken, without a file.\<close>

lemma new_fd_leaks_slot:
  assumes "0 \<le> r" "sint (word_of_int (sg_ax s) :: u32) < 0" "\<not> l_mem l 0" "sg_tab s = Some t" "free_fd t = Some j"
  shows "awake_new_fd l k r w s = (w, s\<lparr>sg_tab := Some (t\<lparr>fd_open := (fd_open t)(j := True)\<rparr>)\<rparr>, [])"
  using assms by (simp add: awake_new_fd_def reserve_def Let_def)

text \<open>The peer's address of an accepted connection never reaches the caller.\<close>

lemma accept_no_address:
  "awake_accept l tg k r ua ul w s = (w', s', e) \<Longrightarrow> sg_mem s' = sg_mem s"
  by (auto simp: awake_accept_def new_proxy_def split: if_splits sum.splits option.splits)

text \<open>
  After a segment that is not the last has been detached, the pages of the moved segment are also
  those of the slot it left; the next segment that is attached takes that slot over with them.
  Either segment can free the pages of the other.
\<close>

lemma attach_after_detach_aliases:
  assumes "d < dsm_count g - 1" "dsm_count g \<le> MAX_DSM_SEGMENTS"
    and "g' = attach_segment a n j (detach_segment d g)"
  shows "pages (dsm_map g' d) = pages (dsm_map g (dsm_count g - 1))"
    and "pages (dsm_map g' (dsm_count g - 1)) = pages (dsm_map g (dsm_count g - 1))"
    and "dsm_count g' = dsm_count g"
  using assms by (auto simp: attach_segment_def detach_segment_def Let_def)

text \<open>A pipe that finds only one free slot fails, but the descriptor it has made stays.\<close>

lemma pipe2_half_done:
  assumes "answer_of tg (k_local_pid k) rpc_fsync_res (- EINTR) w = 0" "answer_of tg (k_local_pid k) rpc_read_buf None w = Some p"
    and "sg_tab s = Some t" "fd_max t = 4" "fd_file t 3 = None" "l_mem l 0" "l_anon l 0 = Inr f"
    and "awake_pipe2 l tg k a w s = (w', s', e)"
  shows "sg_ax s' = - EMFILE" and "map_option (\<lambda>t. fd_file t 3) (sg_tab s') = Some (Some f)"
proof -
  have "[3..<fd_max t] = [3]" by (simp add: assms(4))
  then show "sg_ax s' = - EMFILE" "map_option (\<lambda>t. fd_file t 3) (sg_tab s') = Some (Some f)"
    using assms by (auto simp: awake_pipe2_def Let_def install_def)
qed

end
