(* ===== verification/Mx_Hooks.thy ===== *)
theory Mx_Hooks
  imports Mx_Dsm Mx_Probe Mx_Awake
begin

text \<open>
  The hooks on the system calls of guests, second part (\<^verbatim>\<open>mattx_hooks.c\<close>): epoll, socket names, options
  and messages, process identity and signals, metadata of files, shared memory, and the
  corrected sleeps. Most of these test the process rather than the thread, look for a dying
  caller first, and keep the unspoiled call's result until the worker replaces it.
\<close>

section \<open>Epoll\<close>

datatype (plugins only: size code) epoll_create_kretprobe_data = Epoll_create_data int bool bool   \<comment> \<open>flags, guest?, test?\<close>

fun entry_handler_epoll_create ::
    "guests \<Rightarrow> hook_caller \<Rightarrow> sysregs \<Rightarrow> epoll_create_kretprobe_data \<Rightarrow> sysregs \<times> epoll_create_kretprobe_data" where
  "entry_handler_epoll_create r c regs (Epoll_create_data old _ _) =
     (let g = is_guest_process (cl_tgid c) r; t = (cl_comm c = ''epolltest'')
      in if g \<and> t then (regs\<lparr>r_di := - 1\<rparr>, Epoll_create_data (int32 (r_di regs)) g t) else (regs, Epoll_create_data old g t))"

fun ret_handler_epoll_create :: "bool \<Rightarrow> hook_caller \<Rightarrow> epoll_create_kretprobe_data \<Rightarrow> guests \<Rightarrow> hook_result" where
  "ret_handler_epoll_create mem c (Epoll_create_data fl g t) r =
     (if \<not> g \<or> \<not> t then keep r else forward mem c (Some (R_epoll_create fl)) r)"

text \<open>
  The calls that go by the process: an entry handler saves the descriptor, the call's arguments
  and, if the descriptor belongs to the home node, its remote number, and spoils the call. The
  remote number is not cleared before; \<open>Fd_data\<close> is descriptor, arguments, test, remote number.
\<close>

fun entry_ghost :: "guests \<Rightarrow> hook_caller \<Rightarrow> sysregs \<Rightarrow> 'a \<Rightarrow> 'a fd_data \<Rightarrow> sysregs \<times> 'a fd_data" where
  "entry_ghost r c regs args (Fd_data fd0 args0 _ rfd0) =
     (if \<not> is_guest_process (cl_tgid c) r then (regs, Fd_data fd0 args0 False rfd0)
      else (let fd = int32 (r_di regs) in
        case is_wormhole_fd (cl_task c) fd rfd0 of (worm, rfd) \<Rightarrow>
          if worm then (regs\<lparr>r_di := - 1\<rparr>, Fd_data fd args True rfd) else (regs, Fd_data fd args0 False rfd)))"

fun ret_ghost :: "(int \<Rightarrow> int \<Rightarrow> 'a \<Rightarrow> rpc_call) \<Rightarrow> bool \<Rightarrow> hook_caller \<Rightarrow> 'a fd_data \<Rightarrow> guests \<Rightarrow> hook_result" where
  "ret_ghost call mem c (Fd_data fd args worm rfd) r =
     (if \<not> worm then keep r else forward_early True mem c (Some (call fd rfd args)) r)"

text \<open>The epoll calls go by the local number of the epoll descriptor, not by the remote one.\<close>

definition entry_handler_epoll_ctl ::
    "guests \<Rightarrow> hook_caller \<Rightarrow> sysregs \<Rightarrow> (int \<times> int \<times> u64) fd_data \<Rightarrow> sysregs \<times> (int \<times> int \<times> u64) fd_data" where
  "entry_handler_epoll_ctl r c regs = entry_ghost r c regs (int32 (r_si regs), int32 (r_dx regs), r_r10 regs)"

definition ret_handler_epoll_ctl :: "bool \<Rightarrow> hook_caller \<Rightarrow> (int \<times> int \<times> u64) fd_data \<Rightarrow> guests \<Rightarrow> hook_result" where
  "ret_handler_epoll_ctl = ret_ghost (\<lambda>epfd _ (eop, fd, ev). R_epoll_ctl epfd eop fd ev)"

definition entry_handler_epoll_wait ::
    "guests \<Rightarrow> hook_caller \<Rightarrow> sysregs \<Rightarrow> (u64 \<times> int \<times> int) fd_data \<Rightarrow> sysregs \<times> (u64 \<times> int \<times> int) fd_data" where
  "entry_handler_epoll_wait r c regs = entry_ghost r c regs (r_si regs, int32 (r_dx regs), int32 (r_r10 regs))"

fun ret_handler_epoll_wait :: "bool \<Rightarrow> hook_caller \<Rightarrow> (u64 \<times> int \<times> int) fd_data \<Rightarrow> guests \<Rightarrow> hook_result" where
  "ret_handler_epoll_wait mem c (Fd_data epfd (ev, n, t) worm rfd) r =
     (if \<not> worm \<or> cl_dying c then keep r
      else forward_with (\<lambda>g. (waiting_mark g)\<lparr>rpc_read_buf := None\<rparr>) True False mem c (Some (R_epoll_wait epfd n t ev)) r)"

section \<open>Socket names, options and messages\<close>

definition entry_handler_sockname ::
    "guests \<Rightarrow> hook_caller \<Rightarrow> sysregs \<Rightarrow> (u64 \<times> u64) fd_data \<Rightarrow> sysregs \<times> (u64 \<times> u64) fd_data" where
  "entry_handler_sockname r c regs = entry_ghost r c regs (r_si regs, r_dx regs)"

definition ret_handler_sockname :: "bool \<Rightarrow> bool \<Rightarrow> hook_caller \<Rightarrow> (u64 \<times> u64) fd_data \<Rightarrow> guests \<Rightarrow> hook_result" where
  "ret_handler_sockname peer = ret_ghost (\<lambda>_ rfd (a, l). R_sockname peer (of_int rfd) a l)"

definition entry_handler_sockopt ::
    "guests \<Rightarrow> hook_caller \<Rightarrow> sysregs \<Rightarrow> (int \<times> int \<times> u64 \<times> u64) fd_data \<Rightarrow> sysregs \<times> (int \<times> int \<times> u64 \<times> u64) fd_data" where
  "entry_handler_sockopt r c regs = entry_ghost r c regs (int32 (r_si regs), int32 (r_dx regs), r_r10 regs, r_r8 regs)"

definition ret_handler_sockopt :: "bool \<Rightarrow> bool \<Rightarrow> hook_caller \<Rightarrow> (int \<times> int \<times> u64 \<times> u64) fd_data \<Rightarrow> guests \<Rightarrow> hook_result" where
  "ret_handler_sockopt is_set = ret_ghost (\<lambda>_ rfd (lv, name, v, l).
     if is_set then R_setsockopt (of_int rfd) lv name v (int32 l) else R_getsockopt (of_int rfd) lv name v l)"

definition entry_handler_msg ::
    "guests \<Rightarrow> hook_caller \<Rightarrow> sysregs \<Rightarrow> (u64 \<times> int) fd_data \<Rightarrow> sysregs \<times> (u64 \<times> int) fd_data" where
  "entry_handler_msg r c regs = entry_ghost r c regs (r_si regs, int32 (r_dx regs))"

definition ret_handler_msg :: "bool \<Rightarrow> bool \<Rightarrow> hook_caller \<Rightarrow> (u64 \<times> int) fd_data \<Rightarrow> guests \<Rightarrow> hook_result" where
  "ret_handler_msg sending = ret_ghost (\<lambda>_ rfd (p, fl). if sending then R_sendmsg (of_int rfd) p fl else R_recvmsg (of_int rfd) p fl)"

section \<open>Identity and signals\<close>

text \<open>\<open>ax\<close>: the result of the call that ran here.\<close>

definition guest_entry :: "hook_caller \<Rightarrow> guests \<Rightarrow> mattx_guest_info option" where
  "guest_entry c r = map_option (slots r) (scan (\<lambda>i. local_pid (slots r i) = cl_tgid c) (cnt r))"

definition entry_handler_getpid :: "sysregs \<Rightarrow> sysregs" where
  "entry_handler_getpid regs = regs"

definition ret_handler_getpid :: "hook_caller \<Rightarrow> guests \<Rightarrow> u64 \<Rightarrow> u64" where
  "ret_handler_getpid c r ax = (case guest_entry c r of Some g \<Rightarrow> ucast (orig_pid g) | None \<Rightarrow> ax)"

definition ret_handler_gettid :: "hook_caller \<Rightarrow> guests \<Rightarrow> u64 \<Rightarrow> u64" where
  "ret_handler_gettid c r ax =
     (case guest_entry c r of
        Some g \<Rightarrow> (case scan (\<lambda>j. local_tids g j = cl_pid c) (thread_count g) of
            Some j \<Rightarrow> ucast (orig_tids g j) | None \<Rightarrow> ax)
      | None \<Rightarrow> ax)"

text \<open>
  A thread is signalled by the numbers the guest knows: a thread number from the home node is translated,
  another one passed on; the number of the process becomes the local one.
\<close>

definition entry_handler_tgkill :: "guests \<Rightarrow> hook_caller \<Rightarrow> sysregs \<Rightarrow> sysregs" where
  "entry_handler_tgkill r c regs =
     (case guest_entry c r of
        None \<Rightarrow> regs
      | Some g \<Rightarrow>
         (let regs1 = (case scan (\<lambda>j. orig_tids g j = ucast (r_si regs)) (thread_count g) of
               Some j \<Rightarrow> regs\<lparr>r_si := ucast (local_tids g j)\<rparr> | None \<Rightarrow> regs)
          in if ucast (r_di regs) = orig_pid g then regs1\<lparr>r_di := ucast (cl_tgid c)\<rparr> else regs1))"

record kernel_siginfo =
  si_code :: int
  si_pid :: u32

text \<open>
  A signal within the process of the guest carries the number of the process that the guest knows.
  \<open>info\<close> is None for the special values of the kernel, \<open>target\<close> the process signalled;
  \<open>free\<close>: the lock can be taken.
\<close>

definition pre_handler_send_signal ::
    "bool \<Rightarrow> guests \<Rightarrow> hook_caller \<Rightarrow> kernel_siginfo option \<Rightarrow> pid option \<Rightarrow> kernel_siginfo option" where
  "pre_handler_send_signal free r c info target =
     (case (info, target) of
        (Some i, Some t) \<Rightarrow>
          if (si_code i \<noteq> - 6 \<and> si_code i \<noteq> 0) \<or> t \<noteq> cl_tgid c \<or> \<not> free then Some i
          else (case guest_entry c r of
              Some g \<Rightarrow> Some (if si_pid i = cl_tgid c then i\<lparr>si_pid := orig_pid g\<rparr> else i)
            | None \<Rightarrow> Some i)
      | _ \<Rightarrow> info)"

text \<open>A thread that a process starts while its threads are being gathered is stopped at birth.\<close>

datatype cradle_effect = Injects_freeze pid | Frees_ctx | Stops_itself

definition entry_handler_wake_up_new_task :: "bool \<Rightarrow> bool \<Rightarrow> exports \<Rightarrow> hook_caller \<Rightarrow> pid option \<Rightarrow> cradle_effect list" where
  "entry_handler_wake_up_new_task mem known x c child =
     (case (scan (\<lambda>i. e_orig_pid (slots x i) = cl_tgid c) (cnt x), child) of
        (Some i, Some p) \<Rightarrow>
          if e_is_growing_gang (slots x i) \<and> mem then (if known then [Injects_freeze p] else [Frees_ctx]) else []
      | _ \<Rightarrow> [])"

definition mattx_newborn_cb :: "cradle_effect list" where
  "mattx_newborn_cb = [Frees_ctx, Stops_itself]"

section \<open>Process-wide calls\<close>

text \<open>
  These entry handlers test the process, but two kinds of return handlers go with them: \<open>by_thread\<close>
  ones look for the calling thread in the registry, which lists processes.
\<close>

definition ret_by_thread :: "bool \<Rightarrow> hook_caller \<Rightarrow> rpc_call \<Rightarrow> guests \<Rightarrow> hook_result" where
  "ret_by_thread mem c call r = (if is_guest_process (cl_pid c) r then forward_early False mem c (Some call) r else keep r)"

definition ret_by_process :: "bool \<Rightarrow> hook_caller \<Rightarrow> rpc_call option \<Rightarrow> guests \<Rightarrow> hook_result" where
  "ret_by_process mem c call r = (if is_guest_process (cl_tgid c) r then forward_early False mem c call r else keep r)"

definition spoil :: "guests \<Rightarrow> hook_caller \<Rightarrow> (sysregs \<Rightarrow> sysregs) \<Rightarrow> sysregs \<Rightarrow> 'a \<Rightarrow> 'a \<Rightarrow> sysregs \<times> 'a" where
  "spoil r c f regs args data = (if is_guest_process (cl_tgid c) r then (f regs, args) else (regs, data))"

definition entry_handler_uname :: "guests \<Rightarrow> hook_caller \<Rightarrow> sysregs \<Rightarrow> u64 \<Rightarrow> sysregs \<times> u64" where
  "entry_handler_uname r c regs data = spoil r c (\<lambda>x. x\<lparr>r_di := 0\<rparr>) regs (r_di regs) data"

definition ret_handler_uname :: "bool \<Rightarrow> hook_caller \<Rightarrow> u64 \<Rightarrow> guests \<Rightarrow> hook_result" where
  "ret_handler_uname mem c a = ret_by_thread mem c (R_uname a)"

datatype (plugins only: size code) prlimit_kretprobe_data = Prlimit_data u32 int u64 u64

definition entry_handler_prlimit64 :: "guests \<Rightarrow> hook_caller \<Rightarrow> sysregs \<Rightarrow> prlimit_kretprobe_data \<Rightarrow> sysregs \<times> prlimit_kretprobe_data" where
  "entry_handler_prlimit64 r c regs data =
     spoil r c (\<lambda>x. x\<lparr>r_di := - 1\<rparr>) regs (Prlimit_data (ucast (r_di regs)) (int32 (r_si regs)) (r_dx regs) (r_r10 regs)) data"

fun ret_handler_prlimit64 :: "bool \<Rightarrow> hook_caller \<Rightarrow> prlimit_kretprobe_data \<Rightarrow> guests \<Rightarrow> hook_result" where
  "ret_handler_prlimit64 mem c (Prlimit_data p res new old) r = ret_by_thread mem c (R_prlimit64 p res new old) r"

datatype (plugins only: size code) prctl_kretprobe_data = Prctl_data int u64 u64 u64 u64

definition entry_handler_prctl :: "guests \<Rightarrow> hook_caller \<Rightarrow> sysregs \<Rightarrow> prctl_kretprobe_data \<Rightarrow> sysregs \<times> prctl_kretprobe_data" where
  "entry_handler_prctl r c regs data =
     spoil r c (\<lambda>x. x\<lparr>r_di := - 1\<rparr>) regs
       (Prctl_data (int32 (r_di regs)) (r_si regs) (r_dx regs) (r_r10 regs) (r_r8 regs)) data"

fun ret_handler_prctl :: "bool \<Rightarrow> hook_caller \<Rightarrow> prctl_kretprobe_data \<Rightarrow> guests \<Rightarrow> hook_result" where
  "ret_handler_prctl mem c (Prctl_data opt a b d e) r = ret_by_thread mem c (R_prctl opt a b d e) r"

text \<open>Calls on a descriptor whose arguments are saved in any case. A large argument of a control call is taken for a pointer.\<close>

fun entry_saving :: "guests \<Rightarrow> hook_caller \<Rightarrow> sysregs \<Rightarrow> 'a \<Rightarrow> 'a fd_data \<Rightarrow> sysregs \<times> 'a fd_data" where
  "entry_saving r c regs args (Fd_data fd0 args0 worm0 rfd0) =
     (if \<not> is_guest_process (cl_tgid c) r then (regs, Fd_data fd0 args0 worm0 rfd0)
      else (let fd = int32 (r_di regs) in
        case is_wormhole_fd (cl_task c) fd rfd0 of (worm, rfd) \<Rightarrow>
          (if worm then regs\<lparr>r_di := - 1\<rparr> else regs, Fd_data fd args worm rfd)))"

fun ret_saving :: "(int \<Rightarrow> 'a \<Rightarrow> rpc_call) \<Rightarrow> bool \<Rightarrow> hook_caller \<Rightarrow> 'a fd_data \<Rightarrow> guests \<Rightarrow> hook_result" where
  "ret_saving call mem c (Fd_data fd args worm rfd) r = (if worm then ret_by_process mem c (Some (call rfd args)) r else keep r)"

definition entry_handler_fcntl :: "guests \<Rightarrow> hook_caller \<Rightarrow> sysregs \<Rightarrow> (int \<times> u64) fd_data \<Rightarrow> sysregs \<times> (int \<times> u64) fd_data" where
  "entry_handler_fcntl r c regs = entry_saving r c regs (int32 (r_si regs), r_dx regs)"

definition ret_handler_fcntl :: "bool \<Rightarrow> bool \<Rightarrow> hook_caller \<Rightarrow> (int \<times> u64) fd_data \<Rightarrow> guests \<Rightarrow> hook_result" where
  "ret_handler_fcntl is_ioctl mem c = ret_saving (\<lambda>rfd (cmd, arg). R_fio is_ioctl (of_int rfd) cmd arg (4096 < arg)
     (if 4096 < arg then vm_read zeros (cl_task c) arg 256 else replicate 256 0)) mem c"

definition entry_handler_pread64 ::
    "guests \<Rightarrow> hook_caller \<Rightarrow> sysregs \<Rightarrow> (u64 \<times> nat \<times> int) fd_data \<Rightarrow> sysregs \<times> (u64 \<times> nat \<times> int) fd_data" where
  "entry_handler_pread64 r c regs = entry_saving r c regs (r_si regs, unat (r_dx regs), sint (r_r10 regs))"

definition ret_handler_pread64 :: "bool \<Rightarrow> hook_caller \<Rightarrow> (u64 \<times> nat \<times> int) fd_data \<Rightarrow> guests \<Rightarrow> hook_result" where
  "ret_handler_pread64 = ret_saving (\<lambda>rfd (a, n, pos). R_pread64 (of_int rfd) a n pos)"

definition entry_handler_getdents64 ::
    "guests \<Rightarrow> hook_caller \<Rightarrow> sysregs \<Rightarrow> (u64 \<times> nat) fd_data \<Rightarrow> sysregs \<times> (u64 \<times> nat) fd_data" where
  "entry_handler_getdents64 r c regs = entry_saving r c regs (r_si regs, unat (ucast (r_dx regs) :: u32))"

definition ret_handler_getdents64 :: "bool \<Rightarrow> hook_caller \<Rightarrow> (u64 \<times> nat) fd_data \<Rightarrow> guests \<Rightarrow> hook_result" where
  "ret_handler_getdents64 = ret_saving (\<lambda>rfd (a, n). R_getdents64 (of_int rfd) a n)"

definition entry_handler_pipe2 :: "guests \<Rightarrow> hook_caller \<Rightarrow> sysregs \<Rightarrow> u64 \<times> int \<Rightarrow> sysregs \<times> u64 \<times> int" where
  "entry_handler_pipe2 r c regs data = spoil r c (\<lambda>x. x\<lparr>r_di := 0\<rparr>) regs (r_di regs, int32 (r_si regs)) data"

definition ret_handler_pipe2 :: "bool \<Rightarrow> hook_caller \<Rightarrow> u64 \<times> int \<Rightarrow> guests \<Rightarrow> hook_result" where
  "ret_handler_pipe2 mem c data = (case data of (a, fl) \<Rightarrow> ret_by_process mem c (Some (R_pipe2 a fl)))"

section \<open>Metadata\<close>

text \<open>
  The path is read when the work item is filled: no path is an empty one, a fault drops the work item.
  Some calls have a directory; the working directory counts as one of the home node.
\<close>

definition with_path :: "hook_caller \<Rightarrow> u64 \<Rightarrow> (string \<Rightarrow> rpc_call) \<Rightarrow> rpc_call option" where
  "with_path c a call = (if a = 0 then Some (call []) else map_option call (user_path (cl_task c) a PATH_ROOM))"

abbreviation (input) AT_FDCWD :: int where "AT_FDCWD \<equiv> - 100"

definition ghost_dir :: "surrogate \<Rightarrow> int \<Rightarrow> bool \<times> int" where
  "ghost_dir s fd = (if fd = AT_FDCWD then (True, fd) else is_wormhole_fd s fd fd)"

datatype (plugins only: size code) statfs_kretprobe_data = Statfs_data u64 u64 bool    \<comment> \<open>path, buffer, fast path\<close>

definition entry_handler_statfs ::
    "hook_config \<Rightarrow> guests \<Rightarrow> hook_caller \<Rightarrow> sysregs \<Rightarrow> statfs_kretprobe_data \<Rightarrow> sysregs \<times> statfs_kretprobe_data" where
  "entry_handler_statfs cfg r c regs data =
     (let fast = fast_path cfg c (r_di regs) in
      spoil r c (\<lambda>x. if fast then x else x\<lparr>r_di := 0\<rparr>) regs (Statfs_data (r_di regs) (r_si regs) fast) data)"

fun ret_handler_statfs :: "bool \<Rightarrow> hook_caller \<Rightarrow> statfs_kretprobe_data \<Rightarrow> guests \<Rightarrow> hook_result" where
  "ret_handler_statfs mem c (Statfs_data p a fast) r =
     (if fast then keep r else ret_by_process mem c (with_path c p (\<lambda>q. R_statfs q a)) r)"

datatype (plugins only: size code) fstatfs_kretprobe_data = Fstatfs_data int u64 bool

definition entry_handler_fstatfs :: "guests \<Rightarrow> hook_caller \<Rightarrow> sysregs \<Rightarrow> fstatfs_kretprobe_data \<Rightarrow> sysregs \<times> fstatfs_kretprobe_data" where
  "entry_handler_fstatfs r c regs data =
     (let fd = int32 (r_di regs) in case is_wormhole_fd (cl_task c) fd fd of (worm, rfd) \<Rightarrow>
      spoil r c (\<lambda>x. if worm then x\<lparr>r_di := - 1\<rparr> else x) regs (Fstatfs_data rfd (r_si regs) worm) data)"

fun ret_handler_fstatfs :: "bool \<Rightarrow> hook_caller \<Rightarrow> fstatfs_kretprobe_data \<Rightarrow> guests \<Rightarrow> hook_result" where
  "ret_handler_fstatfs mem c (Fstatfs_data fd a worm) r =
     (if worm then ret_by_process mem c (Some (R_fstatfs (of_int fd) a)) r else keep r)"

text \<open>Three calls relative to a directory: its number, the path, further arguments, test, fast path.\<close>

datatype (plugins only: size code) 'a at_data = At_data int u64 'a bool bool

definition entry_at :: "hook_config \<Rightarrow> guests \<Rightarrow> hook_caller \<Rightarrow> sysregs \<Rightarrow> 'a \<Rightarrow> 'a at_data \<Rightarrow> sysregs \<times> 'a at_data" where
  "entry_at cfg r c regs args data =
     (let fd = int32 (r_di regs); fast = fast_path cfg c (r_si regs) in
      case (if fast then (False, fd) else ghost_dir (cl_task c) fd) of (worm, rfd) \<Rightarrow>
        spoil r c (\<lambda>x. if worm then x\<lparr>r_di := - 1\<rparr> else x) regs (At_data rfd (r_si regs) args worm fast) data)"

fun ret_at :: "(int \<Rightarrow> 'a \<Rightarrow> string \<Rightarrow> rpc_call) \<Rightarrow> bool \<Rightarrow> hook_caller \<Rightarrow> 'a at_data \<Rightarrow> guests \<Rightarrow> hook_result" where
  "ret_at call mem c (At_data dfd p args worm fast) r =
     (if fast \<or> \<not> worm then keep r else ret_by_process mem c (with_path c p (call dfd args)) r)"

definition entry_handler_newfstatat ::
    "hook_config \<Rightarrow> guests \<Rightarrow> hook_caller \<Rightarrow> sysregs \<Rightarrow> (u64 \<times> int) at_data \<Rightarrow> sysregs \<times> (u64 \<times> int) at_data" where
  "entry_handler_newfstatat cfg r c regs = entry_at cfg r c regs (r_dx regs, int32 (r_r10 regs))"

definition ret_handler_newfstatat :: "bool \<Rightarrow> hook_caller \<Rightarrow> (u64 \<times> int) at_data \<Rightarrow> guests \<Rightarrow> hook_result" where
  "ret_handler_newfstatat = ret_at (\<lambda>dfd (a, fl) p. R_newfstatat (of_int dfd) fl p a)"

definition entry_handler_faccessat2 ::
    "hook_config \<Rightarrow> guests \<Rightarrow> hook_caller \<Rightarrow> sysregs \<Rightarrow> (int \<times> int) at_data \<Rightarrow> sysregs \<times> (int \<times> int) at_data" where
  "entry_handler_faccessat2 cfg r c regs = entry_at cfg r c regs (int32 (r_dx regs), int32 (r_r10 regs))"

definition ret_handler_faccessat2 :: "bool \<Rightarrow> hook_caller \<Rightarrow> (int \<times> int) at_data \<Rightarrow> guests \<Rightarrow> hook_result" where
  "ret_handler_faccessat2 = ret_at (\<lambda>dfd (m, fl) p. R_faccessat2 (of_int dfd) m fl p)"

datatype (plugins only: size code) readlink_kretprobe_data = Readlink_data u64 u64 nat bool

definition entry_handler_readlink ::
    "hook_config \<Rightarrow> guests \<Rightarrow> hook_caller \<Rightarrow> sysregs \<Rightarrow> readlink_kretprobe_data \<Rightarrow> sysregs \<times> readlink_kretprobe_data" where
  "entry_handler_readlink cfg r c regs data =
     (let fast = fast_path cfg c (r_di regs) in
      spoil r c (\<lambda>x. if fast then x else x\<lparr>r_di := 0\<rparr>) regs
        (Readlink_data (r_di regs) (r_si regs) (unat (r_dx regs)) fast) data)"

fun ret_handler_readlink :: "bool \<Rightarrow> hook_caller \<Rightarrow> readlink_kretprobe_data \<Rightarrow> guests \<Rightarrow> hook_result" where
  "ret_handler_readlink mem c (Readlink_data p a n fast) r =
     (if fast then keep r else ret_by_process mem c (with_path c p (\<lambda>q. R_readlink q a n)) r)"

definition entry_handler_readlinkat ::
    "hook_config \<Rightarrow> guests \<Rightarrow> hook_caller \<Rightarrow> sysregs \<Rightarrow> (u64 \<times> nat) at_data \<Rightarrow> sysregs \<times> (u64 \<times> nat) at_data" where
  "entry_handler_readlinkat cfg r c regs = entry_at cfg r c regs (r_dx regs, unat (r_r10 regs))"

definition ret_handler_readlinkat :: "bool \<Rightarrow> hook_caller \<Rightarrow> (u64 \<times> nat) at_data \<Rightarrow> guests \<Rightarrow> hook_result" where
  "ret_handler_readlinkat = ret_at (\<lambda>dfd (a, n) p. R_readlinkat (of_int dfd) p a n)"

section \<open>Memory\<close>

abbreviation (input) EACCES :: int where "EACCES \<equiv> 13"

text \<open>Files of the home node cannot be mapped: the mapping is spoiled and reported as denied.\<close>

definition entry_handler_mmap :: "guests \<Rightarrow> hook_caller \<Rightarrow> sysregs \<Rightarrow> bool \<Rightarrow> sysregs \<times> bool" where
  "entry_handler_mmap r c regs ghost =
     (let worm = fst (is_wormhole_fd (cl_task c) (int32 (r_r8 regs)) 0) in
      spoil r c (\<lambda>x. if worm then x\<lparr>r_di := - 1, r_si := 0\<rparr> else x) regs worm ghost)"

definition ret_handler_mmap :: "guests \<Rightarrow> hook_caller \<Rightarrow> bool \<Rightarrow> int option" where
  "ret_handler_mmap r c ghost = (if is_guest_process (cl_tgid c) r \<and> ghost then Some (- EACCES) else None)"

definition entry_handler_shmget :: "guests \<Rightarrow> hook_caller \<Rightarrow> sysregs \<Rightarrow> int \<times> nat \<times> int \<Rightarrow> sysregs \<times> int \<times> nat \<times> int" where
  "entry_handler_shmget r c regs data =
     spoil r c (\<lambda>x. x\<lparr>r_di := - 1\<rparr>) regs (int32 (r_di regs), unat (r_si regs), int32 (r_dx regs)) data"

definition ret_handler_shmget :: "bool \<Rightarrow> hook_caller \<Rightarrow> int \<times> nat \<times> int \<Rightarrow> guests \<Rightarrow> hook_result" where
  "ret_handler_shmget mem c data = (case data of (k, n, fl) \<Rightarrow> ret_by_process mem c (Some (R_shmget k n fl)))"

text \<open>
  The control call is watched for all processes, guests or not: a segment removed here leaves
  the directory.
\<close>

definition entry_handler_shmctl :: "guests \<Rightarrow> hook_caller \<Rightarrow> sysregs \<Rightarrow> sysregs \<times> int \<times> int \<times> u64" where
  "entry_handler_shmctl r c regs =
     (if is_guest_process (cl_tgid c) r then regs\<lparr>r_di := - 1\<rparr> else regs, int32 (r_di regs), int32 (r_si regs), r_dx regs)"

abbreviation (input) IPC_RMID :: int where "IPC_RMID \<equiv> 0"

definition drop_dir :: "u32 \<Rightarrow> dsm_dir \<Rightarrow> dsm_dir" where
  "drop_dir shm dir = (case dir_find shm dir of Some d \<Rightarrow> dir(d := (dir d)\<lparr>dir_in_use := False\<rparr>) | None \<Rightarrow> dir)"

definition ret_handler_shmctl :: "bool \<Rightarrow> hook_caller \<Rightarrow> u64 \<Rightarrow> int \<times> int \<times> u64 \<Rightarrow> guests \<times> dsm_dir \<Rightarrow> hook_result \<times> dsm_dir" where
  "ret_handler_shmctl mem c ax data w =
     (case (data, w) of ((shm, cmd, a), (r, dir)) \<Rightarrow>
       (ret_by_process mem c (Some (R_shmctl shm cmd a)) r,
        if ax = 0 \<and> cmd = IPC_RMID then drop_dir (of_int shm) dir else dir))"

definition entry_handler_shmdt :: "guests \<Rightarrow> hook_caller \<Rightarrow> sysregs \<Rightarrow> u64 \<Rightarrow> sysregs \<times> u64" where
  "entry_handler_shmdt r c regs data = spoil r c (\<lambda>x. x\<lparr>r_di := - 1\<rparr>) regs (r_di regs) data"

definition ret_handler_shmdt :: "bool \<Rightarrow> hook_caller \<Rightarrow> u64 \<Rightarrow> guests \<Rightarrow> hook_result" where
  "ret_handler_shmdt mem c a = ret_by_process mem c (Some (R_shmdt a))"

definition entry_handler_shmat :: "guests \<Rightarrow> hook_caller \<Rightarrow> sysregs \<Rightarrow> int \<times> u64 \<times> int \<Rightarrow> sysregs \<times> int \<times> u64 \<times> int" where
  "entry_handler_shmat r c regs data =
     spoil r c (\<lambda>x. x\<lparr>r_di := - 1\<rparr>) regs (int32 (r_di regs), r_si regs, int32 (r_dx regs)) data"

definition ret_handler_shmat :: "bool \<Rightarrow> hook_caller \<Rightarrow> int \<times> u64 \<times> int \<Rightarrow> guests \<Rightarrow> hook_result" where
  "ret_handler_shmat mem c data = (case data of (i, a, fl) \<Rightarrow> ret_by_process mem c (Some (R_shmat i a fl)))"

section \<open>Sleeping until a time\<close>

text \<open>
  A sleep until an absolute time of the clocks that count from the start of the machine was computed with the clock of the
  node the process came from: the first one of each thread is shifted by the difference of the
  clocks. The deadline is given as seconds and nanoseconds; the arithmetic is that of 64-bit numbers.
\<close>

abbreviation (input) NSEC_PER_SEC :: int where "NSEC_PER_SEC \<equiv> 1000000000"

definition s64 :: "int \<Rightarrow> int" where
  "s64 x = sint (word_of_int x :: u64)"

definition entry_handler_clock_nanosleep ::
    "hook_caller \<Rightarrow> sysregs \<Rightarrow> (int \<times> int) option \<Rightarrow> fixups \<Rightarrow> (int \<times> int) option \<times> fixups" where
  "entry_handler_clock_nanosleep c regs deadline fx =
     (case deadline of None \<Rightarrow> (None, fx)
      | Some (sec, nsec) \<Rightarrow>
         if r_si regs AND 1 = 0 \<or> int32 (r_di regs) \<notin> {1, 7} then (deadline, fx)
         else (case mattx_clock_fixup_consume (cl_tgid c) (cl_pid c) fx of
             (None, fx') \<Rightarrow> (deadline, fx')
           | (Some off, fx') \<Rightarrow>
              if off = 0 then (deadline, fx')
              else (let t = s64 (s64 (sec * NSEC_PER_SEC + nsec) + off); t' = (if t < 0 then 0 else t)
                in (Some (t' div NSEC_PER_SEC, t' mod NSEC_PER_SEC), fx'))))"

section \<open>Calls that run here\<close>

text \<open>
  Memory management and scheduling of a guest are those of its host: the hooks on these calls change
  neither arguments nor result (three do nothing at all, six write a line to the log).
\<close>

datatype (plugins only: size code) local_memory = Brk | Munmap | Mremap

datatype (plugins only: size code) local_tuning =
  Mprotect | Madvise | Mbind | Sched_getaffinity | Sched_setaffinity | Sched_yield

definition entry_handler_memory :: "local_memory \<Rightarrow> sysregs \<Rightarrow> sysregs" where
  "entry_handler_memory call regs = regs"

definition ret_handler_memory :: "local_memory \<Rightarrow> guests \<Rightarrow> hook_result" where
  "ret_handler_memory call r = keep r"

definition entry_handler_tuning :: "local_tuning \<Rightarrow> guests \<Rightarrow> hook_caller \<Rightarrow> sysregs \<Rightarrow> bool \<times> sysregs" where
  "entry_handler_tuning call r c regs = (is_guest_process (cl_tgid c) r, regs)"   \<comment> \<open>logged?\<close>

definition ret_handler_tuning :: "local_tuning \<Rightarrow> guests \<Rightarrow> hook_result" where
  "ret_handler_tuning call r = keep r"

definition ret_handler_tgkill :: "guests \<Rightarrow> hook_result" where
  "ret_handler_tgkill r = keep r"

definition ret_handler_clock_nanosleep :: "guests \<Rightarrow> hook_result" where
  "ret_handler_clock_nanosleep r = keep r"

section \<open>All return handlers\<close>

text \<open>
  One rule for each return handler that can forward a call or leaves it alone, with any saved data: what a hook can
  do to the registry \<open>r\<close> when a call of \<open>c\<close> returns.
\<close>

inductive hook_return :: "hook_config \<Rightarrow> bool \<Rightarrow> hook_caller \<Rightarrow> guests \<Rightarrow> hook_result \<Rightarrow> bool"
  for cfg mem c r where
  openat: "hook_return cfg mem c r (ret_handler_openat cfg mem c d r)"
| dup: "hook_return cfg mem c r (ret_handler_dup flags mem c d r)"
| unlinkat: "hook_return cfg mem c r (ret_handler_unlinkat cfg mem c d r)"
| read: "hook_return cfg mem c r (ret_handler_read mem c d r)"
| "write": "hook_return cfg mem c r (ret_handler_write mem c d r)"
| fileio: "hook_return cfg mem c r (ret_handler_fileio kind mem c d r)"
| socket: "hook_return cfg mem c r (ret_handler_socket cfg mem c d r)"
| connect: "hook_return cfg mem c r (ret_handler_connect cfg mem c d r)"
| bind: "hook_return cfg mem c r (ret_handler_bind cfg mem c d r)"
| listen: "hook_return cfg mem c r (ret_handler_listen cfg mem c d r)"
| sendto: "hook_return cfg mem c r (ret_handler_sendto cfg mem c d r)"
| recvfrom: "hook_return cfg mem c r (ret_handler_recvfrom cfg mem c d r)"
| accept: "hook_return cfg mem c r (ret_handler_accept cfg mem c d r)"
| poll: "hook_return cfg mem c r (ret_handler_poll cfg mem c d r)"
| select: "hook_return cfg mem c r (ret_handler_select cfg mem c d r)"
| pselect6: "hook_return cfg mem c r (ret_handler_pselect6 cfg mem c d r)"
| epoll_create: "hook_return cfg mem c r (ret_handler_epoll_create mem c d r)"
| epoll_ctl: "hook_return cfg mem c r (ret_handler_epoll_ctl mem c d r)"
| epoll_wait: "hook_return cfg mem c r (ret_handler_epoll_wait mem c d r)"
| sockname: "hook_return cfg mem c r (ret_handler_sockname peer mem c d r)"
| sockopt: "hook_return cfg mem c r (ret_handler_sockopt is_set mem c d r)"
| msg: "hook_return cfg mem c r (ret_handler_msg sending mem c d r)"
| uname: "hook_return cfg mem c r (ret_handler_uname mem c d r)"
| prlimit64: "hook_return cfg mem c r (ret_handler_prlimit64 mem c d r)"
| prctl: "hook_return cfg mem c r (ret_handler_prctl mem c d r)"
| fcntl: "hook_return cfg mem c r (ret_handler_fcntl is_ioctl mem c d r)"
| pread64: "hook_return cfg mem c r (ret_handler_pread64 mem c d r)"
| getdents64: "hook_return cfg mem c r (ret_handler_getdents64 mem c d r)"
| pipe2: "hook_return cfg mem c r (ret_handler_pipe2 mem c d r)"
| statfs: "hook_return cfg mem c r (ret_handler_statfs mem c d r)"
| fstatfs: "hook_return cfg mem c r (ret_handler_fstatfs mem c d r)"
| newfstatat: "hook_return cfg mem c r (ret_handler_newfstatat mem c d r)"
| faccessat2: "hook_return cfg mem c r (ret_handler_faccessat2 mem c d r)"
| readlink: "hook_return cfg mem c r (ret_handler_readlink mem c d r)"
| readlinkat: "hook_return cfg mem c r (ret_handler_readlinkat mem c d r)"
| shmget: "hook_return cfg mem c r (ret_handler_shmget mem c d r)"
| shmctl: "hook_return cfg mem c r (fst (ret_handler_shmctl mem c ax d (r, dir)))"
| shmdt: "hook_return cfg mem c r (ret_handler_shmdt mem c d r)"
| shmat: "hook_return cfg mem c r (ret_handler_shmat mem c d r)"
| memory: "hook_return cfg mem c r (ret_handler_memory local r)"
| tuning: "hook_return cfg mem c r (ret_handler_tuning local' r)"
| tgkill: "hook_return cfg mem c r (ret_handler_tgkill r)"
| clock_nanosleep: "hook_return cfg mem c r (ret_handler_clock_nanosleep r)"

text \<open>What they all do: nothing, or one forwarding step for a caller that is not dying.\<close>

definition forwarding :: "bool \<Rightarrow> hook_caller \<Rightarrow> guests \<Rightarrow> hook_result \<Rightarrow> bool" where
  "forwarding mem c r x \<longleftrightarrow> x = keep r \<or>
     (\<exists>mark eintr dying call. x = forward_with mark eintr dying mem c call r \<and> (cl_dying c \<longrightarrow> dying) \<and>
        (\<forall>g. same_guest g (mark g) \<and> \<not> rpc_done (mark g)))"

lemma waiting_mark_ok: "same_guest g (waiting_mark g)" "\<not> rpc_done (waiting_mark g)"
    "same_guest g ((waiting_mark g)\<lparr>rpc_read_buf := None\<rparr>)" "\<not> rpc_done ((waiting_mark g)\<lparr>rpc_read_buf := None\<rparr>)"
  by (simp_all add: waiting_mark_def same_guest_def)

lemma forwarding_with:
  "(cl_dying c \<longrightarrow> dying) \<Longrightarrow> (\<And>g. same_guest g (mark g) \<and> \<not> rpc_done (mark g)) \<Longrightarrow>
   forwarding mem c r (forward_with mark eintr dying mem c call r)"
  unfolding forwarding_def by (intro disjI2 exI conjI allI) auto

lemma forwarding_intros:
  "forwarding mem c r (keep r)"
  "(cl_dying c \<longrightarrow> dying) \<Longrightarrow> forwarding mem c r (forward_with waiting_mark eintr dying mem c call r)"
  "\<not> cl_dying c \<Longrightarrow> forwarding mem c r (forward_with (\<lambda>g. (waiting_mark g)\<lparr>rpc_read_buf := None\<rparr>) eintr False mem c call r)"
  "forwarding mem c r (forward mem c call r)"
  "forwarding mem c r (forward_early eintr mem c call r)"
  unfolding forward_def forward_early_def
  by (simp_all add: forwarding_with waiting_mark_ok) (simp_all add: forwarding_def)

lemma forwarding_helpers:
  "forwarding mem c r (ret_on_fd call cfg mem c d r)" "forwarding mem c r (ret_ghost call' mem c e r)"
  "forwarding mem c r (ret_by_thread mem c k r)" "forwarding mem c r (ret_by_process mem c ko r)"
  "forwarding mem c r (ret_saving call'' mem c f r)" "forwarding mem c r (ret_at call3 mem c g r)"
  "forwarding mem c r (ret_select unit cfg mem c h r)"
  by (cases d; cases e; cases f; cases g; cases h; simp add: ret_by_thread_def ret_by_process_def ret_select_def Let_def forwarding_intros
      split: prod.split)+

lemma forwarding_handlers:
  "forwarding mem c r (ret_handler_openat cfg mem c d1 r)" "forwarding mem c r (ret_handler_dup flags mem c d2 r)"
  "forwarding mem c r (ret_handler_unlinkat cfg mem c d3 r)" "forwarding mem c r (ret_handler_read mem c d4 r)"
  "forwarding mem c r (ret_handler_write mem c d4 r)" "forwarding mem c r (ret_handler_socket cfg mem c d5 r)"
  "forwarding mem c r (ret_handler_poll cfg mem c d6 r)" "forwarding mem c r (ret_handler_epoll_create mem c d7 r)"
  "forwarding mem c r (ret_handler_prlimit64 mem c d8 r)"
  "forwarding mem c r (ret_handler_prctl mem c d9 r)" "forwarding mem c r (ret_handler_statfs mem c d10 r)"
  "forwarding mem c r (ret_handler_fstatfs mem c d11 r)" "forwarding mem c r (ret_handler_readlink mem c d12 r)"
  by (cases d1, simp add: forwarding_intros split: option.split)
    (cases d2, simp add: forwarding_intros, cases d3, simp add: forwarding_intros split: option.split,
     cases d4, simp add: forwarding_intros, cases d4, simp add: forwarding_intros,
     cases d5, simp add: forwarding_intros, cases d6, simp add: forwarding_intros, cases d7, simp add: forwarding_intros,
     cases d8, simp add: forwarding_helpers, cases d9, simp add: forwarding_helpers,
     cases d10, simp add: forwarding_intros forwarding_helpers, cases d11, simp add: forwarding_intros forwarding_helpers,
     cases d12, simp add: forwarding_intros forwarding_helpers)

lemma forwarding_epoll_wait: "forwarding mem c r (ret_handler_epoll_wait mem c d r)"
proof -
  obtain epfd ev n t worm rfd where d: "d = Fd_data epfd (ev, n, t) worm rfd" by (cases d) auto
  show ?thesis by (simp add: d forwarding_intros)
qed

lemmas hook_defs =
  ret_handler_fileio_def ret_handler_connect_def ret_handler_bind_def ret_handler_listen_def ret_handler_sendto_def
  ret_handler_recvfrom_def ret_handler_accept_def ret_handler_select_def ret_handler_pselect6_def ret_handler_epoll_ctl_def
  ret_handler_sockname_def ret_handler_sockopt_def ret_handler_msg_def ret_handler_uname_def ret_handler_fcntl_def
  ret_handler_pread64_def ret_handler_getdents64_def ret_handler_newfstatat_def ret_handler_faccessat2_def
  ret_handler_readlinkat_def ret_handler_shmdt_def ret_handler_memory_def ret_handler_tuning_def ret_handler_tgkill_def ret_handler_clock_nanosleep_def

lemma hook_return_forwarding: "hook_return cfg mem c r x \<Longrightarrow> forwarding mem c r x"
proof (induction rule: hook_return.induct)
  case (pipe2 d) then show ?case by (cases d) (simp add: ret_handler_pipe2_def forwarding_helpers)
next
  case (shmget d) then show ?case by (cases d) (simp add: ret_handler_shmget_def forwarding_helpers)
next
  case (shmctl ax d dir) then show ?case by (cases d) (simp add: ret_handler_shmctl_def forwarding_helpers)
next
  case (shmat d) then show ?case by (cases d) (simp add: ret_handler_shmat_def forwarding_helpers)
next
  case (fileio kind d) then show ?case by (simp add: ret_handler_fileio_def forwarding_intros)
qed (simp_all only: hook_defs forwarding_handlers forwarding_epoll_wait forwarding_helpers forwarding_intros(1))

section \<open>Frozen and thawed\<close>

lemma forwarding_effects:
  assumes "forwarding mem c r (r', ax, e)" "e \<noteq> []"
  obtains i q where "scan (\<lambda>i. local_pid (slots r i) = cl_tgid c) (cnt r) = Some i" "\<not> cl_dying c" "\<not> rpc_done (slots r' i)"
    and "e = [Freezes (cl_pid c), Queues \<lparr>k_local_pid = cl_pid c, k_orig_pid = orig_pid (slots r i),
           k_home_node = home_node (slots r i), k_call = q\<rparr>]"
proof -
  obtain mark eintr dying call where x: "(r', ax, e) = forward_with mark eintr dying mem c call r" "cl_dying c \<longrightarrow> dying"
      "\<forall>g. \<not> rpc_done (mark g)"
    using assms by (auto simp: forwarding_def keep_def)
  then obtain i q where "scan (\<lambda>i. local_pid (slots r i) = cl_tgid c) (cnt r) = Some i" "call = Some q" "\<not> dying"
    using assms(2) by (auto simp: forward_with_def keep_def Let_def split: option.splits if_splits)
  with x that [of i q] assms(2) show ?thesis by (auto simp: forward_with_def keep_def Let_def upd_slot_def split: if_splits)
qed

text \<open>A process that is no guest is left alone by every hook.\<close>

lemma hooks_spare_others:
  assumes "hook_return cfg mem c r x" "\<not> is_guest_process (cl_tgid c) r"
  shows "x = keep r"
  using hook_return_forwarding [OF assms(1)] assms(2)
  by (auto simp: forwarding_def forward_with_def is_guest_process_def)


text \<open>
  C14. Every freeze is followed by its thaw. When a hook has stopped its caller and queued the work,
  and the worker, after any number of looks without a reply, finds the reply, and within 2000 further looks the caller stopped,
  then the worker is over and has thawed that caller, once and nobody else; whatever happens
  afterwards, as long as the guest is not recalled and no handler crashes on the way.
\<close>

theorem forwarded_call_thaws:
  assumes "hook_return cfg mem c r (r', ax, e)" and "Queues k \<in> set e"
    and "\<forall>v\<in>set waits. \<exists>i. guest_of (v_tg v) (cl_pid c) (g_reg (v_world v)) = Some i \<and>
      \<not> is_migrating (slots (g_reg (v_world v)) i) \<and> \<not> rpc_done (slots (g_reg (v_world v)) i)"
    and "guest_of (v_tg v1) (cl_pid c) (g_reg (v_world v1)) = Some i1"
    and "\<not> is_migrating (slots (g_reg (v_world v1)) i1)" and "rpc_done (slots (g_reg (v_world v1)) i1)"
    and "\<forall>v\<in>set looks. v_task v \<noteq> None \<and> \<not> v_halted v \<and> \<not> v_exiting v" and "length looks \<le> 2000"
    and "v_task v2 = Some s" and "v_halted v2" and "guest_of (v_tg v2) (cl_pid c) (g_reg (v_world v2)) = Some i2"
    and "\<not> is_migrating (slots (g_reg (v_world v2)) i2)"
    and "mattx_rpc_worker (v0 # waits @ v1 # looks @ v2 # after) (Fresh k) = (ph, es)" and "Crashes \<notin> set es"
  shows "Freezes (cl_pid c) \<in> set e \<and> ph = Over \<and> thaws es = [cl_pid c]"
proof -
  have ne: "e \<noteq> []" using assms(2) by auto
  obtain i q where e: "e = [Freezes (cl_pid c), Queues \<lparr>k_local_pid = cl_pid c, k_orig_pid = orig_pid (slots r i),
           k_home_node = home_node (slots r i), k_call = q\<rparr>]"
    by (rule forwarding_effects [OF hook_return_forwarding [OF assms(1)] ne])
  then have my: "k_local_pid k = cl_pid c" using assms(2) by auto
  obtain k' w e0 where send: "rpc_send (v_luck v0) (v_tg v0) (v_task v0) k (v_world v0) = (k', w, e0)" by (rule prod_cases3)
  then have my': "k_local_pid k' = cl_pid c" and t0: "thaws e0 = []"
    using my by (auto simp: rpc_send_def thaws_def List.map_filter_def split: option.splits)
  let ?x = "Answered (rpc_remote_fd (slots (g_reg (v_world v1)) i1))"
  have s0: "fst (worker_step v0 (Fresh k)) = Waiting k'" "effects_of (worker_step v0 (Fresh k)) = e0"
    by (simp_all add: worker_step.simps send)
  have w: "mattx_rpc_worker waits (Waiting k') = (Waiting k', [])"
    using no_reply_no_end assms(3) my' by simp
  have s1: "fst (worker_step v1 (Waiting k')) = Stopping k' ?x 0" "effects_of (worker_step v1 (Waiting k')) = []"
    using assms(4-6) by (simp_all add: worker_step.simps rpc_look_def my')
  have l: "mattx_rpc_worker looks (Stopping k' ?x 0) = (Stopping k' ?x (length looks), [])"
    using still_stopping [OF assms(7), of 0] assms(8) by simp
  obtain w2 s2 e2 where f: "rpc_finish (v_luck v2) (v_tg v2) k' ?x (v_world v2) s = (w2, s2, e2)" by (rule prod_cases3)
  have s2: "fst (worker_step v2 (Stopping k' ?x (length looks))) = Over"
      "effects_of (worker_step v2 (Stopping k' ?x (length looks))) = e2"
    by (simp_all add: worker_step.simps assms(9,10) f)
  have run: "ph = Over" "es = e0 @ e2"
    using arg_cong [OF assms(13), of fst] arg_cong [OF assms(13), of snd]
    by (simp_all add: run_step run_append s0 w s1 l s2 over_is_over)
  have "filter (\<lambda>y. \<exists>p. y = Conts p) e2 = [Conts (cl_pid c)]"
    using worker_wakes [OF f] assms(11,12,14) by (simp add: run my')
  then have "thaws e2 = [cl_pid c]" using thaws_of_filter [of e2 "[cl_pid c]"] by simp
  then show ?thesis by (simp add: e run t0)
qed

section \<open>Identities\<close>

lemma ucast_u32_u64 [simp]: "(ucast (ucast (x :: u32) :: u64) :: u32) = x"
  by transfer simp

lemma gettid_of_gang:
  assumes "guest_entry c r = Some g" "scan (\<lambda>j. local_tids g j = cl_pid c) (thread_count g) = Some j"
  shows "ret_handler_gettid c r ax = ucast (orig_tids g j)"
  using assms by (simp add: ret_handler_gettid_def)

text \<open>
  A thread that asks for its numbers and passes them on to be signalled is found: whoever of the
  process signals the numbers that \<^verbatim>\<open>getpid\<close> and \<^verbatim>\<open>gettid\<close> gave to a thread reaches the local process and that very
  thread, whether it was part of the migrated gang or was started later under a number that
  no thread of the gang had at home.
\<close>

theorem tid_roundtrip:
  assumes "guest_entry c r = Some g" and "cl_tgid c' = cl_tgid c"
    and "inj_on (orig_tids g) {..<thread_count g}"
    and "(\<exists>j<thread_count g. local_tids g j = cl_pid c) \<or> cl_pid c \<notin> orig_tids g ` {..<thread_count g}"
  shows "entry_handler_tgkill r c' (regs\<lparr>r_di := ret_handler_getpid c r ax, r_si := ret_handler_gettid c r (ucast (cl_pid c))\<rparr>) =
    regs\<lparr>r_di := ucast (cl_tgid c), r_si := ucast (cl_pid c)\<rparr>"
proof -
  have e: "guest_entry c' r = Some g" using assms(1,2) by (simp add: guest_entry_def)
  have p: "(ucast (ret_handler_getpid c r ax) :: u32) = orig_pid g" using assms(1) by (simp add: ret_handler_getpid_def)
  show ?thesis
  proof (cases "scan (\<lambda>j. local_tids g j = cl_pid c) (thread_count g)")
    case (Some j)
    have j: "j < thread_count g" "local_tids g j = cl_pid c" using scan_SomeD [OF Some] by simp_all
    have "scan (\<lambda>i. orig_tids g i = orig_tids g j) (thread_count g) = Some j"
      using j(1) assms(3) by (intro scan_unique) (auto dest: inj_onD)
    then show ?thesis
      by (simp add: entry_handler_tgkill_def e p gettid_of_gang [OF assms(1) Some] j(2) assms(2) Let_def)
  next
    case None
    then have "cl_pid c \<notin> orig_tids g ` {..<thread_count g}" using assms(4) by (auto simp: scan_None)
    then have "scan (\<lambda>i. orig_tids g i = cl_pid c) (thread_count g) = None" by (force simp: scan_None)
    then show ?thesis using None assms(1)
      by (simp add: entry_handler_tgkill_def e p ret_handler_gettid_def assms(2) Let_def)
  qed
qed

section \<open>A read from its hook to its result\<close>

text \<open>
  C8. An intercepted read is the read at home. A guest reads from a descriptor that its node does not
  know; the hook spoils the call and queues its work, the worker sends it, it is served at home, and its reply comes
  back with any replies for other guests before and after it; the worker finds it, and the caller has
  stopped. Then the caller's memory holds the bytes, its result register the count or the error, and the file at home the
  position, that the same read (of at most 4096 bytes, with the identity of the deputy) gives
  at home; the worker is over, has freed the buffer of the reply and has thawed the caller.
\<close>

theorem intercepted_read_equiv:
  assumes "entry_handler_read r0 c regs data0 = (regs', data)" and "ret_handler_read True c data r0 = (r1, ax, e0)"
    and "Queues k0 \<in> set e0" and "g_reg w = r1"
    and "guest_of tg (cl_pid c) (g_reg w) = Some i" and "guest_for (k_home_node k0) (k_orig_pid k0) (g_reg w) = Some i"
    and "\<not> is_migrating (slots (g_reg w) i)"
    and "rpc_send l tg so k0 w = (k, w1, [Asks (k_home_node k0) (Ask (C_read (k_orig_pid k0) fd m))])"
    and "fd = ucast (r_di regs)" and "fd < 1000" and "native_file (k_orig_pid k0) (unat fd) h = Some f"
    and "h_links h from" and "h_mem env 0" and "h_mem env 1"
    and "h_read env (map_option t_cred (tasks h (k_orig_pid k0))) f (min (unat (r_dx regs)) 4096) (f_pos h f) = (ret, d, fpos)"
    and "nat ret \<le> length d"
    and "handle_sys_read_req env from (Some (k_orig_pid k0, fd, m)) h = (h', ds)" and "Send from rep \<in> set ds"
    and "foreign (k_home_node k0) (k_orig_pid k0) p before" and "foreign (k_home_node k0) (k_orig_pid k0) p after"
    and "worker_step \<lparr>v_tg = tg, v_luck = l1, v_world = deliver_all (before @ [(Some p, k_home_node k0, rep)] @ after) w1,
           v_task = so1, v_halted = b, v_exiting = x\<rparr> (Waiting k) = (ph, w2, so2, e2)"
    and "worker_step \<lparr>v_tg = tg, v_luck = l2, v_world = w2, v_task = Some s, v_halted = True, v_exiting = x'\<rparr> ph = (ph', w3, so3, e3)"
    and "vm_full s (r_si regs) (nat ret)"
  shows "so3 = Some (s\<lparr>sg_mem := poke (r_si regs) (take (nat ret) d) (sg_mem s), sg_ax := ret\<rparr>) \<and>
    f_pos h' f = (if 0 \<le> ret then fpos else f_pos h f) \<and> ph' = Over \<and>
    e3 = (if 0 < ret then [Frees p] else []) @ [Conts (cl_pid c)]"
proof -
  obtain fd0 buf n worm where data: "data = Rw_data fd0 buf n worm" by (cases data)
  have ne: "e0 \<noteq> []" using assms(3) by auto
  then have g: "is_guest_process (cl_pid c) r0" "worm"
    using assms(2) by (auto simp: data keep_def split: if_splits)
  have args: "fd0 = int32 (r_di regs)" "buf = r_si regs" "n = unat (r_dx regs)"
    using assms(1) g(1) by (auto simp: data entry_handler_read_def entry_rw_def Let_def)
  have "(of_int fd0 :: u32) = fd" by (simp add: args(1) assms(9))
  then have "forward True c (Some (R_read fd (r_si regs) (unat (r_dx regs)))) r0 = (r1, ax, e0)"
    using assms(2) g by (simp add: data args)
  then obtain op home where k0: "k0 = \<lparr>k_local_pid = cl_pid c, k_orig_pid = op, k_home_node = home,
      k_call = R_read fd (r_si regs) (unat (r_dx regs))\<rparr>"
    using assms(3) by (auto simp: forward_def forward_with_def keep_def Let_def split: option.splits if_splits)
  note A = assms [unfolded k0 mattx_rpc_work.select_convs]
  show ?thesis by (rule answered_read [OF A(5-8) A(10-23)])
qed

section \<open>Sleeps end on time\<close>

lemma s64_self: "- (2 ^ 63) \<le> x \<Longrightarrow> x < 2 ^ 63 \<Longrightarrow> s64 x = x"
  by (simp add: s64_def int_word_sint)

text \<open>
  The first absolute sleep of a migrated thread is shifted by exactly the difference of the clocks:
  with a proper deadline that stays within 64 bits and does not become negative, the new deadline
  is proper, and the old one plus the offset that was registered for the thread.
\<close>

theorem sleep_shifted:
  assumes "mattx_clock_fixup_consume (cl_tgid c) (cl_pid c) fx = (Some off, fx')"
    and "r_si regs AND 1 \<noteq> 0" and "int32 (r_di regs) \<in> {1, 7}" and "0 \<le> nsec" and "nsec < NSEC_PER_SEC" and "0 \<le> sec"
    and "sec * NSEC_PER_SEC + nsec < 2 ^ 63" and "0 \<le> sec * NSEC_PER_SEC + nsec + off" and "sec * NSEC_PER_SEC + nsec + off < 2 ^ 63"
    and "entry_handler_clock_nanosleep c regs (Some (sec, nsec)) fx = (Some (sec', nsec'), fx1)"
  shows "sec' * NSEC_PER_SEC + nsec' = sec * NSEC_PER_SEC + nsec + off \<and> 0 \<le> nsec' \<and> nsec' < NSEC_PER_SEC \<and> fx1 = fx'"
proof (cases "off = 0")
  case True
  then show ?thesis using assms by (simp add: entry_handler_clock_nanosleep_def)
next
  case False
  let ?t = "sec * NSEC_PER_SEC + nsec + off"
  have "s64 (s64 (sec * NSEC_PER_SEC + nsec) + off) = ?t"
    using assms(4-9) by (simp add: s64_self)
  then have "sec' = ?t div NSEC_PER_SEC" "nsec' = ?t mod NSEC_PER_SEC" "fx1 = fx'"
    using assms(1-3,8,10) False by (auto simp: entry_handler_clock_nanosleep_def Let_def)
  then show ?thesis by simp
qed

section \<open>Instances\<close>

text \<open>The process of \<open>demo_work\<close> on its way through the hook of the read.\<close>

definition demo_caller :: "pid \<Rightarrow> hook_caller" where
  "demo_caller p = \<lparr>cl_pid = p, cl_tgid = 501, cl_comm = ''cat'', cl_dying = False, cl_task = demo_sur\<rparr>"

definition demo_cfg :: hook_config where
  "demo_cfg = \<lparr>cfg_mattxfs = False, cfg_file_io = True, cfg_network_io = True, cfg_hpc_libs = False\<rparr>"

definition demo_regs :: sysregs where
  "demo_regs = no_regs\<lparr>r_di := 3, r_si := 64, r_dx := 10\<rparr>"

lemma demo_worm_scan: "scan (\<lambda>i. local_pid (slots (g_reg demo_worm) i) = 501) 2 = Some 1" "cnt (g_reg demo_worm) = 2"
proof -
  show "scan (\<lambda>i. local_pid (slots (g_reg demo_worm) i) = 501) 2 = Some 1"
    by (rule scan_unique) (auto simp: demo_worm_def demo_guest_def split: if_splits)
qed (simp add: demo_worm_def)

lemma demo_hook:
  "entry_handler_read (g_reg demo_worm) (demo_caller 501) demo_regs (Rw_data 0 0 0 False) = (demo_regs\<lparr>r_di := - 1\<rparr>, Rw_data 3 64 10 True)"
  "ret_handler_read True (demo_caller 501) (Rw_data 3 64 10 True) (g_reg demo_worm) = (g_reg demo_worm, None, [Freezes 501, Queues demo_work])"
proof -
  have g: "is_guest_process 501 (g_reg demo_worm)" by (simp add: is_guest_process_def demo_worm_scan)
  show "entry_handler_read (g_reg demo_worm) (demo_caller 501) demo_regs (Rw_data 0 0 0 False) = (demo_regs\<lparr>r_di := - 1\<rparr>, Rw_data 3 64 10 True)"
    using g by (simp add: entry_handler_read_def entry_rw_def demo_caller_def demo_regs_def no_regs_def rw_wormhole_def file_at_def demo_sur_def Let_def)
  have same: "upd_slot (Suc 0) waiting_mark (g_reg demo_worm) = g_reg demo_worm"
    by (simp add: upd_slot_def waiting_mark_def demo_worm_def demo_guest_def fun_eq_iff)
  have e: "orig_pid (slots (g_reg demo_worm) (Suc 0)) = 100" "home_node (slots (g_reg demo_worm) (Suc 0)) = 7"
    by (simp_all add: demo_worm_def demo_guest_def)
  show "ret_handler_read True (demo_caller 501) (Rw_data 3 64 10 True) (g_reg demo_worm) = (g_reg demo_worm, None, [Freezes 501, Queues demo_work])"
    using g by (simp add: forward_def forward_with_def demo_caller_def demo_worm_scan same e demo_work_def Let_def)
qed


theorem forwarded_call_thaws_witness:
  "\<exists>ph es. mattx_rpc_worker (demo_view demo_worm # [demo_view demo_worm] @ demo_view demo_answered # [] @ demo_view demo_answered # [])
     (Fresh demo_work) = (ph, es) \<and> thaws es = [501]"
proof -
  have h: "hook_return demo_cfg True (demo_caller 501) (g_reg demo_worm) (g_reg demo_worm, None, [Freezes 501, Queues demo_work])"
    using hook_return.read [of demo_cfg True "demo_caller 501" "g_reg demo_worm" "Rw_data 3 64 10 True"] by (simp only: demo_hook(2))
  have w: "\<forall>v\<in>set [demo_view demo_worm]. \<exists>i. guest_of (v_tg v) (cl_pid (demo_caller 501)) (g_reg (v_world v)) = Some i \<and>
      \<not> is_migrating (slots (g_reg (v_world v)) i) \<and> \<not> rpc_done (slots (g_reg (v_world v)) i)"
    using demo_worm_finds(1) by (auto simp: demo_view_def demo_caller_def) (auto simp: demo_worm_def demo_guest_def)
  have g: "guest_of (v_tg (demo_view demo_answered)) (cl_pid (demo_caller 501)) (g_reg (v_world (demo_view demo_answered))) = Some 1"
    "\<not> is_migrating (slots (g_reg (v_world (demo_view demo_answered))) 1)" "rpc_done (slots (g_reg (v_world (demo_view demo_answered))) 1)"
    by (simp_all add: demo_view_def demo_caller_def demo_answered_facts)
  obtain ph es where run: "mattx_rpc_worker (demo_view demo_worm # [demo_view demo_worm] @ demo_view demo_answered # [] @ demo_view demo_answered # [])
     (Fresh demo_work) = (ph, es)" by (meson surj_pair)
  have look: "rpc_look (\<lambda>_. None) 501 (g_reg demo_answered) = (g_reg demo_answered, Some (Answered (rpc_remote_fd (slots (g_reg demo_answered) 1))))"
    "rpc_look (\<lambda>_. None) 501 (g_reg demo_worm) = (g_reg demo_worm, None)"
    using demo_worm_finds(1) by (simp_all add: rpc_look_def demo_answered_facts) (auto simp: demo_worm_def demo_guest_def)
  have "rpc_send demo_luck (\<lambda>_. None) (Some demo_sur) demo_work demo_worm = (demo_work, demo_worm, [Asks 7 (Ask (C_read 100 3 10))])"
    by (simp add: rpc_send_def prepare_def demo_work_def) (simp add: demo_worm_def)
  moreover obtain w' s' where "rpc_finish demo_luck (\<lambda>_. None) demo_work (Answered (rpc_remote_fd (slots (g_reg demo_answered) 1))) demo_answered demo_sur =
      (w', s', [Frees 6, Conts 501])" using demo_finish by blast
  ultimately have "es = [Asks 7 (Ask (C_read 100 3 10)), Frees 6, Conts 501]"
    using arg_cong [OF run, of snd] look
    by (simp add: run_step over_is_over demo_view_def worker_step.simps demo_work_def)
  then have "Crashes \<notin> set es" by simp
  with forwarded_call_thaws [OF h _ w g _ _ _ _ g(1,2) run] run
  show ?thesis by (simp add: demo_view_def demo_caller_def)
qed

definition demo_gang :: guests where
  "demo_gang = \<lparr>slots = (\<lambda>_. (demo_guest 501 100 7 78)\<lparr>thread_count := 2, orig_tids := (\<lambda>j. 100 + of_nat j), local_tids := (\<lambda>j. 501 + of_nat j)\<rparr>),
     cnt = 1\<rparr>"

theorem tid_roundtrip_witness:
  "entry_handler_tgkill demo_gang (demo_caller 501)
     (no_regs\<lparr>r_di := ret_handler_getpid (demo_caller 502) demo_gang 501, r_si := ret_handler_gettid (demo_caller 502) demo_gang (ucast (502 :: pid))\<rparr>) =
   no_regs\<lparr>r_di := 501, r_si := 502\<rparr>"
proof -
  have "scan (\<lambda>i. local_pid (slots demo_gang i) = 501) 1 = Some 0"
    by (rule scan_unique) (auto simp: demo_gang_def demo_guest_def)
  then have g: "guest_entry (demo_caller 502) demo_gang = Some (slots demo_gang 0)"
    by (simp add: guest_entry_def demo_caller_def) (simp add: demo_gang_def)
  have i: "inj_on (orig_tids (slots demo_gang 0)) {..<thread_count (slots demo_gang 0)}"
    by (auto simp: demo_gang_def inj_on_def less_2_cases_iff)
  have "\<exists>j<thread_count (slots demo_gang 0). local_tids (slots demo_gang 0) j = cl_pid (demo_caller 502)"
    by (rule exI [of _ 1]) (simp add: demo_gang_def demo_caller_def)
  with tid_roundtrip [OF g _ i, where c' = "demo_caller 501" and regs = no_regs and ax = 501] show ?thesis by (simp add: demo_caller_def)
qed

theorem intercepted_read_equiv_witness:
  "\<exists>s3 w2 w3 ph e3.
     worker_step (demo_view demo_answered) (Waiting demo_work) = (ph, w2, Some demo_sur, []) \<and>
     worker_step (demo_view w2) ph = (Over, w3, Some s3, e3) \<and> sg_ax s3 = 2 \<and> sg_mem s3 65 = 2 \<and> e3 = [Frees 6, Conts 501]"
proof -
  have k: "k_home_node demo_work = 7" "k_orig_pid demo_work = 100" by (simp_all add: demo_work_def)
  have g: "\<not> is_migrating (slots (g_reg demo_worm) 1)" by (simp add: demo_worm_def demo_guest_def)
  have me: "cl_pid (demo_caller 501) = 501" by (simp add: demo_caller_def)
  have send: "rpc_send demo_luck (\<lambda>_. None) None demo_work demo_worm = (demo_work, demo_worm, [Asks 7 (Ask (C_read 100 3 10))])"
    by (simp add: rpc_send_def prepare_def demo_work_def) (simp add: demo_worm_def)
  have f: "native_file 100 (unat (3 :: u32)) demo_home = Some 13"
    by (simp add: native_file_def demo_files_of) (simp add: demo_home_def demo_tab_def)
  have env: "h_links demo_home 3" "h_mem demo_host 0" "h_mem demo_host 1" by (simp_all add: demo_home_def demo_host_def)
  have dx: "unat (r_dx demo_regs) = 10" "r_si demo_regs = 64" "(3 :: u32) = ucast (r_di demo_regs)" by (simp_all add: demo_regs_def)
  have rd: "h_read demo_host (map_option t_cred (tasks demo_home 100)) 13 (min 10 4096) (f_pos demo_home 13) = (2, [1, 2], 2)"
    by (simp add: demo_home_def demo_host_def)
  obtain h' ds where req: "handle_sys_read_req demo_host 3 (Some (100, 3, 10)) demo_home = (h', ds)" by (meson surj_pair)
  have sent: "Send 3 (A_data MATTX_MSG_SYS_READ_REPLY 100 2 0 [1, 2]) \<in> set ds"
    using read_req_answer(1) [OF _ f env, of 10 2 "[1, 2]" 2 h' ds] rd req by (simp add: err_of_def)
  have fo: "foreign 7 100 6 []" by (simp add: foreign_def)
  note th = intercepted_read_equiv [where ?k0.0 = demo_work and c = "demo_caller 501" and regs = demo_regs, unfolded k me dx(1,2)]
  have run: "deliver_all ([] @ [(Some 6, 7, A_data MATTX_MSG_SYS_READ_REPLY 100 2 0 [1, 2])] @ []) demo_worm = demo_answered"
    by (simp add: demo_answered_def)
  have "\<exists>ph w2. worker_step (demo_view demo_answered) (Waiting demo_work) = (ph, w2, Some demo_sur, [])"
    by (simp add: demo_view_def worker_step.simps split: prod.split)
  then obtain ph w2 where s1: "worker_step (demo_view demo_answered) (Waiting demo_work) = (ph, w2, Some demo_sur, [])" by blast
  obtain ph' w3 so3 e3 where s2: "worker_step (demo_view w2) ph = (ph', w3, so3, e3)" by (rule prod_cases4)
  have "so3 = Some (demo_sur\<lparr>sg_mem := poke 64 (take (nat 2) [1, 2]) (sg_mem demo_sur), sg_ax := 2\<rparr>) \<and>
      f_pos h' 13 = (if 0 \<le> (2::int) then 2 else f_pos demo_home 13) \<and> ph' = Over \<and>
      e3 = (if 0 < (2::int) then [Frees 6] else []) @ [Conts 501]"
    by (rule th [OF demo_hook _ refl demo_worm_finds g send dx(3) _ f env rd _ req sent fo fo
          s1 [folded run, unfolded demo_view_def] s2 [unfolded demo_view_def]])
      (simp_all add: vm_full_def vm_count_def demo_sur_def)
  with s1 s2 show ?thesis by (auto simp: poke_def)
qed

theorem sleep_shifted_witness:
  "\<exists>fx fx1. entry_handler_clock_nanosleep (demo_caller 501) (no_regs\<lparr>r_di := 1, r_si := 1\<rparr>) (Some (3, 999999999)) fx = (Some (4, 4), fx1)"
proof -
  define fx :: fixups where "fx = (\<lambda>i. \<lparr>in_use = (i = 0), f_local_pid = 501, offset_ns = 5, f_thread_count = 1, f_tids = (\<lambda>_. 501), f_pending = (\<lambda>_. True)\<rparr>)"
  have "fixup_of 501 fx = Some 0"
    unfolding fixup_of_def by (rule scan_unique) (auto simp: fx_def)
  moreover have "scan (\<lambda>j. f_tids (fx 0) j = 501 \<and> f_pending (fx 0) j) (f_thread_count (fx 0)) = Some 0"
    by (rule scan_unique) (auto simp: fx_def)
  ultimately obtain fx' where c: "mattx_clock_fixup_consume (cl_tgid (demo_caller 501)) (cl_pid (demo_caller 501)) fx = (Some 5, fx')"
    by (simp add: mattx_clock_fixup_consume_def demo_caller_def) (simp add: fx_def)
  obtain sec' nsec' fx1 where r: "entry_handler_clock_nanosleep (demo_caller 501) (no_regs\<lparr>r_di := 1, r_si := 1\<rparr>) (Some (3, 999999999)) fx = (Some (sec', nsec'), fx1)"
    using c by (simp add: entry_handler_clock_nanosleep_def no_regs_def Let_def)
  have t: "sec' * 1000000000 + nsec' = 3 * 1000000000 + 999999999 + 5 \<and> 0 \<le> nsec' \<and> nsec' < 1000000000 \<and> fx1 = fx'"
    by (rule sleep_shifted [OF c _ _ _ _ _ _ _ _ r]) (simp_all add: no_regs_def)
  then have sec: "sec' = 4" by arith
  moreover have "nsec' = 4" using t unfolding sec by simp
  ultimately have "sec' = 4" "nsec' = 4" by simp_all
  with r show ?thesis by blast
qed

section \<open>What goes wrong\<close>

text \<open>
  Seeking, syncing and the extended status of a fake file are sent with the number the file has
  here, not with that of the home node.
\<close>

lemma fileio_local_number:
  assumes "is_guest_process (cl_tgid c) r" "file_at (cl_task c) (int32 (r_di regs)) = Some f" "sg_info (cl_task c) f = Some i"
    and "\<not> cfg_mattxfs cfg" "entry_handler_fileio Probe_lseek cfg r c regs d = (regs', d')"
    and "ret_handler_fileio Probe_lseek mem c d' r = (r', ax, e)" "Queues k \<in> set e"
  shows "\<exists>off wh. k_call k = R_lseek (of_int (int32 (r_di regs))) off wh"
proof -
  have "fi_wormhole d'" "fi_fd d' = int32 (r_di regs)" using assms(1-5) by (auto simp: entry_handler_fileio_def Let_def)
  then show ?thesis using assms(6,7)
    by (auto simp: ret_handler_fileio_def forward_early_def forward_with_def keep_def Let_def split: if_splits option.splits)
qed

text \<open>
  A thread of a guest that is not its first one is not listed in the registry. Its \<^verbatim>\<open>uname\<close>, \<^verbatim>\<open>prlimit\<close> and
  \<^verbatim>\<open>prctl\<close> are spoiled, but not forwarded; its opens, reads and socket calls run on the wrong node.
\<close>

lemma thread_call_lost:
  assumes "is_guest_process (cl_tgid c) r" "\<not> is_guest_process (cl_pid c) r"
    and "entry_handler_uname r c regs d = (regs', d')"
  shows "r_di regs' = 0" and "ret_handler_uname mem c d' r = keep r"
  using assms by (auto simp: entry_handler_uname_def spoil_def ret_handler_uname_def ret_by_thread_def)

lemma thread_open_not_forwarded:
  "\<not> is_guest_process (cl_pid c) r \<Longrightarrow> entry_handler_openat cfg r c how regs d = (regs, d)"
  "\<not> is_guest_process (cl_pid c) r \<Longrightarrow> entry_handler_read r c regs' d' = (regs', d')"
  by (simp_all add: entry_handler_openat_def entry_handler_read_def entry_rw_def)

text \<open>Waiting for events forgets the buffer of an earlier reply without freeing it.\<close>

lemma epoll_wait_forgets_buffer:
  assumes "scan (\<lambda>i. local_pid (slots r i) = cl_tgid c) (cnt r) = Some i" "\<not> cl_dying c"
    and "ret_handler_epoll_wait mem c (Fd_data epfd a True rfd) r = (r', ax, e)"
  shows "rpc_read_buf (slots r' i) = None"
  using assms by (cases a) (auto simp: forward_with_def keep_def Let_def upd_slot_def split: if_splits)

text \<open>With the forwarding of file calls switched off an open is still spoiled, and always fails.\<close>

lemma open_fails_when_disabled:
  assumes "is_guest_process (cl_pid c) r" "\<not> cfg_mattxfs cfg" "\<not> cfg_file_io cfg" "\<not> cfg_hpc_libs cfg"
    and "entry_handler_openat cfg r c how regs d = (regs', d')" "ret_handler_openat cfg mem c d' r = (r', ax, e)"
  shows "r_si regs' = 0" and "e = []"
  using assms
  by (auto simp: entry_handler_openat_def fast_path_def forward_with_def keep_def Let_def split: option.splits if_splits)

text \<open>
  When mattxfs is mounted a duplicate is not looked at, but its return handler goes by what an earlier call has left:
  the duplicate has already been made, and is made again at home.
\<close>

lemma dup_by_stale_data:
  assumes "is_guest_process (cl_pid c) r" "cfg_mattxfs cfg" "scan (\<lambda>i. local_pid (slots r i) = cl_tgid c) (cnt r) = Some i"
    and "home_node (slots r i) \<noteq> - 1" "\<not> cl_dying c"
    and "entry_handler_dup is_dup2 cfg r c regs (Dup_data old new True rfd) = (regs', d')"
    and "ret_handler_dup flags True c d' r = (r', ax, e)"
  shows "regs' = regs" and "Freezes (cl_pid c) \<in> set e"
  using assms by (auto simp: entry_handler_dup_def forward_def forward_with_def Let_def)

text \<open>
  A thread that was started after the migration may get a number that a thread of the gang had at
  home: a signal to it then goes to that thread.
\<close>

lemma new_thread_misdirected:
  assumes "guest_entry c r = Some g" "\<forall>j<thread_count g. local_tids g j \<noteq> cl_pid c"
    and "scan (\<lambda>i. orig_tids g i = cl_pid c) (thread_count g) = Some j"
  shows "r_si (entry_handler_tgkill r c (regs\<lparr>r_si := ret_handler_gettid c r (ucast (cl_pid c))\<rparr>)) = ucast (local_tids g j)"
    and "local_tids g j \<noteq> cl_pid c"
proof -
  have "scan (\<lambda>j. local_tids g j = cl_pid c) (thread_count g) = None" using assms(2) by (simp add: scan_None)
  then show "r_si (entry_handler_tgkill r c (regs\<lparr>r_si := ret_handler_gettid c r (ucast (cl_pid c))\<rparr>)) = ucast (local_tids g j)"
    using assms(1,3) by (simp add: entry_handler_tgkill_def ret_handler_gettid_def Let_def)
  show "local_tids g j \<noteq> cl_pid c" using assms(2) scan_SomeD(1) [OF assms(3)] by simp
qed

end
