(* ===== verification/Mx_Stub.thy ===== *)
theory Mx_Stub
  imports Mx_Import Mx_Admin
begin

text \<open>
  The surrogate stub (\<^verbatim>\<open>bin/mattx_stub.c\<close>), the program in which a guest is built: it asks the module
  for the blueprint, maps an area for each area of it, starts as many threads, clears its descriptor
  table, enters the file system of the home node, and reports to the module.

  The program is the list of system calls it makes, given which of them succeed; what they do to
  the process is a function of its own, with the fixed mapping of the kernel as a parameter.
\<close>

section \<open>The calls\<close>

datatype (plugins only: size code) stub_call =
  Mmap nat nat int | Clone | Dup2 nat nat | Close nat |
  Unshare | Mount_private | Access string | Bind string string | Chroot string | Chdir string | Mkdir string | Mount_proc |
  Send_hijack u32

abbreviation (input) MAP_SHARED :: int where "MAP_SHARED \<equiv> 1"
abbreviation (input) MAP_PRIVATE :: int where "MAP_PRIVATE \<equiv> 2"
abbreviation (input) MAP_FIXED :: int where "MAP_FIXED \<equiv> 0x10"
abbreviation (input) MAP_ANONYMOUS :: int where "MAP_ANONYMOUS \<equiv> 0x20"
abbreviation (input) MAP_GROWSDOWN :: int where "MAP_GROWSDOWN \<equiv> 0x100"

text \<open>
  What the stub meets: \<open>se_receive i\<close> is the blueprint that the i-th receiving attempt brought, if any;
  \<open>se_sock\<close> is the descriptor of its netlink socket.
\<close>

record stub_env =
  se_pid :: u32
  se_family :: bool
  se_request :: bool
  se_receive :: "nat \<Rightarrow> mattx_migration_req option"
  se_ok :: "stub_call \<Rightarrow> bool"
  se_sock :: nat

definition stub_receive :: "stub_env \<Rightarrow> mattx_migration_req option" where
  "stub_receive e = (case scan (\<lambda>i. se_receive e i \<noteq> None) 10 of Some i \<Rightarrow> se_receive e i | None \<Rightarrow> None)"

definition carve_flags :: "mattx_vma_info \<Rightarrow> int" where
  "carve_flags v = MAP_ANONYMOUS + MAP_FIXED + (if is_shm v then MAP_SHARED else MAP_PRIVATE) +
     (if vm_flags v AND 0x0100 \<noteq> 0 then MAP_GROWSDOWN else 0)"

definition carve_call :: "mattx_vma_info \<Rightarrow> stub_call" where
  "carve_call v = Mmap (vm_start v) (unat (of_nat (vm_end v) - of_nat (vm_start v) :: u64)) (carve_flags v)"

definition mfs_path :: "mattx_migration_req \<Rightarrow> string" where
  "mfs_path req = ''/mattxfs/'' @ print_u (rq_home_node req)"

definition dfsa_target :: "mattx_migration_req \<Rightarrow> string" where
  "dfsa_target req = take 511 (mfs_path req @ rq_dfsa_dir req)"

definition illusion :: "(stub_call \<Rightarrow> bool) \<Rightarrow> mattx_migration_req \<Rightarrow> stub_call list" where
  "illusion ok req =
     (if \<not> rq_mattxfs_enabled req then []
      else Unshare # (if \<not> ok Unshare then []
        else Mount_private #
          (if rq_dfsa_dir req \<noteq> [] then [Access (dfsa_target req), Bind (rq_dfsa_dir req) (dfsa_target req)] else []) @
          Chroot (mfs_path req) # (if ok (Chroot (mfs_path req)) then [Chdir ''/'', Mkdir ''/proc'', Mount_proc] else [])))"

text \<open>The whole program: its calls and the code with which it ends; None: it waits to be taken over.\<close>

definition stub_main :: "stub_env \<Rightarrow> stub_call list \<times> int option" where
  "stub_main e =
     (if \<not> se_family e \<or> \<not> se_request e then ([], Some (- 1))
      else (case stub_receive e of None \<Rightarrow> ([], Some (- 1))
        | Some req \<Rightarrow>
           (map carve_call (rq_vmas req) @
            replicate (length (rq_threads req) - 1) Clone @
            map (Dup2 0) [3..<MAX_FDS] @ map Close [3..<MAX_FDS] @
            illusion (se_ok e) req @ [Send_hijack (se_pid e)], None)))"

section \<open>What the calls do\<close>

record stub_proc =
  sp_vmas :: "kvma list"
  sp_threads :: nat
  sp_open :: "nat \<Rightarrow> bool"
  sp_table :: nat
  sp_root :: string
  sp_hijack :: bool

text \<open>\<open>mmap vs a n fl\<close>: the areas after a fixed mapping of n bytes at a; None when it fails.\<close>

type_synonym mapper = "kvma list \<Rightarrow> nat \<Rightarrow> nat \<Rightarrow> int \<Rightarrow> kvma list option"

fun stub_do :: "mapper \<Rightarrow> stub_env \<Rightarrow> stub_call \<Rightarrow> stub_proc \<Rightarrow> stub_proc" where
  "stub_do mmap e (Mmap a n fl) p = (case mmap (sp_vmas p) a n fl of Some vs \<Rightarrow> p\<lparr>sp_vmas := vs\<rparr> | None \<Rightarrow> p)"
| "stub_do mmap e Clone p = (if se_ok e Clone then p\<lparr>sp_threads := sp_threads p + 1\<rparr> else p)"
| "stub_do mmap e (Dup2 s i) p = (if sp_open p s then p\<lparr>sp_open := (sp_open p)(i := True), sp_table := max (sp_table p) (i + 1)\<rparr> else p)"
| "stub_do mmap e (Close i) p = p\<lparr>sp_open := (sp_open p)(i := False)\<rparr>"
| "stub_do mmap e (Chroot d) p = (if se_ok e (Chroot d) then p\<lparr>sp_root := d\<rparr> else p)"
| "stub_do mmap e (Send_hijack k) p = (if sp_open p (se_sock e) \<and> se_ok e (Send_hijack k) then p\<lparr>sp_hijack := True\<rparr> else p)"
| "stub_do mmap e _ p = p"

definition stub_run :: "mapper \<Rightarrow> stub_env \<Rightarrow> stub_proc \<Rightarrow> stub_proc" where
  "stub_run mmap e p = fold (stub_do mmap e) (fst (stub_main e)) p"

section \<open>Carving\<close>

definition covered :: "kvma list \<Rightarrow> nat \<Rightarrow> nat \<Rightarrow> bool" where
  "covered vs x y \<longleftrightarrow> (\<exists>w\<in>set vs. kv_start w \<le> x \<and> y \<le> kv_end w)"

text \<open>
  What the stub relies on: a fixed mapping of a positive length succeeds, one area then holds the range,
  and what one area held on either side of the range is still held by one area.
\<close>

definition fixed_mmap :: "mapper \<Rightarrow> bool" where
  "fixed_mmap mmap \<longleftrightarrow> (\<forall>vs a n fl. areas_ok vs \<longrightarrow> 0 < n \<longrightarrow> (\<exists>vs'. mmap vs a n fl = Some vs' \<and> areas_ok vs' \<and> covered vs' a (a + n) \<and>
     (\<forall>x y. x < y \<longrightarrow> y \<le> a \<or> a + n \<le> x \<longrightarrow> covered vs x y \<longrightarrow> covered vs' x y)))"

definition blueprint_areas_ok :: "mattx_vma_info list \<Rightarrow> bool" where
  "blueprint_areas_ok vs \<longleftrightarrow> sorted_wrt (\<lambda>v w. vm_end v \<le> vm_start w) vs \<and> (\<forall>v\<in>set vs. vm_start v < vm_end v \<and> vm_end v < 2 ^ 64)"

lemma area_size:
  assumes "a \<le> b" "b < 2 ^ 64"
  shows "unat (of_nat b - of_nat a :: u64) = b - a"
  using assms by (simp add: of_nat_diff [symmetric] unat_of_nat del: of_nat_diff)

lemma carve_one:
  assumes "fixed_mmap mmap" "areas_ok (sp_vmas p)" "vm_start v < vm_end v" "vm_end v < 2 ^ 64"
  obtains vs where "stub_do mmap e (carve_call v) p = p\<lparr>sp_vmas := vs\<rparr>" "areas_ok vs" "covered vs (vm_start v) (vm_end v)"
    "\<And>x y. x < y \<Longrightarrow> y \<le> vm_start v \<or> vm_end v \<le> x \<Longrightarrow> covered (sp_vmas p) x y \<Longrightarrow> covered vs x y"
proof -
  have n: "unat (of_nat (vm_end v) - of_nat (vm_start v) :: u64) = vm_end v - vm_start v" using assms(3,4) by (simp add: area_size)
  obtain vs where "mmap (sp_vmas p) (vm_start v) (vm_end v - vm_start v) (carve_flags v) = Some vs" "areas_ok vs"
      "covered vs (vm_start v) (vm_start v + (vm_end v - vm_start v))"
      "\<And>x y. x < y \<Longrightarrow> y \<le> vm_start v \<or> vm_start v + (vm_end v - vm_start v) \<le> x \<Longrightarrow> covered (sp_vmas p) x y \<Longrightarrow> covered vs x y"
    using assms(1-3) unfolding fixed_mmap_def by (metis zero_less_diff)
  then show ?thesis using that [of vs] assms(3) by (simp add: carve_call_def n)
qed

lemma carve_all:
  assumes "fixed_mmap mmap" "areas_ok (sp_vmas p)" "blueprint_areas_ok vs"
  shows "\<exists>us. fold (stub_do mmap e) (map carve_call vs) p = p\<lparr>sp_vmas := us\<rparr> \<and> areas_ok us \<and>
    (\<forall>v\<in>set vs. covered us (vm_start v) (vm_end v)) \<and>
    (\<forall>x y. x < y \<longrightarrow> (\<forall>v\<in>set vs. y \<le> vm_start v \<or> vm_end v \<le> x) \<longrightarrow> covered (sp_vmas p) x y \<longrightarrow> covered us x y)"
  using assms(2,3)
proof (induction vs arbitrary: p)
  case Nil
  then show ?case by (intro exI [of _ "sp_vmas p"]) simp
next
  case (Cons v vs)
  have v: "vm_start v < vm_end v" "vm_end v < 2 ^ 64" and rest: "blueprint_areas_ok vs"
      "\<forall>w\<in>set vs. vm_end v \<le> vm_start w" using Cons.prems(2) by (simp_all add: blueprint_areas_ok_def)
  obtain us where us: "stub_do mmap e (carve_call v) p = p\<lparr>sp_vmas := us\<rparr>" "areas_ok us" "covered us (vm_start v) (vm_end v)"
    "\<And>x y. x < y \<Longrightarrow> y \<le> vm_start v \<or> vm_end v \<le> x \<Longrightarrow> covered (sp_vmas p) x y \<Longrightarrow> covered us x y"
    using carve_one [OF assms(1) Cons.prems(1) v] by metis
  obtain ws where ws: "fold (stub_do mmap e) (map carve_call vs) (p\<lparr>sp_vmas := us\<rparr>) = p\<lparr>sp_vmas := ws\<rparr>" "areas_ok ws"
      "\<forall>w\<in>set vs. covered ws (vm_start w) (vm_end w)"
      "\<forall>x y. x < y \<longrightarrow> (\<forall>w\<in>set vs. y \<le> vm_start w \<or> vm_end w \<le> x) \<longrightarrow> covered us x y \<longrightarrow> covered ws x y"
    using Cons.IH [of "p\<lparr>sp_vmas := us\<rparr>"] us(2) rest(1) by auto
  have "covered ws (vm_start v) (vm_end v)" using ws(4) us(3) v(1) rest(2) by blast
  then show ?case using us ws by (intro exI [of _ ws]) auto
qed

section \<open>The other calls\<close>

lemma clones: "se_ok e Clone \<Longrightarrow> (stub_do mmap e Clone ^^ n) p = p\<lparr>sp_threads := sp_threads p + n\<rparr>"
  by (induction n) simp_all

abbreviation table_after :: "nat list \<Rightarrow> nat \<Rightarrow> nat" where
  "table_after is t \<equiv> fold (\<lambda>i t. max t (Suc i)) is t"

lemma table_grows: "t \<le> table_after is t" "i \<in> set is \<Longrightarrow> i + 1 \<le> table_after is t"
proof -
  show g: "t \<le> table_after is t" for t
  proof (induction "is" arbitrary: t)
    case (Cons j js)
    show ?case using order_trans [OF max.cobounded1 Cons.IH [of "max t (Suc j)"]] by simp
  qed simp
  show "i \<in> set is \<Longrightarrow> i + 1 \<le> table_after is t"
  proof (induction "is" arbitrary: t)
    case (Cons j js)
    have "table_after (j # js) t = table_after js (max t (Suc j))" by simp
    moreover have "Suc j \<le> table_after ks (max t (Suc j))" for ks
    proof (induction ks arbitrary: t)
      case (Cons k ks)
      show ?case using Cons.IH [of "max t (Suc k)"] by (simp add: max.assoc max.commute max.left_commute)
    qed simp
    ultimately show ?case using Cons by auto
  qed simp
qed

lemma dups:
  "sp_open p 0 \<Longrightarrow> fold (stub_do mmap e) (map (Dup2 0) is) p =
    p\<lparr>sp_open := (\<lambda>i. i \<in> set is \<or> sp_open p i), sp_table := table_after is (sp_table p)\<rparr>"
proof (induction "is" arbitrary: p)
  case (Cons i js)
  have "(\<lambda>j. j \<in> set js \<or> ((sp_open p)(i := True)) j) = (\<lambda>j. j \<in> set (i # js) \<or> sp_open p j)" by auto
  then show ?case using Cons.IH [of "p\<lparr>sp_open := (sp_open p)(i := True), sp_table := max (sp_table p) (i + 1)\<rparr>"] Cons.prems by simp
qed simp

lemma closes:
  "fold (stub_do mmap e) (map Close is) p = p\<lparr>sp_open := (\<lambda>i. i \<notin> set is \<and> sp_open p i)\<rparr>"
proof (induction "is" arbitrary: p)
  case (Cons i js)
  have "(\<lambda>j. j \<notin> set js \<and> ((sp_open p)(i := False)) j) = (\<lambda>j. j \<notin> set (i # js) \<and> sp_open p j)" by auto
  then show ?case using Cons.IH [of "p\<lparr>sp_open := (sp_open p)(i := False)\<rparr>"] by simp
qed simp

lemma cleared:
  assumes "sp_open p 0"
  shows "fold (stub_do mmap e) (map Close is) (fold (stub_do mmap e) (map (Dup2 0) is) p) =
    p\<lparr>sp_open := (\<lambda>i. i \<notin> set is \<and> sp_open p i), sp_table := table_after is (sp_table p)\<rparr>"
proof -
  have "(\<lambda>i. i \<notin> set is \<and> (i \<in> set is \<or> sp_open p i)) = (\<lambda>i. i \<notin> set is \<and> sp_open p i)" by auto
  then show ?thesis by (simp add: dups [where p = p, OF assms] closes)
qed

lemma illusion_run:
  "fold (stub_do mmap e) (illusion (se_ok e) req) p =
    (if rq_mattxfs_enabled req \<and> se_ok e Unshare \<and> se_ok e (Chroot (mfs_path req)) then p\<lparr>sp_root := mfs_path req\<rparr> else p)"
  by (simp add: illusion_def)


text \<open>A fixed mapping as the contract wants it: what lies in the range is cut away.\<close>

definition mmap_cut :: mapper where
  "mmap_cut vs a n fl =
     (if n = 0 then None
      else Some (map (\<lambda>v. v\<lparr>kv_end := min (kv_end v) a\<rparr>) (filter (\<lambda>v. kv_start v < a) vs) @
        [\<lparr>kv_start = a, kv_end = a + n, kv_flags = 7, kv_file = None\<rparr>] @
        map (\<lambda>v. v\<lparr>kv_start := max (kv_start v) (a + n)\<rparr>) (filter (\<lambda>v. a + n < kv_end v) vs)))"

lemma mmap_cut_fixed: "fixed_mmap mmap_cut"
  unfolding fixed_mmap_def
proof (intro allI impI)
  fix vs :: "kvma list" and a n :: nat and fl :: int
  assume ok: "areas_ok vs" and n: "0 < n"
  let ?l = "map (\<lambda>v. v\<lparr>kv_end := min (kv_end v) a\<rparr>) (filter (\<lambda>v. kv_start v < a) vs)"
    and ?r = "map (\<lambda>v. v\<lparr>kv_start := max (kv_start v) (a + n)\<rparr>) (filter (\<lambda>v. a + n < kv_end v) vs)"
    and ?m = "\<lparr>kv_start = a, kv_end = a + n, kv_flags = 7, kv_file = None\<rparr> :: kvma"
  have eq: "mmap_cut vs a n fl = Some (?l @ [?m] @ ?r)" using n by (simp add: mmap_cut_def)
  have s: "sorted_wrt (\<lambda>v w. kv_end v \<le> kv_start w) vs" "\<forall>v\<in>set vs. kv_start v < kv_end v" using ok by (simp_all add: areas_ok_def)
  have "sorted_wrt (\<lambda>v w. kv_end v \<le> kv_start w) ?l" "sorted_wrt (\<lambda>v w. kv_end v \<le> kv_start w) ?r"
    unfolding sorted_wrt_map by (rule sorted_wrt_mono_rel [OF _ sorted_wrt_filter [OF s(1)]], simp)+
  then have "areas_ok (?l @ [?m] @ ?r)" using s(2) n by (auto simp: areas_ok_def sorted_wrt_append)
  moreover have "covered (?l @ [?m] @ ?r) x y" if "x < y" "y \<le> a \<or> a + n \<le> x" "covered vs x y" for x y
  proof -
    note c = that
    obtain w where w: "w \<in> set vs" "kv_start w \<le> x" "y \<le> kv_end w" using c(3) by (auto simp: covered_def)
    show ?thesis
    proof (cases "y \<le> a")
      case True
      then have "w\<lparr>kv_end := min (kv_end w) a\<rparr> \<in> set ?l" using w c(1) by auto
      then show ?thesis using True w unfolding covered_def by (intro bexI [of _ "w\<lparr>kv_end := min (kv_end w) a\<rparr>"]) auto
    next
      case False
      then have "w\<lparr>kv_start := max (kv_start w) (a + n)\<rparr> \<in> set ?r" using w c(1,2) by auto
      then show ?thesis using False c(2) w unfolding covered_def
        by (intro bexI [of _ "w\<lparr>kv_start := max (kv_start w) (a + n)\<rparr>"]) auto
    qed
  qed
  moreover have "covered (?l @ [?m] @ ?r) a (a + n)" unfolding covered_def by (intro bexI [of _ ?m]) auto
  ultimately show "\<exists>vs'. mmap_cut vs a n fl = Some vs' \<and> areas_ok vs' \<and> covered vs' a (a + n) \<and>
      (\<forall>x y. x < y \<longrightarrow> y \<le> a \<or> a + n \<le> x \<longrightarrow> covered vs x y \<longrightarrow> covered vs' x y)"
    using eq by blast
qed

definition demo_stub_env :: stub_env where
  "demo_stub_env = \<lparr>se_pid = 20, se_family = True, se_request = True,
     se_receive = (\<lambda>i. if i = 1 then Some (demo_req\<lparr>rq_mattxfs_enabled := True, rq_home_node := 7\<rparr>) else None), se_ok = (\<lambda>_. True), se_sock = 0\<rparr>"

definition demo_stub :: stub_proc where
  "demo_stub = \<lparr>sp_vmas = [demo_vma 8192 40960 5], sp_threads = 1, sp_open = (\<lambda>i. i < 3), sp_table = 64, sp_root = ''/'', sp_hijack = False\<rparr>"


text \<open>
  What goes wrong: a netlink socket above the first three descriptors is closed with the others and the module
  never hears of the stub; and a stub that may not enter the file system of the home node goes on without.
\<close>

lemma high_socket_silent:
  assumes "3 \<le> se_sock e" "se_sock e < MAX_FDS" "sp_open p 0" "\<not> sp_hijack p" "stub_receive e = Some req" "se_family e" "se_request e"
    and "rq_vmas req = []" "length (rq_threads req) \<le> 1" "\<not> rq_mattxfs_enabled req"
  shows "\<not> sp_hijack (stub_run mmap e p)"
proof -
  define fds where "fds = [3..<MAX_FDS]"
  have fds: "set fds = {3..<MAX_FDS}" unfolding fds_def by (rule set_upt)
  have "stub_run mmap e p = stub_do mmap e (Send_hijack (se_pid e)) (p\<lparr>sp_open := (\<lambda>i. i \<notin> set fds \<and> sp_open p i), sp_table := table_after fds (sp_table p)\<rparr>)"
    using assms(5-10) unfolding stub_run_def stub_main_def fds_def [symmetric] by (simp add: illusion_def cleared [OF assms(3)])
  then show ?thesis using assms(1,2,4) fds by simp
qed

lemma illusion_optional:
  "\<not> se_ok e (Chroot (mfs_path req)) \<Longrightarrow> fold (stub_do mmap e) (illusion (se_ok e) req) p = p"
  by (simp add: illusion_run)

end
