(* ===== verification/Mx_Journey.thy ===== *)
theory Mx_Journey
  imports Mx_Import Mx_Hooks Mx_Stub
begin

text \<open>
  A process away and back, across the components: the target that the stub prepares, the transplant,
  the return into the deputy. Also what runs inside the deputy when it comes home: the callback that
  grows missing threads, with the hook that freezes them at birth, and the one that ends surplus
  threads (\<^verbatim>\<open>mattx_import.c\<close>).
\<close>

section \<open>Growing the gang\<close>

text \<open>
  What the deputy meets when it makes its missing threads: the stack for each, the thread that the
  clone makes, memory for the callback that is to freeze it, and whether the kernel functions are found.
\<close>

record grow_env =
  ge_stack :: "nat \<Rightarrow> nat option"
  ge_born :: "nat \<Rightarrow> pid option"
  ge_mem :: "nat \<Rightarrow> bool"
  real_sys_clone :: bool
  ge_task_work :: bool

datatype grow_effect = Maps_stack nat | Births nat pid | At_birth cradle_effect | Completes

fun grow_loop :: "grow_env \<Rightarrow> exports \<Rightarrow> hook_caller \<Rightarrow> nat \<Rightarrow> nat \<Rightarrow> grow_effect list" where
  "grow_loop env x c i 0 = []"
| "grow_loop env x c i (Suc n) =
     (case ge_stack env i of None \<Rightarrow> []
      | Some a \<Rightarrow> Maps_stack a #
         (if real_sys_clone env then
            (case ge_born env i of None \<Rightarrow> []
             | Some p \<Rightarrow> map At_birth (entry_handler_wake_up_new_task (ge_mem env i) (ge_task_work env) x c (Some p)) @ [Births (a + 4096) p])
          else [])) @ grow_loop env x c (Suc i) n"

definition mattx_gang_grower_cb :: "grow_env \<Rightarrow> hook_caller \<Rightarrow> nat \<Rightarrow> exports \<Rightarrow> grow_effect list \<times> exports" where
  "mattx_gang_grower_cb env c missing x =
     (grow_loop env x c 0 missing @ [Completes],
      (case scan (\<lambda>i. e_orig_pid (slots x i) = cl_tgid c) (cnt x) of
         Some i \<Rightarrow> upd_slot i (\<lambda>e. e\<lparr>e_is_growing_gang := False\<rparr>) x | None \<Rightarrow> x))"

definition newborns :: "grow_effect list \<Rightarrow> pid list" where
  "newborns es = concat (map (\<lambda>e. case e of Births _ p \<Rightarrow> [p] | _ \<Rightarrow> []) es)"

definition frozen_at_birth :: "grow_effect list \<Rightarrow> pid list" where
  "frozen_at_birth es = concat (map (\<lambda>e. case e of At_birth (Injects_freeze p) \<Rightarrow> [p] | _ \<Rightarrow> []) es)"

text \<open>A surplus thread forgets where its number lies in memory, then leaves.\<close>

datatype exorcist_effect = Frees_exorcist | Exits int | Sleeps

definition mattx_exorcist_cb :: "bool \<Rightarrow> kthread \<Rightarrow> kthread \<times> exorcist_effect list" where
  "mattx_exorcist_cb real_sys_exit k =
     (k\<lparr>k_clear_child_tid := 0, k_set_child_tid := 0\<rparr>, Frees_exorcist # (if real_sys_exit then [Exits 0] else [Sleeps]))"

lemma newborns_append [simp]: "newborns (a @ b) = newborns a @ newborns b" "newborns (map At_birth cs) = []"
  by (simp_all add: newborns_def)

lemma frozen_append [simp]: "frozen_at_birth (a @ b) = frozen_at_birth a @ frozen_at_birth b"
  by (simp add: frozen_at_birth_def)

text \<open>
  C25. Growing the gang. When a deputy that is marked as growing makes its missing threads, and
  memory and kernel functions are there for each, then it gets exactly that many threads, each is
  told to freeze before it first runs, in the order of their birth, and afterwards the mark is gone:
  threads that the process starts later are left alone.
\<close>

theorem grown_gang_frozen:
  assumes "scan (\<lambda>i. e_orig_pid (slots x i) = cl_tgid c) (cnt x) = Some i" "e_is_growing_gang (slots x i)"
    and "\<forall>j<missing. ge_stack env j \<noteq> None \<and> ge_born env j \<noteq> None \<and> ge_mem env j" "real_sys_clone env" "ge_task_work env"
    and "mattx_gang_grower_cb env c missing x = (es, x')"
  shows "length (newborns es) = missing \<and> frozen_at_birth es = newborns es \<and>
    (\<forall>mem known child. entry_handler_wake_up_new_task mem known x' c child = [])"
proof -
  have loop: "newborns (grow_loop env x c k n) = map (\<lambda>j. the (ge_born env j)) [k..<k + n] \<and>
      frozen_at_birth (grow_loop env x c k n) = map (\<lambda>j. the (ge_born env j)) [k..<k + n]" if "k + n \<le> missing" for k n
    using that
  proof (induction n arbitrary: k)
    case 0
    then show ?case by (simp add: newborns_def frozen_at_birth_def)
  next
    case (Suc n)
    have "k < missing" using Suc.prems by simp
    with assms(3) obtain a p where "ge_stack env k = Some a" "ge_born env k = Some p" "ge_mem env k" by blast
    moreover have "[k..<k + Suc n] = k # [Suc k..<Suc k + n]" by (simp add: upt_rec)
    ultimately show ?case using Suc.IH [of "Suc k"] Suc.prems assms(1,2,4,5)
      by (simp add: entry_handler_wake_up_new_task_def) (simp add: newborns_def frozen_at_birth_def)
  qed
  have es: "es = grow_loop env x c 0 missing @ [Completes]" and x': "x' = upd_slot i (\<lambda>e. e\<lparr>e_is_growing_gang := False\<rparr>) x"
    using assms(1,6) by (simp_all add: mattx_gang_grower_cb_def)
  have "scan (\<lambda>i. e_orig_pid (slots x' i) = cl_tgid c) (cnt x') = scan (\<lambda>i. e_orig_pid (slots x i) = cl_tgid c) (cnt x)"
    unfolding x' by (simp add: upd_slot_def) (intro scan_cong, auto)
  then have "entry_handler_wake_up_new_task mem known x' c child = []" for mem known child
    using assms(1) by (simp add: entry_handler_wake_up_new_task_def x' upd_slot_def split: option.split)
  moreover have "newborns [Completes] = []" "frozen_at_birth [Completes] = []" by (simp_all add: newborns_def frozen_at_birth_def)
  ultimately show ?thesis using loop [of 0 missing] by (simp add: es)
qed


definition demo_grow :: grow_env where
  "demo_grow = \<lparr>ge_stack = (\<lambda>i. Some (4096 * (i + 1))), ge_born = (\<lambda>i. Some (of_nat (600 + i))), ge_mem = (\<lambda>_. True),
     real_sys_clone = True, ge_task_work = True\<rparr>"

definition growing_exports :: exports where
  "growing_exports = \<lparr>slots = (\<lambda>_. \<lparr>e_orig_pid = 501, e_target_node = 2, e_remote_files = (\<lambda>_. None), e_abort_rpc = True, e_is_growing_gang = True\<rparr>), cnt = 1\<rparr>"

theorem grown_gang_frozen_witness:
  "\<exists>es x'. mattx_gang_grower_cb demo_grow (demo_caller 501) 2 growing_exports = (es, x') \<and>
     length (frozen_at_birth es) = 2 \<and> newborns es = frozen_at_birth es"
proof -
  have t: "cl_tgid (demo_caller 501) = 501" by (simp add: demo_caller_def)
  have s: "scan (\<lambda>i. e_orig_pid (slots growing_exports i) = cl_tgid (demo_caller 501)) (cnt growing_exports) = Some 0" unfolding t
    by (rule scan_unique) (simp_all add: growing_exports_def)
  have g: "e_is_growing_gang (slots growing_exports 0)" "real_sys_clone demo_grow" "ge_task_work demo_grow"
      "\<forall>j<2. ge_stack demo_grow j \<noteq> None \<and> ge_born demo_grow j \<noteq> None \<and> ge_mem demo_grow j"
    by (simp_all add: growing_exports_def demo_grow_def)
  obtain es x' where r: "mattx_gang_grower_cb demo_grow (demo_caller 501) 2 growing_exports = (es, x')" by fastforce
  from grown_gang_frozen [OF s g(1,4,2,3) r] have "length (newborns es) = 2 \<and> frozen_at_birth es = newborns es" by blast
  then show ?thesis using r by auto
qed

section \<open>There and back\<close>

lemma same_cpu_trans: "same_cpu a b \<Longrightarrow> same_cpu b c \<Longrightarrow> same_cpu a c"
  by (simp add: same_cpu_def)

text \<open>An address in an area that is sent, on the way there or back.\<close>

definition sent_at :: "bool \<Rightarrow> mattx_migration_req \<Rightarrow> nat \<Rightarrow> bool" where
  "sent_at ret req x \<longleftrightarrow> (\<exists>v\<in>set (rq_vmas req). \<not> skip_vma ret v \<and> vm_start v \<le> x \<and> x < vm_end v)"

text \<open>
  The way back: the node of the guest captures it and pumps its memory, and the deputy receives the
  pages and the end marker.
\<close>

lemma returned_deputy:
  assumes "mattx_capture_and_return_state cfg links env op h m r = (m1, r1, e1)" and "(h, Return_blueprint req) \<in> set (sent e1)"
    and "pump_served penv src (rq_vmas req)" and "mattx_send_vma_data penv links pid_of m1 ex = (m2, ex2, e2, st)"
    and "h \<noteq> - 1" "links h" "snd (ce_mem env)"
    and "target_covers (filter (\<lambda>v. \<not> skip_vma True v) (rq_vmas req)) mm0" and "p_mm d = Some mm0" and "kernel_writes wr"
    and "pending_migration s = Some req" "hijacked_stub_task s = Some task" and "inject_all wr (transfers (sent e2)) (s, d) = (s3, d3)"
    and "handle_return_done now rdw wrw ctx s3 d3 dex fx = (s', d', dex', fx', eff)"
    and "distinct (p_threads d)" and "ts = fst (gang_loop (ce_task env) (ce_visible env) 0 200 0 [])" "length ts \<le> length (p_threads d)"
    and "\<forall>i<length ts. fpu_fits (ce_threads env (ts ! i)) (p_thr d (p_threads d ! i))"
  shows "(\<forall>(a, r, l)\<in>set (tid_words (rq_threads req) (p_threads d) d). \<not> (a \<le> x \<and> x < a + 4)) \<Longrightarrow>
      p_mem d' x = (if sent_at True req x then src x else p_mem d x)"
    "\<forall>i<length ts. same_cpu (p_thr d' (p_threads d ! i)) (ce_threads env (ts ! i))"
proof -
  have "(h, Return_blueprint req) \<in> set (sent (snd (snd (mattx_capture_and_return_state cfg links env op h m r))))"
    using assms(1,2) by simp
  then obtain ts' req' where q: "ts' = fst (gang_loop (ce_task env) (ce_visible env) 0 200 0 [])"
      "Return_blueprint req = Return_blueprint req'" "req' = blueprint cfg env op (0, 0) [] (map (\<lambda>t. thread_info_of (ce_threads env t)) ts')"
      "fst (mattx_capture_and_return_state cfg links env op h m r) = fst (arm env req' h (m\<lparr>is_returning := True\<rparr>))"
    by (rule return_sent)
  have req: "req = blueprint cfg env op (0, 0) [] (map (\<lambda>t. thread_info_of (ce_threads env t)) ts)"
      "m1 = fst (arm env req h (m\<lparr>is_returning := True\<rparr>))"
    using q assms(1,16) by simp_all
  have th: "rq_threads req = map (\<lambda>t. thread_info_of (ce_threads env t)) ts" by (simp add: req(1) blueprint_def)
  obtain stx ps where vp: "vma_pump penv True (rq_vmas req) zero_stats = (stx, ps)" by fastforce
  have ps: "transfers (sent e2) = ps"
    using assms(4-7) vp req(2) by (auto simp: mattx_send_vma_data_def arm_def)
  note rp = returned_process [OF assms(3) vp assms(8-10,11,12) assms(13) [unfolded ps] assms(14,15) _ refl]
  have len: "length (rq_threads req) \<le> length (p_threads d)" using assms(17) th by simp
  show "p_mem d' x = (if sent_at True req x then src x else p_mem d x)"
    if "\<forall>(a, r, l)\<in>set (tid_words (rq_threads req) (p_threads d) d). \<not> (a \<le> x \<and> x < a + 4)"
    using patch_tids_outside [of "tid_words (rq_threads req) (p_threads d) d" x rdw wrw "p_mem d3"] that rp(1,2) [OF len]
    by (fastforce simp: sent_at_def)
  show "\<forall>i<length ts. same_cpu (p_thr d' (p_threads d ! i)) (ce_threads env (ts ! i))"
    using rp(3) [OF len] th inject_same_cpu assms(18) by simp
qed

text \<open>
  C7. There and back. A process is sent to another node and arrives there in a stub; it is captured
  there again, before it has run, and returns to its deputy, whose memory has not been touched in
  between. Then, with memory, links and areas for all of it, the deputy ends up with the memory it
  had when it left, in every byte that the way there carried or the way back leaves alone and that
  holds no thread number, and its threads have the processor state they had.
\<close>

theorem there_and_back:
  assumes there: "mattx_capture_and_send_state cfg links env n m = (m1, e1)" "(n, Migrate_req req) \<in> set (sent e1)"
      "pump_served penv src (rq_vmas req)" "mattx_send_vma_data penv links pid_of m1 ex = (m2, ex2, e2, st)"
      "n \<noteq> - 1" "links n" "snd (ce_mem env)"
      "target_covers (filter (\<lambda>v. \<not> is_shm v) (rq_vmas req)) mm0" "p_mm p = Some mm0" "kernel_writes wr"
      "arrive wr denv home k req (transfers (sent e2)) s p r fx = (s', p', r', fx', eff)"
      "distinct (p_threads p)" "length (p_threads p) = length (rq_threads req)"
      "ts = fst (gang_loop (ce_task env) (ce_visible env) 0 200 0 [])"
      "\<forall>i<length ts. fpu_fits (ce_threads env (ts ! i)) (p_thr p (p_threads p ! i))"
    and captured: "ce_threads env2 = p_thr p'" "p_threads p' = fst (gang_loop (ce_task env2) (ce_visible env2) 0 200 0 [])"
    and homeward: "mattx_capture_and_return_state cfg2 links2 env2 op home mb r' = (m3, r3, e3)" "(home, Return_blueprint req2) \<in> set (sent e3)"
      "pump_served penv2 (p_mem p') (rq_vmas req2)" "mattx_send_vma_data penv2 links2 pid_of2 m3 ex3 = (m4, ex4, e4, st4)"
      "home \<noteq> - 1" "links2 home" "snd (ce_mem env2)"
      "target_covers (filter (\<lambda>v. \<not> skip_vma True v) (rq_vmas req2)) mm1" "p_mm d = Some mm1"
      "pending_migration sd = Some req2" "hijacked_stub_task sd = Some task" "inject_all wr (transfers (sent e4)) (sd, d) = (sd3, d3)"
      "handle_return_done now rdw wrw ctx sd3 d3 dex fx2 = (sd', d', dex', fx2', eff2)"
      "distinct (p_threads d)" "length ts \<le> length (p_threads d)"
      "\<forall>i<length ts. fpu_fits (p_thr p' (p_threads p' ! i)) (p_thr d (p_threads d ! i))"
    and untouched: "p_mem d = src"
  shows "(\<forall>x. (\<forall>(a, w, l)\<in>set (tid_words (rq_threads req2) (p_threads d) d). \<not> (a \<le> x \<and> x < a + 4)) \<longrightarrow>
      (sent_at True req2 x \<longrightarrow> sent_at False req x) \<longrightarrow> p_mem d' x = src x) \<and>
    (\<forall>i<length ts. same_cpu (p_thr d' (p_threads d ! i)) (ce_threads env (ts ! i)))"
proof -
  obtain p1 where a: "p_mem p' = (\<lambda>x. if \<exists>v\<in>set (rq_vmas req). \<not> is_shm v \<and> vm_start v \<le> x \<and> x < vm_end v then src x else p_mem p x)"
    "p_threads p' = p_threads p" "length ts = length (p_threads p)"
    "\<forall>i<length ts. same_cpu (p_thr p' (p_threads p ! i)) (ce_threads env (ts ! i))"
    by (rule arrived_process [OF there]) (rule that)
  have mem: "p_mem p' x = src x" if "sent_at False req x" for x
    using that a(1) by (auto simp: sent_at_def skip_vma_def)
  have len: "length (p_threads p') = length ts" using a(2,3) by simp
  have fits: "\<forall>i<length (p_threads p'). fpu_fits (ce_threads env2 (p_threads p' ! i)) (p_thr d (p_threads d ! i))"
      "length (p_threads p') \<le> length (p_threads d)"
    using homeward(15,16) captured(1) len by simp_all
  note rd = returned_deputy [OF homeward(1-9) there(10) homeward(10-14) captured(2) fits(2,1)]
  show ?thesis
  proof (intro conjI allI impI)
    fix x assume "\<forall>(a, w, l)\<in>set (tid_words (rq_threads req2) (p_threads d) d). \<not> (a \<le> x \<and> x < a + 4)"
      and "sent_at True req2 x \<longrightarrow> sent_at False req x"
    then show "p_mem d' x = src x" using rd(1) [of x] mem [of x] untouched by simp
  next
    fix i assume i: "i < length ts"
    have "same_cpu (p_thr d' (p_threads d ! i)) (p_thr p' (p_threads p' ! i))"
      using rd(2) i len captured(1) by simp
    then show "same_cpu (p_thr d' (p_threads d ! i)) (ce_threads env (ts ! i))"
      using a(2,4) i same_cpu_trans by metis
  qed
qed


definition guest_env :: "proc \<Rightarrow> capture_env" where
  "guest_env q = demo_env\<lparr>ce_task := 20, ce_visible := (\<lambda>_. [20, 21]), ce_threads := p_thr q\<rparr>"

definition guest_pump :: "proc \<Rightarrow> pump_env" where
  "guest_pump q = demo_pump\<lparr>pe_read := (\<lambda>a n. (int n, map (p_mem q) [a..<a + n]))\<rparr>"

definition demo_deputy :: proc where
  "demo_deputy = demo_proc\<lparr>p_pid := 7, p_threads := [7, 8], p_mem := demo_src\<rparr>"

abbreviation demo_arrival :: "import_st \<times> proc \<times> guests \<times> fixups \<times> mig_effect list" where
  "demo_arrival \<equiv> arrive (\<lambda>vs a n. n) demo_done 1 20 demo_req (transfers (sent (fst (snd (snd demo_flow))))) idle_import demo_proc demo_registry no_fixups"

lemma demo_arrives:
  assumes "demo_arrival = (s', p', r', fx', eff)"
  shows "p_threads p' = [20, 21]" "k_stack (p_thr p' 20)" "k_stack (p_thr p' 21)"
    "same_cpu (p_thr p' 20) (demo_kthread 7)" "same_cpu (p_thr p' 21) (demo_kthread 8)"
proof -
  obtain m2 ex2 e2 st where f: "demo_flow = (m2, ex2, e2, st)" using prod_cases4 by blast
  have a: "arrive (\<lambda>vs a n. n) demo_done 1 20 demo_req (transfers (sent e2)) idle_import demo_proc demo_registry no_fixups = (s', p', r', fx', eff)"
    using assms f by simp
  have n: "(3::u32) \<noteq> - 1" "(3::u32) = 3" "snd (ce_mem demo_env)" "p_mm demo_proc = Some (the (p_mm demo_proc))"
      "kernel_writes (\<lambda>vs a n. n)" "distinct (p_threads demo_proc)" "length (p_threads demo_proc) = length (rq_threads demo_req)"
    by (simp_all add: demo_env_def demo_proc_def kernel_writes_def demo_req_def blueprint_def)
  have ts: "[7, 8] = fst (gang_loop (ce_task demo_env) (ce_visible demo_env) 0 200 0 [])"
    using demo_gang by (simp add: demo_env_def)
  have fpu: "\<forall>i<length [7, 8::nat]. fpu_fits (ce_threads demo_env ([7, 8] ! i)) (p_thr demo_proc (p_threads demo_proc ! i))"
    by (simp add: fpu_fits_def demo_env_def demo_proc_def demo_kthread_def)
  obtain p1 where x: "p_threads p' = p_threads demo_proc" "p_thr p1 = p_thr demo_proc" "register_guest 1 demo_req (transplant demo_done 1 demo_req p1) demo_registry = (r', p')"
    "\<forall>i<length [7, 8::nat]. same_cpu (p_thr p' (p_threads demo_proc ! i)) (ce_threads demo_env ([7, 8] ! i))"
    by (rule arrived_process [OF prod.collapse [symmetric] demo_sent demo_served f n(1,2,3) demo_covers n(4,5) a n(6,7) ts fpu]) (rule that)
  show "p_threads p' = [20, 21]" using x(1) by (simp add: demo_proc_def)
  have "same_cpu (p_thr p' (p_threads demo_proc ! 0)) (ce_threads demo_env ([7, 8] ! 0))"
      "same_cpu (p_thr p' (p_threads demo_proc ! 1)) (ce_threads demo_env ([7, 8] ! 1))" by (rule x(4) [rule_format], simp)+
  then show "same_cpu (p_thr p' 20) (demo_kthread 7)" "same_cpu (p_thr p' 21) (demo_kthread 8)"
    by (simp_all add: demo_proc_def demo_env_def)
  have st: "k_stack (p_thr (inject_gang c is ts p) t) = k_stack (p_thr p t)" for c "is" ts p t
    by (induction c "is" ts p rule: inject_gang.induct) (auto simp: inject_thread_def)
  have "k_stack (p_thr p' t)" for t
    using register_guest_proc [OF x(3)] x(2) st by (simp add: demo_proc_def demo_kthread_def)
  then show "k_stack (p_thr p' 20)" "k_stack (p_thr p' 21)" by blast+
qed


lemma guest_captured:
  assumes "demo_arrival = (s', p', r', fx', eff)" "mattx_capture_and_return_state demo_migr_cfg (\<lambda>n. n = 1) (guest_env p') 7 1 idle_migr r' = (m3, r3, e3)"
  shows "\<exists>req. (1, Return_blueprint req) \<in> set (sent e3) \<and> rq_vmas req = rq_vmas demo_req \<and> tid_words (rq_threads req) [7, 8] demo_deputy = []"
proof -
  note d = demo_arrives [OF assms(1)]
  have g: "fst (gang_loop 20 (\<lambda>_. [20, 21]) 0 200 0 []) = [20, 21]" by (simp add: eval_nat_numeral Let_def)
  then obtain e1 where g: "gang_loop 20 (\<lambda>_. [20, 21]) 0 200 0 [] = ([20, 21], e1)" by (metis prod.collapse)
  let ?is = "map (\<lambda>t. thread_info_of (p_thr p' t)) [20, 21]"
  have pk: "pack_return (p_thr p') [20, 21] = (Some ?is, map Put_task [20, 21])"
    using pack_return_ok [of "[20, 21]" "p_thr p'"] d(2,3) by simp
  let ?req = "blueprint demo_migr_cfg (guest_env p') 7 (0, 0) [] ?is"
  have "(1, Return_blueprint ?req) \<in> set (sent e3)"
    using assms(2) g pk by (auto simp: mattx_capture_and_return_state_def Let_def guest_env_def demo_env_def arm_def hand_over_def)
  moreover have "rq_vmas ?req = rq_vmas demo_req" by (simp add: blueprint_def demo_req_def guest_env_def)
  moreover have "ti_clear_child_tid (thread_info_of (p_thr p' 20)) = 0" "ti_clear_child_tid (thread_info_of (p_thr p' 21)) = 0"
    using d(4,5) by (simp_all add: thread_info_of_def same_cpu_def demo_kthread_def)
  then have "tid_words (rq_threads ?req) [7, 8] demo_deputy = []" by (simp add: tid_words_def blueprint_def)
  ultimately show ?thesis by blast
qed

theorem there_and_back_witness:
  "\<exists>s' p' r' fx' eff m3 r3 e3 req2 flow sd' d' dex' fx2' eff2.
     demo_arrival = (s', p', r', fx', eff) \<and>
     mattx_capture_and_return_state demo_migr_cfg (\<lambda>n. n = 1) (guest_env p') 7 1 idle_migr r' = (m3, r3, e3) \<and>
     (1, Return_blueprint req2) \<in> set (sent e3) \<and>
     flow = mattx_send_vma_data (guest_pump p') (\<lambda>n. n = 1) (\<lambda>t. of_nat t) m3 demo_exports \<and>
     (case inject_all (\<lambda>vs a n. n) (transfers (sent (fst (snd (snd flow)))))
         (idle_import\<lparr>pending_migration := Some req2, hijacked_stub_task := Some 7\<rparr>, demo_deputy) of (s3, d3) \<Rightarrow>
       handle_return_done 9000 (\<lambda>_. True) (\<lambda>_. True) (\<lambda>_. True) s3 d3 demo_exports no_fixups) = (sd', d', dex', fx2', eff2) \<and>
     p_mem d' = demo_src \<and> k_regs (p_thr d' 8) = replicate 21 8"
proof -
  obtain m2 ex2 e2 st where f: "demo_flow = (m2, ex2, e2, st)" using prod_cases4 by blast
  obtain s' p' r' fx' eff where a0: "demo_arrival = (s', p', r', fx', eff)" using prod_cases5 by blast
  then have a: "arrive (\<lambda>vs a n. n) demo_done 1 20 demo_req (transfers (sent e2)) idle_import demo_proc demo_registry no_fixups = (s', p', r', fx', eff)"
    using f by simp
  note d = demo_arrives [OF a0]
  obtain m3 r3 e3 where c: "mattx_capture_and_return_state demo_migr_cfg (\<lambda>n. n = 1) (guest_env p') 7 1 idle_migr r' = (m3, r3, e3)"
    using prod_cases3 by blast
  from guest_captured [OF a0 c] obtain req2 where q: "(1, Return_blueprint req2) \<in> set (sent e3)" "rq_vmas req2 = rq_vmas demo_req"
    "tid_words (rq_threads req2) [7, 8] demo_deputy = []" by blast
  obtain m4 ex4 e4 st4 where f2: "mattx_send_vma_data (guest_pump p') (\<lambda>n. n = 1) (\<lambda>t. of_nat t) m3 demo_exports = (m4, ex4, e4, st4)"
    using prod_cases4 by blast
  let ?sd = "idle_import\<lparr>pending_migration := Some req2, hijacked_stub_task := Some 7\<rparr>"
  obtain s3 d3 where inj: "inject_all (\<lambda>vs a n. n) (transfers (sent e4)) (?sd, demo_deputy) = (s3, d3)" by fastforce
  obtain sd' d' dex' fx2' eff2 where h: "handle_return_done 9000 (\<lambda>_. True) (\<lambda>_. True) (\<lambda>_. True) s3 d3 demo_exports no_fixups = (sd', d', dex', fx2', eff2)"
    using prod_cases5 by blast
  have n: "(3::u32) \<noteq> - 1" "(3::u32) = 3" "snd (ce_mem demo_env)" "p_mm demo_proc = Some (the (p_mm demo_proc))"
      "kernel_writes (\<lambda>vs a n. n)" "distinct (p_threads demo_proc)" "length (p_threads demo_proc) = length (rq_threads demo_req)"
    by (simp_all add: demo_env_def demo_proc_def kernel_writes_def demo_req_def blueprint_def)
  have ts: "[7, 8] = fst (gang_loop (ce_task demo_env) (ce_visible demo_env) 0 200 0 [])"
    using demo_gang by (simp add: demo_env_def)
  have fpu: "\<forall>i<length [7, 8::nat]. fpu_fits (ce_threads demo_env ([7, 8] ! i)) (p_thr demo_proc (p_threads demo_proc ! i))"
    by (simp add: fpu_fits_def demo_env_def demo_proc_def demo_kthread_def)
  have g2: "ce_threads (guest_env p') = p_thr p'" "p_threads p' = fst (gang_loop (ce_task (guest_env p')) (ce_visible (guest_env p')) 0 200 0 [])"
    by (simp_all add: guest_env_def d(1) eval_nat_numeral Let_def)
  have served: "pump_served (guest_pump p') (p_mem p') (rq_vmas req2)" by (simp add: pump_served_def guest_pump_def demo_pump_def)
  have cov: "target_covers (filter (\<lambda>v. \<not> skip_vma True v) (rq_vmas req2)) (the (p_mm demo_deputy))"
    unfolding q(2) by (simp add: demo_vmas target_covers_def areas_ok_def demo_deputy_def demo_proc_def demo_vma_def skip_vma_def)
  have n2: "(1::u32) \<noteq> - 1" "(1::u32) = 1" "snd (ce_mem (guest_env p'))" "p_mm demo_deputy = Some (the (p_mm demo_deputy))"
      "pending_migration ?sd = Some req2" "hijacked_stub_task ?sd = Some 7" "distinct (p_threads demo_deputy)"
      "length [7, 8::nat] \<le> length (p_threads demo_deputy)" "p_mem demo_deputy = demo_src"
    by (simp_all add: guest_env_def demo_env_def demo_deputy_def demo_proc_def)
  have fpu2: "\<forall>i<length [7, 8::nat]. fpu_fits (p_thr p' (p_threads p' ! i)) (p_thr demo_deputy (p_threads demo_deputy ! i))"
    using d(1,4,5) by (auto simp: less_Suc_eq fpu_fits_def same_cpu_def demo_deputy_def demo_proc_def demo_kthread_def)
  note T = there_and_back [OF prod.collapse [symmetric] demo_sent demo_served f n(1,2,3) demo_covers n(4,5) a n(6,7) ts fpu g2
      c q(1) served f2 n2(1,2,3) cov n2(4,5,6) inj h n2(7,8) fpu2 n2(9)]
  have "sent_at True req2 x \<Longrightarrow> sent_at False demo_req x" for x
    by (auto simp: sent_at_def q(2) demo_vmas skip_vma_def)
  moreover have "tid_words (rq_threads req2) (p_threads demo_deputy) demo_deputy = []" using q(3) by (simp add: demo_deputy_def)
  ultimately have m: "p_mem d' = demo_src" using conjunct1 [OF T] by auto
  have "same_cpu (p_thr d' (p_threads demo_deputy ! 1)) (ce_threads demo_env ([7, 8] ! 1))"
    by (rule conjunct2 [OF T, rule_format]) simp
  then have "k_regs (p_thr d' 8) = replicate 21 8" by (simp add: same_cpu_def demo_deputy_def demo_env_def demo_kthread_def)
  with m a0 c q(1) f2 inj h show ?thesis
    by (intro exI conjI) (assumption | simp)+
qed

end
