(* ===== verification/Mx_Chess.thy ===== *)
theory Mx_Chess
  imports Mx_Prelude
begin

text \<open>
  The rules of the demonstration program (\<^verbatim>\<open>tools/mpichess/mpichess.h\<close>): boards, the moves a piece
  may make, check, the legal moves of a side, the value of a board, and the search of a worker
  (\<^verbatim>\<open>minimax\<close> in \<^verbatim>\<open>tools/mpichess/mpichess-client.c\<close>).

  A board is the list of its 64 characters, a square the \<^verbatim>\<open>int\<close> that indexes it. \<open>None\<close> as the
  result of an operation is a read outside the board, or more moves than the array of the caller
  holds, after which the program has no defined behaviour. The lemmas show that neither happens on a
  position of a game, and that the legal moves and the search are those of a reference definition.
\<close>

section \<open>Boards\<close>

type_synonym board = "char list"
type_synonym move = "int \<times> int"

abbreviation (input) BLANK :: char where "BLANK \<equiv> CHR '' ''"
abbreviation (input) DEPTH :: nat where "DEPTH \<equiv> 5"

definition INITIAL_BOARD :: board where
  "INITIAL_BOARD =
     ''RNBQKBNR'' @
     ''PPPPPPPP'' @
     ''        '' @
     ''        '' @
     ''        '' @
     ''        '' @
     ''pppppppp'' @
     ''rnbqkbnr''"

definition at :: "board \<Rightarrow> int \<Rightarrow> char" where
  "at bd s = bd ! nat s"

definition isupper :: "char \<Rightarrow> bool" where
  "isupper p \<longleftrightarrow> of_char p \<in> {65..90 :: nat}"

definition tolower :: "char \<Rightarrow> char" where
  "tolower p = (if isupper p then char_of (of_char p + 32 :: nat) else p)"

definition get_color :: "char \<Rightarrow> int" where
  "get_color piece = (if piece = BLANK then -1 else if isupper piece then 0 else 1)"

section \<open>Moves of a piece\<close>

text \<open>The walk along a line stops at the first occupied square, or at its end.\<close>

partial_function (option) clear_loop ::
  "board \<Rightarrow> int \<Rightarrow> int \<Rightarrow> int \<Rightarrow> int \<Rightarrow> int \<Rightarrow> int \<Rightarrow> bool option" where
  "clear_loop bd dr dc r2 c2 r c =
     (if r \<noteq> r2 \<or> c \<noteq> c2
      then if 0 \<le> r * 8 + c \<and> r * 8 + c < 64
           then if at bd (r * 8 + c) \<noteq> BLANK then Some False
                else clear_loop bd dr dc r2 c2 (r + dr) (c + dc)
           else None
      else Some True)"

declare clear_loop.simps [code]

definition is_clear_path :: "board \<Rightarrow> int \<Rightarrow> int \<Rightarrow> bool option" where
  "is_clear_path bd from to =
     (let r1 = from div 8; c1 = from mod 8; r2 = to div 8; c2 = to mod 8;
          dr = (if r1 < r2 then 1 else if r2 < r1 then -1 else 0);
          dc = (if c1 < c2 then 1 else if c2 < c1 then -1 else 0)
      in clear_loop bd dr dc r2 c2 (r1 + dr) (c1 + dc))"

definition is_valid_piece_move :: "board \<Rightarrow> int \<Rightarrow> int \<Rightarrow> int \<Rightarrow> bool option" where
  "is_valid_piece_move bd from to player_color =
     (if from = to then Some False
      else let p = at bd from; target = at bd to in
      if target \<noteq> BLANK \<and> get_color target = player_color then Some False
      else let r1 = from div 8; c1 = from mod 8; r2 = to div 8; c2 = to mod 8;
               dr = \<bar>r2 - r1\<bar>; dc = \<bar>c2 - c1\<bar>; k = tolower p in
      if k = CHR ''p'' then
        (let dir = (if player_color = 0 then 1 else -1);
             start_row = (if player_color = 0 then 1 else 6) in
         Some (if c1 = c2 \<and> r2 = r1 + dir \<and> target = BLANK then True
               else if c1 = c2 \<and> r1 = start_row \<and> r2 = r1 + 2 * dir \<and> target = BLANK \<and>
                       at bd ((r1 + dir) * 8 + c1) = BLANK then True
               else if dc = 1 \<and> r2 = r1 + dir \<and> target \<noteq> BLANK \<and> get_color target \<noteq> player_color then True
               else False))
      else if k = CHR ''n'' then Some ((dr = 2 \<and> dc = 1) \<or> (dr = 1 \<and> dc = 2))
      else if k = CHR ''b'' then (if dr \<noteq> dc then Some False else is_clear_path bd from to)
      else if k = CHR ''r'' then (if dr \<noteq> 0 \<and> dc \<noteq> 0 then Some False else is_clear_path bd from to)
      else if k = CHR ''q'' then
        (if dr \<noteq> dc \<and> dr \<noteq> 0 \<and> dc \<noteq> 0 then Some False else is_clear_path bd from to)
      else if k = CHR ''k'' then Some (dr \<le> 1 \<and> dc \<le> 1)
      else Some False)"

section \<open>Check and legal moves\<close>

definition king_char :: "int \<Rightarrow> char" where
  "king_char player_color = (if player_color = 0 then CHR ''K'' else CHR ''k'')"

text \<open>The loop over the squares of the attackers, left at the first attack found.\<close>

primrec attack_loop :: "board \<Rightarrow> int \<Rightarrow> int \<Rightarrow> nat list \<Rightarrow> bool option" where
  "attack_loop bd foe king_pos [] = Some False"
| "attack_loop bd foe king_pos (i # ss) =
     (if bd ! i \<noteq> BLANK \<and> get_color (bd ! i) = foe
      then case is_valid_piece_move bd (int i) king_pos foe of
             None \<Rightarrow> None
           | Some True \<Rightarrow> Some True
           | Some False \<Rightarrow> attack_loop bd foe king_pos ss
      else attack_loop bd foe king_pos ss)"

definition is_in_check :: "board \<Rightarrow> int \<Rightarrow> bool option" where
  "is_in_check bd player_color =
     (case scan (\<lambda>i. bd ! i = king_char player_color) 64 of
        None \<Rightarrow> Some False
      | Some king_pos \<Rightarrow> attack_loop bd (1 - player_color) (int king_pos) [0..<64])"

definition play :: "board \<Rightarrow> move \<Rightarrow> board" where
  "play bd m = (case m of (from, to) \<Rightarrow> (bd[nat to := at bd from])[nat from := BLANK])"

definition move_ok :: "board \<Rightarrow> int \<Rightarrow> move \<Rightarrow> bool option" where
  "move_ok bd player_color m =
     (if get_color (at bd (fst m)) = player_color
      then case is_valid_piece_move bd (fst m) (snd m) player_color of
             Some True \<Rightarrow> map_option Not (is_in_check (play bd m) player_color)
           | r \<Rightarrow> r
      else Some False)"

primrec collect_moves :: "('a \<Rightarrow> bool option) \<Rightarrow> 'a list \<Rightarrow> 'a list option" where
  "collect_moves ok [] = Some []"
| "collect_moves ok (m # ms) =
     (case ok m of
        None \<Rightarrow> None
      | Some b \<Rightarrow> map_option (\<lambda>ks. if b then m # ks else ks) (collect_moves ok ms))"

definition all_moves :: "move list" where
  "all_moves = List.product (map int [0..<64]) (map int [0..<64])"

definition generate_moves :: "board \<Rightarrow> int \<Rightarrow> move list option" where
  "generate_moves bd player_color = collect_moves (move_ok bd player_color) all_moves"

text \<open>The callers hand over an array of 256 moves.\<close>

definition moves_256 :: "board \<Rightarrow> int \<Rightarrow> move list option" where
  "moves_256 bd player_color =
     (case generate_moves bd player_color of
        Some ms \<Rightarrow> if length ms \<le> 256 then Some ms else None
      | None \<Rightarrow> None)"

section \<open>Evaluation and search\<close>

definition piece_value :: "char \<Rightarrow> int" where
  "piece_value p =
     (if p = CHR ''p'' \<or> p = CHR ''P'' then 10
      else if p = CHR ''n'' \<or> p = CHR ''N'' \<or> p = CHR ''b'' \<or> p = CHR ''B'' then 30
      else if p = CHR ''r'' \<or> p = CHR ''R'' then 50
      else if p = CHR ''q'' \<or> p = CHR ''Q'' then 90
      else if p = CHR ''k'' \<or> p = CHR ''K'' then 900
      else 0)"

definition evaluate_board :: "board \<Rightarrow> int \<Rightarrow> int" where
  "evaluate_board bd player_color =
     foldl (\<lambda>score i. let p = bd ! i; val = piece_value p in
              if get_color p = player_color then score + val
              else if get_color p \<noteq> -1 then score - val
              else score) 0 [0..<64]"

primrec search_loop :: "(move \<Rightarrow> int option) \<Rightarrow> int \<Rightarrow> move list \<Rightarrow> int option" where
  "search_loop value best_score [] = Some best_score"
| "search_loop value best_score (m # ms) =
     (case value m of
        None \<Rightarrow> None
      | Some v \<Rightarrow> search_loop value (if best_score < - v then - v else best_score) ms)"

primrec minimax :: "board \<Rightarrow> nat \<Rightarrow> int \<Rightarrow> int option" where
  "minimax bd 0 player_color = Some (evaluate_board bd player_color)"
| "minimax bd (Suc depth) player_color =
     (case moves_256 bd player_color of
        None \<Rightarrow> None
      | Some [] \<Rightarrow> map_option (\<lambda>chk. if chk then -99999 else 0) (is_in_check bd player_color)
      | Some (m # ms) \<Rightarrow>
          search_loop (\<lambda>mv. minimax (play bd mv) depth (1 - player_color)) (-999999) (m # ms))"

section \<open>Reference rules\<close>

text \<open>
  The rules by directions and distances: a slider goes any number of steps along one of its
  directions, over empty squares; the other pieces go by fixed offsets. Rows and columns count from
  0; the side 0 moves upwards.
\<close>

abbreviation (input) row :: "int \<Rightarrow> int" where "row s \<equiv> s div 8"
abbreviation (input) col :: "int \<Rightarrow> int" where "col s \<equiv> s mod 8"

definition on_ray :: "board \<Rightarrow> int \<Rightarrow> int \<Rightarrow> int \<times> int \<Rightarrow> bool" where
  "on_ray bd f t d \<longleftrightarrow>
     (\<exists>k>0. row t = row f + int k * fst d \<and> col t = col f + int k * snd d \<and>
       (\<forall>j. 0 < j \<and> j < k \<longrightarrow> at bd ((row f + int j * fst d) * 8 + (col f + int j * snd d)) = BLANK))"

definition rook_dirs :: "(int \<times> int) set" where
  "rook_dirs = {(1, 0), (-1, 0), (0, 1), (0, -1)}"

definition bishop_dirs :: "(int \<times> int) set" where
  "bishop_dirs = {(1, 1), (1, -1), (-1, 1), (-1, -1)}"

definition pawn_step :: "int \<Rightarrow> int" where
  "pawn_step c = (if c = 0 then 1 else -1)"

definition pawn_reaches :: "board \<Rightarrow> int \<Rightarrow> int \<Rightarrow> int \<Rightarrow> bool" where
  "pawn_reaches bd c f t \<longleftrightarrow>
     (if at bd t \<noteq> BLANK then row t = row f + pawn_step c \<and> \<bar>col t - col f\<bar> = 1
      else col t = col f \<and>
        (row t = row f + pawn_step c \<or>
         row t = row f + 2 * pawn_step c \<and> row f = (if c = 0 then 1 else 6) \<and>
         at bd (f + 8 * pawn_step c) = BLANK))"

definition reaches :: "board \<Rightarrow> int \<Rightarrow> int \<Rightarrow> int \<Rightarrow> bool" where
  "reaches bd c f t \<longleftrightarrow> f \<noteq> t \<and> get_color (at bd t) \<noteq> c \<and>
     (let p = tolower (at bd f) in
      p = CHR ''p'' \<and> pawn_reaches bd c f t \<or>
      p = CHR ''n'' \<and> (\<bar>row t - row f\<bar>, \<bar>col t - col f\<bar>) \<in> {(1, 2), (2, 1)} \<or>
      p = CHR ''b'' \<and> (\<exists>d\<in>bishop_dirs. on_ray bd f t d) \<or>
      p = CHR ''r'' \<and> (\<exists>d\<in>rook_dirs. on_ray bd f t d) \<or>
      p = CHR ''q'' \<and> (\<exists>d\<in>rook_dirs \<union> bishop_dirs. on_ray bd f t d) \<or>
      p = CHR ''k'' \<and> \<bar>row t - row f\<bar> \<le> 1 \<and> \<bar>col t - col f\<bar> \<le> 1)"

definition squares :: "int set" where
  "squares = {0..<64}"

text \<open>The king of a side is attacked by a piece of the other one.\<close>

definition checked :: "board \<Rightarrow> int \<Rightarrow> bool" where
  "checked bd c \<longleftrightarrow>
     (\<exists>k\<in>squares. at bd k = king_char c \<and>
       (\<exists>i\<in>squares. get_color (at bd i) = 1 - c \<and> reaches bd (1 - c) i k))"

definition legal :: "board \<Rightarrow> int \<Rightarrow> move set" where
  "legal bd c = {(f, t). f \<in> squares \<and> t \<in> squares \<and> get_color (at bd f) = c \<and>
     reaches bd c f t \<and> \<not> checked (play bd (f, t)) c}"

text \<open>The value of a position for the side to move, searched to a depth.\<close>

primrec negamax :: "board \<Rightarrow> nat \<Rightarrow> int \<Rightarrow> int" where
  "negamax bd 0 c = evaluate_board bd c"
| "negamax bd (Suc depth) c =
     (if legal bd c = {} then if checked bd c then -99999 else 0
      else Max ((\<lambda>m. - negamax (play bd m) depth (1 - c)) ` legal bd c))"

section \<open>Lines\<close>

lemma row_col [simp]:
  assumes "0 \<le> c" "c < (8::int)"
  shows "(r * 8 + c) div 8 = r" "(r * 8 + c) mod 8 = c"
  using assms by simp_all

lemma square_bounds:
  assumes "s \<in> squares"
  shows "0 \<le> row s" "row s < 8" "0 \<le> col s" "col s < 8" "row s * 8 + col s = s"
  using assms unfolding squares_def by (simp_all, presburger+)

lemma in_range: "0 \<le> r \<Longrightarrow> r < 8 \<Longrightarrow> 0 \<le> c \<Longrightarrow> c < 8 \<Longrightarrow> 0 \<le> r * 8 + c \<and> r * 8 + c < (64::int)"
  by simp

text \<open>The walk over \<open>n\<close> squares sees whether all of them are empty.\<close>

lemma clear_loop_line:
  assumes "(a, b) \<noteq> (0, 0)"
    and "\<And>j. j < n \<Longrightarrow> 0 \<le> r + int j * a \<and> r + int j * a < 8 \<and> 0 \<le> c + int j * b \<and> c + int j * b < 8"
  shows "clear_loop bd a b (r + int n * a) (c + int n * b) r c =
    Some (\<forall>j<n. at bd ((r + int j * a) * 8 + (c + int j * b)) = BLANK)"
  using assms(2)
proof (induction n arbitrary: r c)
  case 0
  show ?case by (simp add: clear_loop.simps)
next
  case (Suc n)
  have here: "0 \<le> r \<and> r < 8 \<and> 0 \<le> c \<and> c < 8"
    using Suc.prems [of 0] by simp
  have off: "r \<noteq> r + int (Suc n) * a \<or> c \<noteq> c + int (Suc n) * b"
    using assms(1) by auto
  have rest: "clear_loop bd a b ((r + a) + int n * a) ((c + b) + int n * b) (r + a) (c + b) =
      Some (\<forall>j<n. at bd ((r + a + int j * a) * 8 + (c + b + int j * b)) = BLANK)"
  proof (rule Suc.IH)
    fix j assume "j < n"
    then show "0 \<le> r + a + int j * a \<and> r + a + int j * a < 8 \<and> 0 \<le> c + b + int j * b \<and> c + b + int j * b < 8"
      using Suc.prems [of "Suc j"] by (simp add: algebra_simps)
  qed
  have all: "(\<forall>j<Suc n. at bd ((r + int j * a) * 8 + (c + int j * b)) = BLANK) \<longleftrightarrow>
      at bd (r * 8 + c) = BLANK \<and>
      (\<forall>j<n. at bd ((r + a + int j * a) * 8 + (c + b + int j * b)) = BLANK)"
    by (simp add: All_less_Suc2 algebra_simps)
  show ?case
    using here off rest all in_range [of r c]
    by (subst clear_loop.simps) (simp add: algebra_simps)
qed

text \<open>The direction from one square to another.\<close>

definition dir :: "int \<Rightarrow> int \<Rightarrow> int \<times> int" where
  "dir f t = (sgn (row t - row f), sgn (col t - col f))"

lemma dirs_unit:
  assumes "(a, b) \<in> rook_dirs \<union> bishop_dirs"
  shows "a \<in> {-1, 0, 1}" "b \<in> {-1, 0, 1}" "(a, b) \<noteq> (0, 0)"
  using assms by (auto simp: rook_dirs_def bishop_dirs_def)

lemma between:
  assumes "a \<in> {-1, 0, 1 :: int}" "j \<le> k" "0 \<le> x" "x < 8" "0 \<le> x + int k * a" "x + int k * a < 8"
  shows "0 \<le> x + int j * a" "x + int j * a < 8"
  using assms by auto

lemma on_ray_dir:
  assumes "on_ray bd f t d" "d \<in> rook_dirs \<union> bishop_dirs"
  shows "dir f t = d"
  using assms dirs_unit [of "fst d" "snd d"]
  by (cases d) (auto simp: on_ray_def dir_def)

lemma clear_path_ray:
  assumes f: "f \<in> squares" and t: "t \<in> squares" and d: "(a, b) \<in> rook_dirs \<union> bishop_dirs"
    and k: "0 < k" "row t = row f + int k * a" "col t = col f + int k * b"
  shows "is_clear_path bd f t = Some (on_ray bd f t (a, b))"
proof -
  note u = dirs_unit [OF d]
  obtain n where n: "k = Suc n" using k(1) gr0_conv_Suc by auto
  have dirs: "(if row f < row t then 1 else if row t < row f then -1 else 0) = a"
      "(if col f < col t then 1 else if col t < col f then -1 else 0) = b"
    using u(1,2) k by auto
  have ends: "row t = row f + a + int n * a" "col t = col f + b + int n * b"
    using k n by (simp_all add: algebra_simps)
  have walk: "clear_loop bd a b (row t) (col t) (row f + a) (col f + b) =
      Some (\<forall>j<n. at bd ((row f + a + int j * a) * 8 + (col f + b + int j * b)) = BLANK)"
    unfolding ends
  proof (rule clear_loop_line [OF u(3)])
    fix j assume "j < n"
    then have j: "Suc j \<le> k" using n by simp
    show "0 \<le> row f + a + int j * a \<and> row f + a + int j * a < 8 \<and> 0 \<le> col f + b + int j * b \<and> col f + b + int j * b < 8"
      using between [OF u(1) j, of "row f"] between [OF u(2) j, of "col f"] square_bounds [OF f] square_bounds [OF t] k(2,3)
      by (simp add: algebra_simps)
  qed
  have shift: "(\<forall>j<n. at bd ((row f + a + int j * a) * 8 + (col f + b + int j * b)) = BLANK) \<longleftrightarrow>
      (\<forall>j. 0 < j \<and> j < k \<longrightarrow> at bd ((row f + int j * a) * 8 + (col f + int j * b)) = BLANK)"
    (is "?l \<longleftrightarrow> ?r")
  proof
    assume ?l
    show ?r
    proof (intro allI impI)
      fix j assume "0 < j \<and> j < k"
      then obtain i where "j = Suc i" "i < n" using n gr0_conv_Suc by auto
      with \<open>?l\<close> show "at bd ((row f + int j * a) * 8 + (col f + int j * b)) = BLANK"
        by (auto simp: algebra_simps)
    qed
  next
    assume ?r
    show ?l
    proof (intro allI impI)
      fix j assume "j < n"
      with \<open>?r\<close> [rule_format, of "Suc j"] n
      show "at bd ((row f + a + int j * a) * 8 + (col f + b + int j * b)) = BLANK"
        by (simp add: algebra_simps)
    qed
  qed
  have only: "k' = k" if "row t = row f + int k' * a" "col t = col f + int k' * b" for k'
    using that k u by auto
  have ray: "on_ray bd f t (a, b) \<longleftrightarrow> ?r"
    unfolding on_ray_def fst_conv snd_conv using k only by blast
  show ?thesis
    unfolding is_clear_path_def Let_def dirs walk shift ray ..
qed

text \<open>A slider reaches the squares on its lines, and only they pass the test on the distances.\<close>

lemma slide:
  assumes f: "f \<in> squares" and t: "t \<in> squares" and D: "D \<subseteq> rook_dirs \<union> bishop_dirs"
  shows "(\<exists>d\<in>D. on_ray bd f t d) \<longleftrightarrow> dir f t \<in> D \<and> on_ray bd f t (dir f t)"
  using on_ray_dir D by blast

lemma square_eq: "f \<in> squares \<Longrightarrow> t \<in> squares \<Longrightarrow> f = t \<longleftrightarrow> row f = row t \<and> col f = col t"
  by (metis square_bounds(5))

lemma unit_dirs:
  "(sgn x, sgn y) \<in> rook_dirs \<longleftrightarrow> (x = 0) \<noteq> (y = (0::int))"
  "(sgn x, sgn y) \<in> bishop_dirs \<longleftrightarrow> x \<noteq> 0 \<and> y \<noteq> (0::int)"
  by (auto simp: rook_dirs_def bishop_dirs_def sgn_if)

lemma dir_dirs:
  "dir f t \<in> rook_dirs \<longleftrightarrow> (row t = row f) \<noteq> (col t = col f)"
  "dir f t \<in> bishop_dirs \<longleftrightarrow> row t \<noteq> row f \<and> col t \<noteq> col f"
  unfolding dir_def unit_dirs by (simp_all only: right_minus_eq)

lemma reach_steps:
  fixes x y :: int
  assumes "\<bar>x\<bar> = \<bar>y\<bar> \<or> x = 0 \<or> y = 0"
  shows "x = int (nat (max \<bar>x\<bar> \<bar>y\<bar>)) * sgn x" "y = int (nat (max \<bar>x\<bar> \<bar>y\<bar>)) * sgn y"
  using assms by (auto simp: sgn_if)

lemma abs_eq_zero: "\<bar>x\<bar> = \<bar>y\<bar> \<Longrightarrow> (x = 0) = (y = (0::int))"
  by auto

lemma clear_path_dir:
  assumes f: "f \<in> squares" and t: "t \<in> squares" and ft: "f \<noteq> t"
    and line: "\<bar>row t - row f\<bar> = \<bar>col t - col f\<bar> \<or> row t = row f \<or> col t = col f"
  shows "is_clear_path bd f t = Some (on_ray bd f t (dir f t))"
proof -
  define x where "x = row t - row f"
  define y where "y = col t - col f"
  have ends: "row t = row f + x" "col t = col f + y"
    by (simp_all only: x_def y_def add_diff_cancel_left' diff_add_cancel add.commute [of "row f"] add.commute [of "col f"])
  have move: "x \<noteq> 0 \<or> y \<noteq> 0"
    using square_eq [OF f t] ft unfolding x_def y_def right_minus_eq by metis
  have line': "\<bar>x\<bar> = \<bar>y\<bar> \<or> x = 0 \<or> y = 0"
    using line unfolding x_def y_def right_minus_eq .
  have d: "(sgn x, sgn y) \<in> rook_dirs \<union> bishop_dirs"
    unfolding Un_iff unit_dirs using move by blast
  have k: "0 < nat (max \<bar>x\<bar> \<bar>y\<bar>)"
    using move by (auto simp: less_max_iff_disj)
  show ?thesis
    unfolding dir_def x_def [symmetric] y_def [symmetric]
    by (rule clear_path_ray [OF f t d k]) (simp_all only: ends reach_steps [OF line', symmetric])
qed

lemma ray_diagonal:
  assumes "on_ray bd f t (dir f t)" "dir f t \<in> bishop_dirs"
  shows "\<bar>row t - row f\<bar> = \<bar>col t - col f\<bar>"
proof -
  obtain k where k: "row t - row f = int k * sgn (row t - row f)" "col t - col f = int k * sgn (col t - col f)"
    using assms(1) unfolding on_ray_def dir_def fst_conv snd_conv by (metis add_diff_cancel_left')
  have "\<bar>int k * sgn x\<bar> = int k" if "x \<noteq> 0" for x :: int
    using that by (simp add: abs_mult abs_sgn_eq)
  then show ?thesis
    using k assms(2) unfolding dir_dirs by (metis right_minus_eq)
qed

lemma gate:
  assumes "no \<Longrightarrow> \<not> B" "\<not> no \<Longrightarrow> p = Some v" "\<not> no \<Longrightarrow> B \<longleftrightarrow> v"
  shows "(if no then Some False else p) = Some B"
  using assms by auto

lemma slider_exact:
  assumes f: "f \<in> squares" and t: "t \<in> squares" and ft: "f \<noteq> t"
  shows "(if row t \<noteq> row f \<and> col t \<noteq> col f then Some False else is_clear_path bd f t) =
      Some (\<exists>d\<in>rook_dirs. on_ray bd f t d)" (is ?rook)
    "(if \<bar>row t - row f\<bar> \<noteq> \<bar>col t - col f\<bar> then Some False else is_clear_path bd f t) =
      Some (\<exists>d\<in>bishop_dirs. on_ray bd f t d)" (is ?bishop)
    "(if \<bar>row t - row f\<bar> \<noteq> \<bar>col t - col f\<bar> \<and> row t \<noteq> row f \<and> col t \<noteq> col f then Some False
      else is_clear_path bd f t) = Some (\<exists>d\<in>rook_dirs \<union> bishop_dirs. on_ray bd f t d)" (is ?queen)
proof -
  have apart: "row t = row f \<and> col t = col f \<longleftrightarrow> False"
    using square_eq [OF f t] ft by argo
  note flat = abs_eq_zero [of "row t - row f" "col t - col f", unfolded right_minus_eq]
  have path: "\<bar>row t - row f\<bar> = \<bar>col t - col f\<bar> \<or> row t = row f \<or> col t = col f \<Longrightarrow>
      is_clear_path bd f t = Some (on_ray bd f t (dir f t))"
    by (rule clear_path_dir [OF f t ft])
  note diagonal = ray_diagonal [of bd f t, unfolded dir_dirs]
  show ?rook
    unfolding slide [OF f t Un_upper1] dir_dirs
    by (rule gate [where v = "on_ray bd f t (dir f t)"], use apart in blast, rule path, blast, use apart in blast)
  show ?bishop
    unfolding slide [OF f t Un_upper2] dir_dirs
    by (rule gate [where v = "on_ray bd f t (dir f t)"], use apart flat diagonal in blast, rule path, blast, use apart flat diagonal in blast)
  show ?queen
    unfolding slide [OF f t subset_refl] Un_iff dir_dirs
    by (rule gate [where v = "on_ray bd f t (dir f t)"], use apart flat diagonal in blast, rule path, blast, use apart flat diagonal in blast)
qed

text \<open>The three cases of a pawn, as the program tests them in turn.\<close>

lemma pawn_cases:
  assumes "own"
  shows "(if c1 = c2 \<and> r2 = r1 + d \<and> free then True
     else if c1 = c2 \<and> r1 = s \<and> r2 = r1 + 2 * d \<and> free \<and> way then True
     else if \<bar>c2 - c1\<bar> = 1 \<and> r2 = r1 + d \<and> \<not> free \<and> own then True
     else False) \<longleftrightarrow>
    (if \<not> free then r2 = r1 + d \<and> \<bar>c2 - c1\<bar> = (1 :: int)
     else c2 = c1 \<and> (r2 = r1 + d \<or> r2 = r1 + 2 * d \<and> r1 = s \<and> way))"
  using assms by auto

lemma pawn_exact:
  assumes f: "f \<in> squares" and own: "get_color (at bd t) \<noteq> c"
  shows "(if col f = col t \<and> row t = row f + pawn_step c \<and> at bd t = BLANK then True
     else if col f = col t \<and> row f = (if c = 0 then 1 else 6) \<and> row t = row f + 2 * pawn_step c \<and>
             at bd t = BLANK \<and> at bd ((row f + pawn_step c) * 8 + col f) = BLANK then True
     else if \<bar>col t - col f\<bar> = 1 \<and> row t = row f + pawn_step c \<and> at bd t \<noteq> BLANK \<and> get_color (at bd t) \<noteq> c then True
     else False) = pawn_reaches bd c f t"
proof -
  have "(row f + pawn_step c) * 8 + col f = f + 8 * pawn_step c"
    using square_bounds(5) [OF f] by (simp only: distrib_right)
  then show ?thesis
    unfolding pawn_cases [OF own] pawn_reaches_def by (simp only:)
qed

text \<open>The test of the program is the reference rule; it never leaves the board.\<close>

lemma valid_exact:
  assumes f: "f \<in> squares" and t: "t \<in> squares" and c: "c \<in> {0, 1}"
  shows "is_valid_piece_move bd f t c = Some (reaches bd c f t)"
proof (cases "f = t \<or> get_color (at bd t) = c")
  case True
  then show ?thesis
    using c by (auto simp: is_valid_piece_move_def reaches_def get_color_def)
next
  case False
  then have ft: "f \<noteq> t" and own: "get_color (at bd t) \<noteq> c" by auto
  have gate: "(at bd t \<noteq> BLANK \<and> get_color (at bd t) = c) = False"
    using own by simp
  have zero: "(\<bar>x - y\<bar> \<noteq> 0) = (x \<noteq> y)" for x y :: int by simp
  note sl = slider_exact [OF f t ft, of bd] and pn = pawn_exact [OF f own, unfolded pawn_step_def]
  show ?thesis
    unfolding is_valid_piece_move_def reaches_def Let_def gate zero sl pn
    using ft own by (simp only: if_False insert_iff empty_iff prod.inject) auto
qed

section \<open>Legal moves\<close>

definition lone_king :: "board \<Rightarrow> int \<Rightarrow> bool" where
  "lone_king bd c \<longleftrightarrow>
     (\<forall>s\<in>squares. \<forall>t\<in>squares. at bd s = king_char c \<longrightarrow> at bd t = king_char c \<longrightarrow> s = t)"

lemma at_int [simp]: "at bd (int i) = bd ! i"
  by (simp add: at_def)

lemma square_int: "s \<in> squares \<Longrightarrow> \<exists>i<64. s = int i"
  by (metis atLeastLessThan_iff nat_0_le nat_less_iff of_nat_numeral squares_def)

lemma int_square [simp]: "int i \<in> squares \<longleftrightarrow> i < 64"
  by (simp add: squares_def)

lemma ex_square: "(\<exists>s\<in>squares. P s) \<longleftrightarrow> (\<exists>i<64. P (int i))"
  using square_int by fastforce

lemma king_colors: "c \<in> {0, 1} \<Longrightarrow> get_color (king_char c) = c"
  by (auto simp: king_char_def get_color_def isupper_def)

lemma attack_loop_exact:
  assumes "foe \<in> {0, 1}" "k \<in> squares" "\<And>i. i \<in> set ss \<Longrightarrow> i < 64"
  shows "attack_loop bd foe k ss = Some (\<exists>i\<in>set ss. get_color (bd ! i) = foe \<and> reaches bd foe (int i) k)"
  using assms(3)
proof (induction ss)
  case Nil
  show ?case by simp
next
  case (Cons i ss)
  have "get_color (bd ! i) = foe \<Longrightarrow> bd ! i \<noteq> BLANK"
    using assms(1) by (auto simp: get_color_def)
  moreover have "is_valid_piece_move bd (int i) k foe = Some (reaches bd foe (int i) k)"
    using Cons.prems assms(1,2) by (intro valid_exact) auto
  ultimately show ?case
    using Cons by (auto split: bool.split)
qed

lemma check_exact:
  assumes "c \<in> {0, 1}" "lone_king bd c"
  shows "is_in_check bd c = Some (checked bd c)"
proof (cases "scan (\<lambda>i. bd ! i = king_char c) 64")
  case None
  then have "\<not> (\<exists>i<64. bd ! i = king_char c)" by (simp add: scan_None)
  then have "\<not> checked bd c"
    unfolding checked_def ex_square at_int by blast
  with None show ?thesis
    by (simp add: is_in_check_def)
next
  case (Some k)
  then have k: "k < 64" "bd ! k = king_char c" by (auto simp: scan_Some)
  have only: "j < 64 \<Longrightarrow> bd ! j = king_char c \<Longrightarrow> j = k" for j
    using assms(2) k unfolding lone_king_def by (metis at_int int_square of_nat_eq_iff)
  have foe: "1 - c \<in> {0, 1}" using assms(1) by auto
  have "checked bd c \<longleftrightarrow> (\<exists>i<64. get_color (bd ! i) = 1 - c \<and> reaches bd (1 - c) (int i) (int k))"
    unfolding checked_def ex_square at_int using only k by blast
  moreover have "attack_loop bd (1 - c) (int k) [0..<64] =
      Some (\<exists>i\<in>set [0..<64]. get_color (bd ! i) = 1 - c \<and> reaches bd (1 - c) (int i) (int k))"
    using k by (intro attack_loop_exact [OF foe]) auto
  ultimately show ?thesis
    using Some by (auto simp: is_in_check_def)
qed

lemma at_play:
  assumes "length bd = 64" "f \<in> squares" "t \<in> squares" "s \<in> squares"
  shows "at (play bd (f, t)) s = (if s = f then BLANK else if s = t then at bd f else at bd s)"
  using assms by (auto simp: at_def play_def squares_def nth_list_update)

lemma length_play [simp]: "length (play bd m) = length bd"
  by (simp add: play_def split: prod.split)

lemma king_not_blank: "king_char c \<noteq> BLANK"
  by (simp add: king_char_def)

lemma lone_king_play:
  assumes "length bd = 64" "lone_king bd c" "f \<in> squares" "t \<in> squares"
  shows "lone_king (play bd (f, t)) c"
  unfolding lone_king_def
proof (intro ballI impI)
  note one = assms(2) [unfolded lone_king_def, rule_format]
  fix s u assume su: "s \<in> squares" "u \<in> squares"
    and kings: "at (play bd (f, t)) s = king_char c" "at (play bd (f, t)) u = king_char c"
  have "s \<noteq> f" "u \<noteq> f"
    using kings king_not_blank [of c] by (auto simp: at_play assms(1,3,4) su)
  then show "s = u"
    using kings one [OF su] one [OF assms(3) su(2)] one [OF su(1) assms(3)]
    by (cases "s = t"; cases "u = t") (simp_all add: at_play assms(1,3,4) su)
qed

lemma collect_moves_exact:
  assumes "\<And>m. m \<in> set ms \<Longrightarrow> ok m = Some (P m)"
  shows "collect_moves ok ms = Some (filter P ms)"
  using assms by (induction ms) auto

lemma set_all_moves: "set all_moves = squares \<times> squares"
proof -
  have "int ` {0..<64} = squares"
    by (simp add: squares_def image_int_atLeastLessThan)
  then show ?thesis
    by (simp add: all_moves_def)
qed

lemma distinct_all_moves: "distinct all_moves"
  unfolding all_moves_def by (intro distinct_product) (simp_all add: distinct_map)

lemma move_ok_exact:
  assumes bd: "length bd = 64" "lone_king bd c" and c: "c \<in> {0, 1}" and m: "m \<in> squares \<times> squares"
  shows "move_ok bd c m = Some (m \<in> legal bd c)"
proof -
  obtain f t where ft: "m = (f, t)" "f \<in> squares" "t \<in> squares" using m by auto
  have "is_valid_piece_move bd f t c = Some (reaches bd c f t)"
    by (rule valid_exact [OF ft(2,3) c])
  moreover have "is_in_check (play bd (f, t)) c = Some (checked (play bd (f, t)) c)"
    by (rule check_exact [OF c lone_king_play [OF bd ft(2,3)]])
  ultimately show ?thesis
    using ft by (cases "reaches bd c f t") (auto simp: move_ok_def legal_def)
qed

lemma generate_exact:
  assumes "length bd = 64" "lone_king bd c" "c \<in> {0, 1}"
  shows "generate_moves bd c = Some (filter (\<lambda>m. m \<in> legal bd c) all_moves)"
  unfolding generate_moves_def by (rule collect_moves_exact) (simp add: move_ok_exact [OF assms] set_all_moves)

lemma set_legal: "set (filter (\<lambda>m. m \<in> legal bd c) all_moves) = legal bd c"
  by (auto simp: set_all_moves legal_def)

lemma finite_legal [simp]: "finite (legal bd c)"
  by (metis finite_set set_legal)

lemma length_legal: "length (filter (\<lambda>m. m \<in> legal bd c) all_moves) = card (legal bd c)"
  by (metis distinct_all_moves distinct_card distinct_filter set_legal)

section \<open>Positions of a game\<close>

text \<open>
  A position with a side to move: no more pieces than the initial board has, one king of each side, and
  the king of the side that has just moved is not attacked.
\<close>

definition men :: "board \<Rightarrow> char multiset" where
  "men bd = filter_mset (\<lambda>p. p \<noteq> BLANK) (mset bd)"

definition has_king :: "board \<Rightarrow> int \<Rightarrow> bool" where
  "has_king bd c \<longleftrightarrow> (\<exists>s\<in>squares. at bd s = king_char c)"

definition position :: "board \<Rightarrow> int \<Rightarrow> bool" where
  "position bd c \<longleftrightarrow> length bd = 64 \<and> c \<in> {0, 1} \<and> men bd \<subseteq># men INITIAL_BOARD \<and>
     lone_king bd 0 \<and> lone_king bd 1 \<and> has_king bd 0 \<and> has_king bd 1 \<and> \<not> checked bd (1 - c)"

lemma positionD:
  assumes "position bd c"
  shows "length bd = 64" "c \<in> {0, 1}" "1 - c \<in> {0, 1}" "lone_king bd c" "lone_king bd (1 - c)"
    "has_king bd c" "has_king bd (1 - c)"
  using assms by (auto simp: position_def)

lemma legalD:
  assumes "(f, t) \<in> legal bd c"
  shows "f \<in> squares" "t \<in> squares" "get_color (at bd f) = c" "reaches bd c f t" "\<not> checked (play bd (f, t)) c"
    "f \<noteq> t" "get_color (at bd t) \<noteq> c"
  using assms by (auto simp: legal_def reaches_def)

text \<open>The king of the other side is never taken: the move that takes it would have been a check.\<close>

lemma king_not_taken:
  assumes p: "position bd c" and m: "(f, t) \<in> legal bd c" and k: "k \<in> {0, 1}"
  shows "at bd t \<noteq> king_char k"
proof
  assume king: "at bd t = king_char k"
  then have "get_color (at bd t) = k" using king_colors [OF k] by simp
  then have "k = 1 - c"
    using k positionD(2) [OF p] legalD(7) [OF m] by auto
  then have "checked bd (1 - c)"
    unfolding checked_def using king legalD(1-4) [OF m] by auto
  then show False using p by (simp add: position_def)
qed

lemma has_king_play:
  assumes p: "position bd c" and m: "(f, t) \<in> legal bd c" and k: "k \<in> {0, 1}"
  shows "has_king (play bd (f, t)) k"
proof -
  obtain s where s: "s \<in> squares" "at bd s = king_char k"
    using p k by (auto simp: position_def has_king_def)
  have "s \<noteq> t" using king_not_taken [OF assms] s by auto
  then have "at (play bd (f, t)) (if s = f then t else s) = king_char k"
    using at_play [OF positionD(1) [OF p] legalD(1,2) [OF m]] legalD(2,6) [OF m] s by auto
  then show ?thesis
    unfolding has_king_def using s legalD(2) [OF m] by (auto split: if_splits)
qed

lemma men_play:
  assumes "length bd = 64" "f \<in> squares" "t \<in> squares" "f \<noteq> t"
  shows "men (play bd (f, t)) \<subseteq># men bd"
proof -
  have n: "nat f < length bd" "nat t < length bd" "nat f \<noteq> nat t"
    using assms by (auto simp: squares_def nat_eq_iff)
  define X where "X = mset bd - {#at bd f#}"
  define lifted where "lifted = bd[nat f := BLANK]"
  have bd: "mset bd = add_mset (at bd f) X"
    using n(1) by (simp add: X_def at_def)
  have "play bd (f, t) = lifted[nat t := at bd f]"
    using n(3) by (simp add: play_def lifted_def list_update_swap)
  moreover have "mset lifted = add_mset BLANK X"
    using n(1) by (simp add: lifted_def mset_update X_def at_def)
  ultimately have "mset (play bd (f, t)) = add_mset (at bd f) (add_mset BLANK X - {#lifted ! nat t#})"
    using n(2) by (simp add: mset_update lifted_def)
  moreover have "filter_mset (\<lambda>p. p \<noteq> BLANK) (add_mset BLANK X - {#lifted ! nat t#})
      \<subseteq># filter_mset (\<lambda>p. p \<noteq> BLANK) (add_mset BLANK X)"
    by (rule multiset_filter_mono) simp
  ultimately show ?thesis
    using bd by (simp add: men_def)
qed

lemma position_play:
  assumes p: "position bd c" and m: "m \<in> legal bd c"
  shows "position (play bd m) (1 - c)"
proof -
  obtain f t where ft: "m = (f, t)" by (cases m)
  note m' = m [unfolded ft]
  have len: "length bd = 64" using p by (rule positionD)
  have "men (play bd (f, t)) \<subseteq># men INITIAL_BOARD"
    using men_play [OF len legalD(1,2,6) [OF m']] p by (auto simp: position_def)
  moreover have "lone_king (play bd (f, t)) k" if "k \<in> {0, 1}" for k
    using lone_king_play [OF len _ legalD(1,2) [OF m'], of k] p that by (auto simp: position_def)
  moreover have "has_king (play bd (f, t)) k" if "k \<in> {0, 1}" for k
    by (rule has_king_play [OF p m' that])
  ultimately show ?thesis
    using legalD(5) [OF m'] len positionD(3) [OF p] by (auto simp: position_def ft)
qed

section \<open>The number of moves\<close>

text \<open>
  How many squares a piece can reach on any board: a slider those of its lines, the others those of
  their offsets. The whole army of the initial board has 185, and 256 fit into the array.
\<close>

definition reach_bound :: "char \<Rightarrow> nat" where
  "reach_bound p =
     (let k = tolower p in
      if k = CHR ''p'' then 8 else if k = CHR ''n'' then 8 else if k = CHR ''b'' then 16
      else if k = CHR ''r'' then 16 else if k = CHR ''q'' then 32 else if k = CHR ''k'' then 9 else 0)"

definition pawn_offsets :: "(int \<times> int) list" where
  "pawn_offsets = [(1, 0), (2, 0), (1, 1), (1, -1), (-1, 0), (-2, 0), (-1, 1), (-1, -1)]"

definition knight_offsets :: "(int \<times> int) list" where
  "knight_offsets = [(1, 2), (1, -2), (-1, 2), (-1, -2), (2, 1), (2, -1), (-2, 1), (-2, -1)]"

definition king_offsets :: "(int \<times> int) list" where
  "king_offsets = List.product [-1, 0, 1] [-1, 0, 1]"

definition offset_squares :: "int \<Rightarrow> (int \<times> int) list \<Rightarrow> int set" where
  "offset_squares f ds = (\<lambda>(x, y). f + 8 * x + y) ` set ds"

definition rook_squares :: "int \<Rightarrow> int set" where
  "rook_squares f = (\<lambda>r. r * 8 + col f) ` {0..<8} \<union> (\<lambda>c. row f * 8 + c) ` {0..<8}"

definition bishop_squares :: "int \<Rightarrow> int set" where
  "bishop_squares f = (\<lambda>r. r * 8 + (col f + (r - row f))) ` {0..<8} \<union> (\<lambda>r. r * 8 + (col f - (r - row f))) ` {0..<8}"

lemma card_offsets: "card (offset_squares f ds) \<le> length ds"
  unfolding offset_squares_def by (meson List.finite_set card_image_le card_length le_trans)

lemma card_lines: "card (rook_squares f) \<le> 16" "card (bishop_squares f) \<le> 16"
proof -
  have eight: "card (g ` {0..<8::int}) \<le> 8" for g :: "int \<Rightarrow> int"
    using card_image_le [of "{0..<8::int}" g] by simp
  have "card (g ` {0..<8::int} \<union> h ` {0..<8::int}) \<le> 16" for g h :: "int \<Rightarrow> int"
    using card_Un_le [of "g ` {0..<8}" "h ` {0..<8}"] eight [of g] eight [of h] by linarith
  then show "card (rook_squares f) \<le> 16" "card (bishop_squares f) \<le> 16"
    unfolding rook_squares_def bishop_squares_def by blast+
qed

lemma finite_lines: "finite (rook_squares f)" "finite (bishop_squares f)" "finite (offset_squares f ds)"
  by (simp_all add: rook_squares_def bishop_squares_def offset_squares_def)

lemma offset_of: "x * 8 + y = f \<Longrightarrow> x' * 8 + y' = t \<Longrightarrow> t = f + 8 * (x' - x) + (y' - y)" for x :: int
  by auto

lemma in_offsets:
  assumes "f \<in> squares" "t \<in> squares" "(row t - row f, col t - col f) \<in> set ds"
  shows "t \<in> offset_squares f ds"
  unfolding offset_squares_def
proof (rule image_eqI [OF _ assms(3)])
  show "t = (case (row t - row f, col t - col f) of (x, y) \<Rightarrow> f + 8 * x + y)"
    unfolding prod.case by (rule offset_of [OF square_bounds(5) [OF assms(1)] square_bounds(5) [OF assms(2)]])
qed

lemma abs_cases: "\<bar>x\<bar> = 1 \<longleftrightarrow> x = 1 \<or> x = (-1::int)" "\<bar>x\<bar> = 2 \<longleftrightarrow> x = 2 \<or> x = (-2::int)"
  "\<bar>x\<bar> \<le> 1 \<longleftrightarrow> x = -1 \<or> x = 0 \<or> x = (1::int)"
  by auto

lemma pawn_offset:
  assumes "pawn_reaches bd c f t"
  shows "(row t - row f, col t - col f) \<in> set pawn_offsets"
proof -
  have "\<exists>x\<in>{1, 2, -1, -2}. row t - row f = x \<and> (col t - col f = 0 \<or> x \<in> {1, -1} \<and> \<bar>col t - col f\<bar> = 1)"
    using assms unfolding pawn_reaches_def pawn_step_def by (auto split: if_splits)
  then show ?thesis
    unfolding pawn_offsets_def abs_cases by auto
qed

lemma diagonal_of:
  fixes r c k :: int
  assumes "r' = r + k * a" "c' = c + k * b" "b = a \<or> b = - a"
  shows "c' = c + (r' - r) \<or> c' = c - (r' - r)"
  using assms by auto

lemma ray_squares:
  assumes "f \<in> squares" "t \<in> squares" "on_ray bd f t d"
  shows "d \<in> rook_dirs \<Longrightarrow> t \<in> rook_squares f" "d \<in> bishop_dirs \<Longrightarrow> t \<in> bishop_squares f"
proof -
  obtain k where k: "row t = row f + int k * fst d" "col t = col f + int k * snd d"
    using assms(3) unfolding on_ray_def by blast
  note sq = square_bounds [OF assms(2)]
  have r: "row t \<in> {0..<8}" and c: "col t \<in> {0..<8}" using sq(1-4) by simp_all
  show "t \<in> rook_squares f" if "d \<in> rook_dirs"
  proof -
    have "fst d = 0 \<or> snd d = 0" using that by (auto simp: rook_dirs_def)
    then have "row t = row f \<or> col t = col f" using k by (metis add_0_right mult_zero_right)
    then have "t = row t * 8 + col f \<or> t = row f * 8 + col t" using sq(5) by metis
    then show ?thesis unfolding rook_squares_def using r c by blast
  qed
  show "t \<in> bishop_squares f" if "d \<in> bishop_dirs"
  proof -
    have "snd d = fst d \<or> snd d = - fst d" using that by (auto simp: bishop_dirs_def)
    then have "col t = col f + (row t - row f) \<or> col t = col f - (row t - row f)"
      by (rule diagonal_of [OF k])
    then have "row t * 8 + col t = row t * 8 + (col f + (row t - row f)) \<or>
        row t * 8 + col t = row t * 8 + (col f - (row t - row f))"
      by (elim disjE) (simp_all only: simp_thms)
    then have "t = row t * 8 + (col f + (row t - row f)) \<or> t = row t * 8 + (col f - (row t - row f))"
      unfolding sq(5) .
    then show ?thesis unfolding bishop_squares_def using r by blast
  qed
qed

lemma card_reaches:
  assumes f: "f \<in> squares"
  shows "card {t \<in> squares. reaches bd c f t} \<le> reach_bound (at bd f)"
proof -
  let ?T = "{t \<in> squares. reaches bd c f t}" and ?p = "tolower (at bd f)"
  have le: "card ?T \<le> n" if "\<And>t. t \<in> squares \<Longrightarrow> reaches bd c f t \<Longrightarrow> t \<in> S" "card S \<le> n" "finite S" for S n
    using card_mono [OF that(3), of ?T] that by force
  have king: "(row t - row f, col t - col f) \<in> set king_offsets"
      if "\<bar>row t - row f\<bar> \<le> 1 \<and> \<bar>col t - col f\<bar> \<le> 1" for t
    using that unfolding abs_cases king_offsets_def by auto
  have knight: "(row t - row f, col t - col f) \<in> set knight_offsets"
      if "(\<bar>row t - row f\<bar>, \<bar>col t - col f\<bar>) \<in> {(1, 2), (2, 1)}" for t
    using that unfolding insert_iff empty_iff prod.inject abs_cases knight_offsets_def by auto
  consider "?p = CHR ''p''" | "?p = CHR ''n''" | "?p = CHR ''b''" | "?p = CHR ''r''" | "?p = CHR ''q''"
    | "?p = CHR ''k''" | "?p \<notin> {CHR ''p'', CHR ''n'', CHR ''b'', CHR ''r'', CHR ''q'', CHR ''k''}" by blast
  then show ?thesis
  proof cases
    case 1
    have "card ?T \<le> 8"
      using in_offsets [OF f _ pawn_offset] 1 card_offsets [of f pawn_offsets] finite_lines
      by (intro le [of "offset_squares f pawn_offsets"]) (auto simp: reaches_def pawn_offsets_def)
    with 1 show ?thesis by (simp add: reach_bound_def)
  next
    case 2
    have "card ?T \<le> 8"
      using in_offsets [OF f _ knight] 2 card_offsets [of f knight_offsets] finite_lines
      by (intro le [of "offset_squares f knight_offsets"]) (auto simp: reaches_def knight_offsets_def)
    with 2 show ?thesis by (simp add: reach_bound_def)
  next
    case 3
    have "card ?T \<le> 16"
      using ray_squares(2) [OF f] 3 card_lines finite_lines
      by (intro le [of "bishop_squares f"]) (auto simp: reaches_def)
    with 3 show ?thesis by (simp add: reach_bound_def)
  next
    case 4
    have "card ?T \<le> 16"
      using ray_squares(1) [OF f] 4 card_lines finite_lines
      by (intro le [of "rook_squares f"]) (auto simp: reaches_def)
    with 4 show ?thesis by (simp add: reach_bound_def)
  next
    case 5
    have "card (rook_squares f \<union> bishop_squares f) \<le> 32"
      using card_Un_le [of "rook_squares f" "bishop_squares f"] card_lines [of f] by linarith
    then have "card ?T \<le> 32"
      using ray_squares [OF f] 5 finite_lines
      by (intro le [of "rook_squares f \<union> bishop_squares f"]) (auto simp: reaches_def)
    with 5 show ?thesis by (simp add: reach_bound_def)
  next
    case 6
    have "card ?T \<le> 9"
      using in_offsets [OF f _ king] 6 card_offsets [of f king_offsets] finite_lines
      by (intro le [of "offset_squares f king_offsets"]) (auto simp: reaches_def king_offsets_def)
    with 6 show ?thesis by (simp add: reach_bound_def)
  next
    case 7
    then have "?T = {}" by (auto simp: reaches_def)
    then show ?thesis by (simp only: card.empty le0)
  qed
qed

definition army_bound :: "board \<Rightarrow> int \<Rightarrow> nat" where
  "army_bound bd c = sum_list (map reach_bound (filter (\<lambda>p. get_color p = c) bd))"

lemma army_bound_pieces:
  assumes "c \<in> {0, 1}"
  shows "army_bound bd c = \<Sum>\<^sub># (image_mset reach_bound (filter_mset (\<lambda>p. get_color p = c) (men bd)))"
proof -
  have "filter_mset (\<lambda>p. get_color p = c) (men bd) = mset (filter (\<lambda>p. get_color p = c) bd)"
    using assms unfolding men_def filter_filter_mset mset_filter
    by (intro filter_mset_cong refl) (auto simp: get_color_def)
  then show ?thesis
    by (simp add: army_bound_def sum_mset_sum_list [symmetric])
qed

lemma sum_image_mono: "A \<subseteq># B \<Longrightarrow> \<Sum>\<^sub># (image_mset g A) \<le> (\<Sum>\<^sub># (image_mset g B) :: nat)"
  by (metis image_mset_union le_add1 subset_mset.add_diff_inverse sum_mset.union)

lemma army_initial: "c \<in> {0, 1} \<Longrightarrow> army_bound INITIAL_BOARD c = 185"
proof -
  have "army_bound INITIAL_BOARD 0 = 185" "army_bound INITIAL_BOARD 1 = 185" by code_simp+
  then show "c \<in> {0, 1} \<Longrightarrow> army_bound INITIAL_BOARD c = 185" by auto
qed

lemma sum_list_squares:
  assumes "length bd = 64"
  shows "(\<Sum>f\<in>{f \<in> squares. get_color (at bd f) = c}. reach_bound (at bd f)) = army_bound bd c"
proof -
  have "{f \<in> squares. get_color (at bd f) = c} = int ` {i. i < 64 \<and> get_color (bd ! i) = c}"
    using square_int by fastforce
  then have "(\<Sum>f\<in>{f \<in> squares. get_color (at bd f) = c}. reach_bound (at bd f)) =
      (\<Sum>i | i < 64 \<and> get_color (bd ! i) = c. reach_bound (bd ! i))"
    by (simp add: sum.reindex)
  also have "\<dots> = (\<Sum>i<64. if get_color (bd ! i) = c then reach_bound (bd ! i) else 0)"
    by (subst sum.inter_filter [symmetric]) (auto intro: sum.cong)
  also have "\<dots> = sum_list (map (\<lambda>p. if get_color p = c then reach_bound p else 0) bd)"
    using assms by (simp add: sum_list_sum_nth atLeast0LessThan)
  also have "\<dots> = army_bound bd c"
    unfolding army_bound_def by (rule sum_list_map_filter' [symmetric])
  finally show ?thesis .
qed

lemma card_legal:
  assumes "position bd c"
  shows "card (legal bd c) \<le> 185"
proof -
  let ?F = "{f \<in> squares. get_color (at bd f) = c}"
  have fin: "finite ?F" "\<And>f. finite {t \<in> squares. reaches bd c f t}"
    by (rule finite_subset [of _ squares]; auto simp: squares_def)+
  have "legal bd c \<subseteq> (SIGMA f:?F. {t \<in> squares. reaches bd c f t})"
    by (auto simp: legal_def)
  then have "card (legal bd c) \<le> card (SIGMA f:?F. {t \<in> squares. reaches bd c f t})"
    using fin by (intro card_mono finite_SigmaI) auto
  also have "\<dots> = (\<Sum>f\<in>?F. card {t \<in> squares. reaches bd c f t})"
    using fin by (simp add: card_SigmaI)
  also have "\<dots> \<le> (\<Sum>f\<in>?F. reach_bound (at bd f))"
    by (rule sum_mono) (simp add: card_reaches)
  also have "\<dots> = army_bound bd c"
    by (rule sum_list_squares [OF positionD(1) [OF assms]])
  also have "\<dots> \<le> army_bound INITIAL_BOARD c"
    using assms unfolding army_bound_pieces [OF positionD(2) [OF assms]] position_def
    by (intro sum_image_mono multiset_filter_mono) auto
  also have "\<dots> = 185"
    by (rule army_initial [OF positionD(2) [OF assms]])
  finally show ?thesis .
qed

text \<open>On a position of a game the array is filled with the legal moves, each once.\<close>

lemma moves_exact:
  assumes p: "position bd c"
  shows "moves_256 bd c = Some (filter (\<lambda>m. m \<in> legal bd c) all_moves)"
  using generate_exact [OF positionD(1,4,2) [OF p]] card_legal [OF p]
  by (simp add: moves_256_def length_legal)

section \<open>The search\<close>

lemma search_loop_exact:
  assumes "\<And>m. m \<in> set ms \<Longrightarrow> value m = Some (v m)"
  shows "search_loop value best ms = Some (Max (insert best ((\<lambda>m. - v m) ` set ms)))"
  using assms
proof (induction ms arbitrary: best)
  case Nil
  show ?case by simp
next
  case (Cons m ms)
  have "Max (insert (max best (- v m)) ((\<lambda>m. - v m) ` set ms)) = Max (insert best ((\<lambda>m. - v m) ` set (m # ms)))"
    by (cases "ms = []") (simp_all add: max.assoc max.left_commute)
  moreover have "(if best < - v m then - v m else best) = max best (- v m)" by auto
  ultimately show ?case
    using Cons by simp
qed

lemma evaluate_bound: "\<bar>evaluate_board bd c\<bar> \<le> 57600"
proof -
  have "\<bar>foldl (\<lambda>score i. let p = bd ! i; val = piece_value p in
              if get_color p = c then score + val
              else if get_color p \<noteq> -1 then score - val
              else score) s js\<bar> \<le> \<bar>s\<bar> + 900 * int (length js)" for s js
  proof (induction js arbitrary: s)
    case Nil
    show ?case by simp
  next
    case (Cons i js)
    have v: "0 \<le> piece_value p \<and> piece_value p \<le> 900" for p
      by (simp add: piece_value_def)
    show ?case
      using v [of "bd ! i"] Cons.IH [of "s + piece_value (bd ! i)"] Cons.IH [of "s - piece_value (bd ! i)"] Cons.IH [of s]
      by (auto simp: Let_def)
  qed
  from this [of 0 "[0..<64]"] show ?thesis by (simp add: evaluate_board_def)
qed

text \<open>A value fits an \<^verbatim>\<open>int\<close>, and beats the value the search starts from.\<close>

lemma negamax_bound: "\<bar>negamax bd depth c\<bar> \<le> 99999"
proof (induction depth arbitrary: bd c)
  case 0
  show ?case using evaluate_bound [of bd c] by simp
next
  case (Suc depth)
  let ?V = "(\<lambda>m. - negamax (play bd m) depth (1 - c)) ` legal bd c"
  have "\<bar>Max ?V\<bar> \<le> 99999" if "legal bd c \<noteq> {}"
  proof -
    have "Max ?V \<in> ?V" using that by (intro Max_in) auto
    then show ?thesis using Suc by auto
  qed
  then show ?case by simp
qed

lemma minimax_exact: "position bd c \<Longrightarrow> minimax bd depth c = Some (negamax bd depth c)"
proof (induction depth arbitrary: bd c)
  case 0
  show ?case by simp
next
  case (Suc depth)
  let ?ms = "filter (\<lambda>m. m \<in> legal bd c) all_moves"
  show ?case
  proof (cases "legal bd c = {}")
    case True
    then show ?thesis
      using moves_exact [OF Suc.prems] check_exact [OF positionD(2,4) [OF Suc.prems]] by simp
  next
    case False
    then obtain m ms where ms: "?ms = m # ms" by (metis list.exhaust list.set(1) set_legal)
    let ?V = "(\<lambda>m. - negamax (play bd m) depth (1 - c)) ` legal bd c"
    have "minimax bd (Suc depth) c =
        search_loop (\<lambda>mv. minimax (play bd mv) depth (1 - c)) (-999999) ?ms"
      using moves_exact [OF Suc.prems] ms by simp
    also have "\<dots> = Some (Max (insert (-999999) ?V))"
      using Suc.IH position_play [OF Suc.prems] set_legal [of bd c]
      by (subst search_loop_exact [where v = "\<lambda>m. negamax (play bd m) depth (1 - c)"]) auto
    also have "Max (insert (-999999) ?V) = Max ?V"
    proof -
      have "Max ?V \<in> ?V" using False by (intro Max_in) auto
      then obtain m where m: "Max ?V = - negamax (play bd m) depth (1 - c)" by blast
      have "-999999 \<le> Max ?V" unfolding m using negamax_bound [of "play bd m" depth "1 - c"] by simp
      then show ?thesis using False by (subst Max_insert) auto
    qed
    finally show ?thesis using False by simp
  qed
qed

section \<open>The moves of a position\<close>

lemma initial_position: "position INITIAL_BOARD 0"
proof -
  have "list_all (\<lambda>i. INITIAL_BOARD ! i = CHR ''K'' \<longrightarrow> i = 4) [0..<64]"
    "list_all (\<lambda>i. INITIAL_BOARD ! i = CHR ''k'' \<longrightarrow> i = 60) [0..<64]" by code_simp+
  then have lone: "lone_king INITIAL_BOARD 0" "lone_king INITIAL_BOARD 1"
    unfolding lone_king_def king_char_def by (auto simp: list_all_iff dest!: square_int) (metis atLeastLessThan_iff le0)+
  have "is_in_check INITIAL_BOARD 1 = Some False" by code_simp
  then have "\<not> checked INITIAL_BOARD 1"
    using check_exact [of 1 INITIAL_BOARD] lone by simp
  moreover have "at INITIAL_BOARD 4 = CHR ''K''" "at INITIAL_BOARD 60 = CHR ''k''" "length INITIAL_BOARD = 64"
    by code_simp+
  ultimately show ?thesis
    using lone by (auto simp: position_def has_king_def king_char_def squares_def)
qed

lemma first_move_legal: "(12, 28) \<in> legal INITIAL_BOARD 0"
proof -
  have "move_ok INITIAL_BOARD 0 (12, 28) = Some True" by code_simp
  then show ?thesis
    using move_ok_exact [OF positionD(1,4,2) [OF initial_position], of "(12, 28)"] by (simp add: squares_def)
qed

text \<open>
  C39. On every position of a game the generator returns the legal moves of the reference rules, each
  once, without reading outside the board; they are at most 185, so the array of 256 that its callers
  pass is never overrun.
\<close>

theorem legal_moves_exact:
  assumes "position bd c"
  shows "\<exists>ms. generate_moves bd c = Some ms \<and> distinct ms \<and> set ms = legal bd c \<and> length ms \<le> 185"
proof -
  let ?ms = "filter (\<lambda>m. m \<in> legal bd c) all_moves"
  have "generate_moves bd c = Some ?ms"
    by (rule generate_exact [OF positionD(1,4,2) [OF assms]])
  then show ?thesis
    using distinct_all_moves set_legal length_legal card_legal [OF assms] by auto
qed

theorem legal_moves_exact_witness:
  "(12, 28) \<in> legal INITIAL_BOARD 0 \<and>
    (\<exists>ms. generate_moves INITIAL_BOARD 0 = Some ms \<and> distinct ms \<and> set ms = legal INITIAL_BOARD 0 \<and> length ms \<le> 185)"
  using legal_moves_exact [OF initial_position] first_move_legal by blast

end
