(* ===== verification/Mx_Chess_Game.thy ===== *)
theory Mx_Chess_Game
  imports Mx_Chess
begin

text \<open>
  The distributed demonstration program: the master that plays a game with XBoard
  (\<^verbatim>\<open>tools/mpichess/mpichess.c\<close>) and the workers it has value the moves
  (\<^verbatim>\<open>main\<close> of \<^verbatim>\<open>tools/mpichess/mpichess-client.c\<close>).

  The message passing library is an argument: whether the workers could be started, and the order in
  which their results arrive. The library promises that each worker's result arrives once. The log
  files are not modelled.
\<close>

section \<open>The workers\<close>

record eval_msg =
  em_board :: board
  em_from :: int
  em_to :: int
  em_side :: int

record result_msg =
  rm_score :: int
  rm_from :: int
  rm_to :: int

definition client_main :: "eval_msg \<Rightarrow> result_msg option" where
  "client_main msg =
     (let bd = play (em_board msg) (em_from msg, em_to msg) in
      map_option (\<lambda>v. \<lparr>rm_score = - v, rm_from = em_from msg, rm_to = em_to msg\<rparr>)
        (minimax bd (DEPTH - 1) (1 - em_side msg)))"

section \<open>The game of the master\<close>

record game =
  g_board :: board
  color_to_move :: int
  engine_side :: int
  move_history :: "nat \<Rightarrow> move"
  total_moves :: nat
  printed :: "string list"
  posted :: "string list"

text \<open>
  Why the program ends, and how a step of it may end: with a new state, with the end of the program,
  with a move written past the end of \<^verbatim>\<open>move_history\<close>, or with another undefined access.
\<close>

datatype (plugins only: size code) ending = King_taken int | Repetition | Resigned | Spawn_failed | Finished

datatype (plugins only: size code) outcome = Plays game | Ends ending game | History_overrun game | Undefined

definition ln :: "string \<Rightarrow> string" where
  "ln s = s @ [CHR 0x0A]"

definition print :: "string \<Rightarrow> game \<Rightarrow> game" where
  "print s g = g\<lparr>printed := printed g @ [s]\<rparr>"

definition then_do :: "outcome \<Rightarrow> (game \<Rightarrow> outcome) \<Rightarrow> outcome" where
  "then_do r next = (case r of Plays g \<Rightarrow> next g | _ \<Rightarrow> r)"

definition repeated :: "move \<Rightarrow> game \<Rightarrow> nat" where
  "repeated m g =
     (let start_idx = (if 100 < total_moves g then total_moves g - 100 else 0)
      in length (filter (\<lambda>i. move_history g i = m) [start_idx..<total_moves g]))"

definition check_game_over :: "move \<Rightarrow> char \<Rightarrow> game \<Rightarrow> outcome" where
  "check_game_over m captured_piece g =
     (if captured_piece = CHR ''K'' then Ends (King_taken 0) (print (ln ''0-1 {Black mates}'') g)
      else if captured_piece = CHR ''k'' then Ends (King_taken 1) (print (ln ''1-0 {White mates}'') g)
      else if 5 \<le> repeated m g then Ends Repetition (print (ln ''1/2-1/2 {Draw by repetition}'') g)
      else Plays g)"

definition record_move :: "move \<Rightarrow> game \<Rightarrow> outcome" where
  "record_move m g =
     (if total_moves g < 4096
      then Plays (g\<lparr>move_history := (move_history g)(total_moves g := m), total_moves := total_moves g + 1\<rparr>)
      else History_overrun g)"

definition apply_move :: "move \<Rightarrow> game \<Rightarrow> outcome" where
  "apply_move m g =
     (let captured_piece = at (g_board g) (snd m);
          g1 = g\<lparr>g_board := play (g_board g) m, color_to_move := 1 - color_to_move g\<rparr>
      in then_do (check_game_over m captured_piece g1) (record_move m))"

section \<open>The engine\<close>

record world =
  spawned :: bool
  arrives :: "nat \<Rightarrow> nat list"
  response :: string

text \<open>The results of \<open>n\<close> workers arrive in some order, each once.\<close>

definition delivers_all :: "world \<Rightarrow> bool" where
  "delivers_all w \<longleftrightarrow> (\<forall>n. mset (arrives w n) = mset [0..<n])"

definition branch :: "game \<Rightarrow> move \<Rightarrow> eval_msg" where
  "branch g m = \<lparr>em_board = g_board g, em_from = fst m, em_to = snd m, em_side = engine_side g\<rparr>"

primrec decide :: "result_msg option list \<Rightarrow> int \<Rightarrow> move \<Rightarrow> (int \<times> move) option" where
  "decide [] best_score best_move = Some (best_score, best_move)"
| "decide (r # rs) best_score best_move =
     (case r of
        None \<Rightarrow> None
      | Some res \<Rightarrow>
          if best_score < rm_score res then decide rs (rm_score res) (rm_from res, rm_to res)
          else decide rs best_score best_move)"

definition engine_choice :: "world \<Rightarrow> game \<Rightarrow> move list \<Rightarrow> (int \<times> move) option" where
  "engine_choice w g ms =
     decide (map (\<lambda>i. client_main (branch g (ms ! i))) (arrives w (length ms))) (-9999999) (hd ms)"

definition square_name :: "int \<Rightarrow> string" where
  "square_name s = [char_of (97 + nat (s mod 8)), char_of (49 + nat (s div 8))]"

text \<open>The move is told to XBoard and to a web server, which answers; the socket calls are below.\<close>

definition http_request :: "string \<Rightarrow> string" where
  "http_request move_str =
     ''GET /postmove?move='' @ move_str @ '' HTTP/1.0'' @ [CHR 0x0D, CHR 0x0A, CHR 0x0D, CHR 0x0A]"

definition postmove :: "string \<Rightarrow> string \<Rightarrow> game \<Rightarrow> game" where
  "postmove move_str reply g =
     (let message = http_request move_str;
          g1 = print (ln (ln ''Request:'' @ message)) g
      in print (ln (ln ''Response:'' @ reply)) (g1\<lparr>posted := posted g1 @ [message]\<rparr>))"

definition announce :: "world \<Rightarrow> move \<Rightarrow> game \<Rightarrow> game" where
  "announce w m g =
     (let from = square_name (fst m); to = square_name (snd m);
          move_str = ln (from @ ''-'' @ to)
      in postmove move_str (response w) (print move_str (print (ln (''move '' @ from @ to)) g)))"

definition do_mpi_move :: "world \<Rightarrow> game \<Rightarrow> outcome" where
  "do_mpi_move w g =
     (case moves_256 (g_board g) (engine_side g) of
        None \<Rightarrow> Undefined
      | Some [] \<Rightarrow>
          Ends Resigned (print (if engine_side g = 1 then (ln ''1-0 {Resign}'') else (ln ''0-1 {Resign}'')) g)
      | Some (m # ms) \<Rightarrow>
          if \<not> spawned w then Ends Spawn_failed g
          else case engine_choice w g (m # ms) of
                 None \<Rightarrow> Undefined
               | Some (best_score, best_move) \<Rightarrow>
                   then_do (apply_move best_move g) (\<lambda>g1. Plays (announce w best_move g1)))"

section \<open>The commands\<close>

text \<open>A line is read over the previous one; what follows its end is left from there.\<close>

definition fgets_over :: "string \<Rightarrow> string \<Rightarrow> string" where
  "fgets_over line buf = line @ [CHR 0x00] @ drop (length line + 1) buf"

definition schar :: "char \<Rightarrow> int" where
  "schar c = (if of_char c < (128 :: int) then of_char c else of_char c - 256)"

definition begins :: "string \<Rightarrow> string \<Rightarrow> bool" where
  "begins word buf \<longleftrightarrow> take (length word) buf = word"

definition new_game :: "game \<Rightarrow> game" where
  "new_game g = g\<lparr>g_board := INITIAL_BOARD, color_to_move := 0, engine_side := 1, total_moves := 0\<rparr>"

definition human_move :: "string \<Rightarrow> move" where
  "human_move line =
     ((schar (line ! 0) - 97) + (schar (line ! 1) - 49) * 8,
      (schar (line ! 2) - 97) + (schar (line ! 3) - 49) * 8)"

definition try_move :: "world \<Rightarrow> move \<Rightarrow> game \<Rightarrow> outcome" where
  "try_move w m g =
     (case moves_256 (g_board g) (color_to_move g) of
        None \<Rightarrow> Undefined
      | Some legal_moves \<Rightarrow>
          if m \<in> set legal_moves
          then then_do (apply_move m g)
                 (\<lambda>g1. if color_to_move g1 = engine_side g1 then do_mpi_move w g1 else Plays g1)
          else Plays g)"

definition xboard_line :: "world \<Rightarrow> string \<Rightarrow> game \<Rightarrow> outcome" where
  "xboard_line w line g =
     (if begins ''xboard'' line then Plays (print (ln ''feature done=1'') g)
      else if begins ''new'' line then Plays (new_game g)
      else if begins ''force'' line then Plays (g\<lparr>engine_side := -1\<rparr>)
      else if begins ''go'' line then do_mpi_move w (g\<lparr>engine_side := color_to_move g\<rparr>)
      else if begins ''quit'' line then Ends Finished g
      else if schar (line ! 0) \<in> {97..104} \<and> schar (line ! 1) \<in> {49..56} then try_move w (human_move line) g
      else Plays g)"

primrec session :: "(string \<times> world) list \<Rightarrow> string \<Rightarrow> game \<Rightarrow> outcome" where
  "session [] buf g = Ends Finished g"
| "session (input # inputs) buf g =
     (let line = fgets_over (fst input) buf
      in then_do (xboard_line (snd input) line g) (session inputs line))"

definition game_start :: "game" where
  "game_start = \<lparr>g_board = INITIAL_BOARD, color_to_move = 0, engine_side = 1,
     move_history = (\<lambda>_. (0, 0)), total_moves = 0, printed = [], posted = []\<rparr>"

section \<open>The distributed search\<close>

lemma client_exact:
  assumes "position (g_board g) (engine_side g)" "m \<in> legal (g_board g) (engine_side g)"
  shows "client_main (branch g m) =
    Some \<lparr>rm_score = - negamax (play (g_board g) m) (DEPTH - 1) (1 - engine_side g), rm_from = fst m, rm_to = snd m\<rparr>"
  using minimax_exact [OF position_play [OF assms]]
  by (simp add: client_main_def branch_def Let_def)

text \<open>The master keeps the first result with the largest value.\<close>

lemma decide_max:
  assumes "\<And>m. m \<in> set ms \<Longrightarrow> res m = Some \<lparr>rm_score = v m, rm_from = fst m, rm_to = snd m\<rparr>"
  shows "\<exists>s m. decide (map res ms) best bm = Some (s, m) \<and> s = Max (insert best (v ` set ms)) \<and>
    (s = best \<and> m = bm \<or> m \<in> set ms \<and> v m = s)"
  using assms
proof (induction ms arbitrary: best bm)
  case Nil
  show ?case by simp
next
  case (Cons a ms)
  let ?best = "if best < v a then v a else best" and ?bm = "if best < v a then a else bm"
  obtain s m where d: "decide (map res ms) ?best ?bm = Some (s, m)" "s = Max (insert ?best (v ` set ms))"
      "s = ?best \<and> m = ?bm \<or> m \<in> set ms \<and> v m = s"
    using Cons.IH [of ?best ?bm] Cons.prems by auto
  have "?best = max best (v a)" by auto
  then have "s = Max (insert best (v ` set (a # ms)))"
    using d(2) by (cases "ms = []") (simp_all add: max.assoc max.left_commute)
  moreover have "decide (map res (a # ms)) best bm = Some (s, m)"
    using d(1) Cons.prems [of a] by (cases "best < v a") simp_all
  ultimately show ?case
    using d(3) by (auto split: if_splits)
qed

lemma engine_choice_exact:
  assumes p: "position (g_board g) (engine_side g)" and w: "delivers_all w"
    and ms: "set ms = legal (g_board g) (engine_side g)" "ms \<noteq> []"
  shows "\<exists>m. engine_choice w g ms = Some (negamax (g_board g) DEPTH (engine_side g), m) \<and>
    m \<in> legal (g_board g) (engine_side g) \<and>
    - negamax (play (g_board g) m) (DEPTH - 1) (1 - engine_side g) = negamax (g_board g) DEPTH (engine_side g)"
proof -
  let ?L = "legal (g_board g) (engine_side g)"
  let ?v = "\<lambda>m. - negamax (play (g_board g) m) (DEPTH - 1) (1 - engine_side g)"
  let ?as = "map ((!) ms) (arrives w (length ms))"
  have "set (arrives w (length ms)) = set [0..<length ms]"
    using w unfolding delivers_all_def by (metis mset_eq_setD)
  then have as: "set ?as = ?L"
    using ms(1) map_nth [of ms] by (metis set_map)
  have L: "?L \<noteq> {}" using ms by auto
  have res: "client_main (branch g m) = Some \<lparr>rm_score = ?v m, rm_from = fst m, rm_to = snd m\<rparr>" if "m \<in> set ?as" for m
    by (rule client_exact [OF p]) (use that as in blast)
  obtain s m where d: "engine_choice w g ms = Some (s, m)" "s = Max (insert (-9999999) (?v ` ?L))"
      "s = -9999999 \<and> m = hd ms \<or> m \<in> ?L \<and> ?v m = s"
    using decide_max [where ms = ?as and v = ?v and best = "-9999999" and bm = "hd ms", OF res] unfolding as by (auto simp: engine_choice_def comp_def)
  have "Max (?v ` ?L) \<in> ?v ` ?L"
    using L by (intro Max_in) auto
  then obtain b where b: "b \<in> ?L" "Max (?v ` ?L) = ?v b" by blast
  have large: "-9999999 < ?v b"
    using negamax_bound [of "play (g_board g) b" "DEPTH - 1" "1 - engine_side g"] by simp
  have "s = ?v b"
    unfolding d(2) using L large b(2) by (subst Max_insert) auto
  moreover have "negamax (g_board g) DEPTH (engine_side g) = Max (?v ` ?L)"
    using L by (simp add: numeral_eq_Suc)
  ultimately show ?thesis
    using d(1,3) b large by auto
qed

section \<open>Games\<close>

definition game_ok :: "game \<Rightarrow> bool" where
  "game_ok g \<longleftrightarrow> position (g_board g) (color_to_move g) \<and> engine_side g \<in> {-1, 0, 1} \<and> total_moves g \<le> 4096"

text \<open>
  How a step may end: the invariant holds, or the program has ended, never by a king that was taken, or
  the history is full.
\<close>

fun fine :: "outcome \<Rightarrow> bool" where
  "fine (Plays g) = game_ok g"
| "fine (Ends e g) = (e \<noteq> King_taken 0 \<and> e \<noteq> King_taken 1)"
| "fine (History_overrun g) = (total_moves g = 4096)"
| "fine Undefined = False"

lemma fine_then:
  assumes "fine r" "\<And>g. r = Plays g \<Longrightarrow> game_ok g \<Longrightarrow> fine (next g)"
  shows "fine (then_do r next)"
  using assms by (cases r) (simp_all add: then_do_def)

lemma game_ok_print [simp]: "game_ok (print s g) = game_ok g"
  by (simp add: game_ok_def print_def)

lemma game_ok_announce [simp]: "game_ok (announce w m g) = game_ok g"
  by (simp add: announce_def postmove_def Let_def) (simp add: game_ok_def print_def)

lemma apply_move_fine:
  assumes g: "game_ok g" and m: "m \<in> legal (g_board g) (color_to_move g)"
  shows "fine (apply_move m g)"
proof -
  obtain f t where ft: "m = (f, t)" by (cases m)
  have p: "position (g_board g) (color_to_move g)" using g by (simp add: game_ok_def)
  have k: "at (g_board g) t \<noteq> CHR ''K''" "at (g_board g) t \<noteq> CHR ''k''"
    using king_not_taken [OF p, of f t 0] king_not_taken [OF p, of f t 1] m
    by (simp_all add: ft king_char_def)
  show ?thesis
    using g k position_play [OF p m]
    by (auto simp: apply_move_def Let_def ft check_game_over_def record_move_def then_do_def game_ok_def)
qed

lemma moves_legal:
  assumes "position bd c"
  shows "\<exists>ms. moves_256 bd c = Some ms \<and> set ms = legal bd c"
  using moves_exact [OF assms] set_legal by blast

lemma do_mpi_move_fine:
  assumes g: "game_ok g" and side: "engine_side g = color_to_move g" and w: "delivers_all w"
  shows "fine (do_mpi_move w g)"
proof -
  have p: "position (g_board g) (engine_side g)" using g side by (simp add: game_ok_def)
  obtain ms where ms: "moves_256 (g_board g) (engine_side g) = Some ms" "set ms = legal (g_board g) (engine_side g)"
    using moves_legal [OF p] by blast
  show ?thesis
  proof (cases ms)
    case Nil
    then show ?thesis using ms by (simp add: do_mpi_move_def)
  next
    case (Cons a as)
    obtain s m where c: "engine_choice w g (a # as) = Some (s, m)" "m \<in> legal (g_board g) (engine_side g)"
      using engine_choice_exact [OF p w ms(2)] Cons by auto
    have "fine (apply_move m g)"
      using c(2) side by (intro apply_move_fine [OF g]) simp
    then show ?thesis
      using ms(1) Cons c(1) by (auto simp: do_mpi_move_def split: prod.split intro: fine_then)
  qed
qed

lemma try_move_fine:
  assumes g: "game_ok g" and w: "delivers_all w"
  shows "fine (try_move w m g)"
proof -
  have p: "position (g_board g) (color_to_move g)" using g by (simp add: game_ok_def)
  obtain ms where ms: "moves_256 (g_board g) (color_to_move g) = Some ms" "set ms = legal (g_board g) (color_to_move g)"
    using moves_legal [OF p] by blast
  have "fine (then_do (apply_move m g) (\<lambda>g1. if color_to_move g1 = engine_side g1 then do_mpi_move w g1 else Plays g1))"
      if "m \<in> set ms"
    using that ms(2) w by (intro fine_then apply_move_fine [OF g]) (auto intro: do_mpi_move_fine)
  then show ?thesis
    using ms(1) g by (simp add: try_move_def)
qed

lemma xboard_line_fine:
  assumes g: "game_ok g" and w: "delivers_all w"
  shows "fine (xboard_line w line g)"
proof -
  have p: "position (g_board g) (color_to_move g)" using g by (simp add: game_ok_def)
  have "game_ok (new_game g)"
    using initial_position by (simp add: game_ok_def new_game_def)
  moreover have "game_ok (g\<lparr>engine_side := -1\<rparr>)" "game_ok (g\<lparr>engine_side := color_to_move g\<rparr>)"
    using g positionD(2) [OF p] by (auto simp: game_ok_def)
  ultimately show ?thesis
    using g try_move_fine [OF g w] do_mpi_move_fine [OF _ _ w, of "g\<lparr>engine_side := color_to_move g\<rparr>"]
    by (simp add: xboard_line_def)
qed

lemma game_start_ok: "game_ok game_start"
  using initial_position by (simp add: game_ok_def game_start_def)

text \<open>
  Whatever commands the master reads, and in whatever order the results of its workers arrive, the
  game it plays stays within its bounds: every board access and every array of moves is defined, no king
  is ever taken, and the program ends in another way or goes on until the 4097th move of a game, which is
  written past the end of the history.
\<close>

theorem session_safe:
  assumes "\<forall>input \<in> set inputs. delivers_all (snd input)" and "game_ok g"
  shows "case session inputs buf g of
      Ends e g' \<Rightarrow> e \<noteq> King_taken 0 \<and> e \<noteq> King_taken 1
    | History_overrun g' \<Rightarrow> total_moves g' = 4096
    | _ \<Rightarrow> False"
  using assms
proof (induction inputs arbitrary: buf g)
  case Nil
  show ?case by simp
next
  case (Cons input inputs)
  let ?line = "fgets_over (fst input) buf"
  have "fine (xboard_line (snd input) ?line g)"
    using Cons.prems by (intro xboard_line_fine) auto
  then show ?case
    using Cons.IH [of _ ?line] Cons.prems(1)
    by (cases "xboard_line (snd input) ?line g") (auto simp: Let_def then_do_def)
qed

text \<open>A library that hands over the results in reverse order.\<close>

definition demo_world :: world where
  "demo_world = \<lparr>spawned = True, arrives = (\<lambda>n. rev [0..<n]), response = []\<rparr>"

lemma demo_delivers: "delivers_all demo_world"
  by (simp add: delivers_all_def demo_world_def)

theorem session_safe_witness:
  "case session [(ln ''e2e4'', demo_world), (ln ''go'', demo_world)] [] game_start of
      Ends e g' \<Rightarrow> e \<noteq> King_taken 0 \<and> e \<noteq> King_taken 1
    | History_overrun g' \<Rightarrow> total_moves g' = 4096
    | _ \<Rightarrow> False"
  by (rule session_safe) (simp_all add: demo_delivers game_start_ok)

text \<open>
  C40. The search spread over the workers is the sequential one: in whatever order the results arrive, the
  engine plays a legal move whose value is that of the position searched to the full depth, the largest
  over all its legal moves.
\<close>

theorem distributed_search_exact:
  assumes "position (g_board g) (engine_side g)" and "delivers_all w" and "spawned w"
    and "generate_moves (g_board g) (engine_side g) = Some ms" and "ms \<noteq> []"
  shows "\<exists>m. m \<in> legal (g_board g) (engine_side g) \<and>
    engine_choice w g ms = Some (negamax (g_board g) DEPTH (engine_side g), m) \<and>
    - negamax (play (g_board g) m) (DEPTH - 1) (1 - engine_side g) = negamax (g_board g) DEPTH (engine_side g) \<and>
    do_mpi_move w g = then_do (apply_move m g) (\<lambda>g1. Plays (announce w m g1))"
proof -
  obtain ms' where ms': "moves_256 (g_board g) (engine_side g) = Some ms'" "set ms' = legal (g_board g) (engine_side g)"
    using moves_legal [OF assms(1)] by blast
  then have "ms' = ms"
    using assms(4) by (simp add: moves_256_def split: if_splits)
  with engine_choice_exact [OF assms(1,2), of ms] ms' assms(3,5) show ?thesis
    by (cases ms) (auto simp: do_mpi_move_def)
qed

theorem distributed_search_exact_witness:
  "\<exists>ms m. m \<in> legal INITIAL_BOARD 0 \<and>
    engine_choice demo_world (game_start\<lparr>engine_side := 0\<rparr>) ms = Some (negamax INITIAL_BOARD DEPTH 0, m)"
proof -
  obtain ms where ms: "generate_moves INITIAL_BOARD 0 = Some ms" "set ms = legal INITIAL_BOARD 0"
    using generate_exact [OF positionD(1,4,2) [OF initial_position]] set_legal by blast
  have "ms \<noteq> []" using ms(2) first_move_legal by auto
  with distributed_search_exact [of "game_start\<lparr>engine_side := 0\<rparr>" demo_world ms] ms(1) initial_position demo_delivers
  show ?thesis by (auto simp: game_start_def demo_world_def)
qed

section \<open>What the lines say\<close>

text \<open>The move told to XBoard is read back as that move.\<close>

lemma schar_small: "n < 128 \<Longrightarrow> schar (char_of n) = int n"
proof -
  assume "n < 128"
  then have "of_char (char_of n :: char) = n"
    by (simp add: of_char_of)
  moreover have "(of_char (char_of n :: char) :: int) = int (of_char (char_of n :: char))"
    by (simp only: of_nat_of_char)
  ultimately have "(of_char (char_of n :: char) :: int) = int n"
    by simp
  with \<open>n < 128\<close> show ?thesis by (simp add: schar_def)
qed

lemma move_line_roundtrip:
  assumes "f \<in> squares" "t \<in> squares"
  shows "human_move (square_name f @ square_name t @ rest) = (f, t)"
  using square_bounds [OF assms(1)] square_bounds [OF assms(2)]
  by (simp add: human_move_def square_name_def schar_small nth_append)

text \<open>
  A stalemate is worth 0 to the search of the workers, a draw, and is declared lost by the master:
  the black king on h8 is not attacked and cannot move.
\<close>

definition stalemate :: board where
  "stalemate = (((replicate 64 BLANK)[63 := CHR ''k''])[46 := CHR ''Q''])[53 := CHR ''K'']"

lemma stalemate_lost:
  "is_in_check stalemate 1 = Some False" "minimax stalemate 5 1 = Some 0"
  "do_mpi_move w (game_start\<lparr>g_board := stalemate\<rparr>) =
    Ends Resigned (print (ln ''1-0 {Resign}'') (game_start\<lparr>g_board := stalemate\<rparr>))"
proof -
  have king: "filter (\<lambda>i. get_color (stalemate ! i) = 1 \<and> i \<noteq> 63) [0..<64] = []" by code_simp
  have stuck: "filter (\<lambda>i. move_ok stalemate 1 (63, int i) \<noteq> Some False) [0..<64] = []" by code_simp
  have "move_ok stalemate 1 m = Some False" if "m \<in> set all_moves" for m
  proof -
    obtain f t where m: "m = (int f, int t)" "f < 64" "t < 64"
      using \<open>m \<in> set all_moves\<close> unfolding set_all_moves by (auto dest!: square_int)
    show ?thesis
    proof (cases "f = 63")
      case True
      with m stuck show ?thesis by (auto simp: filter_empty_conv)
    next
      case False
      with m king have "get_color (stalemate ! f) \<noteq> 1" by (auto simp: filter_empty_conv)
      with m show ?thesis by (simp add: move_ok_def)
    qed
  qed
  then have "generate_moves stalemate 1 = Some (filter (\<lambda>m. False) all_moves)"
    unfolding generate_moves_def by (rule collect_moves_exact)
  then have m: "moves_256 stalemate 1 = Some []" by (simp add: moves_256_def)
  show c: "is_in_check stalemate 1 = Some False" by code_simp
  show "minimax stalemate 5 1 = Some 0"
    using m c by (simp add: numeral_eq_Suc)
  show "do_mpi_move w (game_start\<lparr>g_board := stalemate\<rparr>) =
      Ends Resigned (print (ln ''1-0 {Resign}'') (game_start\<lparr>g_board := stalemate\<rparr>))"
    using m by (simp add: do_mpi_move_def game_start_def)
qed

text \<open>The line break that ends the move cuts the request line short of its version.\<close>

lemma request_cut:
  "takeWhile (\<lambda>c. c \<noteq> CHR 0x0A) (http_request (ln ''e2-e4'')) = ''GET /postmove?move=e2-e4''"
  by (simp add: http_request_def ln_def)

section \<open>The socket calls\<close>

text \<open>
  The loops that send the request and read the answer, as the offsets and lengths they pass to the
  system, which returns \<open>rets\<close>: \<open>-1\<close> is an error, 0 the end.
\<close>

primrec transfer :: "int list \<Rightarrow> int \<Rightarrow> int \<Rightarrow> (int \<times> int) list" where
  "transfer [] len n = []"
| "transfer (bytes # rets) len n =
     (n, len - n) #
       (if bytes = 0 then []
        else if n + bytes < len then transfer rets len (n + bytes) else [])"

text \<open>The system returns no more than it was asked for.\<close>

primrec obeys :: "int list \<Rightarrow> int \<Rightarrow> int \<Rightarrow> bool" where
  "obeys [] len n = True"
| "obeys (bytes # rets) len n = (0 \<le> bytes \<and> bytes \<le> len - n \<and> obeys rets len (n + bytes))"

lemma transfer_within:
  "obeys rets len n \<Longrightarrow> 0 \<le> n \<Longrightarrow> (o', l) \<in> set (transfer rets len n) \<Longrightarrow> 0 \<le> o' \<and> o' + l = len"
  by (induction rets arbitrary: n) (auto split: if_splits)

text \<open>After an error the next call starts before the buffer.\<close>

lemma transfer_error: "0 < len \<Longrightarrow> transfer [-1, bytes] len 0 = [(0, len), (-1, len + 1)]"
  by simp

end
