(* ===== verification/Spec2Isabelle.thy ===== *)
theory Spec2Isabelle
  imports Mx_Native Mx_Sched Mx_Mount Mx_Shell Mx_Fake Mx_Monitor Mx_Discd Mx_Journey Mx_Chess_Game
begin

text \<open>
  MattX, a Linux kernel module that joins machines to a single-system-image cluster: processes
  move between nodes while their home node keeps a deputy, and open files, shared memory and
  system calls reach back over TCP links between the nodes. This development models the
  module's protocol logic and proves the properties it relies on. Paths are relative to
  \<^verbatim>\<open>src/\<close>.

  \<^bold>\<open>The parts and their theories.\<close>

  \<^item> \<open>Mx_Prelude\<close>: first-index scans, the array registry with swap-with-last removal and the
    slot table as locales, little-endian words.
  \<^item> \<open>Mx_Msg\<close>, \<open>Mx_Comm\<close>: the message types and header of \<^verbatim>\<open>mattx.h\<close>; sending, exact
    receiving, the receiver loop, and the dispatch table of \<^verbatim>\<open>mattx_comm.c\<close> with the
    registrations of all components. A TCP stream is a list of bytes, and the kernel's choice
    of how much each socket call moves is an argument. Shown: what is sent is what is
    dispatched; which handler each type has.
  \<^item> \<open>Mx_Links\<close>: the table of connections, its joins, leaves, heartbeats and teardown
    (\<^verbatim>\<open>mattx_comm.c\<close>, \<^verbatim>\<open>mattx_main.c\<close>, \<^verbatim>\<open>mattx_sched.c\<close>). Link structures have
    addresses, so leaks and double frees can be stated; none occur.
  \<^item> \<open>Mx_Guest\<close>: the registries of guests and of exported processes and the clock
    corrections of \<^verbatim>\<open>mattx_guest.c\<close>. Both registries interpret the registry locale of the
    prelude; the export registry refines a finite map.
  \<^item> \<open>Mx_Rpc\<close>: the table of pending remote calls of \<^verbatim>\<open>mattx_fileio.c\<close> and the reply
    handlers; it interprets the slot table. Shown: replies and requests are matched, whatever
    happens in between.
  \<^item> \<open>Mx_Vfs\<close>: the remote file calls and their serving handlers with the table of open
    files, another slot table. Shown: no file is leaked or dropped twice, a read returns what
    the other node read, listings come in complete batches, and who is answered.
  \<^item> \<open>Mx_Dsm\<close>, \<open>Mx_Mesi\<close>: the shared-memory protocol: faults, acquires, invalidations,
    flushes and updates with the page directory of the home node (\<^verbatim>\<open>mattx_fileio.c\<close>,
    hooks in \<^verbatim>\<open>mattx_hooks.c\<close>), then the cluster that runs it. Shown: a read and a first
    write in a coherent cluster complete, deliver or install the current contents and keep
    coherence, when one transaction runs at a time; and two ways in which coherence is lost
    otherwise.
  \<^item> \<open>Mx_Native\<close>: processes of the home node that use a shared segment (\<^verbatim>\<open>mattx_hooks.c\<close>,
    \<^verbatim>\<open>mattx_fileio.c\<close>): the hook that aborts and freezes, the worker that fetches or revokes, and the
    retried access; and the mode that maps a page for one instruction. Shown: a native access keeps
    coherence and is intercepted at most once; a stepped write reaches the home node; when an owner
    cannot be reached, a reader retries for ever and a writer overrules it.
  \<^item> \<open>Mx_Sched\<close>: the load balancer and the watchers of \<^verbatim>\<open>mattx_sched.c\<close>. Shown: a
    dispatched migration meets every condition; the cooldown holds across a wrap of the tick
    counter; the watchers terminate and bury exactly the dead.
  \<^item> \<open>Mx_Fs\<close>: the file system of \<^verbatim>\<open>mattxfs/mattxfs.c\<close>. Shown: path translation and its
    buffer bound; listings resume where they stopped. \<open>Mx_Mount\<close>: its operation tables, mounting, and the
    kernel's walk along them. Shown: opening a path below the mount point is one remote open of it.
  \<^item> \<open>Mx_Migr\<close>: the source side of a migration (\<^verbatim>\<open>mattx_migr.c\<close>): the gang of threads is
    collected and frozen, a blueprint is filled and sent, the memory is pumped on request, and
    recall and expulsion. Kernel objects (tasks, areas, page contents, allocation) are
    arguments; signals, thaws, messages and dropped references are effects. Shown: the gang
    loop ends with every thread seen, the outcomes of both captures on all paths, the bounds of
    the blueprint, the pump sends all memory once, an expulsion returns.
  \<^item> \<open>Mx_Import\<close>: the target side (\<^verbatim>\<open>mattx_import.c\<close> and the stub commands of
    \<^verbatim>\<open>mattx_main.c\<close>): accepting a blueprint, injecting pages past write protection, the
    transplant of the threads and the registration of the guest; on a return, growing the gang,
    carving missing areas, patching thread ids and reviving the deputy. An address space is
    its areas with their protections and a byte map. Shown: both directions carry memory,
    processor state and descriptors over unchanged, composed with the source side.

  \<^item> \<open>Mx_Call\<close>, \<open>Mx_Deputy\<close>, \<open>Mx_Shell\<close>: the home side of system-call forwarding
    (\<^verbatim>\<open>mattx_fileio.c\<close>). \<open>Mx_Call\<close> has the requests and replies; \<open>Mx_Deputy\<close> the
    workers that act on the files of a frozen deputy, found in its descriptor table or in the
    export registry; \<open>Mx_Shell\<close> the calls made in the deputy's name, either by a worker that
    wears its identity or by the deputy itself, woken for the purpose. Shown: file references
    balance over any session, descriptor tables stay well formed, every finished call has sent
    the one right answer, the worn identity and the planted descriptor are taken off again, and
    a woken deputy answers and freezes.
  \<^item> \<open>Mx_Fake\<close>: the guest side (\<^verbatim>\<open>mattx_fileio.c\<close>): the reply handlers with their
    dispatch, and the operations of the fake files that stand for descriptors of the home node.
    Shown, across both sides: a read through a fake file is the read at home, whatever replies
    for other guests come in between.
  \<^item> \<open>Mx_Worker\<close>, \<open>Mx_Awake\<close>: the worker behind every intercepted call of a guest
    (\<^verbatim>\<open>mattx_hooks.c\<close>, \<^verbatim>\<open>mattx_rpc_worker\<close>). \<open>Mx_Worker\<close> has the request for each kind of call, the
    waiting for reply and caller, and for each kind the hand-over of the result to the caller's memory, descriptor table
    and result register; \<open>Mx_Awake\<close> what it achieves. Shown: it ends, thaws its own caller at most
    once, and frees the buffers it takes from the registry.
  \<^item> \<open>Mx_Probe\<close>, \<open>Mx_Hooks\<close>: the entry and return handlers of the hooks (\<^verbatim>\<open>mattx_hooks.c\<close>). Shown: a caller is
    stopped only together with its own work item, and is thawed again when the reply has come; an intercepted read, from its
    entry handler over worker, home node and reply to its result, is the read at home; thread numbers that a guest gets
    lead back to its threads; sleeps until an absolute time are shifted by the clock offset.
  \<^item> \<open>Mx_Admin\<close>: settings, commands and status files (\<^verbatim>\<open>mattx_proc.c\<close>, netlink settings of
    \<^verbatim>\<open>mattx_main.c\<close>), the registration of the probes (\<^verbatim>\<open>mattx_hooks.c\<close>), the search for hidden kernel
    symbols (\<^verbatim>\<open>mattx_migr.c\<close>), loading and unloading. Shown: a
    command does what it is specified to mean; unloading gives everything back. \<open>Mx_Monitor\<close>: the page monitor among the files.
  \<^item> \<open>Mx_Discd\<close>: the discovery daemon (\<^verbatim>\<open>sbin/mattx_discd.c\<close>): its configuration file, beacons and joins.
    Shown: a configuration is read back as written and reaches the module; each node is joined once.
  \<^item> \<open>Mx_Stub\<close>: the program in which a guest is built (\<^verbatim>\<open>bin/mattx_stub.c\<close>), as the calls it makes and
    what they do to it. Shown: it becomes the target that the transplantation of \<open>Mx_Import\<close> asks for.
  \<^item> \<open>Mx_Journey\<close>: a process away and back, through the theories of migration, and the callbacks that
    run inside a returning deputy (\<^verbatim>\<open>mattx_import.c\<close>). Shown: what went away comes back unchanged; missing
    threads are made and frozen at birth.
  \<^item> \<open>Mx_Chess\<close>, \<open>Mx_Chess_Game\<close>: the demonstration program that spreads a search over processes for the
    cluster to move about (\<^verbatim>\<open>tools/mpichess\<close>): the rules with the search of a worker, and the master with its
    game and its workers. Shown: the generated moves are those of reference rules by directions and distances
    and fit their array; the spread search is the sequential one in whatever order the results arrive; a game
    stays within its bounds until its history is full.

  \<^bold>\<open>Conventions.\<close> Machine integers whose wrap matters are words (pids, node numbers, request
  ids, loads, ticks); counts and offsets that the code bounds are naturals or integers. Arrays
  are functions with a count. What the kernel decides (allocation, copied byte counts, file
  contents, task liveness, time) is an argument of the operation. Effects the state does not
  hold (messages, freed memory, signals) are returned as lists in program order. A worker that
  sleeps is split where it sleeps, so any interleaving of other work can happen in between.
  Locks are implicit: the code between a lock and its unlock is one operation.

  \<^bold>\<open>Bounds.\<close> All bounds are the code's own (64 request slots, 1024 table entries, 20
  entries per listing, 16 threads in a gang, 200 passes of the gang loop, and so on). Loops are
  structural recursions or have termination proofs (the watchers by the number of registered
  processes). A loop that waits for the outside world (an expulsion, a poll, a connect) gets the
  list of what its rounds see and answers \<open>None\<close> when the list ends first; timeouts count
  ticks. No fuel is used elsewhere.

  \<^bold>\<open>Not modelled.\<close> Log lines and time stamps; socket set-up in the daemon; the contents of page
  tables and locks of the kernel, of which only the effects that the code relies on appear; the
  vDSO transplant, which the source compiles out; the other demonstrations, test programs, scripts and
  web pages, which are no part of the cluster software; the chess program on PVM, which repeats the one on
  MPI over another library. The walk of the kernel through the operation tables in
  \<open>Mx_Mount\<close> and the retried fault in \<open>Mx_Native\<close> stand for documented behaviour of the kernel.
\<close>

end
